(* ===== verification/Prelude.thy ===== *)
theory Prelude
  imports Main "HOL-Library.Multiset"
begin

text \<open>
  The vocabulary every component theory shares: the pieces of the TypeScript language and of its
  standard library that the source uses. Strings are lists of characters, numbers that the source
  only ever uses as integers are \<^typ>\<open>nat\<close> or \<^typ>\<open>int\<close>, an ISO instant is the millisecond count
  \<^verbatim>\<open>Date.parse\<close> gives for it (or an instant it cannot read), a \<^verbatim>\<open>Map\<close> is its list of entries in
  insertion order, a \<^verbatim>\<open>Set\<close> the list of its members in insertion order, and
  \<^verbatim>\<open>Array.prototype.sort\<close> is the stable sort the language specifies. Two interfaces are stated as
  locales and interpreted here: an insertion-ordered map and a consistent comparator.
\<close>

named_theorems js_map_simps "facts about insertion-ordered maps and sets"
named_theorems js_string_simps "facts about the string functions"

section \<open>Options\<close>

text \<open>\<^verbatim>\<open>a ?? b\<close> on nullable values: the first that is present.\<close>

fun or_else :: "'a option \<Rightarrow> 'a option \<Rightarrow> 'a option" where
  "or_else (Some a) _ = Some a"
| "or_else None b = b"

fun default_to :: "'a \<Rightarrow> 'a option \<Rightarrow> 'a" where
  "default_to d None = d"
| "default_to d (Some x) = x"

lemma or_else_None_iff [simp]: "or_else a b = None \<longleftrightarrow> a = None \<and> b = None"
  by (cases a) auto

lemma or_else_Some_iff: "or_else a b = Some x \<longleftrightarrow> a = Some x \<or> (a = None \<and> b = Some x)"
  by (cases a) auto

lemma find_Some_iff':
  "find p xs = Some x \<Longrightarrow> x \<in> set xs \<and> p x"
  by (induction xs) (auto split: if_splits)

lemma find_cong_set: "(\<And>x. x \<in> set xs \<Longrightarrow> p x = q x) \<Longrightarrow> find p xs = find q xs"
  by (induction xs) auto

lemma find_None_iff': "find p xs = None \<longleftrightarrow> (\<forall>x \<in> set xs. \<not> p x)"
  by (induction xs) auto

lemma find_not_None_iff: "find p xs \<noteq> None \<longleftrightarrow> (\<exists>x \<in> set xs. p x)"
  by (induction xs) auto

section \<open>Instants\<close>

text \<open>
  An ISO-8601 string, seen through \<^verbatim>\<open>Date.parse\<close>: the milliseconds it stands for, or a text the
  parser answers \<^verbatim>\<open>NaN\<close> for.
\<close>

datatype instant = Instant int | Garbled

fun date_parse :: "instant \<Rightarrow> int option" where
  "date_parse (Instant t) = Some t"
| "date_parse Garbled = None"

section \<open>Insertion-ordered maps\<close>

text \<open>
  The contract of a \<^verbatim>\<open>Map\<close>: \<open>put\<close> overwrites in place or appends, \<open>keys\<close> are distinct and in
  the order of their first insertion.
\<close>

definition uniq :: "'a list \<Rightarrow> 'a list" where
  "uniq xs = rev (remdups (rev xs))"

lemma uniq_Nil [simp]: "uniq [] = []"
  by (simp add: uniq_def)

lemma uniq_snoc [simp]: "uniq (xs @ [x]) = (if x \<in> set xs then uniq xs else uniq xs @ [x])"
  by (simp add: uniq_def)

lemma set_uniq [simp]: "set (uniq xs) = set xs"
  by (simp add: uniq_def)

lemma distinct_uniq [simp]: "distinct (uniq xs)"
  by (simp add: uniq_def)

lemma uniq_distinct: "distinct xs \<Longrightarrow> uniq xs = xs"
  by (simp add: uniq_def distinct_remdups_id)

locale ordered_map =
  fixes emp :: "'m"
    and put :: "'k \<Rightarrow> 'v \<Rightarrow> 'm \<Rightarrow> 'm"
    and get :: "'m \<Rightarrow> 'k \<Rightarrow> 'v option"
    and keys :: "'m \<Rightarrow> 'k list"
  assumes get_emp: "get emp k = None"
    and get_put: "get (put k v m) j = (if j = k then Some v else get m j)"
    and keys_emp: "keys emp = []"
    and keys_put: "keys (put k v m) = (if k \<in> set (keys m) then keys m else keys m @ [k])"
begin

lemma get_fold_put: "get (foldl (\<lambda>m (k, v). put k v m) m0 kvs) k =
    (case map_of (rev kvs) k of Some v \<Rightarrow> Some v | None \<Rightarrow> get m0 k)"
  by (induction kvs rule: rev_induct) (auto simp: get_put split: option.splits)

lemma get_of_list: "get (foldl (\<lambda>m (k, v). put k v m) emp kvs) k = map_of (rev kvs) k"
  by (simp add: get_fold_put get_emp split: option.splits)

lemma keys_of_list: "keys (foldl (\<lambda>m (k, v). put k v m) emp kvs) = uniq (map fst kvs)"
  by (induction kvs rule: rev_induct) (auto simp: keys_emp keys_put split: prod.splits)

lemma put_put_other: "j \<noteq> k \<Longrightarrow> get (put k v m) j = get m j"
  by (simp add: get_put)

end

type_synonym ('k, 'v) jsmap = "('k \<times> 'v) list"

fun map_put :: "'k \<Rightarrow> 'v \<Rightarrow> ('k, 'v) jsmap \<Rightarrow> ('k, 'v) jsmap" where
  "map_put k v [] = [(k, v)]"
| "map_put k v ((j, w) # m) = (if j = k then (k, v) # m else (j, w) # map_put k v m)"

definition map_from :: "('k \<times> 'v) list \<Rightarrow> ('k, 'v) jsmap" where
  "map_from kvs = foldl (\<lambda>m (k, v). map_put k v m) [] kvs"

lemma map_of_map_put [js_map_simps]: "map_of (map_put k v m) j = (if j = k then Some v else map_of m j)"
  by (induction k v m rule: map_put.induct) auto

lemma keys_map_put [js_map_simps]:
  "map fst (map_put k v m) = (if k \<in> set (map fst m) then map fst m else map fst m @ [k])"
  by (induction k v m rule: map_put.induct) auto

interpretation jsm: ordered_map "[]" map_put map_of "map fst"
  by unfold_locales (auto simp: js_map_simps)

lemma map_from_lookup [js_map_simps]: "map_of (map_from kvs) k = map_of (rev kvs) k"
  by (simp add: map_from_def jsm.get_of_list)

lemma map_from_keys [js_map_simps]: "map fst (map_from kvs) = uniq (map fst kvs)"
  by (simp add: map_from_def jsm.keys_of_list)

lemma map_from_snoc: "map_from (kvs @ [(k, v)]) = map_put k v (map_from kvs)"
  by (simp add: map_from_def)

lemma distinct_map_put: "distinct (map fst m) \<Longrightarrow> distinct (map fst (map_put k v m))"
  by (auto simp: keys_map_put)

lemma find_snoc: "find p (ys @ [a]) = (case find p ys of None \<Rightarrow> (if p a then Some a else None) | Some y \<Rightarrow> Some y)"
  by (induction ys) auto

lemma map_of_map_key: "map_of (map (\<lambda>x. (f x, x)) xs) k = find (\<lambda>x. f x = k) xs"
  by (induction xs) auto

lemma map_of_rev_map_key:
  "map_of (rev (map (\<lambda>x. (f x, x)) xs)) k = find (\<lambda>x. f x = k) (rev xs)"
  by (simp add: rev_map map_of_map_key)

lemma find_distinct_rev:
  "distinct (map f xs) \<Longrightarrow> find (\<lambda>x. f x = k) (rev xs) = find (\<lambda>x. f x = k) xs"
proof (induction xs)
  case (Cons a xs)
  show ?case
  proof (cases "f a = k")
    case True
    with Cons.prems have "find (\<lambda>x. f x = k) xs = None"
      by (force simp: find_None_iff' image_iff)
    with Cons True show ?thesis by (simp add: find_snoc)
  next
    case False
    with Cons show ?thesis by (simp add: find_snoc split: option.splits)
  qed
qed simp

text \<open>\<^verbatim>\<open>new Map(xs.map((x) => [key(x), x]))\<close>: an index of rows by key, the last row of a key winning.\<close>

definition index_by :: "('a \<Rightarrow> 'k) \<Rightarrow> 'a list \<Rightarrow> ('k, 'a) jsmap" where
  "index_by key xs = map_from (map (\<lambda>x. (key x, x)) xs)"

lemma index_by_lookup: "map_of (index_by key xs) k = find (\<lambda>x. key x = k) (rev xs)"
  by (simp add: index_by_def map_from_lookup map_of_rev_map_key)

lemma index_by_lookup_distinct:
  "distinct (map key xs) \<Longrightarrow> map_of (index_by key xs) k = find (\<lambda>x. key x = k) xs"
  by (simp add: index_by_lookup find_distinct_rev)

lemma index_by_Some: "map_of (index_by key xs) k = Some x \<Longrightarrow> x \<in> set xs \<and> key x = k"
  using find_Some_iff' [of "\<lambda>x. key x = k" "rev xs" x] by (auto simp: index_by_lookup)

lemma index_by_None: "map_of (index_by key xs) k = None \<longleftrightarrow> k \<notin> key ` set xs"
  by (auto simp: index_by_lookup find_None_iff')

lemma index_by_member:
  assumes "distinct (map key xs)" and "x \<in> set xs"
  shows "map_of (index_by key xs) (key x) = Some x"
proof -
  have "find (\<lambda>y. key y = key x) xs = Some x"
    using assms by (induction xs) (auto simp: rev_image_eqI)
  then show ?thesis by (simp add: index_by_lookup_distinct [OF assms(1)])
qed

lemma index_by_keys: "map fst (index_by key xs) = uniq (map key xs)"
  by (simp add: index_by_def map_from_keys o_def)

text \<open>\<^verbatim>\<open>m.set(k, [...(m.get(k) ?? []), v])\<close>: a map of lists, grown one value at a time.\<close>

definition map_push :: "'k \<Rightarrow> 'v \<Rightarrow> ('k, 'v list) jsmap \<Rightarrow> ('k, 'v list) jsmap" where
  "map_push k v m = map_put k (default_to [] (map_of m k) @ [v]) m"

definition group_pairs :: "('k \<times> 'v) list \<Rightarrow> ('k, 'v list) jsmap" where
  "group_pairs kvs = foldl (\<lambda>m (k, v). map_push k v m) [] kvs"

lemma group_pairs_snoc: "group_pairs (kvs @ [(k, v)]) = map_push k v (group_pairs kvs)"
  by (simp add: group_pairs_def)

lemma group_lookup [js_map_simps]:
  "default_to [] (map_of (group_pairs kvs) k) = map snd (filter (\<lambda>e. fst e = k) kvs)"
proof (induction kvs rule: rev_induct)
  case (snoc e kvs)
  then show ?case by (cases e) (auto simp: group_pairs_snoc map_push_def map_of_map_put)
qed (simp add: group_pairs_def)

lemma group_keys [js_map_simps]: "map fst (group_pairs kvs) = uniq (map fst kvs)"
proof (induction kvs rule: rev_induct)
  case (snoc e kvs)
  have "set (map fst (group_pairs kvs)) = set (map fst kvs)" by (simp only: snoc set_uniq)
  with snoc show ?case by (cases e) (simp add: group_pairs_snoc map_push_def keys_map_put)
qed (simp add: group_pairs_def)

definition set_add :: "'a \<Rightarrow> 'a list \<Rightarrow> 'a list" where
  "set_add x s = (if x \<in> set s then s else s @ [x])"

lemma set_set_add [simp]: "set (set_add x s) = insert x (set s)"
  by (auto simp: set_add_def)

lemma distinct_set_add [simp]: "distinct s \<Longrightarrow> distinct (set_add x s)"
  by (simp add: set_add_def)

section \<open>Tables\<close>

text \<open>\<^verbatim>\<open>UPDATE t SET ... WHERE p\<close> on a table held as the list of its rows.\<close>

definition update_where :: "('a \<Rightarrow> bool) \<Rightarrow> ('a \<Rightarrow> 'a) \<Rightarrow> 'a list \<Rightarrow> 'a list" where
  "update_where p f rows = map (\<lambda>r. if p r then f r else r) rows"

lemma length_update_where [simp]: "length (update_where p f rows) = length rows"
  by (simp add: update_where_def)

lemma in_update_where:
  "x \<in> set (update_where p f rows) \<longleftrightarrow> (\<exists>r \<in> set rows. x = (if p r then f r else r))"
  by (auto simp: update_where_def)

lemma update_where_keeps: "(\<And>r. p r \<Longrightarrow> k (f r) = k r) \<Longrightarrow> map k (update_where p f rows) = map k rows"
  by (simp add: update_where_def)

lemma update_where_None [simp]: "(\<And>r. r \<in> set rows \<Longrightarrow> \<not> p r) \<Longrightarrow> update_where p f rows = rows"
  by (induction rows) (auto simp: update_where_def)

lemma distinct_key_eq: "distinct (map k rows) \<Longrightarrow> x \<in> set rows \<Longrightarrow> y \<in> set rows \<Longrightarrow> k x = k y \<Longrightarrow> x = y"
  by (metis distinct_map inj_onD)

section \<open>Stable sorting\<close>

text \<open>
  \<^verbatim>\<open>xs.sort(cmp)\<close>: the language fixes the result for a consistent comparator, the stable
  arrangement in which no element compares greater than a later one.
\<close>

fun ins_by :: "('a \<Rightarrow> 'a \<Rightarrow> int) \<Rightarrow> 'a \<Rightarrow> 'a list \<Rightarrow> 'a list" where
  "ins_by cmp x [] = [x]"
| "ins_by cmp x (y # ys) = (if cmp x y \<le> 0 then x # y # ys else y # ins_by cmp x ys)"

fun js_sort :: "('a \<Rightarrow> 'a \<Rightarrow> int) \<Rightarrow> 'a list \<Rightarrow> 'a list" where
  "js_sort cmp [] = []"
| "js_sort cmp (x # xs) = ins_by cmp x (js_sort cmp xs)"

lemma mset_ins_by [simp]: "mset (ins_by cmp x xs) = add_mset x (mset xs)"
  by (induction cmp x xs rule: ins_by.induct) auto

lemma mset_js_sort [simp]: "mset (js_sort cmp xs) = mset xs"
  by (induction xs) auto

lemma set_js_sort [simp]: "set (js_sort cmp xs) = set xs"
  by (metis mset_js_sort set_mset_mset)

lemma length_js_sort [simp]: "length (js_sort cmp xs) = length xs"
  by (metis mset_js_sort size_mset)

lemma distinct_js_sort [simp]: "distinct (js_sort cmp xs) = distinct xs"
  by (metis mset_js_sort mset_eq_imp_distinct_iff)

lemma js_sort_Nil_iff [simp]: "js_sort cmp xs = [] \<longleftrightarrow> xs = []"
  by (metis length_0_conv length_js_sort)

locale comparator =
  fixes cmp :: "'a \<Rightarrow> 'a \<Rightarrow> int"
  assumes cmp_flip: "0 < cmp a b \<longleftrightarrow> cmp b a < 0"
    and cmp_trans: "cmp a b \<le> 0 \<Longrightarrow> cmp b c \<le> 0 \<Longrightarrow> cmp a c \<le> 0"
begin

lemma cmp_total: "cmp a b \<le> 0 \<or> cmp b a \<le> 0"
  using cmp_flip [of a b] by linarith

lemma cmp_refl: "cmp a a = 0"
  using cmp_flip [of a a] by linarith

lemma sorted_ins_by:
  "sorted_wrt (\<lambda>a b. cmp a b \<le> 0) xs \<Longrightarrow> sorted_wrt (\<lambda>a b. cmp a b \<le> 0) (ins_by cmp x xs)"
proof (induction xs)
  case (Cons y ys)
  have "set (ins_by cmp x ys) = insert x (set ys)"
    using mset_ins_by [of cmp x ys] by (metis set_mset_add_mset_insert set_mset_mset)
  with Cons show ?case
    using cmp_total [of x y] by (auto intro: cmp_trans)
qed simp

lemma sorted_js_sort: "sorted_wrt (\<lambda>a b. cmp a b \<le> 0) (js_sort cmp xs)"
  by (induction xs) (auto simp: sorted_ins_by)

lemma cmp_eq_sym: "cmp a b = 0 \<Longrightarrow> cmp b a = 0"
  using cmp_flip [of a b] cmp_flip [of b a] by linarith

lemma filter_ins_by:
  "filter (\<lambda>y. cmp k y = 0) (ins_by cmp x xs) =
   (if cmp k x = 0 then x # filter (\<lambda>y. cmp k y = 0) xs else filter (\<lambda>y. cmp k y = 0) xs)"
proof (induction xs)
  case (Cons y ys)
  have "cmp x y \<le> 0" if "cmp k x = 0" "cmp k y = 0"
    using cmp_trans [of x k y] cmp_eq_sym [OF that(1)] that(2) by simp
  with Cons show ?case by auto
qed simp

text \<open>Stability: elements that compare equal keep the order they came in.\<close>

lemma stable_js_sort: "filter (\<lambda>y. cmp k y = 0) (js_sort cmp xs) = filter (\<lambda>y. cmp k y = 0) xs"
  by (induction xs) (auto simp: filter_ins_by)

lemma hd_js_sort_least: "js_sort cmp xs = y # ys \<Longrightarrow> x \<in> set xs \<Longrightarrow> cmp y x \<le> 0"
  using sorted_js_sort [of xs] set_js_sort [of cmp xs] cmp_refl [of y]
  by (metis set_ConsD sorted_wrt.simps(2) order_refl)

lemma js_sort_before:
  assumes "js_sort cmp xs = us @ a # vs @ b # ws"
  shows "cmp a b \<le> 0"
  using sorted_js_sort [of xs] assms by (auto simp: sorted_wrt_append)

lemma js_sort_sorted_id: "sorted_wrt (\<lambda>a b. cmp a b \<le> 0) xs \<Longrightarrow> js_sort cmp xs = xs"
proof (induction xs)
  case (Cons x xs)
  then have "js_sort cmp xs = xs" by simp
  with Cons.prems show ?case by (cases xs) auto
qed simp

end

text \<open>\<^verbatim>\<open>f(a) - f(b)\<close>, and \<^verbatim>\<open>c1 || c2\<close>: the comparators the source writes are built of these.\<close>

definition by_key :: "('a \<Rightarrow> int) \<Rightarrow> 'a \<Rightarrow> 'a \<Rightarrow> int" where
  "by_key f a b = f a - f b"

definition cmp_or :: "('a \<Rightarrow> 'a \<Rightarrow> int) \<Rightarrow> ('a \<Rightarrow> 'a \<Rightarrow> int) \<Rightarrow> 'a \<Rightarrow> 'a \<Rightarrow> int" where
  "cmp_or c d a b = (if c a b \<noteq> 0 then c a b else d a b)"

interpretation key_cmp: comparator "by_key f"
  by unfold_locales (auto simp: by_key_def)

lemma comparator_by_key [intro, simp]: "comparator (by_key f)"
  by (rule key_cmp.comparator_axioms)

lemma comparator_or [intro]:
  assumes "comparator c" and "comparator d"
  shows "comparator (cmp_or c d)"
proof -
  note c = comparator.cmp_flip [OF assms(1)] comparator.cmp_trans [OF assms(1)]
  note d = comparator.cmp_flip [OF assms(2)] comparator.cmp_trans [OF assms(2)]
  show ?thesis
  proof
    show "0 < cmp_or c d a b \<longleftrightarrow> cmp_or c d b a < 0" for a b
      using c(1) [of a b] c(1) [of b a] d(1) [of a b] by (auto simp: cmp_or_def)
    fix a b e
    assume ab: "cmp_or c d a b \<le> 0" and be: "cmp_or c d b e \<le> 0"
    then have "c a b \<le> 0" "c b e \<le> 0" by (auto simp: cmp_or_def split: if_splits)
    then have ae: "c a e \<le> 0" by (rule c(2))
    show "cmp_or c d a e \<le> 0"
    proof (cases "c a e = 0")
      case True
      have ba: "c b a \<le> 0"
        using c(2) [OF \<open>c b e \<le> 0\<close>, of a] c(1) [of e a] c(1) [of a e] True by force
      have eb: "c e b \<le> 0"
        using c(2) [OF _ \<open>c a b \<le> 0\<close>, of e] c(1) [of e a] c(1) [of a e] True by force
      have "c a b = 0" "c b e = 0"
        using \<open>c a b \<le> 0\<close> \<open>c b e \<le> 0\<close> ba eb c(1) [of a b] c(1) [of b a] c(1) [of b e] c(1) [of e b]
        by linarith+
      with ab be d(2) [of a b e] True show ?thesis by (simp add: cmp_or_def)
    next
      case False
      with ae show ?thesis by (simp add: cmp_or_def)
    qed
  qed
qed

end
