(* ===== verification/Strings.thy ===== *)
theory Strings
  imports Prelude
begin

text \<open>
  The string functions the source uses, on lists of characters: decimal numerals as a template
  literal writes them and as \<^verbatim>\<open>Number\<close> reads them, \<^verbatim>\<open>startsWith\<close>, \<^verbatim>\<open>trim\<close>, \<^verbatim>\<open>split\<close> and \<^verbatim>\<open>join\<close>.
  A character stands for one code unit; numerals are unbounded, where a JavaScript number is exact
  up to \<open>2^53\<close>, far beyond any issue or pull request number.
\<close>

section \<open>Decimal numerals\<close>

definition is_digit :: "char \<Rightarrow> bool" where
  "is_digit c \<longleftrightarrow> 48 \<le> (of_char c :: nat) \<and> (of_char c :: nat) \<le> 57"

definition digit_char :: "nat \<Rightarrow> char" where
  "digit_char d = char_of (48 + d)"

definition digit_value :: "char \<Rightarrow> nat" where
  "digit_value c = of_char c - 48"

fun show_nat :: "nat \<Rightarrow> string" where
  "show_nat n = (if n < 10 then [digit_char n] else show_nat (n div 10) @ [digit_char (n mod 10)])"

declare show_nat.simps [simp del]

definition read_nat :: "string \<Rightarrow> nat" where
  "read_nat ds = foldl (\<lambda>a c. 10 * a + digit_value c) 0 ds"

text \<open>The regular expression \<^verbatim>\<open>^\d+$\<close>.\<close>

definition is_count :: "string \<Rightarrow> bool" where
  "is_count s \<longleftrightarrow> s \<noteq> [] \<and> (\<forall>c \<in> set s. is_digit c)"

lemma of_digit_char: "d < 10 \<Longrightarrow> (of_char (digit_char d) :: nat) = 48 + d"
  by (simp add: digit_char_def)

lemma is_digit_digit_char [simp]: "d < 10 \<Longrightarrow> is_digit (digit_char d)"
  by (simp add: is_digit_def of_digit_char)

lemma digit_value_digit_char [simp]: "d < 10 \<Longrightarrow> digit_value (digit_char d) = d"
  by (simp add: digit_value_def of_digit_char)

lemma show_nat_digits: "c \<in> set (show_nat n) \<Longrightarrow> is_digit c"
proof (induction n rule: show_nat.induct)
  case (1 n)
  then show ?case by (subst (asm) (2) show_nat.simps) (auto split: if_splits)
qed

lemma show_nat_nonempty [simp]: "show_nat n \<noteq> []"
  by (subst show_nat.simps) simp

lemma is_count_show_nat [simp]: "is_count (show_nat n)"
  by (auto simp: is_count_def show_nat_digits)

lemma read_show_nat [simp]: "read_nat (show_nat n) = n"
proof (induction n rule: show_nat.induct)
  case (1 n)
  show ?case
  proof (cases "n < 10")
    case True
    then show ?thesis by (subst show_nat.simps) (simp add: read_nat_def)
  next
    case False
    with 1 show ?thesis by (subst show_nat.simps) (simp add: read_nat_def)
  qed
qed

lemma show_nat_inj [simp]: "show_nat m = show_nat n \<longleftrightarrow> m = n"
  by (metis read_show_nat)

section \<open>Prefixes\<close>

fun starts_with :: "string \<Rightarrow> string \<Rightarrow> bool" where
  "starts_with [] s = True"
| "starts_with (c # p) [] = False"
| "starts_with (c # p) (d # s) = (c = d \<and> starts_with p s)"

lemma starts_with_iff: "starts_with p s \<longleftrightarrow> (\<exists>r. s = p @ r)"
  by (induction p s rule: starts_with.induct) auto

lemma starts_with_append [simp]: "starts_with p (p @ r)"
  by (auto simp: starts_with_iff)

lemma starts_with_drop: "starts_with p s \<Longrightarrow> s = p @ drop (length p) s"
  by (auto simp: starts_with_iff)

text \<open>
  The maximal run of digits at the front of a string: what a greedy \<^verbatim>\<open>(\d+)\<close> captures.
\<close>

definition digits_of :: "string \<Rightarrow> string" where
  "digits_of s = takeWhile is_digit s"

definition after_digits :: "string \<Rightarrow> string" where
  "after_digits s = dropWhile is_digit s"

lemma digits_split: "digits_of s @ after_digits s = s"
  by (simp add: digits_of_def after_digits_def)

lemma digits_of_show: "r = [] \<or> \<not> is_digit (hd r) \<Longrightarrow> digits_of (show_nat n @ r) = show_nat n"
  by (cases r) (auto simp: digits_of_def takeWhile_append2 show_nat_digits)

lemma after_digits_show: "r = [] \<or> \<not> is_digit (hd r) \<Longrightarrow> after_digits (show_nat n @ r) = r"
  by (cases r) (auto simp: after_digits_def dropWhile_append2 show_nat_digits)

section \<open>Whitespace, splitting and joining\<close>

definition is_space :: "char \<Rightarrow> bool" where
  "is_space c \<longleftrightarrow> c = CHR '' '' \<or> (9 \<le> (of_char c :: nat) \<and> (of_char c :: nat) \<le> 13)"

definition trim :: "string \<Rightarrow> string" where
  "trim s = rev (dropWhile is_space (rev (dropWhile is_space s)))"

lemma trim_Nil [simp]: "trim [] = []"
  by (simp add: trim_def)

lemma trim_eq_Nil_iff: "trim s = [] \<longleftrightarrow> (\<forall>c \<in> set s. is_space c)"
  by (auto simp: trim_def dropWhile_eq_Nil_conv dest: set_dropWhileD)
     (metis dropWhile_eq_Nil_conv hd_dropWhile hd_in_set)

text \<open>\<^verbatim>\<open>s.split(c)\<close> for a one-character separator: always at least one piece.\<close>

fun split_on :: "char \<Rightarrow> string \<Rightarrow> string list" where
  "split_on c [] = [[]]"
| "split_on c (x # xs) =
     (if x = c then [] # split_on c xs
      else case split_on c xs of [] \<Rightarrow> [[x]] | w # ws \<Rightarrow> (x # w) # ws)"

fun join_with :: "string \<Rightarrow> string list \<Rightarrow> string" where
  "join_with sep [] = []"
| "join_with sep [w] = w"
| "join_with sep (w # ws) = w @ sep @ join_with sep ws"

lemma split_on_nonempty [simp]: "split_on c s \<noteq> []"
  by (induction s) (auto split: list.splits)

lemma join_Cons: "ws \<noteq> [] \<Longrightarrow> join_with sep (w # ws) = w @ sep @ join_with sep ws"
  by (cases ws) auto

lemma join_split [simp]: "join_with [c] (split_on c s) = s"
proof (induction s)
  case (Cons x xs)
  obtain w ws where w: "split_on c xs = w # ws" by (metis list.exhaust split_on_nonempty)
  with Cons show ?case by (cases ws) (auto simp: join_Cons)
qed simp

lemma split_no_sep: "w \<in> set (split_on c s) \<Longrightarrow> c \<notin> set w"
  by (induction s arbitrary: w) (auto split: list.splits if_splits)

lemma split_plain: "c \<notin> set s \<Longrightarrow> split_on c s = [s]"
  by (induction s) auto

lemma split_append: "c \<notin> set w \<Longrightarrow> split_on c (w @ c # s) = w # split_on c s"
  by (induction w) auto

text \<open>\<^verbatim>\<open>expr.trim().split(/\s+/).filter(Boolean)\<close>: the non-empty runs of non-blank characters.\<close>

fun words_acc :: "string \<Rightarrow> string \<Rightarrow> string list" where
  "words_acc acc [] = (if acc = [] then [] else [rev acc])"
| "words_acc acc (c # s) =
     (if is_space c then (if acc = [] then words_acc [] s else rev acc # words_acc [] s)
      else words_acc (c # acc) s)"

definition words_of :: "string \<Rightarrow> string list" where
  "words_of s = words_acc [] s"

lemma words_acc_plain:
  "\<forall>c \<in> set w. \<not> is_space c \<Longrightarrow> words_acc acc (w @ CHR '' '' # s) =
     (if acc = [] \<and> w = [] then words_acc [] s else (rev acc @ w) # words_acc [] s)"
  by (induction w arbitrary: acc) (auto simp: is_space_def)

lemma words_acc_last:
  "\<forall>c \<in> set w. \<not> is_space c \<Longrightarrow> words_acc acc w = (if acc = [] \<and> w = [] then [] else [rev acc @ w])"
  by (induction w arbitrary: acc) auto

lemma words_of_join:
  "\<forall>w \<in> set ws. w \<noteq> [] \<and> (\<forall>c \<in> set w. \<not> is_space c) \<Longrightarrow> words_of (join_with '' '' ws) = ws"
proof (induction ws)
  case (Cons w ws)
  then show ?case
    by (cases ws) (auto simp: words_of_def words_acc_plain words_acc_last)
qed (simp add: words_of_def)

text \<open>A string the source tests for truth: \<^verbatim>\<open>null\<close> and the empty string name nothing.\<close>

definition truthy :: "string option \<Rightarrow> string option" where
  "truthy s = (if s = Some '''' then None else s)"

section \<open>The order of strings\<close>

text \<open>
  Strings compared code unit by code unit, as \<^verbatim>\<open>a < b\<close>, the default \<^verbatim>\<open>sort()\<close> and SQLite's
  binary collation compare them.
\<close>

definition char_code :: "char \<Rightarrow> nat" where
  "char_code c = of_char c"

lemma char_code_eq: "char_code c = char_code d \<longleftrightarrow> c = d"
  by (simp add: char_code_def)

fun cmp_string :: "string \<Rightarrow> string \<Rightarrow> int" where
  "cmp_string [] [] = 0"
| "cmp_string [] (d # ds) = -1"
| "cmp_string (c # cs) [] = 1"
| "cmp_string (c # cs) (d # ds) =
     (if char_code c < char_code d then -1 else if char_code d < char_code c then 1 else cmp_string cs ds)"

lemma cmp_string_flip: "cmp_string a b = - cmp_string b a"
  by (induction a b rule: cmp_string.induct) auto

lemma cmp_string_trans: "cmp_string a b \<le> 0 \<Longrightarrow> cmp_string b c \<le> 0 \<Longrightarrow> cmp_string a c \<le> 0"
proof (induction a b arbitrary: c rule: cmp_string.induct)
  case (1 c)
  then show ?case by simp
next
  case (2 d ds c)
  then show ?case by (cases c) auto
next
  case (4 x xs y ys c)
  have le: "char_code x \<le> char_code y" using 4(2) by (auto split: if_splits)
  show ?case
  proof (cases c)
    case Nil
    with 4(3) show ?thesis by simp
  next
    case (Cons z zs)
    have le2: "char_code y \<le> char_code z" using 4(3) Cons by (auto split: if_splits)
    show ?thesis
    proof (cases "char_code x = char_code y \<and> char_code y = char_code z")
      case True
      then have "cmp_string xs ys \<le> 0" "cmp_string ys zs \<le> 0" using 4(2,3) Cons by simp_all
      with True Cons 4(1) show ?thesis by simp
    next
      case False
      with le le2 have "char_code x < char_code z" by linarith
      with Cons show ?thesis by simp
    qed
  qed
qed simp

lemma cmp_string_eq: "cmp_string a b = 0 \<longleftrightarrow> a = b"
proof (induction a b rule: cmp_string.induct)
  case (4 c cs d ds)
  then show ?case using char_code_eq [of c d] by (cases "char_code c" "char_code d" rule: linorder_cases) auto
qed auto

interpretation string_cmp: comparator cmp_string
proof
  show "0 < cmp_string a b \<longleftrightarrow> cmp_string b a < 0" for a b
    using cmp_string_flip [of a b] by linarith
qed (rule cmp_string_trans)

lemma comparator_string [intro, simp]: "comparator cmp_string"
  by (rule string_cmp.comparator_axioms)

definition sort_strings :: "string list \<Rightarrow> string list" where
  "sort_strings xs = js_sort cmp_string xs"

lemma set_sort_strings [simp]: "set (sort_strings xs) = set xs"
  by (simp add: sort_strings_def)

lemma sort_strings_cong: "mset xs = mset ys \<Longrightarrow> sort_strings xs = sort_strings ys"
proof (induction xs arbitrary: ys)
  case Nil
  then show ?case by simp
next
  case (Cons x xs)
  define s t where "s = sort_strings (x # xs)" and "t = sort_strings ys"
  have m: "mset s = mset t" using Cons.prems by (simp add: s_def t_def sort_strings_def)
  have s: "sorted_wrt (\<lambda>a b. cmp_string a b \<le> 0) s" and t: "sorted_wrt (\<lambda>a b. cmp_string a b \<le> 0) t"
    unfolding s_def t_def sort_strings_def by (rule string_cmp.sorted_js_sort)+
  from s t m have "s = t"
  proof (induction s arbitrary: t)
    case (Cons a s)
    then obtain b t' where tt: "t = b # t'" by (cases t) auto
    have ab: "a = b"
    proof (rule ccontr)
      assume "a \<noteq> b"
      have "b \<in> set (a # s)" "a \<in> set (b # t')"
        using Cons.prems(3) tt by (metis list.set_intros(1) set_mset_mset)+
      with \<open>a \<noteq> b\<close> Cons.prems(1,2) tt have "cmp_string a b \<le> 0" "cmp_string b a \<le> 0" by auto
      with cmp_string_flip [of a b] have "cmp_string a b = 0" by linarith
      with \<open>a \<noteq> b\<close> show False by (simp add: cmp_string_eq)
    qed
    with Cons tt show ?case by auto
  qed simp
  then show ?case by (simp add: s_def t_def)
qed

end
