(* ===== verification/Origins.thy ===== *)
theory Origins
  imports Strings
begin

text \<open>
  The issue origin vocabulary (\<^verbatim>\<open>src/src/issueOrigins.ts\<close>), the pull request references of
  \<^verbatim>\<open>src/src/primitives.ts\<close> and the labels of \<^verbatim>\<open>src/src/watchLabels.ts\<close>. Every task, plan and
  verdict of the harness is keyed by an origin reference \<^verbatim>\<open>issue:<n>[:<suffix>[:<id>]]\<close>; this
  theory models how one is written, how it is read back, and the role it is given, and proves that
  reading inverts writing for every family.
\<close>

section \<open>The families\<close>

datatype origin_role = Work | Evidence | Deliberation | Unrecognised

datatype family =
    Root | PlanFam | AppraisalFam | InvestigateFam | CriteriaAlignment | PredictionJudge
  | SequenceFam | SplitFam | SummaryFam | ShortfallFam | ReviewStranded | PartFam | Describe
  | DescribeCheck | Assess | Retro | ValidationPlanFam | Validate | ValidateFailure
  | LocalValidationFam | LocalValidationFix | RemoteValidationFam

text \<open>The patterns an id is declared with: \<^verbatim>\<open>[^:]+\<close>, \<^verbatim>\<open>\d+\<close>, \<^verbatim>\<open>[A-Za-z0-9-]+\<close> and \<^verbatim>\<open>.+\<close>.\<close>

datatype id_pattern = NoColon | Count | Slugish | AnyText

record origin_decl =
  d_suffix :: string
  d_id :: "id_pattern option"
  d_role :: origin_role

definition families :: "(family \<times> origin_decl) list" where
  "families = [
    (Root, \<lparr>d_suffix = '''', d_id = None, d_role = Work\<rparr>),
    (PartFam, \<lparr>d_suffix = ''part'', d_id = Some NoColon, d_role = Work\<rparr>),
    (Describe, \<lparr>d_suffix = ''describe'', d_id = Some Count, d_role = Evidence\<rparr>),
    (DescribeCheck, \<lparr>d_suffix = ''describe-check'', d_id = Some Count, d_role = Evidence\<rparr>),
    (LocalValidationFix, \<lparr>d_suffix = ''validate-local-fix'', d_id = Some Slugish, d_role = Work\<rparr>),
    (Assess, \<lparr>d_suffix = ''assess'', d_id = None, d_role = Evidence\<rparr>),
    (Retro, \<lparr>d_suffix = ''retro'', d_id = None, d_role = Evidence\<rparr>),
    (ValidationPlanFam, \<lparr>d_suffix = ''validate-plan'', d_id = None, d_role = Evidence\<rparr>),
    (Validate, \<lparr>d_suffix = ''validate'', d_id = Some AnyText, d_role = Evidence\<rparr>),
    (ValidateFailure, \<lparr>d_suffix = ''validate-failure'', d_id = Some AnyText, d_role = Evidence\<rparr>),
    (LocalValidationFam, \<lparr>d_suffix = ''validate-local'', d_id = Some Slugish, d_role = Evidence\<rparr>),
    (RemoteValidationFam, \<lparr>d_suffix = ''validate-remote'', d_id = Some Slugish, d_role = Evidence\<rparr>),
    (PlanFam, \<lparr>d_suffix = ''plan'', d_id = None, d_role = Deliberation\<rparr>),
    (AppraisalFam, \<lparr>d_suffix = ''appraisal'', d_id = None, d_role = Deliberation\<rparr>),
    (InvestigateFam, \<lparr>d_suffix = ''investigate'', d_id = None, d_role = Deliberation\<rparr>),
    (CriteriaAlignment, \<lparr>d_suffix = ''criteria-alignment'', d_id = None, d_role = Deliberation\<rparr>),
    (PredictionJudge, \<lparr>d_suffix = ''prediction-judge'', d_id = None, d_role = Deliberation\<rparr>),
    (SequenceFam, \<lparr>d_suffix = ''sequence'', d_id = None, d_role = Deliberation\<rparr>),
    (SplitFam, \<lparr>d_suffix = ''split'', d_id = Some Count, d_role = Deliberation\<rparr>),
    (SummaryFam, \<lparr>d_suffix = ''summary'', d_id = None, d_role = Unrecognised\<rparr>),
    (ShortfallFam, \<lparr>d_suffix = ''shortfall'', d_id = None, d_role = Unrecognised\<rparr>),
    (ReviewStranded, \<lparr>d_suffix = ''review-stranded'', d_id = None, d_role = Unrecognised\<rparr>)]"

definition decl_of :: "family \<Rightarrow> origin_decl" where
  "decl_of f = (case map_of families f of Some d \<Rightarrow> d
                | None \<Rightarrow> \<lparr>d_suffix = '''', d_id = None, d_role = Unrecognised\<rparr>)"

definition suffixed :: "(family \<times> origin_decl) list" where
  "suffixed = filter (\<lambda>(f, d). d_suffix d \<noteq> '''') families"

definition is_slug_char :: "char \<Rightarrow> bool" where
  "is_slug_char c \<longleftrightarrow> is_digit c \<or> (65 \<le> (of_char c :: nat) \<and> (of_char c :: nat) \<le> 90)
     \<or> (97 \<le> (of_char c :: nat) \<and> (of_char c :: nat) \<le> 122) \<or> c = CHR ''-''"

text \<open>What \<^verbatim>\<open>.\<close> does not match: a line feed or a carriage return.\<close>

definition is_line_end :: "char \<Rightarrow> bool" where
  "is_line_end c \<longleftrightarrow> (of_char c :: nat) = 10 \<or> (of_char c :: nat) = 13"

definition plain_text :: "string \<Rightarrow> bool" where
  "plain_text s \<longleftrightarrow> s \<noteq> [] \<and> (\<forall>c \<in> set s. \<not> is_line_end c)"

fun id_matches :: "id_pattern \<Rightarrow> string \<Rightarrow> bool" where
  "id_matches NoColon s = (s \<noteq> [] \<and> CHR '':'' \<notin> set s)"
| "id_matches Count s = is_count s"
| "id_matches Slugish s = (s \<noteq> [] \<and> (\<forall>c \<in> set s. is_slug_char c))"
| "id_matches AnyText s = plain_text s"

section \<open>Writing and reading a reference\<close>

definition issue_head :: "nat \<Rightarrow> string" where
  "issue_head n = ''issue:'' @ show_nat n"

definition issueOriginRef :: "family \<Rightarrow> nat \<Rightarrow> string option \<Rightarrow> string" where
  "issueOriginRef f n i =
     (let suffix = d_suffix (decl_of f); head = issue_head n
      in if suffix = '''' then head
         else case i of
           None \<Rightarrow> head @ '':'' @ suffix
         | Some x \<Rightarrow> head @ '':'' @ suffix @ '':'' @ x)"

text \<open>\<^verbatim>\<open>/^issue:(\d+)(?::(.+))?$/\<close>: the number and the raw suffix.\<close>

definition issueOriginHead :: "string \<Rightarrow> (nat \<times> string option) option" where
  "issueOriginHead ref =
     (if \<not> starts_with ''issue:'' ref then None
      else let rest = drop 6 ref; ds = digits_of rest; r = after_digits rest
           in if ds = [] then None
              else case r of
                [] \<Rightarrow> Some (read_nat ds, None)
              | c # s \<Rightarrow> (if c = CHR '':'' \<and> plain_text s then Some (read_nat ds, Some s) else None))"

record parsed_origin =
  p_issue :: nat
  p_family :: family
  p_id :: "string option"

fun match_suffix :: "nat \<Rightarrow> string \<Rightarrow> (family \<times> origin_decl) list \<Rightarrow> parsed_origin option" where
  "match_suffix n suffix [] = None"
| "match_suffix n suffix ((f, d) # fs) =
     (case d_id d of
        None \<Rightarrow> (if suffix = d_suffix d then Some \<lparr>p_issue = n, p_family = f, p_id = None\<rparr>
                 else match_suffix n suffix fs)
      | Some pat \<Rightarrow>
          (let pre = d_suffix d @ '':''; i = drop (length pre) suffix
           in if starts_with pre suffix \<and> id_matches pat i
              then Some \<lparr>p_issue = n, p_family = f, p_id = Some i\<rparr>
              else match_suffix n suffix fs))"

text \<open>The nullable argument of the source is the empty string here, as its \<^verbatim>\<open>originRef ?? ''\<close> reads it.\<close>

definition parseIssueOrigin :: "string \<Rightarrow> parsed_origin option" where
  "parseIssueOrigin ref =
     (case issueOriginHead ref of
        None \<Rightarrow> None
      | Some (n, None) \<Rightarrow> Some \<lparr>p_issue = n, p_family = Root, p_id = None\<rparr>
      | Some (n, Some s) \<Rightarrow> match_suffix n s suffixed)"

definition issueOriginId :: "family \<Rightarrow> string \<Rightarrow> (nat \<times> string) option" where
  "issueOriginId f ref =
     (case parseIssueOrigin ref of
        None \<Rightarrow> None
      | Some p \<Rightarrow> (if p_family p \<noteq> f then None
                   else case p_id p of None \<Rightarrow> None | Some i \<Rightarrow> Some (p_issue p, i)))"

definition issueOriginNumber :: "family \<Rightarrow> string \<Rightarrow> nat option" where
  "issueOriginNumber f ref =
     (case parseIssueOrigin ref of
        None \<Rightarrow> None | Some p \<Rightarrow> (if p_family p = f then Some (p_issue p) else None))"

definition inIssueOriginFamily :: "family \<Rightarrow> string \<Rightarrow> bool" where
  "inIssueOriginFamily f ref =
     (case issueOriginHead ref of
        Some (_, Some s) \<Rightarrow> starts_with (d_suffix (decl_of f) @ '':'') s
      | _ \<Rightarrow> False)"

text \<open>\<^verbatim>\<open>/^issue:(\d+)(?::|$)/\<close>: the issue of any reference in the subtree.\<close>

definition subtree_number :: "string \<Rightarrow> string \<Rightarrow> nat option" where
  "subtree_number kind ref =
     (if \<not> starts_with kind ref then None
      else let rest = drop (length kind) ref; ds = digits_of rest; r = after_digits rest
           in if ds = [] then None
              else if r = [] \<or> hd r = CHR '':'' then Some (read_nat ds) else None)"

definition issueSubtreeNumber :: "string \<Rightarrow> nat option" where
  "issueSubtreeNumber ref = subtree_number ''issue:'' ref"

fun role_of_suffix :: "string \<Rightarrow> (family \<times> origin_decl) list \<Rightarrow> origin_role" where
  "role_of_suffix s [] = Unrecognised"
| "role_of_suffix s ((f, d) # fs) =
     (let hit = (case d_id d of None \<Rightarrow> s = d_suffix d | Some _ \<Rightarrow> starts_with (d_suffix d @ '':'') s)
      in if hit then d_role d else role_of_suffix s fs)"

definition issueOriginRole :: "nat \<Rightarrow> string \<Rightarrow> origin_role option" where
  "issueOriginRole n ref =
     (let root = issueOriginRef Root n None; prefix = root @ '':''
      in if ref = root then Some Work
         else if \<not> starts_with prefix ref then None
         else Some (role_of_suffix (drop (length prefix) ref) suffixed))"

text \<open>The family whose conversation a dispatch inherits: \<^verbatim>\<open>HANDOVERS\<close> declares one, plan from appraisal.\<close>

definition handoverSource :: "string \<Rightarrow> (nat \<times> family) option" where
  "handoverSource ref =
     (case parseIssueOrigin ref of
        None \<Rightarrow> None
      | Some p \<Rightarrow> (if p_family p = PlanFam then Some (p_issue p, AppraisalFam) else None))"

section \<open>Pull request references and labels\<close>

definition prNumberOf :: "string \<Rightarrow> nat option" where
  "prNumberOf ref =
     (if starts_with ''pr:'' ref \<and> is_count (drop 3 ref) then Some (read_nat (drop 3 ref)) else None)"

definition prOriginNumber :: "string \<Rightarrow> nat option" where
  "prOriginNumber ref = subtree_number ''pr:'' ref"

definition watchLabelFor :: "string \<Rightarrow> string" where
  "watchLabelFor prefix = (if prefix \<noteq> '''' then prefix @ ''-watch'' else '''')"

definition isWatched :: "string list option \<Rightarrow> string \<Rightarrow> bool" where
  "isWatched labels watchLabel =
     (if watchLabel = '''' then True else watchLabel \<in> set (default_to [] labels))"

definition investigateLabelFor :: "string \<Rightarrow> string" where
  "investigateLabelFor prefix = (if prefix \<noteq> '''' then prefix @ ''-investigate'' else ''investigate'')"

definition obstacleOriginId :: "string \<Rightarrow> string option" where
  "obstacleOriginId ref =
     (let i = drop 9 ref
      in if starts_with ''obstacle:'' ref \<and> i \<noteq> [] \<and> (\<forall>c \<in> set i. is_slug_char c \<or> c = CHR ''_'')
         then Some i else None)"

section \<open>Reading inverts writing\<close>

text \<open>An id a family accepts, as the overloads of \<^verbatim>\<open>issueOriginRef\<close> require one exactly where a pattern is declared.\<close>

definition id_fits :: "family \<Rightarrow> string option \<Rightarrow> bool" where
  "id_fits f i \<longleftrightarrow> (case d_id (decl_of f) of
       None \<Rightarrow> i = None
     | Some pat \<Rightarrow> (case i of None \<Rightarrow> False | Some x \<Rightarrow> id_matches pat x \<and> plain_text x))"

lemma digit_not_colon [simp]: "\<not> is_digit (CHR '':'')"
  by (simp add: is_digit_def)

lemma head_of_root: "issueOriginHead (issue_head n) = Some (n, None)"
proof -
  have "after_digits (show_nat n) = []" and "digits_of (show_nat n) = show_nat n"
    using after_digits_show [of "[]" n] digits_of_show [of "[]" n] by simp_all
  then show ?thesis by (simp add: issueOriginHead_def issue_head_def)
qed

lemma head_of_suffix: "issueOriginHead (issue_head n @ CHR '':'' # s) =
    (if plain_text s then Some (n, Some s) else None)"
  using after_digits_show [of "CHR '':'' # s" n] digits_of_show [of "CHR '':'' # s" n]
  by (simp add: issueOriginHead_def issue_head_def)

lemma subtree_of_root: "subtree_number k (k @ show_nat n) = Some n"
  using after_digits_show [of "[]" n] digits_of_show [of "[]" n]
  by (simp add: subtree_number_def)

lemma subtree_of_suffix: "subtree_number k (k @ show_nat n @ CHR '':'' # s) = Some n"
  using after_digits_show [of "CHR '':'' # s" n] digits_of_show [of "CHR '':'' # s" n]
  by (simp add: subtree_number_def)

lemma decl_of_simps [simp]:
  "decl_of Root = \<lparr>d_suffix = '''', d_id = None, d_role = Work\<rparr>"
  "decl_of PlanFam = \<lparr>d_suffix = ''plan'', d_id = None, d_role = Deliberation\<rparr>"
  "decl_of AppraisalFam = \<lparr>d_suffix = ''appraisal'', d_id = None, d_role = Deliberation\<rparr>"
  "decl_of InvestigateFam = \<lparr>d_suffix = ''investigate'', d_id = None, d_role = Deliberation\<rparr>"
  "decl_of CriteriaAlignment = \<lparr>d_suffix = ''criteria-alignment'', d_id = None, d_role = Deliberation\<rparr>"
  "decl_of PredictionJudge = \<lparr>d_suffix = ''prediction-judge'', d_id = None, d_role = Deliberation\<rparr>"
  "decl_of SequenceFam = \<lparr>d_suffix = ''sequence'', d_id = None, d_role = Deliberation\<rparr>"
  "decl_of SplitFam = \<lparr>d_suffix = ''split'', d_id = Some Count, d_role = Deliberation\<rparr>"
  "decl_of SummaryFam = \<lparr>d_suffix = ''summary'', d_id = None, d_role = Unrecognised\<rparr>"
  "decl_of ShortfallFam = \<lparr>d_suffix = ''shortfall'', d_id = None, d_role = Unrecognised\<rparr>"
  "decl_of ReviewStranded = \<lparr>d_suffix = ''review-stranded'', d_id = None, d_role = Unrecognised\<rparr>"
  "decl_of PartFam = \<lparr>d_suffix = ''part'', d_id = Some NoColon, d_role = Work\<rparr>"
  "decl_of Describe = \<lparr>d_suffix = ''describe'', d_id = Some Count, d_role = Evidence\<rparr>"
  "decl_of DescribeCheck = \<lparr>d_suffix = ''describe-check'', d_id = Some Count, d_role = Evidence\<rparr>"
  "decl_of Assess = \<lparr>d_suffix = ''assess'', d_id = None, d_role = Evidence\<rparr>"
  "decl_of Retro = \<lparr>d_suffix = ''retro'', d_id = None, d_role = Evidence\<rparr>"
  "decl_of ValidationPlanFam = \<lparr>d_suffix = ''validate-plan'', d_id = None, d_role = Evidence\<rparr>"
  "decl_of Validate = \<lparr>d_suffix = ''validate'', d_id = Some AnyText, d_role = Evidence\<rparr>"
  "decl_of ValidateFailure = \<lparr>d_suffix = ''validate-failure'', d_id = Some AnyText, d_role = Evidence\<rparr>"
  "decl_of LocalValidationFam = \<lparr>d_suffix = ''validate-local'', d_id = Some Slugish, d_role = Evidence\<rparr>"
  "decl_of LocalValidationFix = \<lparr>d_suffix = ''validate-local-fix'', d_id = Some Slugish, d_role = Work\<rparr>"
  "decl_of RemoteValidationFam = \<lparr>d_suffix = ''validate-remote'', d_id = Some Slugish, d_role = Evidence\<rparr>"
  by (simp_all add: decl_of_def families_def)

lemma suffixed_eq: "suffixed = tl families"
  by (simp add: suffixed_def families_def)

lemmas suffix_table = suffixed_eq families_def

lemma match_plain:
  assumes "d_id (decl_of f) = None" and "f \<noteq> Root"
  shows "match_suffix n (d_suffix (decl_of f)) suffixed = Some \<lparr>p_issue = n, p_family = f, p_id = None\<rparr>"
  using assms by (cases f) (simp_all add: suffix_table)

lemma match_id:
  assumes "d_id (decl_of f) = Some pat" and "id_matches pat i"
  shows "match_suffix n (d_suffix (decl_of f) @ CHR '':'' # i) suffixed
           = Some \<lparr>p_issue = n, p_family = f, p_id = Some i\<rparr>"
  using assms by (cases f) (simp_all add: suffix_table)

lemma role_plain:
  assumes "d_id (decl_of f) = None" and "f \<noteq> Root"
  shows "role_of_suffix (d_suffix (decl_of f)) suffixed = d_role (decl_of f)"
  using assms by (cases f) (simp_all add: suffix_table)

lemma role_id:
  assumes "d_id (decl_of f) = Some pat"
  shows "role_of_suffix (d_suffix (decl_of f) @ CHR '':'' # i) suffixed = d_role (decl_of f)"
  using assms by (cases f) (simp_all add: suffix_table)

lemma suffix_plain [simp]: "f \<noteq> Root \<Longrightarrow> plain_text (d_suffix (decl_of f))"
  by (cases f) (auto simp: plain_text_def is_line_end_def)

lemma suffix_id_plain: "plain_text i \<Longrightarrow> plain_text (d_suffix (decl_of f) @ CHR '':'' # i)"
  by (cases f) (auto simp: plain_text_def is_line_end_def)

lemma suffix_empty_iff [simp]: "d_suffix (decl_of f) = [] \<longleftrightarrow> f = Root"
  by (cases f) auto

lemma ref_cases:
  "issueOriginRef f n i = (if f = Root then issue_head n
     else issue_head n @ CHR '':'' # d_suffix (decl_of f) @
       (case i of None \<Rightarrow> [] | Some x \<Rightarrow> CHR '':'' # x))"
  by (auto simp: issueOriginRef_def Let_def split: option.splits)

lemma parse_of_ref:
  assumes "id_fits f i"
  shows "parseIssueOrigin (issueOriginRef f n i) = Some \<lparr>p_issue = n, p_family = f, p_id = i\<rparr>"
proof (cases "f = Root")
  case True
  with assms show ?thesis
    by (simp add: ref_cases parseIssueOrigin_def head_of_root id_fits_def)
next
  case False
  show ?thesis
  proof (cases "d_id (decl_of f)")
    case None
    with assms False show ?thesis
      by (simp add: ref_cases parseIssueOrigin_def head_of_suffix id_fits_def match_plain)
  next
    case (Some pat)
    with assms obtain x where "i = Some x" "id_matches pat x" "plain_text x"
      by (auto simp: id_fits_def split: option.splits)
    with Some False show ?thesis
      by (simp add: ref_cases parseIssueOrigin_def head_of_suffix suffix_id_plain match_id)
  qed
qed

text \<open>
  C29. Writing an origin reference and parsing it back gives the issue, the family and the id it was
  written from, for each of the twenty-two families and every id the family's pattern accepts; so two
  references are the same text only when they name the same issue, family and id.
\<close>

theorem parse_origin_roundtrip:
  assumes "id_fits f i" and "id_fits g j"
  shows "parseIssueOrigin (issueOriginRef f n i) = Some \<lparr>p_issue = n, p_family = f, p_id = i\<rparr>
    \<and> (issueOriginRef f n i = issueOriginRef g m j \<longleftrightarrow> f = g \<and> n = m \<and> i = j)"
proof -
  have p: "parseIssueOrigin (issueOriginRef f n i) = Some \<lparr>p_issue = n, p_family = f, p_id = i\<rparr>"
    by (rule parse_of_ref [OF assms(1)])
  have q: "parseIssueOrigin (issueOriginRef g m j) = Some \<lparr>p_issue = m, p_family = g, p_id = j\<rparr>"
    by (rule parse_of_ref [OF assms(2)])
  have "f = g \<and> n = m \<and> i = j" if eq: "issueOriginRef f n i = issueOriginRef g m j"
    using p [unfolded eq] q by simp
  with p show ?thesis by blast
qed

theorem parse_origin_roundtrip_witness:
  "parseIssueOrigin (issueOriginRef Validate 42 (Some ''login:a'')) =
     Some \<lparr>p_issue = 42, p_family = Validate, p_id = Some ''login:a''\<rparr>"
  using parse_origin_roundtrip [of Validate "Some ''login:a''" Root None 42 42]
  by (simp add: id_fits_def plain_text_def is_line_end_def)

lemma starts_issue_head:
  assumes "starts_with (issue_head m @ '':'') s"
  shows "issueSubtreeNumber s = Some m"
proof -
  from assms obtain r where "s = (issue_head m @ '':'') @ r" by (auto simp: starts_with_iff)
  then show ?thesis
    using subtree_of_suffix [of "''issue:''" m r] by (simp add: issueSubtreeNumber_def issue_head_def)
qed

lemma subtree_of_ref: "issueSubtreeNumber (issueOriginRef f n i) = Some n"
  using subtree_of_root [of "''issue:''" n] subtree_of_suffix [of "''issue:''" n]
  by (simp add: ref_cases issueSubtreeNumber_def issue_head_def)

lemma role_Some_subtree:
  "issueOriginRole m ref = Some r \<Longrightarrow> issueSubtreeNumber ref = Some m"
  using subtree_of_ref [of Root m None] starts_issue_head [of m ref]
  by (auto simp: issueOriginRole_def Let_def ref_cases split: if_splits)

lemma role_of_ref:
  assumes "d_id (decl_of f) = None \<longleftrightarrow> i = None"
  shows "issueOriginRole n (issueOriginRef f n i) = Some (d_role (decl_of f))"
proof (cases i)
  case None
  with assms show ?thesis
    by (cases "f = Root")
       (auto simp: issueOriginRole_def Let_def ref_cases role_plain
          starts_with_iff)
next
  case (Some x)
  with assms obtain pat where "d_id (decl_of f) = Some pat" by auto
  with assms Some show ?thesis
    by (cases "f = Root")
       (auto simp: issueOriginRole_def Let_def ref_cases role_id [where pat = pat] starts_with_iff)
qed

text \<open>
  The role of a reference is read for its own issue only: it is the declared role of the family it
  was written with, and no other issue's number reads any role off it, even one whose numeral is a
  prefix of this one's.
\<close>

theorem origin_role_is_its_own_issues:
  assumes "d_id (decl_of f) = None \<longleftrightarrow> i = None"
  shows "issueOriginRole m (issueOriginRef f n i) = (if m = n then Some (d_role (decl_of f)) else None)"
proof (cases "m = n")
  case True
  with assms show ?thesis by (simp add: role_of_ref)
next
  case False
  have "issueOriginRole m (issueOriginRef f n i) = Some r \<Longrightarrow> m = n" for r
    using role_Some_subtree [of m "issueOriginRef f n i" r] by (simp add: subtree_of_ref)
  with False show ?thesis by (cases "issueOriginRole m (issueOriginRef f n i)") auto
qed

theorem origin_role_is_its_own_issues_witness:
  "issueOriginRole 1 (issueOriginRef PartFam 12 (Some ''api'')) = None \<and>
   issueOriginRole 12 (issueOriginRef PartFam 12 (Some ''api'')) = Some Work"
  using origin_role_is_its_own_issues [of PartFam "Some ''api''" 1 12]
    origin_role_is_its_own_issues [of PartFam "Some ''api''" 12 12] by simp

lemma origin_number_of_ref:
  "id_fits f i \<Longrightarrow> issueOriginNumber g (issueOriginRef f n i) = (if g = f then Some n else None)"
  by (simp add: issueOriginNumber_def parse_of_ref)

lemma root_number [simp]: "issueOriginNumber Root (issueOriginRef Root n None) = Some n"
  by (simp add: origin_number_of_ref id_fits_def)

lemma root_ref_inj [simp]: "issueOriginRef Root m None = issueOriginRef Root n None \<longleftrightarrow> m = n"
  by (metis root_number option.inject)

end
