(* ===== verification/Model.thy ===== *)
theory Model
  imports Origins
begin

text \<open>
  The data model of \<^verbatim>\<open>src/src/types.ts\<close>: the tracker items, pull requests, tasks, plans, parts,
  decisions, escalations and standing verdicts the components below read. Each interface is a record
  and each string union a datatype. A field declared \<^verbatim>\<open>x?: T\<close> or \<^verbatim>\<open>T | null\<close> is an option; the one
  field whose absence and null are told apart, an issue's parent, is an option of an option. An ISO
  timestamp is an \<^typ>\<open>instant\<close>, or its milliseconds where the code only ever compares two. Fields no
  modelled function reads (ids of provider rows, urls, token counts) are left out of a record.
\<close>

section \<open>Tracker items\<close>

datatype issue_state = IssueOpen | IssueClosed

record issue_relative =
  rel_number :: nat
  rel_title :: string
  rel_type :: string
  rel_workState :: string
  rel_state :: issue_state
  rel_body :: "string option"

record issue =
  i_number :: nat
  i_title :: string
  i_body :: string
  i_labels :: "string list"
  i_labelsByViewer :: "string list option"
  i_state :: issue_state
  i_workState :: "string option"
  i_type :: "string option"
  i_parent :: "issue_relative option option"
  i_children :: "issue_relative list option"
  i_siblings :: "issue_relative list option"
  i_dependsOn :: "issue_relative list option"
  i_linkedPr :: "nat option"
  i_areaPath :: "string option"

section \<open>Pull requests\<close>

datatype ci_status = CiPassing | CiFailing | CiPending | CiUnknown

datatype mergeable_state = Dirty | Behind | MergeBlocked | Clean | MergeUnknown

datatype pr_lifecycle = PrOpen | PrMerged | PrClosed

record ci_check =
  c_name :: string
  c_status :: ci_status
  c_blocking :: "bool option"
  c_aliases :: "string list option"
  c_advisory :: bool
  c_expired :: bool
  c_requeueRef :: "string option"

record pr_comment =
  pc_id :: string
  pc_author :: string
  pc_body :: string
  pc_handled :: bool
  pc_replies :: "string list option"

datatype viewer_assignment = Assignee | ReviewerRequired | ReviewerOptional

datatype thread_state = ThreadOpen | ThreadAnswered | ThreadResolved | ThreadReopened

record review_thread =
  t_id :: string
  t_author :: string
  t_body :: string
  t_state :: thread_state
  t_replies :: "string list"
  t_reopenedAt :: "int option"

record pull_request =
  pr_number :: nat
  pr_title :: string
  pr_branch :: string
  pr_ciStatus :: ci_status
  pr_ciChecks :: "ci_check list option"
  pr_ciWithheld :: bool
  pr_comments :: "pr_comment list"
  pr_threads :: "review_thread list option"
  pr_approved :: "bool option"
  pr_mergeable :: "bool option"
  pr_base :: "string option"
  pr_mergeableState :: "mergeable_state option"
  pr_merged :: bool
  pr_stated :: "pr_lifecycle option"
  pr_labels :: "string list option"
  pr_assignment :: "viewer_assignment option"
  pr_author :: "string option"
  pr_viewerAuthored :: "bool option"
  pr_botAuthored :: bool
  pr_viewerApproved :: bool
  pr_changedFiles :: "nat option"
  pr_headSha :: "string option"

section \<open>Tasks, decisions and escalations\<close>

datatype task_kind = CodeTask | DeskTask

datatype task_status = TQueued | TRunning | TWaiting | TDone | TInterrupted | TFailed

record task =
  tk_id :: string
  tk_kind :: task_kind
  tk_branch :: "string option"
  tk_originRef :: "string option"
  tk_originTitle :: "string option"
  tk_status :: task_status
  tk_agentId :: "string option"
  tk_profile :: "string option"
  tk_createdAt :: int
  tk_updatedAt :: instant

datatype action_type =
    DispatchCodeAgent | DispatchDeskAgent | EscalateToHuman | RespondToAgent | ReplyOnPr | MergePr
  | ProposePlan | ProposePlanAmendment | ProposeValidationPlan | ProposeShortfall | UpdatePrBranch
  | RequeueCiCheck | SetWorkItemState | NoOp

text \<open>
  The rules of the dispatcher's rule book (\<^verbatim>\<open>src/src/dispatcher/rules.ts\<close>): the rules of the pipeline, in
  its order, then the admission and terminal rules.
\<close>

datatype rule_id =
    ManualJob | LocalValidation | PrReviewTriage | PrSplit | PrDescribe | PrDescriptionCheck | PrReview
  | PrReviewComment | PrCiFailing | PrCiBlocked | PrCiGate | PrBaseUpdate | PrBaseUpdateConflict | PrMergeReady
  | WorkItemInProgress | WorkItemInReview | WorkItemBackToPickup | RuleAppraisal | RuleInvestigate | RulePlan
  | RuleAssess | RuleShortfall | RuleRetro | RulePlanApproval | RulePlanAmendment | RulePlanBlocked
  | RuleLocalValidationFix | RulePlanPart | RuleValidationPlan | RuleValidationPlanApproval | RuleValidateCheck
  | RuleRemoteValidation | RuleValidationFailed | RuleBotPrRisk | RuleFeatureSummary | RuleFeatureSequence
  | BranchNotify | CooldownEscalate | Idle

text \<open>
  An action carries further fields by its type; the ones kept are what it is for (the origin, the
  issue or pull request number, the job, part, plan, amendment or run), where it runs (branch, base,
  whether the checkout is read-only), the checks it requeues, the rule, admission and profile it is
  recorded under, and what the readers of past decisions look at. The prose of an action (title, prompt, reason) is left out.
\<close>

datatype local_role = AsValidation | AsFix

record action =
  a_type :: action_type
  a_originRef :: "string option"
  a_contextOrigin :: "string option"
  a_branch :: "string option"
  a_base :: "string option"
  a_readOnly :: bool
  a_signalRefs :: "string list option"
  a_agentId :: "string option"
  a_originRefs :: "string list option"
  a_profile :: "string option"
  a_number :: "nat option"
  a_state :: "string option"
  a_jobId :: "string option"
  a_partId :: "string option"
  a_planId :: "string option"
  a_amendmentId :: "string option"
  a_checks :: "(string \<times> string) list"
  a_localValidation :: "(string \<times> local_role) option"
  a_remoteRun :: "string option"
  a_botPrRiskRun :: "string option"
  a_rule :: "rule_id option"
  a_admission :: "rule_id option"

definition new_action :: "action_type \<Rightarrow> action" where
  "new_action t = \<lparr>a_type = t, a_originRef = None, a_contextOrigin = None, a_branch = None, a_base = None,
     a_readOnly = False, a_signalRefs = None, a_agentId = None, a_originRefs = None, a_profile = None,
     a_number = None, a_state = None, a_jobId = None, a_partId = None, a_planId = None, a_amendmentId = None,
     a_checks = [], a_localValidation = None, a_remoteRun = None, a_botPrRiskRun = None, a_rule = None, a_admission = None\<rparr>"

datatype decision_outcome = Executed | Deferred | Rejected | Skipped

record decision =
  de_action :: action
  de_outcome :: decision_outcome
  de_createdAt :: instant

datatype escalation_status = EscOpen | EscAnswered | EscDismissed

record goal_block =
  gb_originRef :: string
  gb_reason :: string

record escalation =
  es_status :: escalation_status
  es_originRef :: "string option"
  es_blocked :: "goal_block option"

section \<open>Standing verdicts on a goal\<close>

datatype delivery_author = ByAssessor | ByPlanner | ByOperator

record delivery =
  dl_originRef :: string
  dl_summary :: string
  dl_by :: delivery_author
  dl_decidedAt :: int
  dl_updatedAt :: "int option"

datatype appraisal_verdict = Workable | Unclear

datatype appraisal_author = ByAppraiser | ByAppraisalOperator

record appraisal =
  ap_originRef :: string
  ap_verdict :: appraisal_verdict
  ap_goalRef :: string
  ap_by :: appraisal_author
  ap_proposedProfile :: "string option"
  ap_profileAnsweredAt :: "int option"
  ap_proposedParent :: "nat option"
  ap_parentSettledAt :: "int option"
  ap_proposedAreaPath :: "string option"
  ap_areaPathSettledAt :: "int option"

datatype resolution = ResolvePlan | ResolveClose | ResolveAsk

record investigation =
  iv_originRef :: string
  iv_goalRef :: string
  iv_resolution :: "resolution option"

record priority_override =
  po_origin :: string
  po_rank :: int

record profile_override =
  pv_origin :: string
  pv_profile :: string

record job =
  jb_id :: string
  jb_kind :: task_kind
  jb_branch :: "string option"
  jb_originRef :: "string option"

record issue_run =
  rn_issueNumber :: nat
  rn_title :: string
  rn_body :: string
  rn_labels :: "string list"
  rn_linkedPr :: "nat option"
  rn_workState :: "string option"
  rn_completed :: bool
  rn_dismissed :: bool

record world_event =
  we_ref :: "string option"
  we_createdAt :: int

section \<open>Plans\<close>

datatype plan_status = Planning | AwaitingApproval | Active | Complete | Abandoned

record plan_evidence =
  ev_path :: string
  ev_line :: "nat option"
  ev_note :: "string option"

record plan =
  pl_id :: string
  pl_originRef :: string
  pl_title :: string
  pl_status :: plan_status
  pl_diagnosis :: "string option"
  pl_approach :: "string option"
  pl_reason :: "string option"
  pl_risks :: "string option"
  pl_outOfScope :: "string option"
  pl_alternatives :: "string option"
  pl_openQuestions :: "string option"
  pl_verification :: "string option"
  pl_evidence :: "plan_evidence list"
  pl_document :: "string option"
  pl_statusCommentRef :: "string option"
  pl_createdAt :: instant
  pl_updatedAt :: instant

datatype part_size = SizeS | SizeM | SizeL

datatype part_status =
  PartPending | PartReady | PartDispatched | PartInReview | PartMerged | PartConcluded | PartBlocked | PartRetired

datatype outcome_kind = KindCode | KindReport | KindDetermination | KindHuman

datatype part_blocker = Collision | Declined

text \<open>
  The free prose shown to a person for a blocked part is kept as the blocker it is derived from and
  the values it interpolates.
\<close>

datatype blocked_reason = CollisionReason nat bool | DeclinedReason string

record plan_part =
  pp_id :: string
  pp_planId :: string
  pp_slug :: string
  pp_seq :: nat
  pp_title :: string
  pp_scope :: string
  pp_touches :: "string list"
  pp_atoms :: "string list option"
  pp_rationale :: "string option"
  pp_acceptance :: "string option"
  pp_acceptanceMet :: "string list"
  pp_size :: "part_size option"
  pp_expectedKind :: "outcome_kind option"
  pp_profile :: "string option"
  pp_coverage :: "string option"
  pp_outcomeKind :: "outcome_kind option"
  pp_outcomeRef :: "string option"
  pp_outcomeSummary :: "string option"
  pp_dependsOn :: "string list"
  pp_branch :: "string option"
  pp_prNumber :: "nat option"
  pp_status :: part_status
  pp_blockedReason :: "blocked_reason option"
  pp_blockedBy :: "part_blocker option"
  pp_taskId :: "string option"
  pp_createdAt :: int
  pp_updatedAt :: int

record plan_atom =
  at_id :: string
  at_planId :: string
  at_slug :: string
  at_seq :: nat
  at_title :: string
  at_intent :: string
  at_touches :: "string list"
  at_acceptance :: "string option"
  at_dependsOn :: "string list"
  at_rejected :: "(string \<times> string) list"

section \<open>Asks of a person\<close>

datatype human_task_status = HumanOpen | HumanDone | HumanDeclined

datatype human_task_kind =
  KindAsk | KindCloseOut | KindBurn | KindValidate | KindSupply | KindWatch | KindUnwatched | KindOutcome

record human_task =
  ht_id :: string
  ht_title :: string
  ht_detail :: "string option"
  ht_originRef :: "string option"
  ht_partId :: "string option"
  ht_kind :: human_task_kind
  ht_agentId :: "string option"
  ht_taskId :: "string option"
  ht_status :: human_task_status
  ht_resolution :: "string option"
  ht_createdAt :: int
  ht_updatedAt :: int
  ht_resolvedAt :: "int option"
  ht_dismissedAt :: "int option"

section \<open>Stack landings\<close>

datatype landing_status = Standing | Landed | Stopped | Revoked

section \<open>Reading a task\<close>

definition isActiveTask :: "task \<Rightarrow> bool" where
  "isActiveTask t \<longleftrightarrow> tk_status t \<in> {TQueued, TRunning, TWaiting}"

definition issue_branch :: "nat \<Rightarrow> string" where
  "issue_branch n = ''issue/'' @ show_nat n"

definition pickupLabels :: "issue \<Rightarrow> bool \<Rightarrow> string list" where
  "pickupLabels i own = (if own then default_to [] (i_labelsByViewer i) else i_labels i)"

end
