(* ===== verification/Samples.thy ===== *)
theory Samples
  imports Model
begin

text \<open>
  Plain rows of the data model, with nothing remarkable in them: the concrete inputs of the witnesses
  are written as updates of these.
\<close>

definition part0 :: "string \<Rightarrow> string list \<Rightarrow> plan_part" where
  "part0 slug deps = \<lparr>
     pp_id = slug, pp_planId = ''p1'', pp_slug = slug, pp_seq = 1, pp_title = slug, pp_scope = slug,
     pp_touches = [], pp_atoms = None, pp_rationale = None, pp_acceptance = None, pp_acceptanceMet = [],
     pp_size = None, pp_expectedKind = None, pp_profile = None, pp_coverage = None,
     pp_outcomeKind = None, pp_outcomeRef = None, pp_outcomeSummary = None, pp_dependsOn = deps,
     pp_branch = None, pp_prNumber = None, pp_status = PartPending, pp_blockedReason = None,
     pp_blockedBy = None, pp_taskId = None, pp_createdAt = 0, pp_updatedAt = 0\<rparr>"

definition pr0 :: "nat \<Rightarrow> string \<Rightarrow> string \<Rightarrow> pull_request" where
  "pr0 n branch base = \<lparr>
     pr_number = n, pr_title = '''', pr_branch = branch, pr_ciStatus = CiPassing, pr_ciChecks = None,
     pr_ciWithheld = False, pr_comments = [], pr_threads = None, pr_approved = None, pr_mergeable = None,
     pr_base = Some base, pr_mergeableState = None, pr_merged = False, pr_stated = None, pr_labels = None,
     pr_assignment = None, pr_author = None, pr_viewerAuthored = None, pr_botAuthored = False,
     pr_viewerApproved = False, pr_changedFiles = None, pr_headSha = None\<rparr>"

definition issue0 :: "nat \<Rightarrow> issue" where
  "issue0 n = \<lparr>
     i_number = n, i_title = '''', i_body = '''', i_labels = [], i_labelsByViewer = None,
     i_state = IssueOpen, i_workState = None, i_type = None, i_parent = None, i_children = None,
     i_siblings = None, i_dependsOn = None, i_linkedPr = None,
     i_areaPath = None\<rparr>"

definition rel0 :: "nat \<Rightarrow> issue_relative" where
  "rel0 n = \<lparr>rel_number = n, rel_title = '''', rel_type = ''Story'', rel_workState = '''',
     rel_state = IssueOpen, rel_body = None\<rparr>"

definition plan0 :: "nat \<Rightarrow> plan_status \<Rightarrow> plan" where
  "plan0 n st = \<lparr>pl_id = ''p1'', pl_originRef = issueOriginRef Root n None, pl_title = '''',
     pl_status = st, pl_diagnosis = None, pl_approach = None, pl_reason = None, pl_risks = None,
     pl_outOfScope = None, pl_alternatives = None, pl_openQuestions = None, pl_verification = None,
     pl_evidence = [], pl_document = None, pl_statusCommentRef = None, pl_createdAt = Instant 0,
     pl_updatedAt = Instant 0\<rparr>"

definition task0 :: "string \<Rightarrow> task_status \<Rightarrow> task" where
  "task0 tid st = \<lparr>tk_id = tid, tk_kind = CodeTask, tk_branch = None, tk_originRef = None,
     tk_originTitle = None, tk_status = st, tk_agentId = None, tk_profile = None,
     tk_createdAt = 0, tk_updatedAt = Garbled\<rparr>"

definition dispatch0 :: "string \<Rightarrow> instant \<Rightarrow> decision" where
  "dispatch0 ref t = \<lparr>de_action = (new_action DispatchCodeAgent)\<lparr>a_originRef := Some ref\<rparr>,
     de_outcome = Executed, de_createdAt = t\<rparr>"

lemmas sample_defs = part0_def pr0_def issue0_def rel0_def plan0_def task0_def dispatch0_def new_action_def

end
