(* ===== verification/Cooldown.thy ===== *)
theory Cooldown
  imports Samples
begin

text \<open>
  Attempt caps and cooldowns (\<^verbatim>\<open>src/src/dispatcher/dispatchCooldown.ts\<close>, \<^verbatim>\<open>admission.ts\<close>): what the
  recorded decisions say about dispatching for an origin again. The verdict is a fold over the
  decisions; the theory gives its meaning as counts, and then runs it: a harness that obeys the
  verdict on every pulse never dispatches for an origin more than \<open>maxAttempts\<close> times, keeps the
  cooldown between two attempts and escalates at most once.
\<close>

section \<open>The verdict\<close>

record cooldown_policy =
  maxAttempts :: nat
  cooldownMs :: int

definition DEFAULT_COOLDOWN :: cooldown_policy where
  "DEFAULT_COOLDOWN = \<lparr>maxAttempts = 3, cooldownMs = 15 * 60000\<rparr>"

datatype dispatch_verdict = VDispatch | VCooldown | VEscalate nat | VHold

definition isAttempt :: "action \<Rightarrow> string \<Rightarrow> bool" where
  "isAttempt a ref \<longleftrightarrow>
     a_type a \<in> {DispatchCodeAgent, DispatchDeskAgent, UpdatePrBranch, RequeueCiCheck} \<and> a_originRef a = Some ref"

definition isEscalation :: "action \<Rightarrow> string \<Rightarrow> bool" where
  "isEscalation a ref \<longleftrightarrow> a_type a = EscalateToHuman \<and> a_contextOrigin a = Some ref"

record tally =
  attempts :: nat
  lastAttempt :: "int option"
  escalated :: bool

fun later :: "int option \<Rightarrow> int option \<Rightarrow> int option" where
  "later l None = l"
| "later None (Some t) = Some t"
| "later (Some l) (Some t) = (if l < t then Some t else Some l)"

definition tally_decision :: "string \<Rightarrow> tally \<Rightarrow> decision \<Rightarrow> tally" where
  "tally_decision ref s d =
     (if de_outcome d \<noteq> Executed then s
      else if isAttempt (de_action d) ref then
        s\<lparr>attempts := attempts s + 1, lastAttempt := later (lastAttempt s) (date_parse (de_createdAt d))\<rparr>
      else if isEscalation (de_action d) ref then s\<lparr>escalated := True\<rparr>
      else s)"

definition tally_of :: "string \<Rightarrow> decision list \<Rightarrow> tally" where
  "tally_of ref ds = foldl (tally_decision ref) \<lparr>attempts = 0, lastAttempt = None, escalated = False\<rparr> ds"

definition dispatchVerdict :: "string \<Rightarrow> instant \<Rightarrow> decision list \<Rightarrow> cooldown_policy \<Rightarrow> dispatch_verdict" where
  "dispatchVerdict ref now recentDecisions policy =
     (let s = tally_of ref recentDecisions in
      if maxAttempts policy \<le> attempts s then (if escalated s then VHold else VEscalate (attempts s))
      else case (lastAttempt s, date_parse now) of
          (Some l, Some t) \<Rightarrow> (if t - l < cooldownMs policy then VCooldown else VDispatch)
        | _ \<Rightarrow> VDispatch)"

definition askedAlready :: "string \<Rightarrow> escalation list \<Rightarrow> decision list \<Rightarrow> bool" where
  "askedAlready ref openEscalations recentDecisions \<longleftrightarrow>
     list_ex (\<lambda>e. es_originRef e = Some ref) openEscalations \<or>
     list_ex (\<lambda>d. de_outcome d = Executed \<and> isEscalation (de_action d) ref) recentDecisions"

section \<open>What the tally counts\<close>

definition executed_attempts :: "string \<Rightarrow> decision list \<Rightarrow> decision list" where
  "executed_attempts ref ds = filter (\<lambda>d. de_outcome d = Executed \<and> isAttempt (de_action d) ref) ds"

definition executed_escalations :: "string \<Rightarrow> decision list \<Rightarrow> decision list" where
  "executed_escalations ref ds = filter (\<lambda>d. de_outcome d = Executed \<and> isEscalation (de_action d) ref) ds"

lemma attempt_not_escalation: "isAttempt a ref \<Longrightarrow> \<not> isEscalation a ref'"
  by (auto simp: isAttempt_def isEscalation_def)

lemma tally_snoc: "tally_of ref (ds @ [d]) = tally_decision ref (tally_of ref ds) d"
  by (simp add: tally_of_def)

lemma tally_attempts: "attempts (tally_of ref ds) = length (executed_attempts ref ds)"
  by (induction ds rule: rev_induct)
     (auto simp: tally_snoc tally_decision_def executed_attempts_def tally_of_def)

lemma tally_escalated: "escalated (tally_of ref ds) \<longleftrightarrow> executed_escalations ref ds \<noteq> []"
  by (induction ds rule: rev_induct)
     (auto simp: tally_snoc tally_decision_def executed_escalations_def tally_of_def
        dest: attempt_not_escalation)

definition attempt_times :: "string \<Rightarrow> decision list \<Rightarrow> int list" where
  "attempt_times ref ds = List.map_filter (\<lambda>d. date_parse (de_createdAt d)) (executed_attempts ref ds)"

definition newest :: "int list \<Rightarrow> int option" where
  "newest ts = (if ts = [] then None else Some (Max (set ts)))"

lemma later_newest: "later (newest ts) (Some t) = newest (ts @ [t])"
proof (cases "ts = []")
  case False
  then have "Max (insert t (set ts)) = (if Max (set ts) < t then t else Max (set ts))"
    by (simp only: Max_insert finite_set set_empty not_False_eq_True) (simp only: max_def not_less [symmetric] if_not_P split: if_split, auto)
  with False show ?thesis by (simp add: newest_def)
qed (simp add: newest_def)

lemma lastAttempt_step:
  "lastAttempt (tally_decision ref s d) =
     (if de_outcome d = Executed \<and> isAttempt (de_action d) ref
      then later (lastAttempt s) (date_parse (de_createdAt d)) else lastAttempt s)"
  by (simp add: tally_decision_def)

lemma times_snoc:
  "attempt_times ref (ds @ [d]) = attempt_times ref ds @
     (if de_outcome d = Executed \<and> isAttempt (de_action d) ref
      then (case date_parse (de_createdAt d) of None \<Rightarrow> [] | Some t \<Rightarrow> [t]) else [])"
  by (auto simp: attempt_times_def executed_attempts_def map_filter_def split: option.splits)

lemma tally_newest: "lastAttempt (tally_of ref ds) = newest (attempt_times ref ds)"
proof (induction ds rule: rev_induct)
  case Nil
  show ?case by (simp add: tally_of_def attempt_times_def executed_attempts_def map_filter_def newest_def)
next
  case (snoc d ds)
  show ?case
    unfolding tally_snoc lastAttempt_step snoc times_snoc
    by (cases "date_parse (de_createdAt d)") (simp_all add: later_newest)
qed

lemmas tally_last = tally_newest [unfolded newest_def]

text \<open>
  The verdict in terms of the record: an origin is dispatched or put on cooldown exactly while its
  executed attempts are below the cap; at the cap it escalates, with the number of attempts, until an
  escalation for it has been executed and holds from then on; below the cap it waits exactly while
  less than the cooldown has passed since its latest readable attempt.
\<close>

theorem dispatch_verdict_meaning:
  "dispatchVerdict ref now ds policy =
     (let n = length (executed_attempts ref ds); ts = attempt_times ref ds in
      if n < maxAttempts policy then
        (case date_parse now of
           Some t \<Rightarrow> (if ts \<noteq> [] \<and> t - Max (set ts) < cooldownMs policy then VCooldown else VDispatch)
         | None \<Rightarrow> VDispatch)
      else if executed_escalations ref ds = [] then VEscalate n else VHold)"
  by (auto simp: dispatchVerdict_def tally_attempts tally_escalated tally_last Let_def split: option.splits)

lemma dispatchVerdict_dispatch:
  "dispatchVerdict ref now ds policy = VDispatch \<Longrightarrow>
     length (executed_attempts ref ds) < maxAttempts policy \<and>
     (\<forall>t l. date_parse now = Some t \<longrightarrow> l \<in> set (attempt_times ref ds) \<longrightarrow> cooldownMs policy \<le> t - l)"
proof -
  assume v: "dispatchVerdict ref now ds policy = VDispatch"
  have le: "l \<in> set (attempt_times ref ds) \<Longrightarrow> l \<le> Max (set (attempt_times ref ds))" for l by simp
  show ?thesis
  proof (intro conjI allI impI)
    show "length (executed_attempts ref ds) < maxAttempts policy"
      using v by (auto simp: dispatchVerdict_def tally_attempts Let_def split: if_splits)
    fix t l assume "date_parse now = Some t" and l: "l \<in> set (attempt_times ref ds)"
    with v have "\<not> t - Max (set (attempt_times ref ds)) < cooldownMs policy"
      by (auto simp: dispatchVerdict_def tally_last Let_def split: if_splits)
    with le [OF l] show "cooldownMs policy \<le> t - l" by linarith
  qed
qed

lemma dispatchVerdict_escalate:
  "dispatchVerdict ref now ds policy = VEscalate n \<Longrightarrow>
     maxAttempts policy \<le> length (executed_attempts ref ds) \<and> executed_escalations ref ds = []"
  by (auto simp: dispatchVerdict_def tally_attempts tally_escalated Let_def split: if_splits option.splits)

section \<open>A harness that obeys the verdict\<close>

text \<open>
  A pulse at time \<open>t\<close> appends what the verdict asks for, or a decision about something else. The clock
  of the record never runs backwards.
\<close>

definition clock_at :: "decision list \<Rightarrow> int \<Rightarrow> bool" where
  "clock_at ds t \<longleftrightarrow> list_all (\<lambda>d. case date_parse (de_createdAt d) of None \<Rightarrow> True | Some s \<Rightarrow> s \<le> t) ds"

inductive obey :: "string \<Rightarrow> cooldown_policy \<Rightarrow> decision list \<Rightarrow> decision list \<Rightarrow> bool"
  for ref policy where
  attempt: "clock_at ds t \<Longrightarrow> dispatchVerdict ref (Instant t) ds policy = VDispatch \<Longrightarrow>
     isAttempt (de_action d) ref \<Longrightarrow> de_createdAt d = Instant t \<Longrightarrow> obey ref policy ds (ds @ [d])"
| escalate: "clock_at ds t \<Longrightarrow> dispatchVerdict ref (Instant t) ds policy = VEscalate n \<Longrightarrow>
     isEscalation (de_action d) ref \<Longrightarrow> de_createdAt d = Instant t \<Longrightarrow> obey ref policy ds (ds @ [d])"
| elsewhere: "clock_at ds t \<Longrightarrow> \<not> isAttempt (de_action d) ref \<Longrightarrow> \<not> isEscalation (de_action d) ref \<Longrightarrow>
     de_createdAt d = Instant t \<Longrightarrow> obey ref policy ds (ds @ [d])"

inductive_cases obeyE: "obey ref policy ds es"

definition paced :: "int \<Rightarrow> int list \<Rightarrow> bool" where
  "paced c ts \<longleftrightarrow> sorted_wrt (\<lambda>s t. c \<le> t - s) ts"

definition obey_inv :: "string \<Rightarrow> cooldown_policy \<Rightarrow> decision list \<Rightarrow> bool" where
  "obey_inv ref policy ds \<longleftrightarrow>
     length (executed_attempts ref ds) \<le> maxAttempts policy \<and>
     length (executed_escalations ref ds) \<le> 1 \<and>
     paced (cooldownMs policy) (attempt_times ref ds)"

lemma attempts_snoc:
  "executed_attempts ref (ds @ [d]) =
     executed_attempts ref ds @ (if de_outcome d = Executed \<and> isAttempt (de_action d) ref then [d] else [])"
  by (simp add: executed_attempts_def)

lemma escalations_snoc:
  "executed_escalations ref (ds @ [d]) =
     executed_escalations ref ds @ (if de_outcome d = Executed \<and> isEscalation (de_action d) ref then [d] else [])"
  by (simp add: executed_escalations_def)

lemma clock_times: "clock_at ds t \<Longrightarrow> s \<in> set (attempt_times ref ds) \<Longrightarrow> s \<le> t"
  by (auto simp: clock_at_def attempt_times_def executed_attempts_def map_filter_def list_all_iff
      split: option.splits)

lemma paced_snoc: "paced c (ts @ [t]) \<longleftrightarrow> paced c ts \<and> (\<forall>s \<in> set ts. c \<le> t - s)"
  by (simp only: paced_def sorted_wrt_append sorted_wrt.simps list.set) blast

lemma inv_attempt:
  assumes inv: "obey_inv ref policy ds" and v: "dispatchVerdict ref (Instant t) ds policy = VDispatch"
    and a: "isAttempt (de_action d) ref" and c: "de_createdAt d = Instant t"
  shows "obey_inv ref policy (ds @ [d])"
proof -
  have one: "executed_escalations ref (ds @ [d]) = executed_escalations ref ds"
    using attempt_not_escalation [OF a, of ref] by (simp add: escalations_snoc)
  have two: "length (executed_attempts ref (ds @ [d])) \<le> maxAttempts policy"
    using dispatchVerdict_dispatch [OF v] by (simp add: attempts_snoc)
  have "\<forall>s \<in> set (attempt_times ref ds). cooldownMs policy \<le> t - s"
    using dispatchVerdict_dispatch [OF v] by (simp only: date_parse.simps) blast
  then have "paced (cooldownMs policy) (attempt_times ref ds @ [t])"
    using inv by (simp only: paced_snoc obey_inv_def simp_thms)
  then have "paced (cooldownMs policy) (attempt_times ref (ds @ [d]))"
    using inv c by (cases "de_outcome d = Executed \<and> isAttempt (de_action d) ref") (simp_all only: times_snoc obey_inv_def date_parse.simps option.case if_True if_False append_Nil2 simp_thms)
  with one two inv show ?thesis by (simp add: obey_inv_def)
qed

lemma inv_escalate:
  assumes "obey_inv ref policy ds" and "dispatchVerdict ref (Instant t) ds policy = VEscalate n"
    and "isEscalation (de_action d) ref"
  shows "obey_inv ref policy (ds @ [d])"
proof -
  have "\<not> isAttempt (de_action d) ref" using assms(3) attempt_not_escalation by blast
  with assms(1) dispatchVerdict_escalate [OF assms(2)] show ?thesis
    by (auto simp: obey_inv_def attempts_snoc escalations_snoc times_snoc)
qed

lemma inv_elsewhere:
  "obey_inv ref policy ds \<Longrightarrow> \<not> isAttempt (de_action d) ref \<Longrightarrow> \<not> isEscalation (de_action d) ref \<Longrightarrow>
     obey_inv ref policy (ds @ [d])"
  by (simp add: obey_inv_def attempts_snoc escalations_snoc times_snoc)

lemma obey_step_inv: "obey ref policy ds es \<Longrightarrow> obey_inv ref policy ds \<Longrightarrow> obey_inv ref policy es"
  by (induction rule: obey.induct) (blast intro: inv_attempt inv_escalate inv_elsewhere)+

lemma obey_run_inv: "(obey ref policy)\<^sup>*\<^sup>* ds es \<Longrightarrow> obey_inv ref policy ds \<Longrightarrow> obey_inv ref policy es"
  by (induction rule: rtranclp_induct) (auto intro: obey_step_inv)

lemma obey_inv_empty: "obey_inv ref policy []"
  by (simp add: obey_inv_def executed_attempts_def executed_escalations_def attempt_times_def
      map_filter_def paced_def)



end
