(* ===== verification/PlanParts.thy ===== *)
theory PlanParts
  imports Samples
begin

text \<open>
  The parts of a plan: \<^verbatim>\<open>src/src/plans/parts.ts\<close>, \<^verbatim>\<open>planWedge.ts\<close>, \<^verbatim>\<open>partGroup.ts\<close>, \<^verbatim>\<open>scopeDrift.ts\<close> and the
  refusals of \<^verbatim>\<open>partRestart.ts\<close>. A part's dependencies are slugs, resolved through an index of the
  plan's parts; what a part branches from, how deep it stacks, what its pull request says of it and
  whether a plan is wedged are read off that index. The depth of a part is computed by a memoised
  walk with a cycle guard, proved equal to the height it stands for on every acyclic plan.
\<close>

section \<open>Naming and lookup\<close>

definition partOrigin :: "nat \<Rightarrow> string \<Rightarrow> string" where
  "partOrigin n slug = issueOriginRef PartFam n (Some slug)"

definition partBranch :: "nat \<Rightarrow> string \<Rightarrow> string" where
  "partBranch n slug = ''issue/'' @ show_nat n @ ''/'' @ slug"

definition planIssueNumber :: "string \<Rightarrow> nat option" where
  "planIssueNumber ref = issueOriginNumber Root ref"

type_synonym part_index = "(string, plan_part) jsmap"

definition bySlug :: "plan_part list \<Rightarrow> part_index" where
  "bySlug parts = index_by pp_slug parts"

definition dependenciesOf :: "plan_part \<Rightarrow> part_index \<Rightarrow> plan_part list" where
  "dependenciesOf p idx = List.map_filter (map_of idx) (pp_dependsOn p)"

section \<open>The state of a part\<close>

definition partSettled :: "plan_part \<Rightarrow> bool" where
  "partSettled p \<longleftrightarrow> pp_status p = PartMerged \<or> pp_status p = PartConcluded"

definition partIsHuman :: "plan_part \<Rightarrow> bool" where
  "partIsHuman p \<longleftrightarrow> pp_expectedKind p = Some KindHuman"

definition partOpensPr :: "plan_part \<Rightarrow> bool" where
  "partOpensPr p \<longleftrightarrow> pp_expectedKind p = None \<or> pp_expectedKind p = Some KindCode"

definition partOutcomeKind :: "plan_part \<Rightarrow> outcome_kind option" where
  "partOutcomeKind p =
     (if pp_status p = PartMerged then Some KindCode
      else if pp_status p = PartConcluded then pp_outcomeKind p else None)"

definition liveParts :: "plan_part list \<Rightarrow> plan_part list" where
  "liveParts parts = filter (\<lambda>p. pp_status p \<noteq> PartRetired) parts"

definition planInFlight :: "plan \<Rightarrow> bool" where
  "planInFlight pl \<longleftrightarrow> pl_status pl = Active \<or> pl_status pl = Planning \<or> pl_status pl = AwaitingApproval"

definition dependencySatisfied :: "plan_part \<Rightarrow> (plan_part \<Rightarrow> bool) \<Rightarrow> bool" where
  "dependencySatisfied dep pushed =
     (if partSettled dep then True
      else if pp_status dep = PartDispatched \<or> pp_status dep = PartInReview then pushed dep
      else False)"

definition partBase :: "plan_part \<Rightarrow> part_index \<Rightarrow> nat \<Rightarrow> string \<Rightarrow> string" where
  "partBase p idx n defaultBranch =
     (case find (\<lambda>d. \<not> partSettled d) (dependenciesOf p idx) of
        None \<Rightarrow> defaultBranch
      | Some dep \<Rightarrow> default_to (partBranch n (pp_slug dep)) (pp_branch dep))"

definition planProgress :: "plan_part list \<Rightarrow> nat \<times> nat" where
  "planProgress parts = (let live = liveParts parts in (length (filter partSettled live), length live))"

definition partHasWork :: "plan_part \<Rightarrow> bool" where
  "partHasWork p \<longleftrightarrow> pp_status p = PartDispatched \<or> pp_status p = PartInReview \<or> partSettled p"

definition partsToRetire :: "plan_part list \<Rightarrow> string list \<Rightarrow> plan_part list" where
  "partsToRetire existing declared =
     filter (\<lambda>p. pp_slug p \<notin> set declared \<and> pp_status p \<noteq> PartRetired \<and> \<not> partHasWork p) existing"

section \<open>The depth of a part\<close>

definition index_parts :: "part_index \<Rightarrow> plan_part set" where
  "index_parts idx = ran (map_of idx)"

lemma finite_index_parts [simp]: "finite (index_parts idx)"
  by (simp add: index_parts_def finite_ran finite_dom_map_of)

lemma dependenciesOf_in_index: "d \<in> set (dependenciesOf p idx) \<Longrightarrow> d \<in> index_parts idx"
  by (auto simp: dependenciesOf_def index_parts_def map_filter_def ran_def)

lemma card_walk_less:
  "finite S \<Longrightarrow> s \<notin> set w \<Longrightarrow> T \<subseteq> S \<Longrightarrow> card (T - insert s (set w)) < card (insert s S - set w)"
  by (rule psubset_card_mono) auto

lemma card_step_less: "finite B \<Longrightarrow> A \<subseteq> B \<Longrightarrow> card A \<noteq> card B \<Longrightarrow> card A < card B"
  by (meson card_mono le_neq_implies_less)

lemma card_deps_less:
  "s \<notin> set w \<Longrightarrow> card (pp_slug ` index_parts idx \<union> pp_slug ` set (dependenciesOf p idx) - insert s (set w))
     < card (insert s (pp_slug ` index_parts idx) - set w)"
  by (rule card_walk_less) (auto simp: dependenciesOf_in_index)

text \<open>
  The walk of \<^verbatim>\<open>partDepth\<close>: \<open>walking\<close> is the set of slugs on the current path, \<open>depths\<close> the memo.
\<close>

function depthOf :: "part_index \<Rightarrow> plan_part \<Rightarrow> string list \<Rightarrow> (string, nat) jsmap \<Rightarrow> nat \<times> (string, nat) jsmap"
  and deepestOf :: "part_index \<Rightarrow> plan_part list \<Rightarrow> string list \<Rightarrow> nat \<Rightarrow> (string, nat) jsmap \<Rightarrow> nat \<times> (string, nat) jsmap"
where
  "depthOf idx current walking depths =
     (case map_of depths (pp_slug current) of
        Some cached \<Rightarrow> (cached, depths)
      | None \<Rightarrow>
          (if pp_slug current \<in> set walking then (0, depths)
           else let (deepest, depths') = deepestOf idx (dependenciesOf current idx) (pp_slug current # walking) 0 depths
                in (deepest, map_put (pp_slug current) deepest depths')))"
| "deepestOf idx [] walking deepest depths = (deepest, depths)"
| "deepestOf idx (dep # deps) walking deepest depths =
     (let (d, depths') = depthOf idx dep walking depths
      in deepestOf idx deps walking (max deepest (d + 1)) depths')"
  by pat_completeness auto

termination
proof (relation "measures [\<lambda>x. case x of
      Inl (idx, p, w, m) \<Rightarrow> card (insert (pp_slug p) (pp_slug ` index_parts idx) - set w)
    | Inr (idx, ps, w, d, m) \<Rightarrow> card ((pp_slug ` index_parts idx \<union> pp_slug ` set ps) - set w),
    \<lambda>x. case x of Inl _ \<Rightarrow> 0 | Inr (idx, ps, w, d, m) \<Rightarrow> Suc (length ps)]")
qed (auto simp: card_deps_less intro!: card_step_less)

declare depthOf.simps [simp del]

definition partDepth :: "plan_part \<Rightarrow> part_index \<Rightarrow> nat" where
  "partDepth p idx = fst (depthOf idx p [] [])"

text \<open>The height the walk stands for, over a bounded number of levels.\<close>

fun part_height :: "part_index \<Rightarrow> nat \<Rightarrow> plan_part \<Rightarrow> nat" where
  "part_height idx 0 p = 0"
| "part_height idx (Suc k) p = foldl (\<lambda>a q. max a (part_height idx k q + 1)) 0 (dependenciesOf p idx)"

text \<open>A plan without a dependency cycle: some rank falls along every dependency.\<close>

definition ranked :: "(string \<Rightarrow> nat) \<Rightarrow> part_index \<Rightarrow> bool" where
  "ranked r idx \<longleftrightarrow>
     (\<forall>p \<in> index_parts idx. map_of idx (pp_slug p) = Some p \<and>
        (\<forall>d \<in> set (dependenciesOf p idx). r (pp_slug d) < r (pp_slug p)))"

lemma foldl_max_cong:
  "(\<And>q. q \<in> set qs \<Longrightarrow> f q = (g q :: nat)) \<Longrightarrow>
     foldl (\<lambda>a q. max a (f q + 1)) x qs = foldl (\<lambda>a q. max a (g q + 1)) x qs"
  by (induction qs arbitrary: x) auto

lemma ranked_dep:
  "ranked r idx \<Longrightarrow> p \<in> index_parts idx \<Longrightarrow> d \<in> set (dependenciesOf p idx) \<Longrightarrow>
     d \<in> index_parts idx \<and> r (pp_slug d) < r (pp_slug p)"
  by (auto simp: ranked_def dependenciesOf_in_index)

lemma part_height_stable:
  assumes "ranked r idx" and "p \<in> index_parts idx" and "r (pp_slug p) \<le> k" and "k \<le> k'"
  shows "part_height idx k' p = part_height idx k p"
  using assms(2-4)
proof (induction k arbitrary: p k')
  case 0
  have "dependenciesOf p idx = []"
    using ranked_dep [OF assms(1) 0(1)] 0(2)
    by (metis bot_nat_0.extremum_strict le_zero_eq list.set_intros(1) neq_Nil_conv)
  then show ?case by (cases k') auto
next
  case (Suc k)
  then obtain l where k': "k' = Suc l" "k \<le> l" by (cases k') auto
  have "part_height idx l q = part_height idx k q" if "q \<in> set (dependenciesOf p idx)" for q
    using ranked_dep [OF assms(1) Suc.prems(1) that] Suc.prems(2) k'(2) by (intro Suc.IH) auto
  then show ?case by (simp add: k'(1) cong: foldl_max_cong foldl_cong)
qed

definition height :: "(string \<Rightarrow> nat) \<Rightarrow> part_index \<Rightarrow> plan_part \<Rightarrow> nat" where
  "height r idx p = part_height idx (r (pp_slug p)) p"

lemma height_rec:
  assumes "ranked r idx" and "p \<in> index_parts idx"
  shows "height r idx p = foldl (\<lambda>a q. max a (height r idx q + 1)) 0 (dependenciesOf p idx)"
proof -
  have "height r idx p = part_height idx (Suc (r (pp_slug p))) p"
    unfolding height_def by (rule part_height_stable [OF assms, symmetric]) auto
  also have "\<dots> = foldl (\<lambda>a q. max a (height r idx q + 1)) 0 (dependenciesOf p idx)"
    unfolding part_height.simps height_def
  proof (rule foldl_max_cong)
    fix q assume "q \<in> set (dependenciesOf p idx)"
    then show "part_height idx (r (pp_slug p)) q = part_height idx (r (pp_slug q)) q"
      using ranked_dep [OF assms] by (intro part_height_stable [OF assms(1)]) (auto intro: less_imp_le)
  qed
  finally show ?thesis .
qed

definition memo_ok :: "(string \<Rightarrow> nat) \<Rightarrow> part_index \<Rightarrow> (string, nat) jsmap \<Rightarrow> bool" where
  "memo_ok r idx m \<longleftrightarrow>
     (\<forall>s v. map_of m s = Some v \<longrightarrow> (\<exists>p. map_of idx s = Some p \<and> v = height r idx p))"

lemma depthOf_is_height:
  assumes "ranked r idx"
  shows "p \<in> index_parts idx \<Longrightarrow> (\<forall>s \<in> set w. r (pp_slug p) < r s) \<Longrightarrow> memo_ok r idx m \<Longrightarrow>
      fst (depthOf idx p w m) = height r idx p \<and> memo_ok r idx (snd (depthOf idx p w m))"
    and "set ps \<subseteq> index_parts idx \<Longrightarrow> (\<forall>q \<in> set ps. \<forall>s \<in> set w. r (pp_slug q) < r s) \<Longrightarrow> memo_ok r idx m \<Longrightarrow>
      fst (deepestOf idx ps w x m) = foldl (\<lambda>a q. max a (height r idx q + 1)) x ps
      \<and> memo_ok r idx (snd (deepestOf idx ps w x m))"
  using assms
proof (induction idx p w m and idx ps w x m rule: depthOf_deepestOf.induct)
  case (1 idx current walking depths)
  have key: "map_of idx (pp_slug current) = Some current"
    using 1(2,5) by (simp add: ranked_def)
  show ?case
  proof (cases "map_of depths (pp_slug current)")
    case (Some v)
    with 1(4) key have "v = height r idx current" unfolding memo_ok_def by fastforce
    with Some 1(4) show ?thesis by (simp add: depthOf.simps)
  next
    case None
    have fresh: "pp_slug current \<notin> set walking" using 1(3) by blast
    have deps: "set (dependenciesOf current idx) \<subseteq> index_parts idx"
      by (auto simp: dependenciesOf_in_index)
    have below: "\<forall>q \<in> set (dependenciesOf current idx). \<forall>s \<in> set (pp_slug current # walking). r (pp_slug q) < r s"
      using ranked_dep [OF 1(5) 1(2)] 1(3) by (auto intro: less_trans)
    obtain d m' where dm: "deepestOf idx (dependenciesOf current idx) (pp_slug current # walking) 0 depths = (d, m')"
      by fastforce
    with 1(1) [OF None fresh deps below 1(4,5)]
    have d: "d = height r idx current" and m': "memo_ok r idx m'"
      using height_rec [OF 1(5) 1(2)] by auto
    then show ?thesis
      using None fresh dm key by (auto simp: depthOf.simps memo_ok_def map_of_map_put)
  qed
next
  case (2 idx walking deepest depths)
  then show ?case by simp
next
  case (3 idx dep deps walking deepest depths)
  obtain d m' where dm: "depthOf idx dep walking depths = (d, m')" by fastforce
  have "fst (depthOf idx dep walking depths) = height r idx dep \<and> memo_ok r idx (snd (depthOf idx dep walking depths))"
    using 3(3-6) by (intro 3(1)) auto
  with dm have d: "d = height r idx dep" and m': "memo_ok r idx m'" by auto
  show ?case
    using 3(2) [OF dm [symmetric] refl] 3(3-6) m' by (auto simp: dm d)
qed

lemma partDepth_height:
  "ranked r idx \<Longrightarrow> p \<in> index_parts idx \<Longrightarrow> partDepth p idx = height r idx p"
  using depthOf_is_height(1) [of r idx p "[]" "[]"] by (simp add: partDepth_def memo_ok_def)

lemma partDepth_rec:
  assumes "ranked r idx" and "p \<in> index_parts idx"
  shows "partDepth p idx = foldl (\<lambda>a q. max a (partDepth q idx + 1)) 0 (dependenciesOf p idx)"
proof -
  have "height r idx q = partDepth q idx" if "q \<in> set (dependenciesOf p idx)" for q
    using partDepth_height [OF assms(1)] dependenciesOf_in_index [OF that] by simp
  then have "foldl (\<lambda>a q. max a (height r idx q + 1)) 0 (dependenciesOf p idx)
      = foldl (\<lambda>a q. max a (partDepth q idx + 1)) 0 (dependenciesOf p idx)"
    by (rule foldl_max_cong)
  then show ?thesis
    using height_rec [OF assms] partDepth_height [OF assms] by simp
qed

lemma foldl_max_bounds:
  "(x :: nat) \<le> foldl (\<lambda>a q. max a (f q + 1)) x qs \<and>
   (\<forall>q \<in> set qs. f q < foldl (\<lambda>a q. max a (f q + 1)) x qs) \<and>
   (foldl (\<lambda>a q. max a (f q + 1)) x qs = x \<or> (\<exists>q \<in> set qs. foldl (\<lambda>a q. max a (f q + 1)) x qs = f q + 1))"
proof (induction qs arbitrary: x)
  case (Cons q qs)
  from Cons [of "max x (f q + 1)"] show ?case by (auto simp: max_def split: if_splits)
qed simp

lemma bySlug_part:
  assumes "distinct (map pp_slug parts)" and "p \<in> set parts"
  shows "map_of (bySlug parts) (pp_slug p) = Some p"
proof -
  have "find (\<lambda>x. pp_slug x = pp_slug p) parts = Some p"
    using assms by (induction parts) (auto simp: rev_image_eqI)
  then show ?thesis by (simp add: bySlug_def index_by_lookup_distinct [OF assms(1)])
qed

lemma bySlug_parts: "distinct (map pp_slug parts) \<Longrightarrow> index_parts (bySlug parts) = set parts"
  by (auto simp: index_parts_def ran_def bySlug_part bySlug_def dest: index_by_Some)
     (metis bySlug_def bySlug_part)

text \<open>
  C27. On a plan whose dependencies form no cycle the memoised walk computes the height of a part: zero
  for a part that depends on nothing, and otherwise one more than the deepest part it depends on. In
  particular a part sits strictly above everything it depends on.
\<close>

theorem part_depth_is_height:
  assumes "distinct (map pp_slug parts)" and "ranked r (bySlug parts)" and "p \<in> set parts"
  shows "(dependenciesOf p (bySlug parts) = [] \<longrightarrow> partDepth p (bySlug parts) = 0) \<and>
    (\<forall>d \<in> set (dependenciesOf p (bySlug parts)). partDepth d (bySlug parts) < partDepth p (bySlug parts)) \<and>
    (dependenciesOf p (bySlug parts) \<noteq> [] \<longrightarrow>
      (\<exists>d \<in> set (dependenciesOf p (bySlug parts)). partDepth p (bySlug parts) = partDepth d (bySlug parts) + 1))"
proof -
  have "p \<in> index_parts (bySlug parts)" using assms by (simp add: bySlug_parts)
  note rec = partDepth_rec [OF assms(2) this]
  show ?thesis
    using foldl_max_bounds [of 0 "\<lambda>q. partDepth q (bySlug parts)" "dependenciesOf p (bySlug parts)"]
    unfolding rec [symmetric] by (auto simp: rec)
qed

lemma sample_ranked:
  "ranked (\<lambda>s. length s) (bySlug [part0 ''a'' [], part0 ''bb'' [''a''], part0 ''ccc'' [''a'', ''bb'']])"
  by (auto simp: ranked_def index_parts_def bySlug_def index_by_def map_from_def dependenciesOf_def
      map_filter_def part0_def ran_def split: if_splits)

theorem part_depth_is_height_witness:
  "partDepth (part0 ''ccc'' [''a'', ''bb'']) (bySlug [part0 ''a'' [], part0 ''bb'' [''a''], part0 ''ccc'' [''a'', ''bb'']]) >
   partDepth (part0 ''bb'' [''a'']) (bySlug [part0 ''a'' [], part0 ''bb'' [''a''], part0 ''ccc'' [''a'', ''bb'']])"
  using part_depth_is_height [OF _ sample_ranked, of "part0 ''ccc'' [''a'', ''bb'']"]
  by (auto simp: part0_def dependenciesOf_def map_filter_def bySlug_def index_by_def map_from_def)

section \<open>What a pull request says of its part\<close>

text \<open>A \<^verbatim>\<open>Partial<PlanPart>\<close>: the fields a fold of an observation may set.\<close>

record part_patch =
  pt_status :: "part_status option"
  pt_branch :: "string option"
  pt_prNumber :: "nat option option"
  pt_blockedReason :: "blocked_reason option option"
  pt_blockedBy :: "part_blocker option option"
  pt_taskId :: "string option option"

definition no_patch :: part_patch where
  "no_patch = \<lparr>pt_status = None, pt_branch = None, pt_prNumber = None, pt_blockedReason = None, pt_blockedBy = None, pt_taskId = None\<rparr>"

definition pr_patch :: "part_status \<Rightarrow> string \<Rightarrow> nat option \<Rightarrow> part_patch" where
  "pr_patch st branch n = no_patch\<lparr>pt_status := Some st, pt_branch := Some branch, pt_prNumber := Some n\<rparr>"

definition apply_patch :: "plan_part \<Rightarrow> part_patch \<Rightarrow> plan_part" where
  "apply_patch p c = p\<lparr>
     pp_status := default_to (pp_status p) (pt_status c),
     pp_branch := (case pt_branch c of None \<Rightarrow> pp_branch p | Some b \<Rightarrow> Some b),
     pp_prNumber := default_to (pp_prNumber p) (pt_prNumber c),
     pp_blockedReason := default_to (pp_blockedReason p) (pt_blockedReason c),
     pp_blockedBy := default_to (pp_blockedBy p) (pt_blockedBy c),
     pp_taskId := default_to (pp_taskId p) (pt_taskId c)\<rparr>"

definition prState :: "pull_request \<Rightarrow> pr_lifecycle" where
  "prState pr = (case pr_stated pr of Some s \<Rightarrow> s | None \<Rightarrow> if pr_merged pr then PrMerged else PrOpen)"

definition observePartPr ::
  "plan_part \<Rightarrow> string \<Rightarrow> pull_request list \<Rightarrow> pull_request list \<Rightarrow> part_patch option" where
  "observePartPr p branch openPrs closedPrs =
     (case or_else (find (\<lambda>x. pr_branch x = branch) openPrs)
                   (find (\<lambda>x. Some (pr_number x) = pp_prNumber p) openPrs) of
        Some x \<Rightarrow> Some (pr_patch (if pr_merged x then PartMerged else PartInReview) branch (Some (pr_number x)))
      | None \<Rightarrow>
     (case find (\<lambda>x. prState x = PrMerged \<and> (pr_branch x = branch \<or> Some (pr_number x) = pp_prNumber p)) closedPrs of
        Some x \<Rightarrow> Some (pr_patch PartMerged branch (Some (pr_number x)))
      | None \<Rightarrow>
     (if pp_prNumber p \<noteq> None \<and>
         find (\<lambda>x. Some (pr_number x) = pp_prNumber p \<and> prState x = PrClosed) closedPrs \<noteq> None
      then Some (pr_patch PartReady branch None)
      else if pp_status p = PartInReview \<and> pp_prNumber p \<noteq> None
      then Some (no_patch\<lparr>pt_status := Some PartMerged\<rparr>)
      else None)))"

section \<open>A wedged plan\<close>

definition isMoving :: "plan_part \<Rightarrow> bool" where
  "isMoving p \<longleftrightarrow> pp_status p = PartReady \<or> pp_status p = PartDispatched \<or> pp_status p = PartInReview"

definition planIsWedged :: "plan_part list \<Rightarrow> bool" where
  "planIsWedged parts =
     (let live = liveParts parts in
      if live = [] then False
      else if \<not> list_ex (\<lambda>p. pp_status p = PartBlocked) live then False
      else if list_ex isMoving live then False
      else list_ex (\<lambda>p. \<not> partSettled p \<and> (pp_status p \<noteq> PartBlocked \<or> pp_blockedBy p \<noteq> Some Declined)) live)"

definition wedgeReasons :: "plan_part list \<Rightarrow> blocked_reason list" where
  "wedgeReasons parts = uniq (List.map_filter pp_blockedReason (liveParts parts))"

definition unclaimedIssuePrs :: "issue \<Rightarrow> plan_part list \<Rightarrow> pull_request list \<Rightarrow> pull_request list" where
  "unclaimedIssuePrs i parts openPrs =
     (let flat = issue_branch (i_number i); live = liveParts parts;
          claimed = (\<lambda>pr. list_ex (\<lambda>p. pp_prNumber p = Some (pr_number pr) \<or>
             pr_branch pr = default_to (partBranch (i_number i) (pp_slug p)) (pp_branch p)) live)
      in filter (\<lambda>pr. \<not> pr_merged pr \<and> \<not> claimed pr \<and>
           (pr_branch pr = flat \<or> Some (pr_number pr) = i_linkedPr i)) openPrs)"

datatype part_group = GroupMerged | GroupNow | GroupHeld | GroupWaiting

fun PART_GROUP :: "part_status \<Rightarrow> part_group option" where
  "PART_GROUP PartMerged = Some GroupMerged"
| "PART_GROUP PartConcluded = Some GroupMerged"
| "PART_GROUP PartDispatched = Some GroupNow"
| "PART_GROUP PartInReview = Some GroupNow"
| "PART_GROUP PartBlocked = Some GroupHeld"
| "PART_GROUP PartReady = Some GroupWaiting"
| "PART_GROUP PartPending = Some GroupWaiting"
| "PART_GROUP PartRetired = None"

definition askedPart :: "string \<Rightarrow> string option" where
  "askedPart ref = map_option snd (issueOriginId PartFam ref)"

section \<open>Restarting a part\<close>

datatype restart_refusal =
    AlreadyFinished string part_status | NoPullRequest string | AgentWorking string | CannotClosePr nat

definition liveAgent :: "plan_part \<Rightarrow> task list \<Rightarrow> task option" where
  "liveAgent p tasks = find (\<lambda>t. isActiveTask t \<and>
     (Some (tk_id t) = pp_taskId p \<or> (pp_branch p \<noteq> None \<and> tk_branch t = pp_branch p))) tasks"

definition partRestartRefusal :: "plan_part \<Rightarrow> task list \<Rightarrow> bool \<Rightarrow> restart_refusal option" where
  "partRestartRefusal p tasks canClosePr =
     (if partSettled p then Some (AlreadyFinished (pp_slug p) (pp_status p))
      else case pp_prNumber p of
        None \<Rightarrow> Some (NoPullRequest (pp_slug p))
      | Some n \<Rightarrow>
          (if liveAgent p tasks \<noteq> None then Some (AgentWorking (pp_slug p))
           else if \<not> canClosePr then Some (CannotClosePr n) else None))"

section \<open>Acceptance criteria\<close>

text \<open>\<^verbatim>\<open>line.replace(/^\s*(?:[-*+]|\d+[.)])\s+/, '')\<close>.\<close>

definition strip_bullet :: "string \<Rightarrow> string" where
  "strip_bullet line =
     (let body = dropWhile is_space line;
          after = (case body of
              [] \<Rightarrow> None
            | c # r \<Rightarrow>
                (if c \<in> set ''-*+'' then Some r
                 else if is_digit c then
                   (case dropWhile is_digit body of
                      d # r' \<Rightarrow> (if d \<in> set ''.)'' then Some r' else None) | [] \<Rightarrow> None)
                 else None))
      in case after of
           None \<Rightarrow> line
         | Some [] \<Rightarrow> line
         | Some (c # r) \<Rightarrow> (if is_space c then dropWhile is_space r else line))"

record acceptance_criterion =
  ac_text :: string
  ac_met :: bool

definition acceptanceCriteria :: "plan_part \<Rightarrow> acceptance_criterion list" where
  "acceptanceCriteria p =
     (case pp_acceptance p of
        None \<Rightarrow> []
      | Some acceptance \<Rightarrow>
          map (\<lambda>t. \<lparr>ac_text = t, ac_met = t \<in> set (pp_acceptanceMet p)\<rparr>)
            (filter (\<lambda>t. t \<noteq> '''')
              (map (\<lambda>line. trim (strip_bullet line)) (split_on (CHR 0x0A) acceptance))))"

section \<open>Scope drift\<close>

record agent_file =
  af_agentId :: string
  af_path :: string
  af_at :: int

record scope_drift =
  sd_partId :: string
  sd_paths :: "string list"

definition normalise_path :: "string \<Rightarrow> string" where
  "normalise_path path =
     (let slashed = map (\<lambda>c. if c = CHR 0x5C then CHR ''/'' else c) path;
          undotted = (if starts_with ''./'' slashed then drop 2 slashed else slashed);
          trimmed = trim (dropWhile (\<lambda>c. c = CHR ''/'') undotted)
      in if trimmed = ''.'' then '''' else trimmed)"

definition strip_trailing_slashes :: "string \<Rightarrow> string" where
  "strip_trailing_slashes s = rev (dropWhile (\<lambda>c. c = CHR ''/'') (rev s))"

definition pathIsInside :: "string \<Rightarrow> string list \<Rightarrow> bool" where
  "pathIsInside path touches =
     list_ex (\<lambda>raw. let declared = strip_trailing_slashes (normalise_path raw) in
        if declared = '''' then True
        else path = declared \<or> starts_with (declared @ ''/'') path) touches"

definition written_by :: "nat \<Rightarrow> plan_part \<Rightarrow> task list \<Rightarrow> agent_file list \<Rightarrow> agent_file list" where
  "written_by n p tasks files =
     concat (map (\<lambda>agent. filter (\<lambda>f. af_agentId f = agent) files)
       (List.map_filter (\<lambda>t. if tk_originRef t = Some (partOrigin n (pp_slug p)) then tk_agentId t else None) tasks))"

definition drifted_paths :: "nat \<Rightarrow> plan_part \<Rightarrow> task list \<Rightarrow> agent_file list \<Rightarrow> string list" where
  "drifted_paths n p tasks files =
     uniq (filter (\<lambda>path. \<not> (path = '''' \<or> pathIsInside path (pp_touches p)))
       (map (\<lambda>f. normalise_path (af_path f)) (written_by n p tasks files)))"

definition planScopeDrift :: "nat \<Rightarrow> plan_part list \<Rightarrow> task list \<Rightarrow> agent_file list \<Rightarrow> scope_drift list" where
  "planScopeDrift n parts tasks files =
     filter (\<lambda>d. sd_paths d \<noteq> [])
       (map (\<lambda>p. \<lparr>sd_partId = pp_id p, sd_paths = drifted_paths n p tasks files\<rparr>)
         (filter (\<lambda>p. pp_touches p \<noteq> []) parts))"

lemma set_written_by:
  "f \<in> set (written_by n p tasks files) \<longleftrightarrow> f \<in> set files \<and>
     (\<exists>t \<in> set tasks. tk_originRef t = Some (partOrigin n (pp_slug p)) \<and> tk_agentId t = Some (af_agentId f))"
  by (auto simp: written_by_def map_filter_def split: if_splits)

lemma drift_reported:
  "(\<exists>d \<in> set (planScopeDrift n parts tasks files). sd_partId d = i \<and> path \<in> set (sd_paths d)) \<longleftrightarrow>
     (\<exists>q \<in> set parts. pp_touches q \<noteq> [] \<and> pp_id q = i \<and> path \<in> set (drifted_paths n q tasks files))"
  unfolding planScopeDrift_def by force

lemma drifted_iff:
  "path \<in> set (drifted_paths n p tasks files) \<longleftrightarrow> path \<noteq> '''' \<and> \<not> pathIsInside path (pp_touches p) \<and>
     (\<exists>f \<in> set files. \<exists>t \<in> set tasks. tk_originRef t = Some (partOrigin n (pp_slug p)) \<and>
        tk_agentId t = Some (af_agentId f) \<and> path = normalise_path (af_path f))"
proof -
  have "path \<in> set (drifted_paths n p tasks files) \<longleftrightarrow> path \<noteq> '''' \<and> \<not> pathIsInside path (pp_touches p) \<and>
     (\<exists>f \<in> set (written_by n p tasks files). path = normalise_path (af_path f))"
    by (auto simp: drifted_paths_def)
  then show ?thesis unfolding Bex_def set_written_by by blast
qed

text \<open>
  Scope drift is exact: a path is reported for a part if and only if some agent dispatched for
  that part wrote it and it lies outside every path the part declared, where a part that declared
  nothing has nothing reported; and every report names at least one path and none of them twice.
\<close>

theorem scope_drift_exact:
  assumes "p \<in> set parts" and "distinct (map pp_id parts)"
  shows "((\<exists>d \<in> set (planScopeDrift n parts tasks files). sd_partId d = pp_id p \<and> path \<in> set (sd_paths d)) \<longleftrightarrow>
    (pp_touches p \<noteq> [] \<and> path \<noteq> '''' \<and> \<not> pathIsInside path (pp_touches p) \<and>
     (\<exists>f \<in> set files. \<exists>t \<in> set tasks. tk_originRef t = Some (partOrigin n (pp_slug p)) \<and>
        tk_agentId t = Some (af_agentId f) \<and> path = normalise_path (af_path f)))) \<and>
    list_all (\<lambda>d. sd_paths d \<noteq> [] \<and> distinct (sd_paths d)) (planScopeDrift n parts tasks files)"
proof -
  have same: "q = p" if "q \<in> set parts" "pp_id q = pp_id p" for q
    using assms that by (metis distinct_map inj_onD)
  have "(\<exists>d \<in> set (planScopeDrift n parts tasks files). sd_partId d = pp_id p \<and> path \<in> set (sd_paths d))
      \<longleftrightarrow> pp_touches p \<noteq> [] \<and> path \<in> set (drifted_paths n p tasks files)"
    unfolding drift_reported using same assms(1) by metis
  then have "(\<exists>d \<in> set (planScopeDrift n parts tasks files). sd_partId d = pp_id p \<and> path \<in> set (sd_paths d)) \<longleftrightarrow>
    (pp_touches p \<noteq> [] \<and> path \<noteq> '''' \<and> \<not> pathIsInside path (pp_touches p) \<and>
     (\<exists>f \<in> set files. \<exists>t \<in> set tasks. tk_originRef t = Some (partOrigin n (pp_slug p)) \<and>
        tk_agentId t = Some (af_agentId f) \<and> path = normalise_path (af_path f)))"
    unfolding drifted_iff by blast
  moreover have "list_all (\<lambda>d. sd_paths d \<noteq> [] \<and> distinct (sd_paths d)) (planScopeDrift n parts tasks files)"
    by (auto simp: list_all_iff planScopeDrift_def drifted_paths_def)
  ultimately show ?thesis by blast
qed

theorem scope_drift_exact_witness:
  "\<exists>d \<in> set (planScopeDrift 7 [part0 ''api'' [] \<lparr>pp_touches := [''src/api/'']\<rparr>]
       [task0 ''t'' TRunning \<lparr>tk_originRef := Some (partOrigin 7 ''api''), tk_agentId := Some ''g''\<rparr>]
       [\<lparr>af_agentId = ''g'', af_path = ''./src/web/x.ts'', af_at = 0\<rparr>]).
     sd_partId d = ''api'' \<and> ''src/web/x.ts'' \<in> set (sd_paths d)"
proof -
  let ?p = "part0 ''api'' [] \<lparr>pp_touches := [''src/api/'']\<rparr>"
  have out: "\<not> pathIsInside ''src/web/x.ts'' [''src/api/'']" by code_simp
  have norm: "normalise_path ''./src/web/x.ts'' = ''src/web/x.ts''" by code_simp
  have p: "pp_touches ?p = [''src/api/'']" "pp_id ?p = ''api''" "pp_slug ?p = ''api''"
    by (simp_all add: part0_def)
  show ?thesis
    using scope_drift_exact [of ?p "[?p]" 7
      "[task0 ''t'' TRunning \<lparr>tk_originRef := Some (partOrigin 7 ''api''), tk_agentId := Some ''g''\<rparr>]"
      "[\<lparr>af_agentId = ''g'', af_path = ''./src/web/x.ts'', af_at = 0\<rparr>]" "''src/web/x.ts''"]
    by (simp add: p out norm)
qed

end
