(* ===== verification/Relations.thy ===== *)
theory Relations
  imports PlanParts
begin

text \<open>
  How tracker items hang together (\<^verbatim>\<open>src/src/issueRelations.ts\<close>): containers and orphans, the span of
  work a mark on a container covers, and the two standing marks that cascade over it, the pause
  (\<^verbatim>\<open>goalPause.ts\<close>) and the priority (\<^verbatim>\<open>dispatcher/goalPriority.ts\<close>). The span is computed breadth
  first over the children the mirror holds; the theory shows that the search ends and covers exactly
  the items reachable through children.
\<close>

section \<open>Types of items\<close>

definition lower_char :: "char \<Rightarrow> char" where
  "lower_char c = (if c \<in> set ''ABCDEFGHIJKLMNOPQRSTUVWXYZ'' then char_of (char_code c + 32) else c)"

definition to_lower :: "string \<Rightarrow> string" where
  "to_lower s = map lower_char s"

definition DEFAULT_CONTAINER_TYPES :: "string list" where
  "DEFAULT_CONTAINER_TYPES = [''Feature'', ''Epic'']"

definition DEFAULT_PARENTED_TYPES :: "string list" where
  "DEFAULT_PARENTED_TYPES = [''User Story'', ''Story'', ''Product Backlog Item'', ''Requirement'', ''Bug'', ''Tech Debt'',
     ''Technical Debt'', ''Debt'', ''Issue'']"

definition includesType :: "string list \<Rightarrow> string \<Rightarrow> bool" where
  "includesType types t = list_ex (\<lambda>u. to_lower (trim u) = to_lower (trim t)) types"

definition isContainerType :: "string option \<Rightarrow> string list option \<Rightarrow> bool" where
  "isContainerType t containerTypes =
     (case t of None \<Rightarrow> False | Some ty \<Rightarrow> includesType (default_to DEFAULT_CONTAINER_TYPES containerTypes) ty)"

definition isContainerIssue :: "issue \<Rightarrow> string list option \<Rightarrow> bool" where
  "isContainerIssue i containerTypes = isContainerType (i_type i) containerTypes"

definition storiesUnder :: "issue list \<Rightarrow> nat \<Rightarrow> issue list" where
  "storiesUnder issues n = filter (\<lambda>i. case i_parent i of Some (Some p) \<Rightarrow> rel_number p = n | _ \<Rightarrow> False) issues"

text \<open>Only a parent the tracker answered null for makes an orphan; one it never spoke of does not.\<close>

definition isOrphanIssue :: "issue \<Rightarrow> string list option \<Rightarrow> string list option \<Rightarrow> bool" where
  "isOrphanIssue i containerTypes parentedTypes =
     (if i_parent i \<noteq> Some None then False
      else if isContainerIssue i containerTypes then False
      else case i_type i of None \<Rightarrow> False | Some t \<Rightarrow> includesType (default_to DEFAULT_PARENTED_TYPES parentedTypes) t)"

datatype container_reason = NoChildren string | WorkChildren string nat nat

definition containerPickupReason :: "issue \<Rightarrow> string list option \<Rightarrow> container_reason option" where
  "containerPickupReason i containerTypes =
     (if \<not> isContainerIssue i containerTypes then None
      else let kids = length (default_to [] (i_children i));
               opn = length (filter (\<lambda>c. rel_state c = IssueOpen) (default_to [] (i_children i)))
           in Some (if kids = 0 then NoChildren (default_to '''' (i_type i))
                    else WorkChildren (default_to '''' (i_type i)) kids opn))"

section \<open>The span under a container\<close>

definition sorted_kids :: "issue \<Rightarrow> nat list" where
  "sorted_kids i = map rel_number (js_sort (by_key (\<lambda>r. int (rel_number r))) (default_to [] (i_children i)))"

type_synonym issue_index = "(nat, issue) jsmap"

text \<open>
  One child of the item taken from the queue. The set \<^verbatim>\<open>seen\<close> of the source always holds the numbers in
  \<open>targets\<close>.
\<close>

definition visit :: "issue_index \<Rightarrow> nat list \<times> issue list \<Rightarrow> nat \<Rightarrow> nat list \<times> issue list" where
  "visit byNumber s kid =
     (if kid \<in> set (fst s) then s
      else (fst s @ [kid], snd s @ (case map_of byNumber kid of None \<Rightarrow> [] | Some held \<Rightarrow> [held])))"

definition unseen :: "issue_index \<Rightarrow> nat list \<Rightarrow> nat" where
  "unseen byNumber targets = card (set (map fst byNumber) - set targets)"

lemma visit_measure:
  "unseen byNumber (fst (visit byNumber s kid)) + length (snd (visit byNumber s kid)) \<le> unseen byNumber (fst s) + length (snd s)"
proof (cases "kid \<in> set (fst s)")
  case False
  show ?thesis
  proof (cases "map_of byNumber kid")
    case None
    have "unseen byNumber (fst s @ [kid]) \<le> unseen byNumber (fst s)"
      unfolding unseen_def by (rule card_mono) auto
    with False None show ?thesis by (simp add: visit_def)
  next
    case (Some held)
    then have "kid \<in> set (map fst byNumber) - set (fst s)"
      using False by (metis DiffI map_of_eq_None_iff image_set option.distinct(1))
    then have "card (set (map fst byNumber) - set (fst s @ [kid])) < card (set (map fst byNumber) - set (fst s))"
      by (intro psubset_card_mono) auto
    then have "unseen byNumber (fst s @ [kid]) < unseen byNumber (fst s)" by (simp only: unseen_def)
    with False Some show ?thesis by (simp add: visit_def)
  qed
qed (simp add: visit_def)

lemma visits_measure:
  "unseen byNumber (fst (foldl (visit byNumber) s kids)) + length (snd (foldl (visit byNumber) s kids))
     \<le> unseen byNumber (fst s) + length (snd s)"
proof (induction kids arbitrary: s)
  case (Cons k kids)
  from Cons [of "visit byNumber s k"] visit_measure [of byNumber s k] show ?case by simp
qed simp

function spread :: "issue_index \<Rightarrow> nat list \<Rightarrow> issue list \<Rightarrow> nat list" where
  "spread byNumber targets [] = targets"
| "spread byNumber targets (nxt # queue) =
     (let s = foldl (visit byNumber) (targets, queue) (sorted_kids nxt) in spread byNumber (fst s) (snd s))"
  by pat_completeness auto

termination
proof (relation "measure (\<lambda>(byNumber, targets, queue). unseen byNumber targets + length queue)", goal_cases)
  case (2 byNumber targets nxt queue s)
  then show ?case using visits_measure [of byNumber "(targets, queue)" "sorted_kids nxt"]
    by (simp add: case_prod_beta)
qed simp

definition watchCascadeTargets :: "issue \<Rightarrow> issue list \<Rightarrow> string list option \<Rightarrow> nat list" where
  "watchCascadeTargets i issues containerTypes =
     (if \<not> isContainerIssue i containerTypes then [i_number i]
      else spread (index_by i_number issues) [i_number i] [i])"

definition cascadeToChildren :: "nat list \<Rightarrow> issue list \<Rightarrow> string list option \<Rightarrow> nat list" where
  "cascadeToChildren numbers issues containerTypes =
     foldl (\<lambda>out n. case map_of (index_by i_number issues) n of
         None \<Rightarrow> set_add n out
       | Some i \<Rightarrow> foldl (\<lambda>o' t. set_add t o') out (watchCascadeTargets i issues containerTypes)) [] numbers"

section \<open>Candidate parents\<close>

definition candidate_step :: "string list option \<Rightarrow> (nat, issue_relative) jsmap \<Rightarrow> issue \<Rightarrow> (nat, issue_relative) jsmap" where
  "candidate_step containerTypes m i =
     (let m1 = (if isContainerIssue i containerTypes \<and> i_state i = IssueOpen then
            map_put (i_number i) \<lparr>rel_number = i_number i, rel_title = i_title i, rel_type = default_to '''' (i_type i),
              rel_workState = default_to '''' (i_workState i), rel_state = i_state i, rel_body = None\<rparr> m else m)
      in case i_parent i of
           Some (Some p) \<Rightarrow>
             (if rel_state p = IssueOpen \<and> map_of m1 (rel_number p) = None
              then map_put (rel_number p) (p\<lparr>rel_body := None\<rparr>) m1 else m1)
         | _ \<Rightarrow> m1)"

definition candidateParents :: "issue list \<Rightarrow> string list option \<Rightarrow> issue_relative list" where
  "candidateParents issues containerTypes =
     js_sort (by_key (\<lambda>r. int (rel_number r))) (map snd (foldl (candidate_step containerTypes) [] issues))"

section \<open>The marks that cascade\<close>

definition markedNumbers :: "string list \<Rightarrow> nat list" where
  "markedNumbers marks = List.map_filter (issueOriginNumber Root) marks"

definition pausedIssueNumbers :: "string list \<Rightarrow> issue list \<Rightarrow> string list option \<Rightarrow> nat list" where
  "pausedIssueNumbers pauses issues containerTypes = cascadeToChildren (markedNumbers pauses) issues containerTypes"

record goal_world =
  gw_openPrs :: "pull_request list"
  gw_issues :: "issue list"
  gw_plans :: "plan list"
  gw_parts :: "plan_part list"

definition branch_prs :: "goal_world \<Rightarrow> nat \<Rightarrow> nat list" where
  "branch_prs w n =
     map pr_number (filter (\<lambda>pr. pr_branch pr = issue_branch n \<or> starts_with (issue_branch n @ ''/'') (pr_branch pr)) (gw_openPrs w))
     @ (case find (\<lambda>i. i_number i = n) (gw_issues w) of
          None \<Rightarrow> [] | Some i \<Rightarrow> (case i_linkedPr i of None \<Rightarrow> [] | Some pr \<Rightarrow> [pr]))"

definition flagged_plans :: "goal_world \<Rightarrow> nat list \<Rightarrow> string list" where
  "flagged_plans w numbers =
     map pl_id (filter (\<lambda>pl. list_ex (\<lambda>n. pl_originRef pl = issueOriginRef Root n None) numbers) (gw_plans w))"

definition part_prs :: "goal_world \<Rightarrow> nat list \<Rightarrow> nat list" where
  "part_prs w numbers =
     List.map_filter pp_prNumber (filter (\<lambda>p. pp_planId p \<in> set (flagged_plans w numbers)) (gw_parts w))"

definition expeditedOrigins :: "string list \<Rightarrow> goal_world \<Rightarrow> string list option \<Rightarrow> string \<Rightarrow> bool" where
  "expeditedOrigins goals w containerTypes ref =
     (let numbers = cascadeToChildren (markedNumbers goals) (gw_issues w) containerTypes;
          prNumbers = concat (map (branch_prs w) numbers) @ part_prs w numbers
      in if numbers = [] then False
         else if list_ex (\<lambda>n. issueOriginRole n ref \<noteq> None) numbers then True
         else case prOriginNumber ref of None \<Rightarrow> False | Some pr \<Rightarrow> pr \<in> set prNumbers)"

section \<open>The span is what children reach\<close>

definition child_of :: "issue_index \<Rightarrow> nat \<Rightarrow> nat \<Rightarrow> bool" where
  "child_of byNumber a b \<longleftrightarrow> (\<exists>i. map_of byNumber a = Some i \<and> b \<in> set (sorted_kids i))"

definition spread_inv :: "issue_index \<Rightarrow> nat \<Rightarrow> nat list \<Rightarrow> issue list \<Rightarrow> bool" where
  "spread_inv byNumber root targets queue \<longleftrightarrow>
     root \<in> set targets \<and> distinct targets \<and>
     (\<forall>q \<in> set queue. map_of byNumber (i_number q) = Some q \<and> i_number q \<in> set targets) \<and>
     (\<forall>t \<in> set targets. (child_of byNumber)\<^sup>*\<^sup>* root t) \<and>
     (\<forall>t \<in> set targets. \<forall>i. map_of byNumber t = Some i \<longrightarrow> i \<in> set queue \<or> set (sorted_kids i) \<subseteq> set targets)"

text \<open>While the children of one item are visited, that item alone may be off the queue unfinished.\<close>

definition visiting :: "issue_index \<Rightarrow> nat \<Rightarrow> issue \<Rightarrow> nat set \<Rightarrow> nat list \<times> issue list \<Rightarrow> bool" where
  "visiting byNumber root cur visited s \<longleftrightarrow>
     root \<in> set (fst s) \<and> distinct (fst s) \<and> visited \<subseteq> set (fst s) \<and>
     (\<forall>q \<in> set (snd s). map_of byNumber (i_number q) = Some q \<and> i_number q \<in> set (fst s)) \<and>
     (\<forall>t \<in> set (fst s). (child_of byNumber)\<^sup>*\<^sup>* root t) \<and>
     (\<forall>t \<in> set (fst s). \<forall>i. map_of byNumber t = Some i \<longrightarrow>
        i \<in> set (snd s) \<or> i = cur \<or> set (sorted_kids i) \<subseteq> set (fst s))"

lemma visit_keeps:
  assumes v: "visiting (index_by i_number issues) root cur visited s"
    and k: "(child_of (index_by i_number issues))\<^sup>*\<^sup>* root kid"
  shows "visiting (index_by i_number issues) root cur (insert kid visited) (visit (index_by i_number issues) s kid)"
proof (cases "kid \<in> set (fst s)")
  case True
  with v show ?thesis by (auto simp: visiting_def visit_def)
next
  case False
  show ?thesis
  proof (cases "map_of (index_by i_number issues) kid")
    case None
    with v k False show ?thesis unfolding visiting_def visit_def by (simp add: subset_iff) (metis not_None_eq)
  next
    case (Some held)
    have "i_number held = kid" using index_by_Some [OF Some] by simp
    with v k False Some show ?thesis unfolding visiting_def visit_def by (simp add: subset_iff) (metis option.sel)
  qed
qed

lemma visits_keep:
  assumes "visiting (index_by i_number issues) root cur visited s"
    and "\<forall>k \<in> set kids. (child_of (index_by i_number issues))\<^sup>*\<^sup>* root k"
  shows "visiting (index_by i_number issues) root cur (visited \<union> set kids)
      (foldl (visit (index_by i_number issues)) s kids)"
  using assms
proof (induction kids arbitrary: s visited)
  case (Cons k kids)
  have "visiting (index_by i_number issues) root cur (insert k visited) (visit (index_by i_number issues) s k)"
    by (rule visit_keeps) (use Cons.prems in auto)
  with Cons.IH [OF this] Cons.prems(2) show ?case by simp
qed simp

lemma visited_all: "visiting ix root cur visited s \<Longrightarrow> set (sorted_kids cur) \<subseteq> visited \<Longrightarrow> spread_inv ix root (fst s) (snd s)"
  unfolding visiting_def spread_inv_def by (simp only:) blast

lemma spread_step:
  assumes "spread_inv (index_by i_number issues) root targets (nxt # queue)"
  shows "spread_inv (index_by i_number issues) root
      (fst (foldl (visit (index_by i_number issues)) (targets, queue) (sorted_kids nxt)))
      (snd (foldl (visit (index_by i_number issues)) (targets, queue) (sorted_kids nxt)))"
proof -
  let ?ix = "index_by i_number issues"
  have nxt: "map_of ?ix (i_number nxt) = Some nxt" "i_number nxt \<in> set targets"
    and reach: "\<forall>t \<in> set targets. (child_of ?ix)\<^sup>*\<^sup>* root t"
    using assms unfolding spread_inv_def by auto
  have kids: "\<forall>k \<in> set (sorted_kids nxt). (child_of ?ix)\<^sup>*\<^sup>* root k"
  proof
    fix k assume "k \<in> set (sorted_kids nxt)"
    then have "child_of ?ix (i_number nxt) k" using nxt(1) by (auto simp: child_of_def)
    with reach nxt(2) show "(child_of ?ix)\<^sup>*\<^sup>* root k" by (meson rtranclp.rtrancl_into_rtrancl)
  qed
  have start: "visiting ?ix root nxt {} (targets, queue)"
    using assms unfolding spread_inv_def visiting_def by simp blast
  show ?thesis
    by (rule visited_all [of _ _ nxt "{} \<union> set (sorted_kids nxt)"]) (rule visits_keep [OF start kids], simp)
qed

lemma spread_final:
  "spread_inv (index_by i_number issues) root targets queue \<Longrightarrow>
     spread_inv (index_by i_number issues) root (spread (index_by i_number issues) targets queue) []"
proof (induction "index_by i_number issues" targets queue rule: spread.induct)
  case (2 targets nxt queue)
  then show ?case using spread_step [OF 2(2)] by (simp add: Let_def)
qed simp

lemma cascade_reach:
  assumes "i \<in> set issues" and "distinct (map i_number issues)" and "isContainerIssue i containerTypes"
  shows "distinct (watchCascadeTargets i issues containerTypes) \<and>
    set (watchCascadeTargets i issues containerTypes) = {n. (child_of (index_by i_number issues))\<^sup>*\<^sup>* (i_number i) n}"
proof -
  let ?ix = "index_by i_number issues" and ?out = "watchCascadeTargets i issues containerTypes"
  have "find (\<lambda>x. i_number x = i_number i) issues = Some i"
    using assms(1,2) by (induction issues) (auto simp: rev_image_eqI)
  then have "map_of ?ix (i_number i) = Some i" by (simp add: index_by_lookup_distinct [OF assms(2)])
  then have "spread_inv ?ix (i_number i) [i_number i] [i]" by (auto simp: spread_inv_def)
  from spread_final [OF this] have fin: "spread_inv ?ix (i_number i) ?out []"
    using assms(3) by (simp add: watchCascadeTargets_def)
  have closed: "b \<in> set ?out" if "a \<in> set ?out" "child_of ?ix a b" for a b
    using fin that unfolding spread_inv_def child_of_def by fastforce
  have "n \<in> set ?out" if "(child_of ?ix)\<^sup>*\<^sup>* (i_number i) n" for n
    using that
  proof (induction rule: rtranclp_induct)
    case base
    then show ?case using fin by (simp add: spread_inv_def)
  next
    case (step y z)
    then show ?case using closed by blast
  qed
  with fin show ?thesis unfolding spread_inv_def by auto
qed

text \<open>
  C22. The span of a mark on a container the mirror holds: the breadth-first search ends, lists every item
  once, and lists exactly the container and what is reachable from it through children the mirror
  holds, a child the mirror does not hold included.
\<close>

theorem cascade_is_reachability:
  assumes "i \<in> set issues" and "distinct (map i_number issues)" and "isContainerIssue i containerTypes"
  shows "distinct (watchCascadeTargets i issues containerTypes) \<and>
    (n \<in> set (watchCascadeTargets i issues containerTypes) \<longleftrightarrow>
      (\<lambda>a b. \<exists>x. x \<in> set issues \<and> i_number x = a \<and> b \<in> rel_number ` set (default_to [] (i_children x)))\<^sup>*\<^sup>* (i_number i) n)"
proof -
  have "child_of (index_by i_number issues) =
      (\<lambda>a b. \<exists>x. x \<in> set issues \<and> i_number x = a \<and> b \<in> rel_number ` set (default_to [] (i_children x)))"
  proof (intro ext)
    fix a b
    have "map_of (index_by i_number issues) a = Some x \<longleftrightarrow> x \<in> set issues \<and> i_number x = a" for x
      using assms(2) distinct_key_eq [OF assms(2)] index_by_Some [of i_number issues a x]
        index_by_None [of i_number issues a]
      by (cases "map_of (index_by i_number issues) a") (auto dest: index_by_Some)
    then show "child_of (index_by i_number issues) a b =
        (\<exists>x. x \<in> set issues \<and> i_number x = a \<and> b \<in> rel_number ` set (default_to [] (i_children x)))"
      by (auto simp: child_of_def sorted_kids_def)
  qed
  with cascade_reach [OF assms] show ?thesis by auto
qed

definition sample_feature :: "issue list" where
  "sample_feature = [(issue0 1)\<lparr>i_type := Some ''feature'', i_children := Some [rel0 3, rel0 2]\<rparr>,
     (issue0 2)\<lparr>i_children := Some [rel0 4, rel0 1]\<rparr>]"

theorem cascade_is_reachability_witness:
  "watchCascadeTargets (hd sample_feature) sample_feature None = [1, 2, 3, 4] \<and>
   distinct (watchCascadeTargets (hd sample_feature) sample_feature None)"
proof -
  have "watchCascadeTargets (hd sample_feature) sample_feature None = [1, 2, 3, 4]" by code_simp
  moreover have "isContainerIssue (hd sample_feature) None" by code_simp
  ultimately show ?thesis
    using cascade_is_reachability [of "hd sample_feature" sample_feature None] by (simp add: sample_feature_def issue0_def)
qed

end
