(* ===== verification/Intake.thy ===== *)
theory Intake
  imports Cooldown Relations
begin

text \<open>
  What stands in front of an issue before work is dispatched for it: the plan route
  (\<^verbatim>\<open>src/src/plans/planning.ts\<close>), the delivered verdict (\<^verbatim>\<open>delivery/delivery.ts\<close>), the goal appraisal
  and the investigation (\<^verbatim>\<open>src/src/intake/\<close>), the goals concluded blocked
  (\<^verbatim>\<open>escalation/blocked.ts\<close>), placement, and the model profile a goal is pinned to
  (\<^verbatim>\<open>intake/profilePin.ts\<close>, \<^verbatim>\<open>modelLabels.ts\<close>, \<^verbatim>\<open>agents/modelPolicy.ts\<close>). A hold that the code
  renders as a sentence is the value the sentence is written from. The SHA-256 digest of a goal's text
  is the parameter \<open>digest\<close>.
\<close>

section \<open>The origins\<close>

definition issueOrigin :: "nat \<Rightarrow> string" where
  "issueOrigin n = issueOriginRef Root n None"

definition planOrigin :: "nat \<Rightarrow> string" where
  "planOrigin n = issueOriginRef PlanFam n None"

definition planOriginIssue :: "string \<Rightarrow> nat option" where
  "planOriginIssue ref = issueOriginNumber PlanFam ref"

definition planBranch :: "nat \<Rightarrow> string" where
  "planBranch n = ''plan/issue/'' @ show_nat n"

definition appraisalOrigin :: "nat \<Rightarrow> string" where
  "appraisalOrigin n = issueOriginRef AppraisalFam n None"

definition appraisalBranch :: "nat \<Rightarrow> string" where
  "appraisalBranch n = ''appraisal/issue/'' @ show_nat n"

definition investigateOrigin :: "nat \<Rightarrow> string" where
  "investigateOrigin n = issueOriginRef InvestigateFam n None"

definition investigateBranch :: "nat \<Rightarrow> string" where
  "investigateBranch n = ''investigate/issue/'' @ show_nat n"

definition assessOrigin :: "nat \<Rightarrow> string" where
  "assessOrigin n = issueOriginRef Assess n None"

definition assessIssueNumber :: "string \<Rightarrow> nat option" where
  "assessIssueNumber ref = issueOriginNumber Assess ref"

definition assessBranch :: "nat \<Rightarrow> string" where
  "assessBranch n = ''assess/issue/'' @ show_nat n"

section \<open>The plan route\<close>

record planning_policy =
  maxConcurrentPartsPerIssue :: int
  gitFetchIntervalMs :: int
  fileBudget :: nat

definition DEFAULT_PLANNING :: planning_policy where
  "DEFAULT_PLANNING = \<lparr>maxConcurrentPartsPerIssue = 2, gitFetchIntervalMs = 60000, fileBudget = 20\<rparr>"

datatype planner_state = PlannerDispatch | PlannerCooldown

datatype plan_route =
    RouteParts
  | RouteAwaitingApproval
  | RoutePlanning planner_state
  | RouteEscalated "nat option"

text \<open>
  A plan sent back to a planner starts its attempts afresh: only the decisions after it was sent back
  count. A time nobody can parse compares as false, as \<^verbatim>\<open>NaN\<close> does.
\<close>

definition plannerVerdict ::
  "nat \<Rightarrow> plan option \<Rightarrow> instant \<Rightarrow> decision list \<Rightarrow> cooldown_policy \<Rightarrow> dispatch_verdict" where
  "plannerVerdict n pl now recentDecisions cooldown =
     (let since = (case pl of None \<Rightarrow> None
                    | Some p \<Rightarrow> if pl_status p = Planning then date_parse (pl_updatedAt p) else None);
          decisions = (case since of None \<Rightarrow> recentDecisions
            | Some s \<Rightarrow> filter (\<lambda>d. case date_parse (de_createdAt d) of None \<Rightarrow> False | Some t \<Rightarrow> s < t) recentDecisions)
      in dispatchVerdict (planOrigin n) now decisions cooldown)"

definition verdict_route :: "dispatch_verdict \<Rightarrow> nat \<Rightarrow> plan_route" where
  "verdict_route v existingParts =
     (case v of
        VEscalate k \<Rightarrow> (if 0 < existingParts then RouteParts else RouteEscalated (Some k))
      | VHold \<Rightarrow> (if 0 < existingParts then RouteParts else RouteEscalated None)
      | VCooldown \<Rightarrow> RoutePlanning PlannerCooldown
      | VDispatch \<Rightarrow> RoutePlanning PlannerDispatch)"

definition resolvePlanRoute :: "plan option \<Rightarrow> dispatch_verdict \<Rightarrow> nat \<Rightarrow> plan_route" where
  "resolvePlanRoute pl v existingParts =
     (case pl of
        None \<Rightarrow> verdict_route v existingParts
      | Some p \<Rightarrow>
          if pl_status p = AwaitingApproval then RouteAwaitingApproval
          else if pl_status p \<noteq> Planning then RouteParts
          else verdict_route v existingParts)"

section \<open>The delivered verdict\<close>

definition deliveryWorldRef :: "string \<Rightarrow> string option" where
  "deliveryWorldRef ref = (if issueOriginNumber Root ref = None then None else Some ref)"

definition verdictCast :: "delivery \<Rightarrow> int" where
  "verdictCast d = default_to (dl_decidedAt d) (dl_updatedAt d)"

definition expiringSignal :: "delivery \<Rightarrow> world_event list \<Rightarrow> world_event option" where
  "expiringSignal d signals =
     (case deliveryWorldRef (dl_originRef d) of
        None \<Rightarrow> None
      | Some item \<Rightarrow> find (\<lambda>e. we_ref e = Some item \<and> verdictCast d < we_createdAt e) signals)"

text \<open>The delivery whose hold stands, the one the sentence names the author, summary and time of.\<close>

definition deliveryHold :: "delivery option \<Rightarrow> issue \<Rightarrow> string list option \<Rightarrow> world_event list \<Rightarrow> delivery option" where
  "deliveryHold delivery i pickupStates signals =
     (case delivery of
        None \<Rightarrow> None
      | Some d \<Rightarrow>
          if (case i_workState i of None \<Rightarrow> False | Some st \<Rightarrow> st \<in> set (default_to [] pickupStates)) then None
          else if expiringSignal d signals \<noteq> None then None
          else Some d)"

definition signal_step :: "int option \<times> string list \<Rightarrow> delivery \<Rightarrow> int option \<times> string list" where
  "signal_step s d =
     (case deliveryWorldRef (dl_originRef d) of
        None \<Rightarrow> s
      | Some item \<Rightarrow>
          ((case fst s of None \<Rightarrow> Some (verdictCast d)
             | Some since \<Rightarrow> if verdictCast d < since then Some (verdictCast d) else Some since),
           set_add item (snd s)))"

definition deliverySignalQuery :: "delivery list \<Rightarrow> (int \<times> string list) option" where
  "deliverySignalQuery deliveries =
     (case foldl signal_step (None, []) deliveries of
        (Some since, refs) \<Rightarrow> (if refs \<noteq> [] then Some (since, refs) else None)
      | (None, _) \<Rightarrow> None)"

section \<open>Work that was started\<close>

definition hasPriorWork :: "nat \<Rightarrow> task list \<Rightarrow> bool" where
  "hasPriorWork n tasks =
     list_ex (\<lambda>t. case tk_originRef t of None \<Rightarrow> False
        | Some ref \<Rightarrow> issueOriginRole n ref = Some Work \<or> issueOriginRole n ref = Some Evidence) tasks"

definition hasWorkStarted :: "nat \<Rightarrow> task list \<Rightarrow> bool" where
  "hasWorkStarted n tasks = hasPriorWork n tasks"

section \<open>The goal appraisal\<close>

definition goalFingerprint :: "(string \<Rightarrow> string) \<Rightarrow> string option \<Rightarrow> string option \<Rightarrow> string" where
  "goalFingerprint digest title body =
     take 16 (digest (default_to '''' title @ [CHR 0x00] @ default_to '''' body))"

definition issue_goal :: "(string \<Rightarrow> string) \<Rightarrow> issue \<Rightarrow> string" where
  "issue_goal digest i = goalFingerprint digest (Some (i_title i)) (Some (i_body i))"

datatype appraisal_hold = UnclearGoal appraisal_author | ProfileProposed string

definition appraisalHold :: "(string \<Rightarrow> string) \<Rightarrow> appraisal option \<Rightarrow> issue \<Rightarrow> appraisal_hold option" where
  "appraisalHold digest appraisal i =
     (case appraisal of
        None \<Rightarrow> None
      | Some a \<Rightarrow>
          if ap_goalRef a \<noteq> issue_goal digest i then None
          else if ap_verdict a = Unclear then Some (UnclearGoal (ap_by a))
          else case ap_proposedProfile a of
              None \<Rightarrow> None
            | Some p \<Rightarrow> (if ap_profileAnsweredAt a = None then Some (ProfileProposed p) else None))"

definition isAppraised :: "(string \<Rightarrow> string) \<Rightarrow> appraisal option \<Rightarrow> issue \<Rightarrow> bool" where
  "isAppraised digest appraisal i =
     (case appraisal of None \<Rightarrow> False | Some a \<Rightarrow> ap_goalRef a = issue_goal digest i)"

section \<open>The investigation\<close>

datatype investigation_hold = FindingsWaiting | MarkedForClosing | AskedReporter

definition investigationHold :: "investigation option \<Rightarrow> investigation_hold option" where
  "investigationHold v =
     (case v of
        None \<Rightarrow> None
      | Some iv \<Rightarrow>
          (case iv_resolution iv of
             None \<Rightarrow> Some FindingsWaiting
           | Some ResolveClose \<Rightarrow> Some MarkedForClosing
           | Some ResolveAsk \<Rightarrow> Some AskedReporter
           | Some ResolvePlan \<Rightarrow> None))"

record investigation_standing =
  is_current :: "investigation option"
  is_labelled :: bool
  is_inForce :: "investigation option"
  is_hold :: "investigation_hold option"

definition NO_INVESTIGATION :: investigation_standing where
  "NO_INVESTIGATION = \<lparr>is_current = None, is_labelled = False, is_inForce = None, is_hold = None\<rparr>"

definition standing_of ::
  "(string \<Rightarrow> string) \<Rightarrow> (string, investigation) jsmap \<Rightarrow> string \<Rightarrow> bool \<Rightarrow> issue \<Rightarrow> investigation_standing" where
  "standing_of digest byOrigin investigateLabel own i =
     (let current = (case map_of byOrigin (issueOrigin (i_number i)) of
             None \<Rightarrow> None
           | Some stored \<Rightarrow> if iv_goalRef stored = issue_goal digest i then Some stored else None);
          labelled = (investigateLabel \<in> set (pickupLabels i own));
          inForce = (if labelled then current else None)
      in \<lparr>is_current = current, is_labelled = labelled, is_inForce = inForce, is_hold = investigationHold inForce\<rparr>)"

definition investigationStandings ::
  "(string \<Rightarrow> string) \<Rightarrow> issue list \<Rightarrow> investigation list \<Rightarrow> string \<Rightarrow> bool \<Rightarrow> (nat, investigation_standing) jsmap" where
  "investigationStandings digest issues investigations investigateLabel own =
     (let byOrigin = index_by iv_originRef investigations in
      map_from (map (\<lambda>i. (i_number i, standing_of digest byOrigin investigateLabel own i)) issues))"

definition investigationStanding :: "(nat, investigation_standing) jsmap \<Rightarrow> nat \<Rightarrow> investigation_standing" where
  "investigationStanding standings n = default_to NO_INVESTIGATION (map_of standings n)"

section \<open>Goals concluded blocked\<close>

definition block_step :: "(string, goal_block) jsmap \<Rightarrow> escalation \<Rightarrow> (string, goal_block) jsmap" where
  "block_step out e =
     (if es_status e \<noteq> EscOpen then out
      else case es_blocked e of
          None \<Rightarrow> out
        | Some b \<Rightarrow> (if map_of out (gb_originRef b) = None then map_put (gb_originRef b) b out else out))"

definition blockedGoals :: "escalation list \<Rightarrow> (string, goal_block) jsmap" where
  "blockedGoals escalations = foldl block_step [] escalations"

section \<open>Placement\<close>

record area_tree =
  at_root :: string
  at_paths :: "string list"

definition AREA_PATH_LIMIT :: nat where "AREA_PATH_LIMIT = 40"

definition truncateAreaPaths :: "area_tree \<Rightarrow> string list \<times> nat" where
  "truncateAreaPaths tree = (take AREA_PATH_LIMIT (at_paths tree), length (at_paths tree) - AREA_PATH_LIMIT)"

definition backslash :: char where "backslash = CHR 0x5C"

fun squeeze :: "char \<Rightarrow> string \<Rightarrow> string" where
  "squeeze c (x # y # s) = (if x = c \<and> y = c then squeeze c (y # s) else x # squeeze c (y # s))"
| "squeeze c s = s"

definition strip_ends :: "char \<Rightarrow> string \<Rightarrow> string" where
  "strip_ends c s =
     (let front = (case s of [] \<Rightarrow> [] | x # r \<Rightarrow> if x = c then r else s)
      in if front \<noteq> [] \<and> last front = c then butlast front else front)"

definition normalizeAreaPath :: "string \<Rightarrow> string" where
  "normalizeAreaPath path =
     to_lower (trim (strip_ends backslash (squeeze backslash
       (map (\<lambda>c. if c = CHR ''/'' then backslash else c) path))))"

definition isAreaPathMissing :: "issue \<Rightarrow> area_tree option \<Rightarrow> bool" where
  "isAreaPathMissing i tree =
     (case (i_areaPath i, tree) of
        (Some path, Some t) \<Rightarrow> normalizeAreaPath path = normalizeAreaPath (at_root t)
      | _ \<Rightarrow> False)"

datatype placement_ask = AskParent "nat option" | AskAreaPath string

definition placementAsks ::
  "appraisal option \<Rightarrow> issue \<Rightarrow> area_tree option \<Rightarrow> string \<Rightarrow> string list option \<Rightarrow> string list option \<Rightarrow> placement_ask list" where
  "placementAsks appraisal i tree goalRef containerTypes parentedTypes =
     (let current = (case appraisal of None \<Rightarrow> None | Some a \<Rightarrow> if ap_goalRef a = goalRef then Some a else None) in
      (if isOrphanIssue i containerTypes parentedTypes
          \<and> (case current of None \<Rightarrow> True | Some a \<Rightarrow> ap_parentSettledAt a = None)
       then [AskParent (case current of None \<Rightarrow> None | Some a \<Rightarrow> ap_proposedParent a)] else []) @
      (case current of
         None \<Rightarrow> []
       | Some a \<Rightarrow>
           (case ap_proposedAreaPath a of
              None \<Rightarrow> []
            | Some path \<Rightarrow>
                (if ap_areaPathSettledAt a = None \<and> isAreaPathMissing i tree then [AskAreaPath path] else []))))"

section \<open>The profile a goal is pinned to\<close>

record agent_profile =
  pf_rank :: int
  pf_model :: string
  pf_effort :: "string option"
  pf_permissionMode :: "string option"
  pf_autoApprove :: bool

record agent_models =
  am_profiles :: "(string, agent_profile) jsmap"
  am_default :: "string option"
  am_byRule :: "(string, string) jsmap"

datatype profile_source = FromPin | FromRule | FromDefault

record resolved_profile =
  rp_name :: string
  rp_model :: string
  rp_effort :: "string option"
  rp_permissionMode :: "string option"
  rp_autoApprove :: bool
  rp_source :: profile_source

definition ruleProfile :: "agent_models \<Rightarrow> string option \<Rightarrow> string option" where
  "ruleProfile models rule = (case truthy rule of None \<Rightarrow> None | Some r \<Rightarrow> map_of (am_byRule models) r)"

definition resolveAgentProfile ::
  "agent_models option \<Rightarrow> string option \<Rightarrow> string option \<Rightarrow> resolved_profile option" where
  "resolveAgentProfile models rule pinned =
     (case models of
        None \<Rightarrow> None
      | Some m \<Rightarrow>
          let pin = (case truthy pinned of None \<Rightarrow> None
                      | Some p \<Rightarrow> if map_of (am_profiles m) p \<noteq> None then Some p else None);
              byRule = ruleProfile m rule;
              source = (if pin \<noteq> None then FromPin else if truthy byRule \<noteq> None then FromRule else FromDefault)
          in case or_else (or_else pin byRule) (am_default m) of
              None \<Rightarrow> None
            | Some name \<Rightarrow>
                (case map_of (am_profiles m) name of
                   None \<Rightarrow> None
                 | Some p \<Rightarrow> Some \<lparr>rp_name = name, rp_model = pf_model p, rp_effort = pf_effort p,
                     rp_permissionMode = pf_permissionMode p, rp_autoApprove = pf_autoApprove p, rp_source = source\<rparr>))"

definition orderedProfiles :: "agent_models option \<Rightarrow> string list" where
  "orderedProfiles models =
     (case models of None \<Rightarrow> [] | Some m \<Rightarrow> map fst (js_sort (by_key (\<lambda>x. pf_rank (snd x))) (am_profiles m)))"

definition profileRank :: "agent_models option \<Rightarrow> string option \<Rightarrow> int option" where
  "profileRank models name =
     (case (models, truthy name) of
        (Some m, Some n) \<Rightarrow> map_option pf_rank (map_of (am_profiles m) n)
      | _ \<Rightarrow> None)"

definition modelLabelFor :: "string \<Rightarrow> string \<Rightarrow> string" where
  "modelLabelFor prefix profile = (if prefix \<noteq> '''' then prefix @ ''-model-'' @ profile else '''')"

definition modelLabelsFor :: "string \<Rightarrow> agent_models option \<Rightarrow> (string \<times> string) list" where
  "modelLabelsFor prefix models =
     (if prefix = '''' then [] else map (\<lambda>p. (p, modelLabelFor prefix p)) (orderedProfiles models))"

text \<open>One label read: the profile standing and the labels set aside, with the deeper profile kept.\<close>

definition tag_step ::
  "string \<Rightarrow> agent_models option \<Rightarrow> (string, string) jsmap \<Rightarrow> string option \<times> string list \<Rightarrow> string \<Rightarrow> string option \<times> string list" where
  "tag_step prefix models known s label =
     (if \<not> starts_with (prefix @ ''-model-'') label then s
      else case map_of known label of
          None \<Rightarrow> (fst s, snd s @ [label])
        | Some named \<Rightarrow>
            (case fst s of
               None \<Rightarrow> (Some named, snd s)
             | Some standing \<Rightarrow>
                 let deeper = default_to 0 (profileRank models (Some standing)) < default_to 0 (profileRank models (Some named))
                 in (Some (if deeper then named else standing),
                     snd s @ [modelLabelFor prefix (if deeper then standing else named)])))"

definition resolveModelTag ::
  "string list option \<Rightarrow> string \<Rightarrow> agent_models option \<Rightarrow> string option \<times> string list" where
  "resolveModelTag labels prefix models =
     (if prefix = '''' \<or> models = None then (None, [])
      else foldl (tag_step prefix models (map_from (map (\<lambda>(p, l). (l, p)) (modelLabelsFor prefix models))))
             (None, []) (default_to [] labels))"

definition pinnedProfileFor ::
  "string option \<Rightarrow> (nat \<Rightarrow> string option) \<Rightarrow> (nat \<Rightarrow> string \<Rightarrow> string option) \<Rightarrow> string option" where
  "pinnedProfileFor originRef goal part =
     (case originRef of
        None \<Rightarrow> None
      | Some ref \<Rightarrow>
          (case issueOriginHead ref of
             None \<Rightarrow> None
           | Some (n, suffix) \<Rightarrow>
               let family = map_option p_family (parseIssueOrigin ref) in
               if family = Some Retro \<or> family = Some AppraisalFam then None
               else let pinned = (case suffix of None \<Rightarrow> None
                       | Some s \<Rightarrow> if inIssueOriginFamily PartFam ref then part n (drop 5 s) else None)
                 in case pinned of
                      Some p \<Rightarrow> Some p
                    | None \<Rightarrow> (if issueOriginRole n ref = None then None else goal n)))"

end
