(* ===== verification/Pickup.thy ===== *)
theory Pickup
  imports Intake
begin

text \<open>
  Picking issues up (\<^verbatim>\<open>src/src/dispatcher/issuePickup.ts\<close>, with \<open>issueGates\<close> and \<open>planRoutes\<close> of
  \<^verbatim>\<open>ruleDispatcherStage.ts\<close>): the gate the dispatcher applies, and the status the cockpit shows for an
  issue. The two are written apart in the code; the theory proves that what is shown never contradicts
  what is done. A reason the code writes as a sentence is a constructor that carries the values the
  sentence is written from.
\<close>

section \<open>The policy\<close>

datatype sequencing = SequencingOff | SequencingLinks | SequencingFull

record pickup_policy =
  py_watchLabel :: "string option"
  py_requireOwnLabel :: bool
  py_investigateLabel :: string
  py_priorityLabels :: "(string, int) jsmap"
  py_defaultPriority :: int
  py_pickupStates :: "string list option"
  py_inReviewState :: "string option"
  py_inProgressState :: "string option"
  py_containerTypes :: "string list option"
  py_parentedTypes :: "string list option"
  py_sequencing :: "sequencing option"
  py_sequenceMaxChildren :: "nat option"
  py_pausedIssues :: "nat set"

definition isGoalPaused :: "issue \<Rightarrow> pickup_policy \<Rightarrow> bool" where
  "isGoalPaused i policy \<longleftrightarrow> i_number i \<in> py_pausedIssues policy"

definition effectivePickupStates :: "pickup_policy \<Rightarrow> string list option" where
  "effectivePickupStates policy =
     (case py_pickupStates policy of
        None \<Rightarrow> None
      | Some [] \<Rightarrow> Some []
      | Some states \<Rightarrow>
          (case truthy (py_inProgressState policy) of
             None \<Rightarrow> Some states
           | Some p \<Rightarrow> if p \<in> set states then Some states else Some (states @ [p])))"

definition openPrForIssue :: "issue \<Rightarrow> pull_request list \<Rightarrow> pull_request option" where
  "openPrForIssue i openPrs =
     find (\<lambda>pr. \<not> pr_merged pr \<and> (Some (pr_number pr) = i_linkedPr i \<or> pr_branch pr = issue_branch (i_number i))) openPrs"

section \<open>The gate of an issue on its own\<close>

datatype pickup_reason =
    IsContainer container_reason
  | InReview
  | StateNotPicked string
  | LabelNotYours string
  | NoWatchLabel string
  | GoalPaused
  | Closed
  | ClosedRunKept
  | ClosedMidRun
  | RunAbandoned
  | AwaitingPlanApproval nat
  | AwaitingApprovalOfPlan
  | PlanSplit
  | PlanComplete nat
  | PartsDone nat nat
  | HasOpenPr nat
  | AgentRunning
  | AgentQueued
  | AgentWaiting
  | MarkedDelivered delivery
  | ConcludedBlocked string
  | AppraisalStands appraisal_hold
  | AppraisalWaiting | AppraisalRunning | AppraisalCooling | AppraisalAwaited
  | InvestigationStands investigation_hold
  | InvestigationWaiting | InvestigationRunning | InvestigationCooling | InvestigationAwaited
  | PlannerGaveUp nat
  | DispatchPaused
  | NoCapacity
  | PlannerAtWork task_status
  | PlanningCooling
  | AwaitingPlanner

definition issueWatchReason :: "issue \<Rightarrow> pickup_policy \<Rightarrow> pickup_reason option" where
  "issueWatchReason i policy =
     (case truthy (py_watchLabel policy) of
        None \<Rightarrow> None
      | Some w \<Rightarrow>
          if w \<in> set (pickupLabels i (py_requireOwnLabel policy)) then None
          else if py_requireOwnLabel policy \<and> w \<in> set (i_labels i) then Some (LabelNotYours w)
          else Some (NoWatchLabel w))"

definition issueWatchGateReason :: "issue \<Rightarrow> pickup_policy \<Rightarrow> pickup_reason option" where
  "issueWatchGateReason i policy = issueWatchReason i policy"

definition state_reasons :: "issue \<Rightarrow> pickup_policy \<Rightarrow> pickup_reason list" where
  "state_reasons i policy =
     (case (effectivePickupStates policy, i_workState i) of
        (Some states, Some st) \<Rightarrow>
          if states \<noteq> [] \<and> st \<notin> set states
          then [if truthy (py_inReviewState policy) = Some st then InReview else StateNotPicked st] else []
      | _ \<Rightarrow> [])"

text \<open>The reasons an issue is not picked up; it is eligible when there are none.\<close>

definition isIssuePickupEligible :: "issue \<Rightarrow> pickup_policy \<Rightarrow> bool \<times> pickup_reason list" where
  "isIssuePickupEligible i policy =
     (let reasons =
        (case containerPickupReason i (py_containerTypes policy) of None \<Rightarrow> [] | Some c \<Rightarrow> [IsContainer c]) @
        state_reasons i policy @
        (case issueWatchReason i policy of None \<Rightarrow> [] | Some r \<Rightarrow> [r]) @
        (if isGoalPaused i policy then [GoalPaused] else [])
      in (reasons = [], reasons))"

section \<open>The status shown\<close>

datatype pickup_kind =
    PkDone | PkRetained | PkAbandoned | PkHasPr | PkActive | PkContainer | PkUnwatched | PkPaused | PkPlanning
  | PkDelivered | PkAppraisal | PkInvestigation | PkParked | PkCooldown | PkEscalated
  | PkBlocked | PkEligible

text \<open>Every status the code builds has \<^verbatim>\<open>eligible: false\<close>, and one reason except where the gate gave several.\<close>

record pickup_status =
  ps_kind :: pickup_kind
  ps_reasons :: "pickup_reason list"

record pickup_context =
  cx_policy :: pickup_policy
  cx_cooldown :: cooldown_policy
  cx_now :: instant
  cx_tasks :: "task list"
  cx_recentDecisions :: "decision list"
  cx_openPrs :: "pull_request list"
  cx_plans :: "plan list"
  cx_planParts :: "plan_part list"
  cx_deliveries :: "delivery list"
  cx_deliverySignals :: "world_event list"
  cx_appraisals :: "appraisal list"
  cx_investigations :: "(nat, investigation_standing) jsmap"
  cx_goalBlocks :: "(string, goal_block) jsmap"
  cx_runs :: "issue_run list"
  cx_headroom :: int
  cx_paused :: bool

definition closedStatus :: "issue_run option \<Rightarrow> pickup_status" where
  "closedStatus run =
     (case run of
        Some r \<Rightarrow> if \<not> rn_dismissed r
          then \<lparr>ps_kind = PkRetained, ps_reasons = [if rn_completed r then ClosedRunKept else ClosedMidRun]\<rparr>
          else \<lparr>ps_kind = PkDone, ps_reasons = [Closed]\<rparr>
      | None \<Rightarrow> \<lparr>ps_kind = PkDone, ps_reasons = [Closed]\<rparr>)"

definition endedStatus :: "issue \<Rightarrow> pickup_context \<Rightarrow> pickup_status option" where
  "endedStatus i ctx =
     (let run = find (\<lambda>r. rn_issueNumber r = i_number i) (cx_runs ctx) in
      if i_state i \<noteq> IssueOpen then Some (closedStatus run)
      else case run of
          None \<Rightarrow> None
        | Some r \<Rightarrow> if rn_dismissed r then Some \<lparr>ps_kind = PkAbandoned, ps_reasons = [RunAbandoned]\<rparr> else None)"

definition planGateStatus :: "plan_route \<Rightarrow> plan option \<Rightarrow> plan_part list \<Rightarrow> pickup_status option" where
  "planGateStatus route pl parts =
     (case pl of
        None \<Rightarrow> None
      | Some p \<Rightarrow>
          (case route of
             RouteAwaitingApproval \<Rightarrow>
               Some \<lparr>ps_kind = PkPlanning, ps_reasons = [AwaitingPlanApproval (length (liveParts parts))]\<rparr>
           | RouteParts \<Rightarrow>
               (let (settled, total) = planProgress parts in
                Some \<lparr>ps_kind = PkPlanning, ps_reasons =
                  [if total = 0 then PlanSplit
                   else if pl_status p = Complete then PlanComplete total else PartsDone settled total]\<rparr>)
           | _ \<Rightarrow> None))"

definition activeStatus :: "string \<Rightarrow> pickup_context \<Rightarrow> pickup_status option" where
  "activeStatus origin ctx =
     (case find (\<lambda>t. tk_originRef t = Some origin \<and> isActiveTask t) (cx_tasks ctx) of
        None \<Rightarrow> None
      | Some t \<Rightarrow> Some \<lparr>ps_kind = PkActive, ps_reasons =
          [if tk_status t = TRunning then AgentRunning else if tk_status t = TQueued then AgentQueued else AgentWaiting]\<rparr>)"

text \<open>\<^verbatim>\<open>preplanAgentReason\<close>: the four things it can say, by whether the agent works, cools down or is awaited.\<close>

record preplan_agent =
  pa_origin :: string
  pa_settled :: bool
  pa_waiting :: pickup_reason
  pa_running :: pickup_reason
  pa_cooldown :: pickup_reason
  pa_awaiting :: pickup_reason

definition preplanAgentReason :: "issue \<Rightarrow> pickup_context \<Rightarrow> preplan_agent \<Rightarrow> pickup_reason option" where
  "preplanAgentReason i ctx agent =
     (if pa_settled agent \<or> hasWorkStarted (i_number i) (cx_tasks ctx) then None
      else if list_ex (\<lambda>p. pl_originRef p = issueOrigin (i_number i)) (cx_plans ctx) then None
      else case find (\<lambda>t. tk_originRef t = Some (pa_origin agent) \<and> isActiveTask t) (cx_tasks ctx) of
          Some running \<Rightarrow> Some (if tk_status running = TWaiting then pa_waiting agent else pa_running agent)
        | None \<Rightarrow>
            (case dispatchVerdict (pa_origin agent) (cx_now ctx) (cx_recentDecisions ctx) (cx_cooldown ctx) of
               VEscalate _ \<Rightarrow> None
             | VHold \<Rightarrow> None
             | VCooldown \<Rightarrow> Some (pa_cooldown agent)
             | VDispatch \<Rightarrow> Some (pa_awaiting agent)))"

definition appraisalFor :: "(string \<Rightarrow> string) \<Rightarrow> issue \<Rightarrow> pickup_context \<Rightarrow> pickup_reason option" where
  "appraisalFor digest i ctx =
     (let stored = find (\<lambda>a. ap_originRef a = issueOriginRef Root (i_number i) None) (cx_appraisals ctx) in
      or_else (map_option AppraisalStands (appraisalHold digest stored i))
        (preplanAgentReason i ctx \<lparr>pa_origin = appraisalOrigin (i_number i), pa_settled = isAppraised digest stored i,
           pa_waiting = AppraisalWaiting, pa_running = AppraisalRunning, pa_cooldown = AppraisalCooling,
           pa_awaiting = AppraisalAwaited\<rparr>))"

definition standingHoldStatus :: "(string \<Rightarrow> string) \<Rightarrow> issue \<Rightarrow> string \<Rightarrow> pickup_context \<Rightarrow> pickup_status option" where
  "standingHoldStatus digest i origin ctx =
     (case deliveryHold (find (\<lambda>d. dl_originRef d = origin) (cx_deliveries ctx)) i
             (py_pickupStates (cx_policy ctx)) (cx_deliverySignals ctx) of
        Some held \<Rightarrow> Some \<lparr>ps_kind = PkDelivered, ps_reasons = [MarkedDelivered held]\<rparr>
      | None \<Rightarrow>
     (case map_of (cx_goalBlocks ctx) origin of
        Some b \<Rightarrow> Some \<lparr>ps_kind = PkParked, ps_reasons = [ConcludedBlocked (gb_reason b)]\<rparr>
      | None \<Rightarrow>
      if isGoalPaused i (cx_policy ctx) then Some \<lparr>ps_kind = PkPaused, ps_reasons = [GoalPaused]\<rparr>
      else let (eligible, reasons) = isIssuePickupEligible i (cx_policy ctx) in
        if \<not> eligible then
          Some \<lparr>ps_kind = (if isContainerIssue i (py_containerTypes (cx_policy ctx)) then PkContainer else PkUnwatched),
                ps_reasons = reasons\<rparr>
        else map_option (\<lambda>r. \<lparr>ps_kind = PkAppraisal, ps_reasons = [r]\<rparr>) (appraisalFor digest i ctx)))"

definition countAttempts :: "string \<Rightarrow> decision list \<Rightarrow> nat" where
  "countAttempts origin decisions =
     length (filter (\<lambda>d. de_outcome d = Executed \<and>
        (a_type (de_action d) = DispatchCodeAgent \<or> a_type (de_action d) = DispatchDeskAgent) \<and>
        a_originRef (de_action d) = Some origin) decisions)"

definition planningRouteStatus :: "issue \<Rightarrow> pickup_context \<Rightarrow> plan_route \<Rightarrow> pickup_status" where
  "planningRouteStatus i ctx route =
     (case route of
        RouteParts \<Rightarrow> \<lparr>ps_kind = PkPlanning, ps_reasons = [PlanSplit]\<rparr>
      | RouteEscalated _ \<Rightarrow>
          \<lparr>ps_kind = PkEscalated, ps_reasons = [PlannerGaveUp (countAttempts (planOrigin (i_number i)) (cx_recentDecisions ctx))]\<rparr>
      | RouteAwaitingApproval \<Rightarrow> \<lparr>ps_kind = PkPlanning, ps_reasons = [AwaitingApprovalOfPlan]\<rparr>
      | RoutePlanning planner \<Rightarrow>
          (let atWork = find (\<lambda>t. tk_originRef t = Some (planOrigin (i_number i)) \<and> isActiveTask t) (cx_tasks ctx) in
           if atWork = None \<and> planner = PlannerDispatch \<and> cx_paused ctx
             then \<lparr>ps_kind = PkBlocked, ps_reasons = [DispatchPaused]\<rparr>
           else if atWork = None \<and> planner = PlannerDispatch \<and> cx_headroom ctx \<le> 0
             then \<lparr>ps_kind = PkBlocked, ps_reasons = [NoCapacity]\<rparr>
           else \<lparr>ps_kind = PkPlanning, ps_reasons =
             [case atWork of
                Some t \<Rightarrow> PlannerAtWork (tk_status t)
              | None \<Rightarrow> if planner = PlannerCooldown then PlanningCooling else AwaitingPlanner]\<rparr>))"

definition investigationStatus :: "issue \<Rightarrow> pickup_context \<Rightarrow> investigation_standing \<Rightarrow> pickup_status option" where
  "investigationStatus i ctx standing =
     (if \<not> is_labelled standing then None
      else map_option (\<lambda>r. \<lparr>ps_kind = PkInvestigation, ps_reasons = [r]\<rparr>)
        (or_else (map_option InvestigationStands (is_hold standing))
          (preplanAgentReason i ctx \<lparr>pa_origin = investigateOrigin (i_number i), pa_settled = (is_inForce standing \<noteq> None),
             pa_waiting = InvestigationWaiting, pa_running = InvestigationRunning, pa_cooldown = InvestigationCooling,
             pa_awaiting = InvestigationAwaited\<rparr>)))"

definition status_plan :: "issue \<Rightarrow> pickup_context \<Rightarrow> plan option" where
  "status_plan i ctx = find (\<lambda>p. pl_originRef p = issueOrigin (i_number i)) (cx_plans ctx)"

definition status_parts :: "plan option \<Rightarrow> pickup_context \<Rightarrow> plan_part list" where
  "status_parts pl ctx = (case pl of None \<Rightarrow> [] | Some p \<Rightarrow> filter (\<lambda>x. pp_planId x = pl_id p) (cx_planParts ctx))"

definition status_route :: "issue \<Rightarrow> pickup_context \<Rightarrow> plan_route" where
  "status_route i ctx =
     (let pl = status_plan i ctx in
      resolvePlanRoute pl (plannerVerdict (i_number i) pl (cx_now ctx) (cx_recentDecisions ctx) (cx_cooldown ctx))
        (length (liveParts (status_parts pl ctx))))"

definition issuePickupStatus :: "(string \<Rightarrow> string) \<Rightarrow> issue \<Rightarrow> pickup_context \<Rightarrow> pickup_status" where
  "issuePickupStatus digest i ctx =
     (case endedStatus i ctx of Some s \<Rightarrow> s | None \<Rightarrow>
     (case planGateStatus (status_route i ctx) (status_plan i ctx) (status_parts (status_plan i ctx) ctx) of
        Some s \<Rightarrow> s | None \<Rightarrow>
     (case openPrForIssue i (cx_openPrs ctx) of
        Some pr \<Rightarrow> \<lparr>ps_kind = PkHasPr, ps_reasons = [HasOpenPr (pr_number pr)]\<rparr>
      | None \<Rightarrow>
     (case or_else (or_else (activeStatus (issueOrigin (i_number i)) ctx)
                     (standingHoldStatus digest i (issueOrigin (i_number i)) ctx))
                   (investigationStatus i ctx (investigationStanding (cx_investigations ctx) (i_number i))) of
        Some s \<Rightarrow> s
      | None \<Rightarrow> planningRouteStatus i ctx (status_route i ctx)))))"

definition priority_step :: "pickup_policy \<Rightarrow> int option \<Rightarrow> string \<Rightarrow> int option" where
  "priority_step policy best label =
     (case map_of (py_priorityLabels policy) label of
        None \<Rightarrow> best
      | Some w \<Rightarrow> (case best of None \<Rightarrow> Some w | Some b \<Rightarrow> if b < w then Some w else Some b))"

definition issuePriority :: "string list \<Rightarrow> pickup_policy \<Rightarrow> int" where
  "issuePriority labels policy = default_to (py_defaultPriority policy) (foldl (priority_step policy) None labels)"

end
