(* ===== verification/PrHealth.thy ===== *)
theory PrHealth
  imports Relations
begin

text \<open>
  The state of a pull request and of the branches around it (\<^verbatim>\<open>src/src/pr/\<close>: \<open>prHealth.ts\<close>,
  \<open>prOwnership.ts\<close>, \<open>prThreads.ts\<close>, \<open>prWatch.ts\<close>, \<open>branchReap.ts\<close>, \<open>prRetarget.ts\<close>,
  \<open>prSplit.ts\<close>). The climb to the base whose failing checks a stacked pull request inherits stops at
  a pull request it has seen; the theory shows it finds the nearest red ancestor and no other.
\<close>

section \<open>Health\<close>

definition isConflicted :: "pull_request \<Rightarrow> bool" where
  "isConflicted pr =
     (if pr_merged pr then False
      else if pr_mergeableState pr = Some Dirty then True
      else (pr_mergeableState pr = None \<or> pr_mergeableState pr = Some MergeUnknown) \<and> pr_mergeable pr = Some False)"

definition needsBaseUpdate :: "pull_request \<Rightarrow> bool" where
  "needsBaseUpdate pr = (if pr_merged pr then False else isConflicted pr \<or> pr_mergeableState pr = Some Behind)"

definition isStackedPr :: "pull_request \<Rightarrow> string \<Rightarrow> bool" where
  "isStackedPr pr defaultBranch \<longleftrightarrow> pr_base pr \<noteq> None \<and> pr_base pr \<noteq> Some defaultBranch"

definition basePrOf :: "pull_request \<Rightarrow> pull_request list \<Rightarrow> pull_request option" where
  "basePrOf pr openPrs =
     (case pr_base pr of
        None \<Rightarrow> None
      | Some b \<Rightarrow> find (\<lambda>c. \<not> pr_merged c \<and> pr_number c \<noteq> pr_number pr \<and> pr_branch c = b) openPrs)"

definition ciNeedsAttention :: "pull_request \<Rightarrow> bool" where
  "ciNeedsAttention pr =
     (case pr_ciChecks pr of
        None \<Rightarrow> \<not> pr_ciWithheld pr \<and> pr_ciStatus pr = CiFailing
      | Some checks \<Rightarrow>
          if checks = [] then \<not> pr_ciWithheld pr \<and> pr_ciStatus pr = CiFailing
          else list_ex (\<lambda>c. c_status c = CiFailing \<and> \<not> c_advisory c) checks)"

text \<open>Each round of the climb passes an open pull request it had not seen, so it ends.\<close>

function inherit_walk :: "pull_request list \<Rightarrow> nat list \<Rightarrow> pull_request \<Rightarrow> pull_request option" where
  "inherit_walk openPrs seen current =
     (case basePrOf current openPrs of
        None \<Rightarrow> None
      | Some base \<Rightarrow>
          if pr_number base \<in> set seen then None
          else if ciNeedsAttention base then Some base
          else inherit_walk openPrs (seen @ [pr_number base]) base)"
  by pat_completeness auto

termination
proof (relation "measure (\<lambda>(openPrs, seen, current). card (pr_number ` set openPrs - set seen))", goal_cases)
  case (2 openPrs seen current base)
  then have "pr_number base \<in> pr_number ` set openPrs - set seen"
    by (auto simp: basePrOf_def dest!: find_Some_iff' split: option.splits)
  then have "pr_number ` set openPrs - set (seen @ [pr_number base]) \<subset> pr_number ` set openPrs - set seen"
    by auto
  then have "card (pr_number ` set openPrs - set (seen @ [pr_number base])) < card (pr_number ` set openPrs - set seen)"
    by (intro psubset_card_mono) simp_all
  then show ?case by simp
qed simp

declare inherit_walk.simps [simp del]

definition inheritedCiFailure :: "pull_request \<Rightarrow> pull_request list \<Rightarrow> pull_request option" where
  "inheritedCiFailure pr openPrs =
     (if \<not> ciNeedsAttention pr then None else inherit_walk openPrs [pr_number pr] pr)"

datatype pr_trouble =
    CiFailingOnBase nat
  | CiFailingHere "string list" nat
  | MergeConflicts
  | BehindBase
  | MergeIsBlocked
  | UnresolvedComments nat

definition MAX_NAMED_CHECKS :: nat where "MAX_NAMED_CHECKS = 3"

text \<open>The checks named after \<^verbatim>\<open>CI failing\<close>, and how many more there are.\<close>

definition failingCheckSuffix :: "pull_request \<Rightarrow> string list \<times> nat" where
  "failingCheckSuffix pr =
     (let failing = map c_name (filter (\<lambda>c. c_status c = CiFailing \<and> \<not> c_advisory c \<and> c_blocking c \<noteq> Some False)
            (default_to [] (pr_ciChecks pr)))
      in (take MAX_NAMED_CHECKS failing, length failing - MAX_NAMED_CHECKS))"

definition open_comments :: "pull_request \<Rightarrow> pr_comment list" where
  "open_comments pr = filter (\<lambda>c. \<not> pc_handled c) (pr_comments pr)"

definition prHealth :: "pull_request \<Rightarrow> pull_request list \<Rightarrow> bool \<times> pr_trouble list" where
  "prHealth pr openPrs =
     (if pr_merged pr then (False, [])
      else let reasons =
        (if pr_ciStatus pr = CiFailing
         then [case inheritedCiFailure pr openPrs of
                 Some from \<Rightarrow> CiFailingOnBase (pr_number from)
               | None \<Rightarrow> CiFailingHere (fst (failingCheckSuffix pr)) (snd (failingCheckSuffix pr))]
         else []) @
        (if isConflicted pr then [MergeConflicts]
         else if pr_mergeableState pr = Some Behind then [BehindBase]
         else if pr_mergeableState pr = Some MergeBlocked then [MergeIsBlocked] else []) @
        (if open_comments pr = [] then [] else [UnresolvedComments (length (open_comments pr))])
      in (reasons \<noteq> [], reasons))"

definition isPrWatched :: "pull_request \<Rightarrow> string \<Rightarrow> bool" where
  "isPrWatched pr watchLabel = isWatched (pr_labels pr) watchLabel"

definition awaitingReview :: "pull_request \<Rightarrow> bool \<Rightarrow> bool" where
  "awaitingReview pr staffed \<longleftrightarrow>
     prState pr = PrOpen \<and> \<not> staffed \<and> pr_approved pr \<noteq> Some True \<and> pr_ciStatus pr \<noteq> CiFailing \<and> open_comments pr = []"

section \<open>Whose it is\<close>

text \<open>\<^verbatim>\<open>^issue/\d+(/.+)?$\<close> and \<^verbatim>\<open>^job/.+$\<close>.\<close>

definition isHarnessBranch :: "string \<Rightarrow> bool" where
  "isHarnessBranch branch \<longleftrightarrow>
     (starts_with ''issue/'' branch \<and>
        (let rest = drop 6 branch; r = after_digits rest
         in digits_of rest \<noteq> [] \<and> (case r of [] \<Rightarrow> True | c # s \<Rightarrow> c = CHR ''/'' \<and> plain_text s)))
     \<or> (starts_with ''job/'' branch \<and> plain_text (drop 4 branch))"

definition isOurPr :: "pull_request \<Rightarrow> bool \<Rightarrow> bool" where
  "isOurPr pr prAuthorConfigured =
     default_to (prAuthorConfigured \<or> isHarnessBranch (pr_branch pr)) (pr_viewerAuthored pr)"

definition isSomeoneElsesPr :: "pull_request \<Rightarrow> bool" where
  "isSomeoneElsesPr pr \<longleftrightarrow> pr_viewerAuthored pr = Some False \<and> \<not> pr_botAuthored pr"

definition sameIdentity :: "string \<Rightarrow> string \<Rightarrow> bool" where
  "sameIdentity a b \<longleftrightarrow> a \<noteq> '''' \<and> to_lower a = to_lower b"

section \<open>Review threads\<close>

definition threadState :: "bool \<Rightarrow> bool \<Rightarrow> thread_state" where
  "threadState resolved answered = (if resolved then ThreadResolved else if answered then ThreadAnswered else ThreadOpen)"

definition threadHandled :: "thread_state \<Rightarrow> bool" where
  "threadHandled st \<longleftrightarrow> st = ThreadAnswered \<or> st = ThreadResolved"

definition threadComments :: "review_thread list \<Rightarrow> pr_comment list" where
  "threadComments threads = map (\<lambda>t. \<lparr>pc_id = t_id t, pc_author = t_author t, pc_body = t_body t,
     pc_handled = threadHandled (t_state t),
     pc_replies = (if t_replies t \<noteq> [] then Some (t_replies t) else None)\<rparr>) threads"

definition replyKey :: "string \<Rightarrow> string \<Rightarrow> string" where
  "replyKey threadId commentRef = threadId @ '':'' @ commentRef"

record thread_reopen =
  tr_prNumber :: nat
  tr_threadId :: string
  tr_reopenedAt :: int

definition reopen_marks :: "thread_reopen list \<Rightarrow> (nat, (string, int) jsmap) jsmap" where
  "reopen_marks reopens =
     foldl (\<lambda>m r. map_put (tr_prNumber r) (map_put (tr_threadId r) (tr_reopenedAt r) (default_to [] (map_of m (tr_prNumber r)))) m)
       [] reopens"

definition reopen_pr :: "(nat, (string, int) jsmap) jsmap \<Rightarrow> pull_request \<Rightarrow> pull_request" where
  "reopen_pr byPr pr =
     (case (map_of byPr (pr_number pr), pr_threads pr) of
        (Some marks, Some threads) \<Rightarrow>
          if \<not> list_ex (\<lambda>t. map_of marks (t_id t) \<noteq> None) threads then pr
          else let reopened = map (\<lambda>t. case map_of marks (t_id t) of
                     None \<Rightarrow> t | Some at \<Rightarrow> t\<lparr>t_state := ThreadReopened, t_reopenedAt := Some at\<rparr>) threads
            in pr\<lparr>pr_threads := Some reopened, pr_comments := threadComments reopened\<rparr>
      | _ \<Rightarrow> pr)"

text \<open>The pull requests of the world, with the threads somebody reopened marked so.\<close>

definition applyThreadReopens :: "pull_request list \<Rightarrow> thread_reopen list \<Rightarrow> pull_request list" where
  "applyThreadReopens prs reopens = (if reopens = [] then prs else map (reopen_pr (reopen_marks reopens)) prs)"

section \<open>Watching, reaping and retargeting\<close>

definition prsToSeedWatch :: "pull_request list \<Rightarrow> string \<Rightarrow> string \<Rightarrow> nat set \<Rightarrow> (nat \<times> string) list" where
  "prsToSeedWatch openPrs watchLabel legacyIgnoreLabel seeded =
     (if watchLabel = '''' then []
      else map (\<lambda>pr. (pr_number pr, pr_branch pr)) (filter (\<lambda>pr.
        prState pr = PrOpen \<and> isHarnessBranch (pr_branch pr) \<and> \<not> isSomeoneElsesPr pr \<and> pr_number pr \<notin> seeded
        \<and> \<not> isWatched (pr_labels pr) watchLabel
        \<and> \<not> (legacyIgnoreLabel \<noteq> '''' \<and> legacyIgnoreLabel \<in> set (default_to [] (pr_labels pr)))) openPrs))"

definition live_bases :: "pull_request list \<Rightarrow> string \<Rightarrow> string list" where
  "live_bases prs defaultBranch =
     defaultBranch # List.map_filter (\<lambda>pr. if prState pr = PrOpen then pr_base pr else None) prs"

definition reapable :: "string list \<Rightarrow> bool \<Rightarrow> task list \<Rightarrow> nat set \<Rightarrow> pull_request \<Rightarrow> bool" where
  "reapable bases prAuthorConfigured tasks reaped pr \<longleftrightarrow>
     prState pr = PrMerged \<and> isOurPr pr prAuthorConfigured \<and> pr_number pr \<notin> reaped \<and> pr_branch pr \<notin> set bases
     \<and> \<not> list_ex (\<lambda>t. tk_branch t = Some (pr_branch pr) \<and> isActiveTask t) tasks"

definition reapableBranches ::
  "pull_request list \<Rightarrow> pull_request list \<Rightarrow> string \<Rightarrow> bool \<Rightarrow> task list \<Rightarrow> nat set \<Rightarrow> (nat \<times> string) list" where
  "reapableBranches openPrs closedPrs defaultBranch prAuthorConfigured tasks reaped =
     foldl (\<lambda>out pr.
        if reapable (live_bases (openPrs @ closedPrs) defaultBranch) prAuthorConfigured tasks reaped pr
           \<and> \<not> list_ex (\<lambda>r. snd r = pr_branch pr) out
        then out @ [(pr_number pr, pr_branch pr)] else out) [] closedPrs"

definition merged_by_branch :: "pull_request list \<Rightarrow> (string, pull_request) jsmap" where
  "merged_by_branch closedPrs =
     map_from (map (\<lambda>pr. (pr_branch pr, pr)) (filter (\<lambda>pr. prState pr = PrMerged) closedPrs))"

definition retargetsFor :: "pull_request list \<Rightarrow> pull_request list \<Rightarrow> string \<Rightarrow> (nat \<times> string) list" where
  "retargetsFor openPrs closedPrs defaultBranch =
     List.map_filter (\<lambda>pr.
        case pr_base pr of
          None \<Rightarrow> None
        | Some b \<Rightarrow>
            (case map_of (merged_by_branch closedPrs) b of
               None \<Rightarrow> None
             | Some parent \<Rightarrow>
                 let target = default_to defaultBranch (pr_base parent) in
                 if pr_merged pr \<or> target = b then None else Some (pr_number pr, target))) openPrs"

section \<open>How wide it is\<close>

definition prBreadth :: "pull_request \<Rightarrow> nat \<Rightarrow> (nat \<times> bool) option" where
  "prBreadth pr budget =
     (if budget = 0 then None
      else case pr_changedFiles pr of None \<Rightarrow> None | Some n \<Rightarrow> Some (n, budget < n))"

definition splitOrigin :: "nat \<Rightarrow> nat \<Rightarrow> string" where
  "splitOrigin issue pr = issueOriginRef SplitFam issue (Some (show_nat pr))"

definition splitBranch :: "nat \<Rightarrow> string" where
  "splitBranch pr = ''split/pr/'' @ show_nat pr"

definition splitTargetPr :: "string \<Rightarrow> nat option" where
  "splitTargetPr ref = map_option (\<lambda>(_, i). read_nat i) (issueOriginId SplitFam ref)"

section \<open>The climb finds the nearest red ancestor\<close>

text \<open>The pull request \<open>k\<close> bases below this one.\<close>

fun ancestor :: "pull_request list \<Rightarrow> nat \<Rightarrow> pull_request \<Rightarrow> pull_request option" where
  "ancestor openPrs 0 pr = Some pr"
| "ancestor openPrs (Suc k) pr = (case basePrOf pr openPrs of None \<Rightarrow> None | Some b \<Rightarrow> ancestor openPrs k b)"

lemma ancestor_snoc: "ancestor openPrs (Suc k) pr = Option.bind (ancestor openPrs k pr) (\<lambda>p. basePrOf p openPrs)"
proof (induction k arbitrary: pr)
  case (Suc k)
  have "ancestor openPrs (Suc (Suc k)) pr = (case basePrOf pr openPrs of None \<Rightarrow> None | Some b \<Rightarrow> ancestor openPrs (Suc k) b)"
    by simp
  also have "\<dots> = (case basePrOf pr openPrs of None \<Rightarrow> None
      | Some b \<Rightarrow> Option.bind (ancestor openPrs k b) (\<lambda>p. basePrOf p openPrs))"
    by (simp only: Suc)
  also have "\<dots> = Option.bind (ancestor openPrs (Suc k) pr) (\<lambda>p. basePrOf p openPrs)"
    by (simp split: option.splits)
  finally show ?case .
qed (simp split: option.splits)

lemma base_in_open: "basePrOf pr openPrs = Some b \<Longrightarrow> b \<in> set openPrs"
  by (auto simp: basePrOf_def dest!: find_Some_iff' split: option.splits)

lemma ancestor_in_open: "ancestor openPrs (Suc k) pr = Some b \<Longrightarrow> b \<in> set openPrs"
  by (induction k arbitrary: pr) (auto split: option.splits dest: base_in_open)

text \<open>A climb that has come round again only meets what it met before.\<close>

lemma ancestor_add: "ancestor openPrs i pr = Some p \<Longrightarrow> ancestor openPrs (i + k) pr = ancestor openPrs k p"
  by (induction i arbitrary: pr) (auto split: option.splits)

lemma ancestor_periodic:
  assumes "ancestor openPrs a pr = Some p" and "ancestor openPrs (a + Suc d) pr = Some p"
  shows "ancestor openPrs (a + j) pr = ancestor openPrs (a + j mod Suc d) pr"
proof (induction j rule: less_induct)
  case (less j)
  show ?case
  proof (cases "j < Suc d")
    case False
    then obtain i where i: "j = Suc d + i" by (metis le_add_diff_inverse not_less)
    have "ancestor openPrs (a + j) pr = ancestor openPrs (a + Suc d + i) pr" by (simp add: i add.assoc)
    also have "\<dots> = ancestor openPrs i p" by (rule ancestor_add [OF assms(2)])
    also have "\<dots> = ancestor openPrs (a + i) pr" by (rule ancestor_add [OF assms(1), symmetric])
    also have "\<dots> = ancestor openPrs (a + i mod Suc d) pr" by (rule less) (simp add: i)
    also have "i mod Suc d = j mod Suc d" unfolding i by (rule mod_add_self1 [symmetric])
    finally show ?thesis .
  qed simp
qed

definition nearest_red :: "pull_request list \<Rightarrow> pull_request \<Rightarrow> nat \<Rightarrow> pull_request \<Rightarrow> bool" where
  "nearest_red openPrs pr n b \<longleftrightarrow> 0 < n \<and> ancestor openPrs n pr = Some b \<and> ciNeedsAttention b
     \<and> (\<forall>j p. 0 < j \<and> j < n \<and> ancestor openPrs j pr = Some p \<longrightarrow> \<not> ciNeedsAttention p)"

lemma inherit_walk_invariant:
  assumes "\<And>j. j < k \<Longrightarrow> \<exists>p. ancestor openPrs j pr = Some p \<and> seen ! j = pr_number p"
    and "ancestor openPrs (length seen - 1) pr = Some current" and "length seen = k" and "0 < k"
    and "\<And>j p. 0 < j \<Longrightarrow> j < k \<Longrightarrow> ancestor openPrs j pr = Some p \<Longrightarrow> \<not> ciNeedsAttention p"
    and "inherit_walk openPrs seen current = r"
  shows "(\<forall>b. r = Some b \<longrightarrow> (\<exists>n. nearest_red openPrs pr n b \<and> pr_number b \<noteq> pr_number pr))
    \<and> (r = None \<longrightarrow> (\<exists>n. 0 < n \<and> (\<forall>j p. 0 < j \<and> j < n \<and> ancestor openPrs j pr = Some p \<longrightarrow> \<not> ciNeedsAttention p)
        \<and> (case ancestor openPrs n pr of None \<Rightarrow> True
             | Some p \<Rightarrow> \<exists>i<n. \<exists>q. ancestor openPrs i pr = Some q \<and> pr_number q = pr_number p)))"
  using assms
proof (induction openPrs seen current arbitrary: k rule: inherit_walk.induct)
  case (1 openPrs seen current)
  have up: "ancestor openPrs k pr = basePrOf current openPrs"
    using ancestor_snoc [of openPrs "k - 1" pr] 1(3,4,5) by simp
  show ?case
  proof (cases "basePrOf current openPrs")
    case None
    with 1(7) have "r = None" by (simp add: inherit_walk.simps)
    with None up 1(5,6) show ?thesis by (auto intro!: exI [of _ k])
  next
    case (Some base)
    show ?thesis
    proof (cases "pr_number base \<in> set seen")
      case True
      with 1(7) Some have "r = None" by (simp add: inherit_walk.simps)
      moreover obtain i where "i < k" "seen ! i = pr_number base"
        using True 1(4) by (auto simp: in_set_conv_nth)
      moreover obtain q where "ancestor openPrs i pr = Some q" "pr_number q = pr_number base"
        using 1(2) [OF \<open>i < k\<close>] \<open>seen ! i = pr_number base\<close> by auto
      ultimately show ?thesis
        using Some up 1(5,6) by (intro conjI allI impI exI [of _ k]) (auto intro!: exI [of _ i])
    next
      case new: False
      have "pr_number base \<noteq> pr_number pr"
        using 1(2) [of 0] 1(4,5) new by (auto simp: in_set_conv_nth)
      show ?thesis
      proof (cases "ciNeedsAttention base")
        case True
        with 1(7) Some new have "r = Some base" by (simp add: inherit_walk.simps)
        with True Some up 1(5,6) \<open>pr_number base \<noteq> pr_number pr\<close> show ?thesis
          by (auto simp: nearest_red_def intro!: exI [of _ k])
      next
        case False
        from 1(7) Some new False have r: "inherit_walk openPrs (seen @ [pr_number base]) base = r"
          by (simp add: inherit_walk.simps [of openPrs seen current])
        show ?thesis
        proof (rule 1(1) [OF Some new False, of "Suc k"])
          show "\<exists>p. ancestor openPrs j pr = Some p \<and> (seen @ [pr_number base]) ! j = pr_number p" if "j < Suc k" for j
            using that 1(2) [of j] 1(4) Some up by (auto simp: nth_append less_Suc_eq)
          show "\<not> ciNeedsAttention p" if "0 < j" "j < Suc k" "ancestor openPrs j pr = Some p" for j p
            using that 1(6) [of j p] up Some False by (auto simp: less_Suc_eq)
        qed (use 1(4) Some up r in auto)
      qed
    qed
  qed
qed

lemma nearest_red_unique:
  assumes "nearest_red openPrs pr n b" and "nearest_red openPrs pr m c"
  shows "n = m \<and> b = c"
proof -
  have "\<not> n < m" "\<not> m < n" using assms by (auto simp: nearest_red_def)
  then show ?thesis using assms by (auto simp: nearest_red_def)
qed

lemma ancestor_None_stays: "ancestor openPrs i pr = None \<Longrightarrow> i \<le> j \<Longrightarrow> ancestor openPrs j pr = None"
proof (induction j)
  case (Suc j)
  then show ?case
    by (cases "i = Suc j") (auto simp: ancestor_snoc simp del: ancestor.simps(2))
qed simp

text \<open>
  C30. A pull request inherits the failing checks of the nearest of its bases that is red, and of no
  other: every base between the two is green. When no base is red the climb still ends.
\<close>

theorem inherited_failure_is_nearest_red:
  assumes "distinct (map pr_number openPrs)" and "pr \<in> set openPrs"
  shows "inheritedCiFailure pr openPrs = Some b \<longleftrightarrow>
    ciNeedsAttention pr \<and> b \<noteq> pr \<and> (\<exists>n. nearest_red openPrs pr n b)"
proof (cases "ciNeedsAttention pr")
  case red: True
  have same: "p = q" if "p \<in> set openPrs" "q \<in> set openPrs" "pr_number p = pr_number q" for p q
    using distinct_key_eq [OF assms(1)] that by blast
  have member: "p \<in> set openPrs" if "ancestor openPrs i pr = Some p" for i p
    using that assms(2) by (cases i) (auto simp del: ancestor.simps(2) dest: ancestor_in_open)
  let ?r = "inherit_walk openPrs [pr_number pr] pr"
  note found = inherit_walk_invariant [of 1 openPrs pr "[pr_number pr]" pr ?r, simplified]
  have "\<exists>n. nearest_red openPrs pr n c \<and> c \<noteq> pr" if "?r = Some c" for c
    using found that by auto
  moreover have False if none: "?r = None" and n: "nearest_red openPrs pr n b" and "b \<noteq> pr" for n b
  proof -
    obtain m where m: "0 < m" "\<And>j p. 0 < j \<Longrightarrow> j < m \<Longrightarrow> ancestor openPrs j pr = Some p \<Longrightarrow> \<not> ciNeedsAttention p"
      "case ancestor openPrs m pr of None \<Rightarrow> True
         | Some p \<Rightarrow> \<exists>i<m. \<exists>q. ancestor openPrs i pr = Some q \<and> pr_number q = pr_number p"
      using found none by auto
    have "m \<le> n" using n m(2) [of n b] unfolding nearest_red_def by (meson not_le)
    then obtain p i q where p: "ancestor openPrs m pr = Some p" "i < m" "ancestor openPrs i pr = Some q" "pr_number q = pr_number p"
      using m(3) n ancestor_None_stays [of openPrs m pr n] by (auto simp: nearest_red_def split: option.splits)
    then have "q = p" using same member by blast
    obtain d where d: "m = i + Suc d" using \<open>i < m\<close> less_imp_Suc_add by fastforce
    have "ancestor openPrs (i + (n - i)) pr = ancestor openPrs (i + (n - i) mod Suc d) pr"
      using p \<open>q = p\<close> by (intro ancestor_periodic [of _ _ _ p]) (auto simp: d)
    then have b: "ancestor openPrs (i + (n - i) mod Suc d) pr = Some b"
      using n \<open>m \<le> n\<close> \<open>i < m\<close> by (simp add: nearest_red_def)
    have "(n - i) mod Suc d < Suc d" by simp
    then have "i + (n - i) mod Suc d < m" by (simp only: d nat_add_left_cancel_less)
    show False
    proof (cases "i + (n - i) mod Suc d")
      case 0
      with b \<open>b \<noteq> pr\<close> show False by simp
    next
      case (Suc k)
      with b \<open>i + (n - i) mod Suc d < m\<close> n m(2) [of "Suc k" b] show False
        by (simp add: nearest_red_def del: ancestor.simps(2))
    qed
  qed
  ultimately have "?r = Some b \<longleftrightarrow> b \<noteq> pr \<and> (\<exists>n. nearest_red openPrs pr n b)"
    using nearest_red_unique by (cases ?r) blast+
  with red show ?thesis by (simp add: inheritedCiFailure_def)
qed (simp add: inheritedCiFailure_def)

text \<open>A stack of three: the middle pull request is green, so the top inherits from the bottom.\<close>

definition three_stack :: "pull_request list" where
  "three_stack = [(pr0 1 ''a'' ''main'')\<lparr>pr_ciStatus := CiFailing\<rparr>, pr0 2 ''b'' ''a'',
     (pr0 3 ''c'' ''b'')\<lparr>pr_ciStatus := CiFailing\<rparr>]"

theorem inherited_failure_is_nearest_red_witness:
  "\<exists>n. nearest_red three_stack (three_stack ! 2) n (three_stack ! 0)"
proof -
  have "inheritedCiFailure (three_stack ! 2) three_stack = Some (three_stack ! 0)"
    by code_simp
  moreover have "distinct (map pr_number three_stack)" "three_stack ! 2 \<in> set three_stack"
    by (simp_all add: three_stack_def pr0_def)
  ultimately show ?thesis
    using inherited_failure_is_nearest_red [of three_stack "three_stack ! 2" "three_stack ! 0"] by simp
qed

section \<open>A reaped branch is nobody's\<close>

lemma reap_fold:
  assumes "distinct (map snd out)"
  shows "distinct (map snd (foldl (\<lambda>out pr. if ok pr \<and> \<not> list_ex (\<lambda>r. snd r = pr_branch pr) out
        then out @ [(pr_number pr, pr_branch pr)] else out) out prs))
    \<and> set (foldl (\<lambda>out pr. if ok pr \<and> \<not> list_ex (\<lambda>r. snd r = pr_branch pr) out
        then out @ [(pr_number pr, pr_branch pr)] else out) out prs)
      \<subseteq> set out \<union> (\<lambda>pr. (pr_number pr, pr_branch pr)) ` {pr \<in> set prs. ok pr}"
  using assms
proof (induction prs arbitrary: out)
  case (Cons pr prs)
  show ?case
  proof (cases "ok pr \<and> \<not> list_ex (\<lambda>r. snd r = pr_branch pr) out")
    case True
    then have "distinct (map snd (out @ [(pr_number pr, pr_branch pr)]))"
      using Cons.prems by (auto simp: list_ex_iff)
    from Cons.IH [OF this] True show ?thesis by auto
  next
    case False
    with Cons.IH [OF Cons.prems] show ?thesis by auto
  qed
qed simp

text \<open>
  A branch is deleted only after its pull request merged, never when it is the default branch,
  the base of an open pull request, somebody else's or worked by an agent, and at most once.
\<close>

theorem reaped_branches_are_nobodys:
  "distinct (map snd (reapableBranches openPrs closedPrs defaultBranch configured tasks reaped)) \<and>
   set (reapableBranches openPrs closedPrs defaultBranch configured tasks reaped) \<subseteq>
     (\<lambda>pr. (pr_number pr, pr_branch pr)) ` {pr \<in> set closedPrs. prState pr = PrMerged \<and> isOurPr pr configured
        \<and> pr_number pr \<notin> reaped \<and> pr_branch pr \<noteq> defaultBranch
        \<and> (\<nexists>o'. o' \<in> set (openPrs @ closedPrs) \<and> prState o' = PrOpen \<and> pr_base o' = Some (pr_branch pr))
        \<and> (\<nexists>t. t \<in> set tasks \<and> tk_branch t = Some (pr_branch pr) \<and> isActiveTask t)}"
proof -
  let ?ok = "reapable (live_bases (openPrs @ closedPrs) defaultBranch) configured tasks reaped"
  have "{pr \<in> set closedPrs. ?ok pr} \<subseteq> {pr \<in> set closedPrs. prState pr = PrMerged \<and> isOurPr pr configured
        \<and> pr_number pr \<notin> reaped \<and> pr_branch pr \<noteq> defaultBranch
        \<and> (\<nexists>o'. o' \<in> set (openPrs @ closedPrs) \<and> prState o' = PrOpen \<and> pr_base o' = Some (pr_branch pr))
        \<and> (\<nexists>t. t \<in> set tasks \<and> tk_branch t = Some (pr_branch pr) \<and> isActiveTask t)}"
    by (auto simp: reapable_def live_bases_def List.map_filter_def list_ex_iff image_iff split: if_splits; blast)
  note sub = image_mono [OF this, of "\<lambda>pr. (pr_number pr, pr_branch pr)"]
  have "distinct (map snd ([] :: (nat \<times> string) list))" by simp
  note reap = reap_fold [OF this, of ?ok closedPrs, simplified set_empty Un_empty_left]
  show ?thesis
    unfolding reapableBranches_def using reap sub by (intro conjI) (simp_all only: list.set Un_empty_left, blast)
qed

end
