(* ===== verification/Cycles.thy ===== *)
theory Cycles
  imports Prelude
begin

text \<open>
  The depth-first cycle search the source writes out three times: over the parts of a plan document
  (\<^verbatim>\<open>findDependencyCycle\<close> and \<^verbatim>\<open>inducedPartCycle\<close> of \<^verbatim>\<open>src/src/plans/planDocument.ts\<close>) and over the
  stories of a Feature (\<^verbatim>\<open>findCycle\<close> of \<^verbatim>\<open>src/src/sequence/sequence.ts\<close>). The search carries the path
  it is on and the nodes it has finished; it is total, what it returns is a cycle of the graph, and it
  returns nothing exactly on an acyclic graph.
\<close>

type_synonym 'n graph = "('n, 'n list) jsmap"

definition succs :: "'n graph \<Rightarrow> 'n \<Rightarrow> 'n list" where
  "succs g n = default_to [] (map_of g n)"

definition nodes :: "'n graph \<Rightarrow> 'n set" where
  "nodes g = set (map fst g) \<union> (\<Union>ns \<in> set (map snd g). set ns)"

definition edges_of :: "'n graph \<Rightarrow> ('n \<times> 'n) set" where
  "edges_of g = {(n, m). m \<in> set (succs g n)}"

lemma finite_nodes [simp]: "finite (nodes g)"
  by (auto simp: nodes_def)

lemma succs_in_nodes: "m \<in> set (succs g n) \<Longrightarrow> m \<in> nodes g"
proof (cases "map_of g n")
  case (Some ns)
  assume "m \<in> set (succs g n)"
  with Some have "m \<in> set ns" "(n, ns) \<in> set g" by (auto simp: succs_def dest: map_of_SomeD)
  then show ?thesis unfolding nodes_def by force
qed (simp add: succs_def)

lemma card_visit_less: "n \<notin> set path \<Longrightarrow> card (nodes g \<union> set (succs g n) - set (path @ [n])) < card (insert n (nodes g) - set path)"
  by (rule psubset_card_mono) (auto dest: succs_in_nodes)

lemma card_leq_split: "finite B \<Longrightarrow> A \<subseteq> B \<Longrightarrow> card A \<noteq> card B \<Longrightarrow> card A < card B"
  by (meson card_mono le_neq_implies_less)

text \<open>
  \<^verbatim>\<open>walk(node)\<close>: \<open>path\<close> is the current path, \<open>don\<close> the finished nodes, latest first. The plan
  document's search also leaves at once for a node it has no entry for (\<open>skip\<close>). The result is the
  cycle, or the finished nodes.
\<close>

function walk :: "'n graph \<Rightarrow> bool \<Rightarrow> 'n \<Rightarrow> 'n list \<Rightarrow> 'n list \<Rightarrow> 'n list + 'n list"
  and walk_all :: "'n graph \<Rightarrow> bool \<Rightarrow> 'n list \<Rightarrow> 'n list \<Rightarrow> 'n list \<Rightarrow> 'n list + 'n list"
where
  "walk g skip n path don =
     (if n \<in> set don \<or> (skip \<and> map_of g n = None) then Inr don
      else if n \<in> set path then Inl (dropWhile (\<lambda>m. m \<noteq> n) path @ [n])
      else case walk_all g skip (succs g n) (path @ [n]) don of
          Inl c \<Rightarrow> Inl c
        | Inr don' \<Rightarrow> Inr (n # don'))"
| "walk_all g skip [] path don = Inr don"
| "walk_all g skip (n # ns) path don =
     (case walk g skip n path don of
        Inl c \<Rightarrow> Inl c
      | Inr don' \<Rightarrow> walk_all g skip ns path don')"
  by pat_completeness auto

termination
proof (relation "measures [\<lambda>x. case x of
      Inl (g, k, n, p, d) \<Rightarrow> card (insert n (nodes g) - set p)
    | Inr (g, k, ns, p, d) \<Rightarrow> card (nodes g \<union> set ns - set p),
    \<lambda>x. case x of Inl _ \<Rightarrow> 0 | Inr (g, k, ns, p, d) \<Rightarrow> Suc (length ns)]", goal_cases)
  case (2 g skip n path don)
  then show ?case using card_visit_less [of n path g] by simp
qed (auto intro!: card_leq_split)

declare walk.simps [simp del]

definition search :: "'n graph \<Rightarrow> bool \<Rightarrow> 'n list option" where
  "search g skip = (case walk_all g skip (map fst g) [] [] of Inl c \<Rightarrow> Some c | Inr _ \<Rightarrow> None)"

section \<open>What it returns is a cycle\<close>

fun chain :: "'n graph \<Rightarrow> 'n list \<Rightarrow> bool" where
  "chain g [] = True"
| "chain g [n] = True"
| "chain g (n # m # ns) \<longleftrightarrow> m \<in> set (succs g n) \<and> chain g (m # ns)"

definition is_cycle :: "'n graph \<Rightarrow> 'n list \<Rightarrow> bool" where
  "is_cycle g c \<longleftrightarrow> 2 \<le> length c \<and> hd c = last c \<and> chain g c"

lemma chain_snoc: "chain g (ns @ [n]) \<longleftrightarrow> chain g ns \<and> (ns = [] \<or> n \<in> set (succs g (last ns)))"
  by (induction g ns rule: chain.induct) auto

lemma chain_dropWhile: "chain g ns \<Longrightarrow> chain g (dropWhile p ns)"
  by (induction g ns rule: chain.induct) auto

definition reached :: "'n graph \<Rightarrow> 'n list \<Rightarrow> 'n \<Rightarrow> bool" where
  "reached g path n \<longleftrightarrow> chain g path \<and> (path = [] \<or> n \<in> set (succs g (last path)))"

lemma closing_cycle:
  assumes "reached g path n" and "n \<in> set path"
  shows "is_cycle g (dropWhile (\<lambda>m. m \<noteq> n) path @ [n])"
proof -
  let ?w = "dropWhile (\<lambda>m. m \<noteq> n) path"
  have w: "?w \<noteq> []" using assms(2) by (auto simp: dropWhile_eq_Nil_conv)
  have "last ?w = last path"
    by (metis w last_appendR takeWhile_dropWhile_id)
  moreover have "hd ?w = n" using hd_dropWhile [OF w] by simp
  moreover have "path \<noteq> []" using assms(2) by auto
  ultimately show ?thesis
    using assms(1) w unfolding is_cycle_def reached_def
    by (auto simp: chain_snoc chain_dropWhile Suc_le_eq)
qed

lemma walk_sound:
  shows "walk g skip n path don = Inl c \<Longrightarrow> reached g path n \<Longrightarrow> is_cycle g c"
    and "walk_all g skip ns path don = Inl c \<Longrightarrow> (\<forall>n \<in> set ns. reached g path n) \<Longrightarrow> is_cycle g c"
proof (induction g skip n path don and g skip ns path don rule: walk_walk_all.induct)
  case (1 g skip n path don)
  have next_reached: "\<forall>m \<in> set (succs g n). reached g (path @ [n]) m"
    using 1(3) by (auto simp: reached_def chain_snoc)
  show ?case
    using 1(2,3) closing_cycle [of g path n] 1(1) [OF _ _ _ next_reached]
    by (auto simp: walk.simps split: if_splits sum.splits)
next
  case (3 g skip n ns path don)
  then show ?case by (auto split: sum.splits)
qed simp

lemma search_sound: "search g skip = Some c \<Longrightarrow> is_cycle g c"
  using walk_sound(2) [of g skip "map fst g" "[]" "[]"]
  by (auto simp: search_def reached_def split: sum.splits)

section \<open>It returns one exactly when there is one\<close>

text \<open>
  The finished nodes are in topological order: everything a node points at is finished before it, or
  has no entry and was skipped.
\<close>

fun topo :: "'n graph \<Rightarrow> bool \<Rightarrow> 'n list \<Rightarrow> bool" where
  "topo g skip [] = True"
| "topo g skip (n # don) \<longleftrightarrow>
     n \<notin> set don \<and> (\<forall>m \<in> set (succs g n). m \<in> set don \<or> (skip \<and> map_of g m = None)) \<and> topo g skip don"

lemma walk_topo:
  shows "walk g skip n path don = Inr don' \<Longrightarrow> topo g skip don \<Longrightarrow> set path \<inter> set don = {} \<Longrightarrow>
      topo g skip don' \<and> set don \<subseteq> set don' \<and> set path \<inter> set don' = {} \<and>
      (n \<in> set don' \<or> (skip \<and> map_of g n = None))"
    and "walk_all g skip ns path don = Inr don' \<Longrightarrow> topo g skip don \<Longrightarrow> set path \<inter> set don = {} \<Longrightarrow>
      topo g skip don' \<and> set don \<subseteq> set don' \<and> set path \<inter> set don' = {} \<and>
      (\<forall>n \<in> set ns. n \<in> set don' \<or> (skip \<and> map_of g n = None))"
proof (induction g skip n path don and g skip ns path don arbitrary: don' and don' rule: walk_walk_all.induct)
  case (1 g skip n path don)
  show ?case
  proof (cases "n \<in> set don \<or> (skip \<and> map_of g n = None)")
    case True
    with 1 show ?thesis by (auto simp: walk.simps)
  next
    case a: False
    with 1(2) have b: "n \<notin> set path" by (auto simp: walk.simps split: if_splits)
    from 1(2) a b obtain e where e: "walk_all g skip (succs g n) (path @ [n]) don = Inr e" "don' = n # e"
      by (auto simp: walk.simps split: sum.splits)
    have "set (path @ [n]) \<inter> set don = {}" using 1(4) a by auto
    from 1(1) [OF a b e(1) 1(3) this] e(2) b show ?thesis by auto
  qed
next
  case (3 g skip n ns path don)
  from 3(3) obtain e where e: "walk g skip n path don = Inr e" "walk_all g skip ns path e = Inr don'"
    by (auto split: sum.splits)
  from 3(1) [OF e(1) 3(4,5)] have "topo g skip e" "set path \<inter> set e = {}" "set don \<subseteq> set e"
    "n \<in> set e \<or> (skip \<and> map_of g n = None)" by auto
  with 3(2) [OF e(1) e(2)] show ?case by auto
qed simp

definition rank :: "'n list \<Rightarrow> 'n \<Rightarrow> nat" where
  "rank don n = length (dropWhile (\<lambda>m. m \<noteq> n) don)"

lemma rank_Cons: "rank (a # don) n = (if n = a then Suc (length don) else rank don n)"
  by (simp add: rank_def)

lemma rank_le: "rank don n \<le> length don"
  by (simp add: rank_def length_dropWhile_le)

lemma rank_absent: "n \<notin> set don \<Longrightarrow> rank don n = 0"
  by (simp add: rank_def dropWhile_eq_Nil_conv) (metis (full_types))

lemma topo_rank:
  "topo g skip don \<Longrightarrow> n \<in> set don \<Longrightarrow> m \<in> set (succs g n) \<Longrightarrow>
     m \<in> set don \<or> map_of g m = None \<Longrightarrow> rank don m < rank don n \<or> map_of g m = None"
proof (induction don)
  case (Cons a don)
  show ?case
  proof (cases "n = a")
    case True
    with Cons.prems have "m \<in> set don \<or> map_of g m = None" "a \<notin> set don" by auto
    with True show ?thesis using rank_le [of don m] by (auto simp: rank_Cons)
  next
    case False
    with Cons.prems have n: "n \<in> set don" and t: "topo g skip don" by auto
    have "m \<in> set don \<or> map_of g m = None"
      using t n Cons.prems(3) by (induction don) auto
    moreover from this have "m \<noteq> a \<or> map_of g m = None" using Cons.prems(1) by auto
    ultimately show ?thesis
      using Cons.IH [OF t n Cons.prems(3)] False by (auto simp: rank_Cons)
  qed
qed simp

lemma topo_closed:
  "topo g skip don \<Longrightarrow> n \<in> set don \<Longrightarrow> m \<in> set (succs g n) \<Longrightarrow> m \<in> set don \<or> map_of g m = None"
  by (induction don) auto

lemma succs_None: "map_of g n = None \<Longrightarrow> succs g n = []"
  by (simp add: succs_def)

lemma keys_finished_acyclic:
  assumes t: "topo g skip don" and k: "\<forall>n \<in> set (map fst g). n \<in> set don"
  shows "acyclic (edges_of g)"
proof -
  let ?r = "\<lambda>n. if map_of g n = None then 0 else rank don n"
  have "?r m < ?r n" if "m \<in> set (succs g n)" for n m
  proof -
    have known: "map_of g n \<noteq> None" using that by (metis succs_None empty_iff list.set(1))
    then have n: "n \<in> set don" using k by (metis map_of_eq_None_iff image_set)
    have "0 < rank don n"
      using n unfolding rank_def by (induction don) auto
    then show ?thesis
      using topo_rank [OF t n that topo_closed [OF t n that]] known by auto
  qed
  then have "(edges_of g)\<inverse> \<subseteq> measure ?r" by (auto simp: edges_of_def)
  then have "wf ((edges_of g)\<inverse>)" using wf_subset wf_measure by blast
  then show ?thesis using wf_acyclic acyclic_converse by blast
qed

lemma chain_path: "chain g (n # ns) \<Longrightarrow> ns \<noteq> [] \<Longrightarrow> (n, last ns) \<in> (edges_of g)\<^sup>+"
proof (induction ns arbitrary: n)
  case (Cons m ns)
  have e: "(n, m) \<in> edges_of g" using Cons.prems by (simp add: edges_of_def)
  show ?case
  proof (cases "ns = []")
    case False
    with Cons have "(m, last ns) \<in> (edges_of g)\<^sup>+" by simp
    with e False show ?thesis by (simp add: trancl_into_trancl2)
  qed (use e in auto)
qed simp

lemma cycle_not_acyclic: "is_cycle g c \<Longrightarrow> \<not> acyclic (edges_of g)"
  using chain_path [of g "hd c" "tl c"] unfolding is_cycle_def acyclic_def
  by (cases c) (auto simp: Suc_le_eq split: if_splits)

lemma search_None_iff: "search g skip = None \<longleftrightarrow> acyclic (edges_of g)"
proof
  assume "search g skip = None"
  then obtain don where d: "walk_all g skip (map fst g) [] [] = Inr don"
    by (auto simp: search_def split: sum.splits)
  have fin: "\<forall>n \<in> set (map fst g). n \<in> set don \<or> (skip \<and> map_of g n = None)" "topo g skip don"
    using walk_topo(2) [OF d] by auto
  have "\<forall>n \<in> set (map fst g). n \<in> set don"
    using fin(1) by (metis map_of_eq_None_iff image_set)
  then show "acyclic (edges_of g)" by (rule keys_finished_acyclic [OF fin(2)])
next
  assume "acyclic (edges_of g)"
  then show "search g skip = None"
    by (metis search_sound cycle_not_acyclic not_Some_eq)
qed

lemma search_complete: "\<not> acyclic (edges_of g) \<Longrightarrow> \<exists>c. search g skip = Some c \<and> is_cycle g c"
  using search_None_iff [of g skip] search_sound [of g skip] by (cases "search g skip") auto

end
