(* ===== verification/PlanDocument.thy ===== *)
theory PlanDocument
  imports Cycles PlanParts
begin

text \<open>
  The document a planner submits (\<^verbatim>\<open>src/src/plans/planDocument.ts\<close>): the limits its schema puts on the
  fields, the refinement that makes its parts and atoms a schedulable graph, and the rows the store
  is given. The refinement is a list of issues in the order the code adds them; the theory shows that
  it is empty exactly for the documents the specification below describes, for the dependency graph
  of the parts and for the graph the atoms induce on them alike. What the schema library words for a
  field that breaks a limit is one constructor, and the \<^verbatim>\<open>validation\<close>, \<^verbatim>\<open>watch\<close> and \<^verbatim>\<open>state\<close> blocks
  have schemas of their own that are not modelled.
\<close>

section \<open>The document\<close>

record doc_atom =
  da_slug :: string
  da_title :: string
  da_intent :: string
  da_touches :: "string list"
  da_acceptance :: "string option"
  da_dependsOn :: "string list"
  da_rejected :: "(string \<times> string) list"

record doc_part =
  dp_slug :: string
  dp_title :: string
  dp_scope :: string
  dp_touches :: "string list"
  dp_atoms :: "string list"
  dp_size :: "part_size option"
  dp_dependsOn :: "string list"
  dp_rationale :: "string option"
  dp_acceptance :: "string option"
  dp_expectedKind :: "outcome_kind option"
  dp_profile :: "string option"
  dp_coverage :: "string option"

record plan_document =
  pd_reason :: string
  pd_diagnosis :: "string option"
  pd_approach :: "string option"
  pd_risks :: "string option"
  pd_outOfScope :: "string option"
  pd_alternatives :: "string option"
  pd_openQuestions :: "string option"
  pd_verification :: "string option"
  pd_evidence :: "plan_evidence list"
  pd_document :: "string option"
  pd_atoms :: "doc_atom list"
  pd_parts :: "doc_part list"

definition MAX_PLAN_DOCUMENT_CHARS :: nat where "MAX_PLAN_DOCUMENT_CHARS = 60000"
definition MAX_EVIDENCE :: nat where "MAX_EVIDENCE = 24"
definition MAX_TOUCHES :: nat where "MAX_TOUCHES = 40"
definition MAX_REJECTED :: nat where "MAX_REJECTED = 8"

section \<open>The limits of the fields\<close>

text \<open>\<^verbatim>\<open>/^[a-z0-9][a-z0-9-]*$/\<close>.\<close>

definition lower_alnum :: "char \<Rightarrow> bool" where
  "lower_alnum c \<longleftrightarrow> c \<in> set ''abcdefghijklmnopqrstuvwxyz0123456789''"

fun kebab :: "string \<Rightarrow> bool" where
  "kebab [] = False"
| "kebab (c # cs) \<longleftrightarrow> lower_alnum c \<and> list_all (\<lambda>d. lower_alnum d \<or> d = CHR ''-'') cs"

definition filled :: "string \<Rightarrow> bool" where
  "filled s \<longleftrightarrow> s \<noteq> ''''"

definition filled_opt :: "string option \<Rightarrow> bool" where
  "filled_opt t \<longleftrightarrow> (case t of None \<Rightarrow> True | Some s \<Rightarrow> filled s)"

definition EvidenceSchema :: "plan_evidence \<Rightarrow> bool" where
  "EvidenceSchema e \<longleftrightarrow> filled (ev_path e) \<and> ev_line e \<noteq> Some 0 \<and> filled_opt (ev_note e)"

definition AtomSchema :: "doc_atom \<Rightarrow> bool" where
  "AtomSchema a \<longleftrightarrow> kebab (da_slug a) \<and> filled (da_title a) \<and> filled (da_intent a)
     \<and> list_all filled (da_touches a) \<and> length (da_touches a) \<le> MAX_TOUCHES
     \<and> filled_opt (da_acceptance a) \<and> list_all filled (da_dependsOn a)
     \<and> list_all (\<lambda>(route, because). filled route \<and> filled because) (da_rejected a)"

definition PartSchema :: "doc_part \<Rightarrow> bool" where
  "PartSchema p \<longleftrightarrow> kebab (dp_slug p) \<and> filled (dp_title p) \<and> filled (dp_scope p)
     \<and> list_all filled (dp_touches p) \<and> length (dp_touches p) \<le> MAX_TOUCHES
     \<and> list_all filled (dp_atoms p) \<and> list_all filled (dp_dependsOn p)
     \<and> filled_opt (dp_rationale p) \<and> filled_opt (dp_acceptance p)
     \<and> filled_opt (dp_profile p) \<and> filled_opt (dp_coverage p)"

definition fields_ok :: "plan_document \<Rightarrow> bool" where
  "fields_ok d \<longleftrightarrow> filled (pd_reason d)
     \<and> list_all filled_opt [pd_diagnosis d, pd_approach d, pd_risks d, pd_outOfScope d, pd_alternatives d,
          pd_openQuestions d, pd_verification d, pd_document d]
     \<and> list_all EvidenceSchema (pd_evidence d) \<and> list_all AtomSchema (pd_atoms d) \<and> list_all PartSchema (pd_parts d)"

text \<open>The transforms of the schema: an over-long list or text is cut, not refused.\<close>

definition cut_rejected :: "doc_atom \<Rightarrow> doc_atom" where
  "cut_rejected a = a\<lparr>da_rejected := take MAX_REJECTED (da_rejected a)\<rparr>"

definition transformed :: "plan_document \<Rightarrow> plan_document" where
  "transformed d = d\<lparr>
     pd_evidence := take MAX_EVIDENCE (pd_evidence d),
     pd_document := map_option (take MAX_PLAN_DOCUMENT_CHARS) (pd_document d),
     pd_atoms := map cut_rejected (pd_atoms d)\<rparr>"

section \<open>The refinement\<close>

record induced_cycle =
  ic_atom :: string
  ic_dep :: string
  ic_from :: string
  ic_to :: string
  ic_path :: "string list"

datatype doc_issue =
    BadField
  | NoParts
  | DuplicateSlug string
  | SelfDependency string
  | UnknownDependency string string
  | DependencyCycle "string list"
  | DuplicateAtom string
  | AtomSelfDependency string
  | AtomUnknownDependency string string
  | PartUnknownAtom string string
  | AtomCarriedByNone string
  | AtomCarriedByMany string "string list"
  | InducedCycle induced_cycle

text \<open>One pass with a \<^verbatim>\<open>Set\<close> of what was seen.\<close>

fun repeats :: "string list \<Rightarrow> string list \<Rightarrow> string list" where
  "repeats seen [] = []"
| "repeats seen (s # ss) = (if s \<in> set seen then s # repeats seen ss else repeats (s # seen) ss)"

definition part_graph :: "doc_part list \<Rightarrow> string graph" where
  "part_graph parts = map_from (map (\<lambda>p. (dp_slug p, dp_dependsOn p)) parts)"

definition findDependencyCycle :: "doc_part list \<Rightarrow> string list option" where
  "findDependencyCycle parts = search (part_graph parts) True"

definition part_dep_issues :: "doc_part list \<Rightarrow> doc_issue list" where
  "part_dep_issues parts = concat (map (\<lambda>p. concat (map (\<lambda>dep.
       if dep = dp_slug p then [SelfDependency (dp_slug p)]
       else if dep \<notin> dp_slug ` set parts then [UnknownDependency (dp_slug p) dep] else []) (dp_dependsOn p))) parts)"

definition atom_dep_issues :: "doc_atom list \<Rightarrow> doc_issue list" where
  "atom_dep_issues atoms = concat (map (\<lambda>a. concat (map (\<lambda>dep.
       if dep = da_slug a then [AtomSelfDependency (da_slug a)]
       else if dep \<notin> da_slug ` set atoms then [AtomUnknownDependency (da_slug a) dep] else []) (da_dependsOn a))) atoms)"

text \<open>\<^verbatim>\<open>atomCarriers\<close>: what it refuses, and which parts carry each known atom.\<close>

definition carried_pairs :: "doc_part list \<Rightarrow> (string \<times> string) list" where
  "carried_pairs parts = concat (map (\<lambda>p. map (\<lambda>a. (a, dp_slug p)) (dp_atoms p)) parts)"

definition atomCarriers :: "doc_part list \<Rightarrow> string list \<Rightarrow> doc_issue list \<times> (string, string list) jsmap" where
  "atomCarriers parts known =
     (map (\<lambda>(a, p). PartUnknownAtom p a) (filter (\<lambda>(a, p). a \<notin> set known) (carried_pairs parts)),
      group_pairs (filter (\<lambda>(a, p). a \<in> set known) (carried_pairs parts)))"

definition holder_issues :: "doc_atom list \<Rightarrow> (string, string list) jsmap \<Rightarrow> doc_issue list" where
  "holder_issues atoms carriers = concat (map (\<lambda>a.
     case default_to [] (map_of carriers (da_slug a)) of
       [] \<Rightarrow> [AtomCarriedByNone (da_slug a)]
     | [_] \<Rightarrow> []
     | holders \<Rightarrow> [AtomCarriedByMany (da_slug a) holders]) atoms)"

definition single_holders :: "(string, string list) jsmap \<Rightarrow> (string, string) jsmap" where
  "single_holders carriers = map_from (concat (map (\<lambda>(slug, holders).
     case holders of [h] \<Rightarrow> [(slug, h)] | _ \<Rightarrow> []) carriers))"

text \<open>
  \<^verbatim>\<open>inducedPartCycle\<close>: an edge runs from the part of an atom to the part of an atom it depends on. The
  search stops at the first edge back into its path, so the atom and dependency it reports are those
  of the first edge listed between the last two parts of the cycle.
\<close>

definition induced_edges :: "doc_atom list \<Rightarrow> (string, string) jsmap \<Rightarrow> (string \<times> (string \<times> string \<times> string)) list" where
  "induced_edges atoms partOf = concat (map (\<lambda>a.
     case map_of partOf (da_slug a) of
       None \<Rightarrow> []
     | Some from \<Rightarrow> concat (map (\<lambda>dep.
         case map_of partOf dep of
           None \<Rightarrow> []
         | Some to \<Rightarrow> (if to = from then [] else [(from, (to, da_slug a, dep))])) (da_dependsOn a))) atoms)"

definition induced_graph :: "doc_atom list \<Rightarrow> (string, string) jsmap \<Rightarrow> string graph" where
  "induced_graph atoms partOf = map (\<lambda>(from, es). (from, map fst es)) (group_pairs (induced_edges atoms partOf))"

definition inducedPartCycle :: "doc_atom list \<Rightarrow> (string, string) jsmap \<Rightarrow> induced_cycle option" where
  "inducedPartCycle atoms partOf =
     (case search (induced_graph atoms partOf) False of
        None \<Rightarrow> None
      | Some c \<Rightarrow>
          let from = last (butlast c); to = last c in
          (case find (\<lambda>(t, _). t = to) (default_to [] (map_of (group_pairs (induced_edges atoms partOf)) from)) of
             None \<Rightarrow> None
           | Some (_, atom, dep) \<Rightarrow>
               Some \<lparr>ic_atom = atom, ic_dep = dep, ic_from = from, ic_to = to, ic_path = c\<rparr>))"

definition refineAtoms :: "plan_document \<Rightarrow> doc_issue list" where
  "refineAtoms d =
     (let atoms = pd_atoms d;
          (unknown, carriers) = atomCarriers (pd_parts d) (map da_slug atoms)
      in map DuplicateAtom (repeats [] (map da_slug atoms))
         @ atom_dep_issues atoms
         @ unknown
         @ holder_issues atoms carriers
         @ (case inducedPartCycle atoms (single_holders carriers) of None \<Rightarrow> [] | Some c \<Rightarrow> [InducedCycle c]))"

definition refine_document :: "plan_document \<Rightarrow> doc_issue list" where
  "refine_document d =
     (if pd_parts d = [] then [NoParts]
      else map DuplicateSlug (repeats [] (map dp_slug (pd_parts d)))
         @ part_dep_issues (pd_parts d)
         @ (case findDependencyCycle (pd_parts d) of None \<Rightarrow> [] | Some c \<Rightarrow> [DependencyCycle c])
         @ refineAtoms d)"

definition validatePlanDocument :: "plan_document \<Rightarrow> doc_issue list + plan_document" where
  "validatePlanDocument d =
     (if \<not> fields_ok d then Inl [BadField]
      else case refine_document (transformed d) of
          [] \<Rightarrow> Inr (transformed d)
        | issues \<Rightarrow> Inl issues)"

section \<open>The rows for the store\<close>

record part_input =
  pi_slug :: string
  pi_seq :: nat
  pi_title :: string
  pi_scope :: string
  pi_touches :: "string list"
  pi_atoms :: "string list option"
  pi_dependsOn :: "string list"
  pi_rationale :: "string option"
  pi_acceptance :: "string option"
  pi_size :: "part_size option"
  pi_expectedKind :: "outcome_kind option"
  pi_profile :: "string option"
  pi_coverage :: "string option"

definition atomTouches :: "plan_document \<Rightarrow> string list \<Rightarrow> string list" where
  "atomTouches d slugs =
     take MAX_TOUCHES (uniq (concat (map da_touches (filter (\<lambda>a. da_slug a \<in> set slugs) (pd_atoms d)))))"

definition planPartInputs :: "plan_document \<Rightarrow> part_input list" where
  "planPartInputs d = map (\<lambda>(index, p). \<lparr>
     pi_slug = dp_slug p, pi_seq = index + 1, pi_title = dp_title p, pi_scope = dp_scope p,
     pi_touches = (if dp_touches p \<noteq> [] then dp_touches p else atomTouches d (dp_atoms p)),
     pi_atoms = Some (dp_atoms p), pi_dependsOn = dp_dependsOn p, pi_rationale = dp_rationale p,
     pi_acceptance = dp_acceptance p, pi_size = dp_size p, pi_expectedKind = dp_expectedKind p,
     pi_profile = dp_profile p, pi_coverage = dp_coverage p\<rparr>) (enumerate 0 (pd_parts d))"

record narrative =
  nv_reason :: "string option"
  nv_diagnosis :: "string option"
  nv_approach :: "string option"
  nv_risks :: "string option"
  nv_outOfScope :: "string option"
  nv_alternatives :: "string option"
  nv_openQuestions :: "string option"
  nv_verification :: "string option"
  nv_document :: "string option"
  nv_evidence :: "plan_evidence list"

definition planNarrative :: "plan_document \<Rightarrow> narrative" where
  "planNarrative d = \<lparr>
     nv_reason = Some (pd_reason d), nv_diagnosis = pd_diagnosis d, nv_approach = pd_approach d,
     nv_risks = pd_risks d, nv_outOfScope = pd_outOfScope d, nv_alternatives = pd_alternatives d,
     nv_openQuestions = pd_openQuestions d, nv_verification = pd_verification d,
     nv_document = pd_document d, nv_evidence = pd_evidence d\<rparr>"

section \<open>When a document is accepted\<close>

text \<open>What a schedulable document is, independently of how the code finds out.\<close>

definition depends :: "doc_part list \<Rightarrow> (string \<times> string) set" where
  "depends parts = {(s, d). \<exists>p \<in> set parts. dp_slug p = s \<and> d \<in> set (dp_dependsOn p)}"

definition carries :: "doc_part list \<Rightarrow> string \<Rightarrow> string \<Rightarrow> bool" where
  "carries parts s a \<longleftrightarrow> (\<exists>p \<in> set parts. dp_slug p = s \<and> a \<in> set (dp_atoms p))"

definition induced :: "plan_document \<Rightarrow> (string \<times> string) set" where
  "induced d = {(s, t). s \<noteq> t \<and> (\<exists>a \<in> set (pd_atoms d). \<exists>dep \<in> set (da_dependsOn a).
     carries (pd_parts d) s (da_slug a) \<and> carries (pd_parts d) t dep)}"

definition parts_schedulable :: "plan_document \<Rightarrow> bool" where
  "parts_schedulable d \<longleftrightarrow> pd_parts d \<noteq> [] \<and> distinct (map dp_slug (pd_parts d))
     \<and> (\<forall>p \<in> set (pd_parts d). set (dp_dependsOn p) \<subseteq> dp_slug ` set (pd_parts d) - {dp_slug p})
     \<and> acyclic (depends (pd_parts d))"

definition atoms_schedulable :: "plan_document \<Rightarrow> bool" where
  "atoms_schedulable d \<longleftrightarrow> distinct (map da_slug (pd_atoms d))
     \<and> (\<forall>a \<in> set (pd_atoms d). set (da_dependsOn a) \<subseteq> da_slug ` set (pd_atoms d) - {da_slug a})
     \<and> mset (concat (map dp_atoms (pd_parts d))) = mset (map da_slug (pd_atoms d))
     \<and> acyclic (induced d)"

lemma repeats_empty: "repeats seen ss = [] \<longleftrightarrow> distinct ss \<and> set ss \<inter> set seen = {}"
  by (induction seen ss rule: repeats.induct) auto

lemma part_dep_empty:
  "part_dep_issues parts = [] \<longleftrightarrow>
     (\<forall>p \<in> set parts. set (dp_dependsOn p) \<subseteq> dp_slug ` set parts - {dp_slug p})"
  by (auto simp: part_dep_issues_def split: if_splits)

lemma atom_dep_empty:
  "atom_dep_issues atoms = [] \<longleftrightarrow>
     (\<forall>a \<in> set atoms. set (da_dependsOn a) \<subseteq> da_slug ` set atoms - {da_slug a})"
  by (auto simp: atom_dep_issues_def split: if_splits)

lemma map_of_rev_distinct: "distinct (map fst xs) \<Longrightarrow> map_of (rev xs) k = map_of xs k"
proof (induction xs)
  case (Cons e xs)
  obtain a v where e: "e = (a, v)" by fastforce
  have "map_of xs a = None" using Cons.prems e by (auto simp: map_of_eq_None_iff)
  then show ?case using Cons e by (auto simp: map_add_def split: option.splits)
qed simp

lemma part_graph_lookup:
  "distinct (map dp_slug parts) \<Longrightarrow> p \<in> set parts \<Longrightarrow> map_of (part_graph parts) (dp_slug p) = Some (dp_dependsOn p)"
  by (auto simp: part_graph_def map_from_lookup map_of_rev_distinct o_def intro!: map_of_is_SomeI)

lemma part_graph_keys: "map_of (part_graph parts) s \<noteq> None \<longleftrightarrow> s \<in> dp_slug ` set parts"
  by (auto simp: part_graph_def map_from_lookup map_of_eq_None_iff image_iff)

lemma part_graph_edges: "distinct (map dp_slug parts) \<Longrightarrow> edges_of (part_graph parts) = depends parts"
proof -
  assume d: "distinct (map dp_slug parts)"
  have "m \<in> set (succs (part_graph parts) s) \<longleftrightarrow> (s, m) \<in> depends parts" for s m
  proof (cases "s \<in> dp_slug ` set parts")
    case True
    then obtain p where p: "p \<in> set parts" "s = dp_slug p" by auto
    have "q = p" if "q \<in> set parts" "dp_slug q = dp_slug p" for q
      using d p that by (metis distinct_map inj_on_def)
    then show ?thesis
      using p part_graph_lookup [OF d p(1)] by (auto simp: succs_def depends_def)
  next
    case False
    then have "map_of (part_graph parts) s = None" using part_graph_keys by blast
    with False show ?thesis by (auto simp: succs_def depends_def)
  qed
  then show ?thesis by (auto simp: edges_of_def)
qed

lemma carried_pairs_iff: "(a, s) \<in> set (carried_pairs parts) \<longleftrightarrow> carries parts s a"
  by (auto simp: carried_pairs_def carries_def)

lemma carried_count:
  "length (filter (\<lambda>e. fst e = a) (carried_pairs parts)) = count (mset (concat (map dp_atoms parts))) a"
proof (induction parts)
  case (Cons p parts)
  have "length (filter (\<lambda>e. fst e = a) (map (\<lambda>x. (x, dp_slug p)) xs)) = count (mset xs) a" for xs
    by (induction xs) auto
  with Cons show ?case by (simp add: carried_pairs_def)
qed (simp add: carried_pairs_def)

definition carriers_of :: "doc_part list \<Rightarrow> string list \<Rightarrow> (string, string list) jsmap" where
  "carriers_of parts known = snd (atomCarriers parts known)"

lemma carriers_lookup:
  "default_to [] (map_of (carriers_of parts known) a) =
     (if a \<in> set known then map snd (filter (\<lambda>e. fst e = a) (carried_pairs parts)) else [])"
proof -
  have "filter (\<lambda>e. fst e = a) (filter (\<lambda>(a, p). a \<in> set known) es) =
      (if a \<in> set known then filter (\<lambda>e. fst e = a) es else [])" for es :: "(string \<times> string) list"
    by (induction es) auto
  then show ?thesis by (auto simp: carriers_of_def atomCarriers_def group_lookup)
qed

lemma carriers_distinct: "distinct (map fst (carriers_of parts known))"
  by (simp add: carriers_of_def atomCarriers_def group_keys)

lemma single_holders_lookup:
  assumes "distinct (map fst m)"
  shows "map_of (single_holders m) k = (case default_to [] (map_of m k) of [h] \<Rightarrow> Some h | _ \<Rightarrow> None)"
proof -
  let ?f = "\<lambda>(slug, holders). case holders of [h] \<Rightarrow> [(slug, h)] | _ \<Rightarrow> []"
  have keys: "set (map fst (concat (map ?f es))) \<subseteq> set (map fst es)" for es :: "(string \<times> 'a list) list"
    by (force split: list.splits)
  have "distinct (map fst (concat (map ?f m))) \<and>
      map_of (concat (map ?f m)) k = (case default_to [] (map_of m k) of [h] \<Rightarrow> Some h | _ \<Rightarrow> None)"
    using assms
  proof (induction m)
    case (Cons e m)
    obtain s hs where e: "e = (s, hs)" by fastforce
    have "s \<notin> set (map fst m)" using Cons.prems e by auto
    then have s: "s \<notin> set (map fst (concat (map ?f m)))" using keys [of m] by blast
    have ms: "map_of m s = None" using Cons.prems e by (auto simp: map_of_eq_None_iff)
    from Cons have IH: "distinct (map fst (concat (map ?f m)))"
      "map_of (concat (map ?f m)) k = (case default_to [] (map_of m k) of [h] \<Rightarrow> Some h | _ \<Rightarrow> None)" by auto
    show ?case
      using s IH ms e by (cases hs rule: list.exhaust [case_names Nil Cons]; auto split: list.splits)
  qed simp
  then show ?thesis by (simp add: single_holders_def map_from_lookup map_of_rev_distinct)
qed

lemma induced_edges_iff:
  "(s, (t, a, dep)) \<in> set (induced_edges atoms partOf) \<longleftrightarrow>
     s \<noteq> t \<and> (\<exists>x \<in> set atoms. a = da_slug x \<and> dep \<in> set (da_dependsOn x) \<and>
       map_of partOf (da_slug x) = Some s \<and> map_of partOf dep = Some t)"
proof
  assume "(s, (t, a, dep)) \<in> set (induced_edges atoms partOf)"
  then show "s \<noteq> t \<and> (\<exists>x \<in> set atoms. a = da_slug x \<and> dep \<in> set (da_dependsOn x) \<and>
      map_of partOf (da_slug x) = Some s \<and> map_of partOf dep = Some t)"
    by (auto simp: induced_edges_def split: option.splits if_splits)
next
  assume "s \<noteq> t \<and> (\<exists>x \<in> set atoms. a = da_slug x \<and> dep \<in> set (da_dependsOn x) \<and>
      map_of partOf (da_slug x) = Some s \<and> map_of partOf dep = Some t)"
  then obtain x where x: "s \<noteq> t" "x \<in> set atoms" "a = da_slug x" "dep \<in> set (da_dependsOn x)"
    "map_of partOf (da_slug x) = Some s" "map_of partOf dep = Some t" by blast
  let ?out = "\<lambda>from d. case map_of partOf d of None \<Rightarrow> []
      | Some to \<Rightarrow> (if to = from then [] else [(from, (to, da_slug x, d))])"
  have "(s, (t, a, dep)) \<in> set (?out s dep)" using x by simp
  then have "(s, (t, a, dep)) \<in> set (concat (map (?out s) (da_dependsOn x)))"
    unfolding set_concat set_map using x(4) by blast
  then show "(s, (t, a, dep)) \<in> set (induced_edges atoms partOf)"
    unfolding induced_edges_def set_concat set_map using x(2,5) by (intro UnionI [OF imageI [OF imageI [OF x(2)]]]) simp
qed

lemma map_of_map_snd: "map_of (map (\<lambda>(k, v). (k, f v)) m) k = map_option f (map_of m k)"
  by (induction m) auto

lemma induced_graph_succs:
  "succs (induced_graph atoms partOf) s = map fst (map snd (filter (\<lambda>e. fst e = s) (induced_edges atoms partOf)))"
proof -
  have "succs (induced_graph atoms partOf) s = map fst (default_to [] (map_of (group_pairs (induced_edges atoms partOf)) s))"
    by (cases "map_of (group_pairs (induced_edges atoms partOf)) s")
       (simp_all add: succs_def induced_graph_def map_of_map_snd)
  then show ?thesis by (simp add: group_lookup)
qed

lemma induced_graph_edges:
  "(s, t) \<in> edges_of (induced_graph atoms partOf) \<longleftrightarrow> (\<exists>a dep. (s, (t, a, dep)) \<in> set (induced_edges atoms partOf))"
  unfolding edges_of_def induced_graph_succs by force

lemma cycle_last_edge: "is_cycle g c \<Longrightarrow> last c \<in> set (succs g (last (butlast c)))"
proof -
  assume c: "is_cycle g c"
  then obtain xs y where xy: "c = xs @ [y]" "xs \<noteq> []"
    unfolding is_cycle_def by (metis append_Nil length_append_singleton list.size(3) not_less_eq_eq numeral_2_eq_2 rev_exhaust le0 le_zero_eq nat.distinct(1))
  with c show ?thesis by (auto simp: is_cycle_def chain_snoc)
qed

lemma inducedPartCycle_None:
  "inducedPartCycle atoms partOf = None \<longleftrightarrow> acyclic (edges_of (induced_graph atoms partOf))"
proof (cases "search (induced_graph atoms partOf) False")
  case None
  then show ?thesis by (simp add: inducedPartCycle_def flip: search_None_iff [of _ False])
next
  case (Some c)
  have "last c \<in> set (succs (induced_graph atoms partOf) (last (butlast c)))"
    by (rule cycle_last_edge) (rule search_sound [OF Some])
  then obtain a dep where "(last (butlast c), last c, a, dep) \<in> set (induced_edges atoms partOf)"
    by (auto simp: induced_graph_succs)
  then have "(last c, a, dep) \<in> set (default_to [] (map_of (group_pairs (induced_edges atoms partOf)) (last (butlast c))))"
    by (force simp: group_lookup)
  then have "find (\<lambda>(t, _). t = last c) (default_to [] (map_of (group_pairs (induced_edges atoms partOf)) (last (butlast c)))) \<noteq> None"
    unfolding find_not_None_iff by force
  moreover have "\<not> acyclic (edges_of (induced_graph atoms partOf))"
    using Some by (simp flip: search_None_iff [of _ False])
  ultimately show ?thesis using Some by (auto simp: inducedPartCycle_def Let_def)
qed

lemma holder_issues_empty:
  "holder_issues atoms carriers = [] \<longleftrightarrow>
     (\<forall>a \<in> set atoms. length (default_to [] (map_of carriers (da_slug a))) = 1)"
proof -
  have "(case hs of [] \<Rightarrow> [AtomCarriedByNone s] | [_] \<Rightarrow> [] | x # y # zs \<Rightarrow> [AtomCarriedByMany s (x # y # zs)]) = []
      \<longleftrightarrow> length hs = 1" for s and hs :: "string list"
    by (cases hs; cases "tl hs") auto
  then show ?thesis by (simp only: holder_issues_def concat_eq_Nil_conv set_map ball_simps)
qed

lemma counts_one_mset:
  assumes "distinct ks"
  shows "(set xs \<subseteq> set ks \<and> (\<forall>k \<in> set ks. count (mset xs) k = 1)) \<longleftrightarrow> mset xs = mset ks"
proof
  assume l: "set xs \<subseteq> set ks \<and> (\<forall>k \<in> set ks. count (mset xs) k = 1)"
  have "count (mset xs) k = count (mset ks) k" for k
  proof (cases "k \<in> set ks")
    case True
    moreover have "count (mset ks) k = 1" using assms True by (simp only: distinct_count_atmost_1 if_True)
    ultimately show ?thesis using l by metis
  next
    case False
    with l have "k \<notin> set xs" by blast
    with False show ?thesis by (metis count_mset_0_iff)
  qed
  then show "mset xs = mset ks" by (rule multiset_eqI)
next
  assume e: "mset xs = mset ks"
  then have "set xs = set ks" by (rule mset_eq_setD)
  moreover have "\<forall>k \<in> set ks. count (mset ks) k = 1" using assms by (simp only: distinct_count_atmost_1) simp
  ultimately show "set xs \<subseteq> set ks \<and> (\<forall>k \<in> set ks. count (mset xs) k = 1)" using e by simp
qed

lemma single_lookup:
  "map_of (single_holders (carriers_of parts known)) a =
     (case (if a \<in> set known then map snd (filter (\<lambda>e. fst e = a) (carried_pairs parts)) else []) of
        [h] \<Rightarrow> Some h | _ \<Rightarrow> None)"
  by (simp only: single_holders_lookup [OF carriers_distinct] carriers_lookup)

lemma single_lookup_carries:
  assumes "mset (concat (map dp_atoms parts)) = mset known" and "distinct known"
  shows "map_of (single_holders (carriers_of parts known)) a = Some s \<longleftrightarrow> carries parts s a"
proof -
  let ?es = "filter (\<lambda>e. fst e = a) (carried_pairs parts)"
  have len: "length ?es = (if a \<in> set known then 1 else 0)"
    using assms by (simp add: carried_count distinct_count_atmost_1)
  have mem: "carries parts s a \<longleftrightarrow> (a, s) \<in> set ?es" by (simp add: carried_pairs_iff)
  show ?thesis
  proof (cases "a \<in> set known")
    case True
    with len obtain e where e: "?es = [e]" by (auto simp only: if_True length_Suc_conv One_nat_def length_0_conv)
    have "fst x = a" if "x \<in> set ?es" for x using that by simp
    then have fe: "fst e = a" by (simp only: e list.set) simp
    have l: "map_of (single_holders (carriers_of parts known)) a = Some (snd e)"
      by (simp only: single_lookup True if_True e list.map list.case)
    have r: "carries parts s a \<longleftrightarrow> s = snd e"
      unfolding mem e using fe by (cases e) auto
    show ?thesis unfolding l r by blast
  next
    case False
    with len have "?es = []" by simp
    with False mem show ?thesis by (simp add: single_lookup)
  qed
qed

lemma refine_atoms_empty: "refineAtoms d = [] \<longleftrightarrow> atoms_schedulable d"
proof -
  let ?slugs = "map da_slug (pd_atoms d)" and ?parts = "pd_parts d"
  let ?c = "carriers_of (pd_parts d) (map da_slug (pd_atoms d))"
  have split: "refineAtoms d = [] \<longleftrightarrow> distinct ?slugs \<and> atom_dep_issues (pd_atoms d) = []
      \<and> fst (atomCarriers ?parts ?slugs) = [] \<and> holder_issues (pd_atoms d) ?c = []
      \<and> inducedPartCycle (pd_atoms d) (single_holders ?c) = None"
    by (auto simp: refineAtoms_def carriers_of_def repeats_empty Let_def split: option.splits prod.splits)
  have unknown: "fst (atomCarriers ?parts ?slugs) = [] \<longleftrightarrow> set (concat (map dp_atoms ?parts)) \<subseteq> set ?slugs"
    by (force simp: atomCarriers_def filter_empty_conv carried_pairs_def)
  have holders: "holder_issues (pd_atoms d) ?c = [] \<longleftrightarrow>
      (\<forall>k \<in> set ?slugs. count (mset (concat (map dp_atoms ?parts))) k = 1)"
    by (simp add: holder_issues_empty carriers_lookup carried_count)
  have carried: "distinct ?slugs \<Longrightarrow> fst (atomCarriers ?parts ?slugs) = [] \<and> holder_issues (pd_atoms d) ?c = []
      \<longleftrightarrow> mset (concat (map dp_atoms ?parts)) = mset ?slugs"
    unfolding unknown holders by (rule counts_one_mset)
  have ind: "distinct ?slugs \<Longrightarrow> mset (concat (map dp_atoms ?parts)) = mset ?slugs \<Longrightarrow>
      edges_of (induced_graph (pd_atoms d) (single_holders ?c)) = induced d"
    by (simp add: set_eq_iff split_paired_all induced_graph_edges induced_edges_iff single_lookup_carries induced_def) blast
  show ?thesis
    unfolding split atoms_schedulable_def inducedPartCycle_None atom_dep_empty
    using carried ind by metis
qed

lemma refine_document_empty:
  "refine_document d = [] \<longleftrightarrow> parts_schedulable d \<and> atoms_schedulable d"
proof (cases "pd_parts d = []")
  case True
  then show ?thesis by (simp add: refine_document_def parts_schedulable_def)
next
  case False
  have "refine_document d = [] \<longleftrightarrow> distinct (map dp_slug (pd_parts d)) \<and> part_dep_issues (pd_parts d) = []
      \<and> findDependencyCycle (pd_parts d) = None \<and> refineAtoms d = []"
    using False by (auto simp: refine_document_def repeats_empty split: option.splits)
  then show ?thesis
    unfolding refine_atoms_empty part_dep_empty findDependencyCycle_def search_None_iff parts_schedulable_def
    using False part_graph_edges by metis
qed

lemma accepted_iff:
  "validatePlanDocument d = Inr e \<longleftrightarrow>
     fields_ok d \<and> e = transformed d \<and> parts_schedulable e \<and> atoms_schedulable e"
  using refine_document_empty [of "transformed d"]
  by (auto simp: validatePlanDocument_def split: list.splits)

text \<open>
  C4. A plan document is accepted exactly when its fields keep their limits and it describes a schedule:
  at least one part, no slug twice, every dependency another declared part, no dependency cycle; every
  atom declared once, depending on other declared atoms, carried by exactly one part exactly once; and
  no cycle in the order the atoms' dependencies put on the parts carrying them. What is accepted is the
  document itself with its over-long lists and text cut to their limits.
\<close>

theorem plan_document_accepted_iff:
  "validatePlanDocument d = Inr e \<longleftrightarrow> (fields_ok d \<and> e = transformed d
     \<and> pd_parts d \<noteq> [] \<and> distinct (map dp_slug (pd_parts d))
     \<and> list_all (\<lambda>p. set (dp_dependsOn p) \<subseteq> dp_slug ` set (pd_parts d) - {dp_slug p}) (pd_parts d)
     \<and> acyclic (depends (pd_parts d))
     \<and> distinct (map da_slug (pd_atoms d))
     \<and> list_all (\<lambda>a. set (da_dependsOn a) \<subseteq> da_slug ` set (pd_atoms d) - {da_slug a}) (pd_atoms d)
     \<and> mset (concat (map dp_atoms (pd_parts d))) = mset (map da_slug (pd_atoms d))
     \<and> acyclic (induced d))"
proof -
  have atoms: "map da_slug (pd_atoms (transformed d)) = map da_slug (pd_atoms d)"
    "map da_dependsOn (pd_atoms (transformed d)) = map da_dependsOn (pd_atoms d)"
    "pd_parts (transformed d) = pd_parts d"
    by (simp_all add: transformed_def cut_rejected_def)
  have parts: "parts_schedulable (transformed d) \<longleftrightarrow> parts_schedulable d"
    by (simp add: parts_schedulable_def atoms)
  have img: "da_slug ` set (pd_atoms (transformed d)) = da_slug ` set (pd_atoms d)"
    using atoms(1) by (metis list.set_map)
  have "induced (transformed d) = induced d"
    by (auto simp: induced_def transformed_def cut_rejected_def)
  moreover have "(\<forall>a \<in> set (pd_atoms (transformed d)). set (da_dependsOn a) \<subseteq> S - {da_slug a}) \<longleftrightarrow>
      (\<forall>a \<in> set (pd_atoms d). set (da_dependsOn a) \<subseteq> S - {da_slug a})" for S
    by (simp add: transformed_def cut_rejected_def)
  ultimately have atms: "atoms_schedulable (transformed d) \<longleftrightarrow> atoms_schedulable d"
    by (simp only: atoms_schedulable_def atoms(1,3) img)
  show ?thesis
    using accepted_iff [of d e] parts atms
    by (simp only: parts_schedulable_def [of d] atoms_schedulable_def [of d] list_all_iff) blast
qed


end
