(* ===== verification/PlanStore.thy ===== *)
theory PlanStore
  imports PlanDocument
begin

text \<open>
  The tables of plans, parts, atoms, revisions, amendments and asks (\<^verbatim>\<open>src/src/store/plans.ts\<close>, the
  asks of \<^verbatim>\<open>store/humanTasks.ts\<close>) and what the store does to them. A table is the list of its rows, an
  \<^verbatim>\<open>UPDATE\<close> rewrites the rows its clause selects and an \<^verbatim>\<open>INSERT ... ON CONFLICT\<close> appends or rewrites
  the columns it names. The clock reading and the random id of a new row are arguments. A declaration
  written again keeps the progress of the part it names (\<^verbatim>\<open>plans/redeclare.ts\<close>); the theory shows
  that the row the store ends up with is the one the operation returns.
\<close>

datatype amendment_author = AgentAuthor | OperatorAuthor

datatype amendment_status = AmPending | AmApplied | AmDeclined | AmSuperseded

record amendment =
  am_id :: string
  am_planId :: string
  am_originRef :: string
  am_document :: plan_document
  am_note :: string
  am_author :: amendment_author
  am_authorRef :: "string option"
  am_status :: amendment_status
  am_resolution :: "string option"
  am_createdAt :: int
  am_decidedAt :: "int option"

record plan_revision =
  rv_id :: string
  rv_planId :: string
  rv_seq :: nat
  rv_narrative :: narrative
  rv_parts :: "part_input list"
  rv_at :: int

record plan_db =
  db_plans :: "plan list"
  db_parts :: "plan_part list"
  db_atoms :: "plan_atom list"
  db_revisions :: "plan_revision list"
  db_amendments :: "amendment list"
  db_asks :: "human_task list"

section \<open>Reading\<close>

definition getPlan :: "plan_db \<Rightarrow> string \<Rightarrow> plan option" where
  "getPlan db i = find (\<lambda>pl. pl_id pl = i) (db_plans db)"

definition getPlanByOrigin :: "plan_db \<Rightarrow> string \<Rightarrow> plan option" where
  "getPlanByOrigin db ref = find (\<lambda>pl. pl_originRef pl = ref) (db_plans db)"

definition part_order :: "plan_part \<Rightarrow> plan_part \<Rightarrow> int" where
  "part_order = cmp_or (by_key (\<lambda>p. int (pp_seq p))) (\<lambda>a b. cmp_string (pp_slug a) (pp_slug b))"

definition listPlanParts :: "plan_db \<Rightarrow> string \<Rightarrow> plan_part list" where
  "listPlanParts db planId = js_sort part_order (filter (\<lambda>p. pp_planId p = planId) (db_parts db))"

definition listPlanAtoms :: "plan_db \<Rightarrow> string \<Rightarrow> plan_atom list" where
  "listPlanAtoms db planId = js_sort (by_key (\<lambda>a. int (at_seq a))) (filter (\<lambda>a. at_planId a = planId) (db_atoms db))"

definition listPlanRevisions :: "plan_db \<Rightarrow> string \<Rightarrow> plan_revision list" where
  "listPlanRevisions db planId =
     js_sort (by_key (\<lambda>r. int (rv_seq r))) (filter (\<lambda>r. rv_planId r = planId) (db_revisions db))"

definition getPlanAmendment :: "plan_db \<Rightarrow> string \<Rightarrow> amendment option" where
  "getPlanAmendment db i = find (\<lambda>a. am_id a = i) (db_amendments db)"

definition listPlanAmendments :: "plan_db \<Rightarrow> string \<Rightarrow> amendment list" where
  "listPlanAmendments db planId =
     js_sort (by_key (\<lambda>a. - am_createdAt a)) (filter (\<lambda>a. am_planId a = planId) (db_amendments db))"

section \<open>Declaring parts\<close>

text \<open>\<^verbatim>\<open>carriedProgress\<close> and \<^verbatim>\<open>redeclaredPart\<close>: what a declaration keeps of the part it names.\<close>

record part_progress =
  pg_acceptanceMet :: "string list"
  pg_outcomeKind :: "outcome_kind option"
  pg_outcomeRef :: "string option"
  pg_outcomeSummary :: "string option"
  pg_branch :: "string option"
  pg_prNumber :: "nat option"
  pg_status :: part_status
  pg_blockedReason :: "blocked_reason option"
  pg_blockedBy :: "part_blocker option"
  pg_taskId :: "string option"
  pg_createdAt :: int

definition carriedProgress :: "plan_part option \<Rightarrow> int \<Rightarrow> part_progress" where
  "carriedProgress prev ts =
     (case prev of
        None \<Rightarrow> \<lparr>pg_acceptanceMet = [], pg_outcomeKind = None, pg_outcomeRef = None, pg_outcomeSummary = None,
          pg_branch = None, pg_prNumber = None, pg_status = PartPending, pg_blockedReason = None,
          pg_blockedBy = None, pg_taskId = None, pg_createdAt = ts\<rparr>
      | Some p \<Rightarrow>
          let revived = (pp_status p = PartRetired) in
          \<lparr>pg_acceptanceMet = pp_acceptanceMet p, pg_outcomeKind = pp_outcomeKind p,
           pg_outcomeRef = pp_outcomeRef p, pg_outcomeSummary = pp_outcomeSummary p, pg_branch = pp_branch p,
           pg_prNumber = pp_prNumber p, pg_status = (if revived then PartPending else pp_status p),
           pg_blockedReason = (if revived then None else pp_blockedReason p),
           pg_blockedBy = (if revived then None else pp_blockedBy p), pg_taskId = pp_taskId p,
           pg_createdAt = pp_createdAt p\<rparr>)"

definition part_key :: "string \<Rightarrow> string \<Rightarrow> string" where
  "part_key planId slug = planId @ '':'' @ slug"

definition redeclaredPart :: "string \<Rightarrow> part_input \<Rightarrow> plan_part option \<Rightarrow> int \<Rightarrow> plan_part" where
  "redeclaredPart planId i prev ts =
     (let carried = carriedProgress prev ts in
      \<lparr>pp_id = part_key planId (pi_slug i), pp_planId = planId, pp_slug = pi_slug i, pp_seq = pi_seq i,
       pp_title = pi_title i, pp_scope = pi_scope i, pp_touches = pi_touches i,
       pp_atoms = or_else (pi_atoms i) (case prev of None \<Rightarrow> None | Some p \<Rightarrow> pp_atoms p),
       pp_rationale = pi_rationale i, pp_acceptance = pi_acceptance i, pp_acceptanceMet = pg_acceptanceMet carried,
       pp_size = pi_size i, pp_expectedKind = pi_expectedKind i, pp_profile = pi_profile i,
       pp_coverage = pi_coverage i, pp_outcomeKind = pg_outcomeKind carried, pp_outcomeRef = pg_outcomeRef carried,
       pp_outcomeSummary = pg_outcomeSummary carried, pp_dependsOn = pi_dependsOn i, pp_branch = pg_branch carried,
       pp_prNumber = pg_prNumber carried, pp_status = pg_status carried, pp_blockedReason = pg_blockedReason carried,
       pp_blockedBy = pg_blockedBy carried, pp_taskId = pg_taskId carried, pp_createdAt = pg_createdAt carried,
       pp_updatedAt = ts\<rparr>)"

text \<open>The columns of \<^verbatim>\<open>ON CONFLICT(plan_id, slug) DO UPDATE SET\<close>.\<close>

definition overwrite_part :: "plan_part \<Rightarrow> plan_part \<Rightarrow> plan_part" where
  "overwrite_part e r = r\<lparr>
     pp_seq := pp_seq e, pp_title := pp_title e, pp_scope := pp_scope e, pp_touches := pp_touches e,
     pp_atoms := pp_atoms e, pp_rationale := pp_rationale e, pp_acceptance := pp_acceptance e,
     pp_size := pp_size e, pp_expectedKind := pp_expectedKind e, pp_profile := pp_profile e,
     pp_coverage := pp_coverage e, pp_dependsOn := pp_dependsOn e, pp_status := pp_status e,
     pp_blockedReason := pp_blockedReason e, pp_blockedBy := pp_blockedBy e, pp_updatedAt := pp_updatedAt e\<rparr>"

definition same_key :: "plan_part \<Rightarrow> plan_part \<Rightarrow> bool" where
  "same_key a b \<longleftrightarrow> pp_planId a = pp_planId b \<and> pp_slug a = pp_slug b"

definition insert_part :: "plan_part list \<Rightarrow> plan_part \<Rightarrow> plan_part list" where
  "insert_part rows e =
     (if list_ex (same_key e) rows then update_where (same_key e) (overwrite_part e) rows else rows @ [e])"

definition upsertPlanParts :: "int \<Rightarrow> string \<Rightarrow> part_input list \<Rightarrow> plan_db \<Rightarrow> plan_part list \<times> plan_db" where
  "upsertPlanParts ts planId inputs db =
     (let existing = index_by pp_slug (listPlanParts db planId);
          rows = map (\<lambda>i. redeclaredPart planId i (map_of existing (pi_slug i)) ts) inputs
      in (rows, db\<lparr>db_parts := foldl insert_part (db_parts db) rows\<rparr>))"

section \<open>One part at a time\<close>

definition updatePlanPart :: "int \<Rightarrow> string \<Rightarrow> part_patch \<Rightarrow> plan_db \<Rightarrow> plan_db" where
  "updatePlanPart ts i patch db = db\<lparr>db_parts :=
     update_where (\<lambda>p. pp_id p = i) (\<lambda>p. (apply_patch p patch)\<lparr>pp_updatedAt := ts\<rparr>) (db_parts db)\<rparr>"

definition setPartAcceptanceMet :: "int \<Rightarrow> string \<Rightarrow> string list \<Rightarrow> plan_db \<Rightarrow> plan_db" where
  "setPartAcceptanceMet ts i criteria db = db\<lparr>db_parts :=
     update_where (\<lambda>p. pp_id p = i) (\<lambda>p. p\<lparr>pp_acceptanceMet := criteria, pp_updatedAt := ts\<rparr>) (db_parts db)\<rparr>"

definition setPartProfile :: "int \<Rightarrow> string \<Rightarrow> string option \<Rightarrow> plan_db \<Rightarrow> plan_db" where
  "setPartProfile ts i profile db = db\<lparr>db_parts :=
     update_where (\<lambda>p. pp_id p = i) (\<lambda>p. p\<lparr>pp_profile := profile, pp_updatedAt := ts\<rparr>) (db_parts db)\<rparr>"

definition markPartDispatched :: "int \<Rightarrow> string \<Rightarrow> string \<Rightarrow> string \<Rightarrow> plan_db \<Rightarrow> plan_db" where
  "markPartDispatched ts i taskId branch db =
     updatePlanPart ts i (no_patch\<lparr>pt_status := Some PartDispatched, pt_taskId := Some (Some taskId),
       pt_branch := Some branch\<rparr>) db"

definition concludePlanPart ::
  "int \<Rightarrow> string \<Rightarrow> outcome_kind \<Rightarrow> string option \<Rightarrow> string \<Rightarrow> plan_db \<Rightarrow> plan_db" where
  "concludePlanPart ts i k ref summary db = db\<lparr>db_parts :=
     update_where (\<lambda>p. pp_id p = i \<and> pp_status p \<in> {PartDispatched, PartInReview})
       (\<lambda>p. p\<lparr>pp_status := PartConcluded, pp_outcomeKind := Some k, pp_outcomeRef := ref,
         pp_outcomeSummary := Some summary, pp_updatedAt := ts\<rparr>) (db_parts db)\<rparr>"

definition concludeHumanPart :: "int \<Rightarrow> string \<Rightarrow> string \<Rightarrow> plan_db \<Rightarrow> plan_db" where
  "concludeHumanPart ts i summary db = db\<lparr>db_parts :=
     update_where (\<lambda>p. pp_id p = i \<and> pp_status p \<in> {PartPending, PartReady, PartBlocked})
       (\<lambda>p. p\<lparr>pp_status := PartConcluded, pp_outcomeKind := Some KindHuman, pp_outcomeSummary := Some summary,
         pp_blockedReason := None, pp_blockedBy := None, pp_updatedAt := ts\<rparr>) (db_parts db)\<rparr>"

section \<open>Plans\<close>

definition setPlanStatus :: "int \<Rightarrow> string \<Rightarrow> plan_status \<Rightarrow> string option \<Rightarrow> plan_db \<Rightarrow> plan_db" where
  "setPlanStatus ts i st reason db = db\<lparr>db_plans :=
     update_where (\<lambda>pl. pl_id pl = i)
       (\<lambda>pl. pl\<lparr>pl_status := st, pl_reason := or_else reason (pl_reason pl), pl_updatedAt := Instant ts\<rparr>) (db_plans db)\<rparr>"

definition setPlanStatusComment :: "int \<Rightarrow> string \<Rightarrow> string \<Rightarrow> plan_db \<Rightarrow> plan_db" where
  "setPlanStatusComment ts i ref db = db\<lparr>db_plans :=
     update_where (\<lambda>pl. pl_id pl = i) (\<lambda>pl. pl\<lparr>pl_statusCommentRef := Some ref, pl_updatedAt := Instant ts\<rparr>) (db_plans db)\<rparr>"

definition rollUpPlanStatus :: "int \<Rightarrow> string \<Rightarrow> plan_db \<Rightarrow> plan_status option \<times> plan_db" where
  "rollUpPlanStatus ts planId db =
     (case getPlan db planId of
        None \<Rightarrow> (None, db)
      | Some pl \<Rightarrow>
          if pl_status pl \<noteq> Active \<and> pl_status pl \<noteq> Complete then (None, db)
          else let parts = liveParts (listPlanParts db planId) in
            if parts = [] then (None, db)
            else let nxt = (if list_all partSettled parts then Complete else Active) in
              if nxt = pl_status pl then (None, db)
              else (Some nxt, setPlanStatus ts planId nxt None db))"

text \<open>\<^verbatim>\<open>upsertPlan\<close>: prose the new document leaves out is kept, the reason is not.\<close>

definition upsertPlan :: "int \<Rightarrow> string \<Rightarrow> string \<Rightarrow> string \<Rightarrow> plan_status \<Rightarrow> narrative \<Rightarrow> plan_db \<Rightarrow> plan \<times> plan_db" where
  "upsertPlan ts newId originRef title st n db =
     (let existing = getPlanByOrigin db originRef;
          kept = (\<lambda>new old. or_else new (case existing of None \<Rightarrow> None | Some pl \<Rightarrow> old pl));
          pl = \<lparr>pl_id = (case existing of None \<Rightarrow> newId | Some e \<Rightarrow> pl_id e), pl_originRef = originRef,
            pl_title = title, pl_status = st, pl_diagnosis = kept (nv_diagnosis n) pl_diagnosis,
            pl_approach = kept (nv_approach n) pl_approach, pl_reason = nv_reason n,
            pl_risks = kept (nv_risks n) pl_risks, pl_outOfScope = kept (nv_outOfScope n) pl_outOfScope,
            pl_alternatives = kept (nv_alternatives n) pl_alternatives,
            pl_openQuestions = kept (nv_openQuestions n) pl_openQuestions,
            pl_verification = kept (nv_verification n) pl_verification,
            pl_evidence = nv_evidence n, pl_document = kept (nv_document n) pl_document,
            pl_statusCommentRef = (case existing of None \<Rightarrow> None | Some e \<Rightarrow> pl_statusCommentRef e),
            pl_createdAt = (case existing of None \<Rightarrow> Instant ts | Some e \<Rightarrow> pl_createdAt e),
            pl_updatedAt = Instant ts\<rparr>
      in (pl, case existing of
            None \<Rightarrow> db\<lparr>db_plans := db_plans db @ [pl]\<rparr>
          | Some _ \<Rightarrow> db\<lparr>db_plans := update_where (\<lambda>r. pl_originRef r = originRef)
              (\<lambda>r. pl\<lparr>pl_id := pl_id r, pl_createdAt := pl_createdAt r\<rparr>) (db_plans db)\<rparr>))"

definition recordPlanRevision :: "int \<Rightarrow> string \<Rightarrow> string \<Rightarrow> narrative \<Rightarrow> part_input list \<Rightarrow> plan_db \<Rightarrow> plan_db" where
  "recordPlanRevision ts newId planId n parts db = db\<lparr>db_revisions := db_revisions db @
     [\<lparr>rv_id = newId, rv_planId = planId,
       rv_seq = foldl max 0 (map rv_seq (filter (\<lambda>r. rv_planId r = planId) (db_revisions db))) + 1,
       rv_narrative = n, rv_parts = parts, rv_at = ts\<rparr>]\<rparr>"

text \<open>\<^verbatim>\<open>upsertPlanAtoms\<close> deletes what the document no longer names.\<close>

definition atom_row :: "string \<Rightarrow> nat \<times> doc_atom \<Rightarrow> plan_atom" where
  "atom_row planId x = (case x of (index, a) \<Rightarrow>
     \<lparr>at_id = part_key planId (da_slug a), at_planId = planId, at_slug = da_slug a, at_seq = index + 1,
      at_title = da_title a, at_intent = da_intent a, at_touches = da_touches a, at_acceptance = da_acceptance a,
      at_dependsOn = da_dependsOn a, at_rejected = da_rejected a\<rparr>)"

definition insert_atom :: "plan_atom list \<Rightarrow> plan_atom \<Rightarrow> plan_atom list" where
  "insert_atom rows e =
     (let same = (\<lambda>r. at_planId r = at_planId e \<and> at_slug r = at_slug e) in
      if list_ex same rows then update_where same (\<lambda>r. e\<lparr>at_id := at_id r\<rparr>) rows else rows @ [e])"

definition upsertPlanAtoms :: "string \<Rightarrow> doc_atom list \<Rightarrow> plan_db \<Rightarrow> plan_db" where
  "upsertPlanAtoms planId atoms db =
     (let keep = map da_slug atoms;
          kept = filter (\<lambda>r. \<not> (at_planId r = planId \<and> at_slug r \<notin> set keep)) (db_atoms db)
      in db\<lparr>db_atoms := foldl insert_atom kept (map (atom_row planId) (enumerate 0 atoms))\<rparr>)"

section \<open>Amendments\<close>

definition recordPlanAmendment :: "amendment \<Rightarrow> plan_db \<Rightarrow> plan_db" where
  "recordPlanAmendment a db = db\<lparr>db_amendments := db_amendments db @
     [a\<lparr>am_status := AmPending, am_resolution := None, am_decidedAt := None\<rparr>]\<rparr>"

definition settlePlanAmendment :: "int \<Rightarrow> string \<Rightarrow> amendment_status \<Rightarrow> string \<Rightarrow> plan_db \<Rightarrow> plan_db" where
  "settlePlanAmendment ts i st resolution db = db\<lparr>db_amendments :=
     update_where (\<lambda>a. am_id a = i \<and> am_status a = AmPending)
       (\<lambda>a. a\<lparr>am_status := st, am_resolution := Some resolution, am_decidedAt := Some ts\<rparr>) (db_amendments db)\<rparr>"

section \<open>Asks\<close>

definition recordHumanTask ::
  "int \<Rightarrow> string \<Rightarrow> string \<Rightarrow> string option \<Rightarrow> string option \<Rightarrow> string option \<Rightarrow> string option \<Rightarrow> string option
     \<Rightarrow> human_task_kind \<Rightarrow> plan_db \<Rightarrow> plan_db" where
  "recordHumanTask ts newId title detail agentId taskId originRef partId k db =
     (let same = (\<lambda>t. ht_agentId t = agentId \<and> ht_originRef t = originRef \<and> ht_title t = title \<and> ht_kind t = k) in
      case find same (db_asks db) of
        Some e \<Rightarrow> db\<lparr>db_asks := update_where (\<lambda>t. ht_id t = ht_id e)
          (\<lambda>t. t\<lparr>ht_detail := detail, ht_updatedAt := ts\<rparr>) (db_asks db)\<rparr>
      | None \<Rightarrow> db\<lparr>db_asks := db_asks db @
          [\<lparr>ht_id = newId, ht_title = title, ht_detail = detail, ht_originRef = originRef, ht_partId = partId,
            ht_kind = k, ht_agentId = agentId, ht_taskId = taskId, ht_status = HumanOpen, ht_resolution = None,
            ht_createdAt = ts, ht_updatedAt = ts, ht_resolvedAt = None, ht_dismissedAt = None\<rparr>]\<rparr>)"

definition listHumanTasksForParts :: "plan_db \<Rightarrow> string list \<Rightarrow> human_task list" where
  "listHumanTasksForParts db ids = filter (\<lambda>t. case ht_partId t of None \<Rightarrow> False | Some i \<Rightarrow> i \<in> set ids) (db_asks db)"

definition settleHumanTask :: "int \<Rightarrow> string \<Rightarrow> human_task_status \<Rightarrow> string option \<Rightarrow> plan_db \<Rightarrow> plan_db" where
  "settleHumanTask ts i st resolution db = db\<lparr>db_asks :=
     update_where (\<lambda>t. ht_id t = i \<and> ht_status t = HumanOpen)
       (\<lambda>t. t\<lparr>ht_status := st, ht_resolution := resolution, ht_updatedAt := ts, ht_resolvedAt := Some ts\<rparr>) (db_asks db)\<rparr>"

definition withdrawPartAsks :: "int \<Rightarrow> plan_part list \<Rightarrow> string \<Rightarrow> plan_db \<Rightarrow> plan_db" where
  "withdrawPartAsks ts retired resolution db =
     (if retired = [] then db
      else foldl (\<lambda>d t. if ht_status t = HumanOpen then settleHumanTask ts (ht_id t) HumanDeclined (Some resolution) d else d)
        db (listHumanTasksForParts db (map pp_id retired)))"

section \<open>What a declaration leaves in the table\<close>

definition row_key :: "plan_part \<Rightarrow> string \<times> string" where
  "row_key p = (pp_planId p, pp_slug p)"

text \<open>
  The table's \<^verbatim>\<open>UNIQUE (plan_id, slug)\<close>, and the id every row was given when it was first written. A
  plan's id is \<^verbatim>\<open>plan_\<close> and letters, digits, underscores or hyphens, so it has no colon and the id of a
  part determines its plan and its slug.
\<close>

definition plan_id_ok :: "string \<Rightarrow> bool" where
  "plan_id_ok i \<longleftrightarrow> CHR '':'' \<notin> set i"

definition parts_ok :: "plan_part list \<Rightarrow> bool" where
  "parts_ok rows \<longleftrightarrow> distinct (map row_key rows) \<and>
     list_all (\<lambda>p. plan_id_ok (pp_planId p) \<and> pp_id p = part_key (pp_planId p) (pp_slug p)) rows"

lemma part_key_inj: "plan_id_ok i \<Longrightarrow> plan_id_ok j \<Longrightarrow> part_key i s = part_key j t \<longleftrightarrow> i = j \<and> s = t"
proof -
  assume ij: "plan_id_ok i" "plan_id_ok j"
  have "takeWhile (\<lambda>c. c \<noteq> CHR '':'') (part_key k u) = k" if "plan_id_ok k" for k u
    using that unfolding part_key_def plan_id_ok_def by (induction k) auto
  from this [OF ij(1), of s] this [OF ij(2), of t] show ?thesis by (auto simp: part_key_def)
qed

lemma parts_ok_id: "parts_ok rows \<Longrightarrow> p \<in> set rows \<Longrightarrow> q \<in> set rows \<Longrightarrow> pp_id p = pp_id q \<Longrightarrow> p = q"
  by (auto simp: parts_ok_def list_all_iff part_key_inj row_key_def intro: distinct_key_eq [of row_key])

lemma same_key_iff: "same_key a b \<longleftrightarrow> row_key b = row_key a"
  by (auto simp: same_key_def row_key_def)

lemma overwrite_keys [simp]: "row_key (overwrite_part e r) = row_key r" "pp_id (overwrite_part e r) = pp_id r"
  "pp_planId (overwrite_part e r) = pp_planId r" "pp_slug (overwrite_part e r) = pp_slug r"
  by (simp_all add: overwrite_part_def row_key_def)

lemma insert_part_keys: "map row_key (insert_part rows e) =
    (if row_key e \<in> set (map row_key rows) then map row_key rows else map row_key rows @ [row_key e])"
proof -
  have "list_ex (same_key e) rows \<longleftrightarrow> row_key e \<in> set (map row_key rows)"
    unfolding list_ex_iff same_key_iff by (auto simp: image_iff) metis
  then show ?thesis by (simp add: insert_part_def update_where_keeps)
qed

lemma insert_part_set:
  assumes "\<forall>r \<in> set rows. same_key e r \<longrightarrow> overwrite_part e r = e"
  shows "set (insert_part rows e) = insert e {r \<in> set rows. \<not> same_key e r}"
proof (cases "list_ex (same_key e) rows")
  case True
  then obtain r where r: "r \<in> set rows" "same_key e r" by (auto simp: list_ex_iff)
  have "set (update_where (same_key e) (overwrite_part e) rows) = (\<lambda>r. if same_key e r then e else r) ` set rows"
    unfolding update_where_def set_map using assms by (intro image_cong) auto
  also have "\<dots> = insert e {r \<in> set rows. \<not> same_key e r}" using r by auto
  finally show ?thesis using True by (simp add: insert_part_def)
next
  case False
  then show ?thesis by (auto simp: insert_part_def list_ex_iff)
qed

lemma insert_parts_set:
  assumes "distinct (map row_key es)" and "\<forall>e \<in> set es. \<forall>r \<in> set rows. same_key e r \<longrightarrow> overwrite_part e r = e"
  shows "set (foldl insert_part rows es) = set es \<union> {r \<in> set rows. \<forall>e \<in> set es. \<not> same_key e r}"
  using assms
proof (induction es arbitrary: rows)
  case (Cons e es)
  have fresh: "\<not> same_key f e" if "f \<in> set es" for f
    using Cons.prems(1) that by (auto simp: same_key_iff image_iff)
  have one: "set (insert_part rows e) = insert e {r \<in> set rows. \<not> same_key e r}"
    using Cons.prems(2) by (intro insert_part_set) auto
  have "\<forall>f \<in> set es. \<forall>r \<in> set (insert_part rows e). same_key f r \<longrightarrow> overwrite_part f r = f"
    unfolding one using Cons.prems(2) fresh by auto
  then have "set (foldl insert_part (insert_part rows e) es) =
      set es \<union> {r \<in> insert e {r \<in> set rows. \<not> same_key e r}. \<forall>f \<in> set es. \<not> same_key f r}"
    using Cons.IH [of "insert_part rows e"] Cons.prems(1) one by simp
  with fresh show ?case by auto
qed simp

lemma insert_parts_keys: "distinct (map row_key rows) \<Longrightarrow> distinct (map row_key (foldl insert_part rows es))"
  by (induction es arbitrary: rows) (simp_all add: insert_part_keys)

lemma part_of_plan: "p \<in> set (listPlanParts db planId) \<longleftrightarrow> p \<in> set (db_parts db) \<and> pp_planId p = planId"
  by (auto simp: listPlanParts_def)

lemma existing_part:
  assumes "parts_ok (db_parts db)" and "r \<in> set (db_parts db)"
  shows "map_of (index_by pp_slug (listPlanParts db (pp_planId r))) (pp_slug r) = Some r"
proof -
  have "pp_slug r \<in> pp_slug ` set (listPlanParts db (pp_planId r))"
    using assms(2) by (auto simp: part_of_plan)
  then obtain q where q: "map_of (index_by pp_slug (listPlanParts db (pp_planId r))) (pp_slug r) = Some q"
    using index_by_None [of pp_slug "listPlanParts db (pp_planId r)" "pp_slug r"] by auto
  then have "q \<in> set (db_parts db)" "row_key q = row_key r"
    using index_by_Some [OF q] by (auto simp: part_of_plan row_key_def)
  with assms have "q = r" by (auto simp: parts_ok_def intro: distinct_key_eq)
  with q show ?thesis by simp
qed

lemma redeclared_keys: "pp_planId (redeclaredPart planId i prev ts) = planId"
  "pp_slug (redeclaredPart planId i prev ts) = pi_slug i"
  "pp_id (redeclaredPart planId i prev ts) = part_key planId (pi_slug i)"
  by (simp_all add: redeclaredPart_def Let_def)

lemma overwrite_redeclared:
  "pp_id r = part_key planId (pi_slug i) \<Longrightarrow> pp_planId r = planId \<Longrightarrow> pp_slug r = pi_slug i \<Longrightarrow>
     overwrite_part (redeclaredPart planId i (Some r) ts) r = redeclaredPart planId i (Some r) ts"
  by (simp add: overwrite_part_def redeclaredPart_def carriedProgress_def Let_def)

lemma upsert_parts_set:
  assumes ok: "parts_ok (db_parts db)" and d: "distinct (map pi_slug inputs)"
    and u: "upsertPlanParts ts planId inputs db = (rows, db')" and i: "plan_id_ok planId"
  shows "set (db_parts db') = set rows \<union>
      {p \<in> set (db_parts db). \<not> (pp_planId p = planId \<and> pp_slug p \<in> pi_slug ` set inputs)}"
    and "parts_ok (db_parts db')"
proof -
  let ?prev = "\<lambda>i. map_of (index_by pp_slug (listPlanParts db planId)) (pi_slug i)"
  have rows: "rows = map (\<lambda>i. redeclaredPart planId i (?prev i) ts) inputs"
    and parts: "db_parts db' = foldl insert_part (db_parts db) rows"
    using u by (auto simp: upsertPlanParts_def Let_def)
  have "map row_key rows = map (\<lambda>i. (planId, pi_slug i)) inputs"
    by (simp add: rows row_key_def redeclared_keys)
  then have dr: "distinct (map row_key rows)"
    using d by (simp add: distinct_map inj_on_def)
  have cover: "\<forall>e \<in> set rows. \<forall>r \<in> set (db_parts db). same_key e r \<longrightarrow> overwrite_part e r = e"
  proof (intro ballI impI)
    fix e r assume "e \<in> set rows" and r: "r \<in> set (db_parts db)" and k: "same_key e r"
    then obtain i where e: "e = redeclaredPart planId i (?prev i) ts" by (auto simp: rows)
    from k e have key: "pp_planId r = planId" "pp_slug r = pi_slug i" by (auto simp: same_key_def redeclared_keys)
    have "?prev i = Some r" using existing_part [OF ok r] key by simp
    moreover have "pp_id r = part_key planId (pi_slug i)"
      using ok r key by (auto simp: parts_ok_def list_all_iff)
    ultimately show "overwrite_part e r = e" using e key overwrite_redeclared by simp
  qed
  have "(\<forall>e \<in> set rows. \<not> same_key e p) \<longleftrightarrow> \<not> (pp_planId p = planId \<and> pp_slug p \<in> pi_slug ` set inputs)" for p
    unfolding rows same_key_def by (force simp: redeclared_keys)
  with insert_parts_set [OF dr cover] parts
  show one: "set (db_parts db') = set rows \<union>
      {p \<in> set (db_parts db). \<not> (pp_planId p = planId \<and> pp_slug p \<in> pi_slug ` set inputs)}" by auto
  have "plan_id_ok (pp_planId p) \<and> pp_id p = part_key (pp_planId p) (pp_slug p)" if "p \<in> set (db_parts db')" for p
    using that ok i unfolding one by (auto simp: rows redeclared_keys parts_ok_def list_all_iff)
  with insert_parts_keys [of "db_parts db"] ok parts
  show "parts_ok (db_parts db')" by (simp add: parts_ok_def list_all_iff)
qed

text \<open>
  C13. Declaring parts leaves in the table exactly the rows the call returns, for the slugs declared, and
  every other row as it was: the columns the conflict clause rewrites are the ones a declaration
  changes, so a part declared again keeps its branch, its pull request and its outcome. The table's
  keys stay unique.
\<close>

theorem upsert_stores_what_it_returns:
  assumes "parts_ok (db_parts db)" and "distinct (map pi_slug inputs)"
    and "upsertPlanParts ts planId inputs db = (rows, db')" and "plan_id_ok planId"
  shows "set (db_parts db') = set rows \<union>
      {p \<in> set (db_parts db). \<not> (pp_planId p = planId \<and> pp_slug p \<in> pi_slug ` set inputs)}
    \<and> parts_ok (db_parts db')
    \<and> list_all2 (\<lambda>i row. row = redeclaredPart planId i
        (find (\<lambda>p. pp_planId p = planId \<and> pp_slug p = pi_slug i) (db_parts db)) ts) inputs rows"
proof -
  have prev: "map_of (index_by pp_slug (listPlanParts db planId)) s =
      find (\<lambda>p. pp_planId p = planId \<and> pp_slug p = s) (db_parts db)" for s
  proof (cases "find (\<lambda>p. pp_planId p = planId \<and> pp_slug p = s) (db_parts db)")
    case None
    then have "map_of (index_by pp_slug (listPlanParts db planId)) s = None"
      by (auto simp: find_None_iff' index_by_None part_of_plan)
    with None show ?thesis by simp
  next
    case (Some r)
    then show ?thesis using existing_part [OF assms(1), of r] find_Some_iff' [OF Some] by auto
  qed
  have "rows = map (\<lambda>i. redeclaredPart planId i (map_of (index_by pp_slug (listPlanParts db planId)) (pi_slug i)) ts) inputs"
    using assms(3) by (simp add: upsertPlanParts_def Let_def)
  then have "list_all2 (\<lambda>i row. row = redeclaredPart planId i
        (find (\<lambda>p. pp_planId p = planId \<and> pp_slug p = pi_slug i) (db_parts db)) ts) inputs rows"
    by (simp add: list_all2_map2 prev list_all2_same)
  with upsert_parts_set [OF assms] show ?thesis by blast
qed

definition empty_db :: plan_db where
  "empty_db = \<lparr>db_plans = [], db_parts = [], db_atoms = [], db_revisions = [], db_amendments = [], db_asks = []\<rparr>"

definition input0 :: "string \<Rightarrow> part_input" where
  "input0 slug = \<lparr>pi_slug = slug, pi_seq = 1, pi_title = slug, pi_scope = slug, pi_touches = [], pi_atoms = None,
     pi_dependsOn = [], pi_rationale = None, pi_acceptance = None, pi_size = None, pi_expectedKind = None,
     pi_profile = None, pi_coverage = None\<rparr>"

theorem upsert_stores_what_it_returns_witness:
  "set (db_parts (snd (upsertPlanParts 5 ''p1'' [input0 ''a'']
      (empty_db\<lparr>db_parts := [(part0 ''a'' [])\<lparr>pp_id := ''p1:a'', pp_branch := Some ''b''\<rparr>]\<rparr>)))) =
    set (fst (upsertPlanParts 5 ''p1'' [input0 ''a'']
      (empty_db\<lparr>db_parts := [(part0 ''a'' [])\<lparr>pp_id := ''p1:a'', pp_branch := Some ''b''\<rparr>]\<rparr>)))"
  using upsert_stores_what_it_returns [of "empty_db\<lparr>db_parts := [(part0 ''a'' [])\<lparr>pp_id := ''p1:a'', pp_branch := Some ''b''\<rparr>]\<rparr>"
      "[input0 ''a'']" 5 "''p1''", OF _ _ prod.collapse [symmetric]]
  by (auto simp: parts_ok_def plan_id_ok_def part0_def input0_def row_key_def part_key_def)

end
