(* ===== verification/PlanLifecycle.thy ===== *)
theory PlanLifecycle
  imports PlanStore
begin

text \<open>
  What happens to a plan after it is stored: ingesting a document (\<^verbatim>\<open>src/src/plans/planIngest.ts\<close>),
  answering for it (\<^verbatim>\<open>planApproval.ts\<close>), acting on a shortfall (with the follow-up part of
  \<^verbatim>\<open>src/src/delivery/shortfall.ts\<close>) and amending it while it runs (\<^verbatim>\<open>planAmendment.ts\<close>). The operations
  are collected into one step relation; along any run of it no part that has work is ever retired, loses
  its branch, its pull request or its outcome, and at most one amendment of a plan is waiting at a time.
\<close>

section \<open>Ingesting a document\<close>

definition AMENDED_PART_RESOLUTION :: string where
  "AMENDED_PART_RESOLUTION = ''An amended plan no longer includes this step.''"

definition REFUSED_PART_RESOLUTION :: string where
  "REFUSED_PART_RESOLUTION = ''The plan this step belonged to was sent back to a planner.''"

definition retire_all :: "int \<Rightarrow> plan_part list \<Rightarrow> plan_db \<Rightarrow> plan_db" where
  "retire_all ts retire db = foldl (\<lambda>d p. updatePlanPart ts (pp_id p) (no_patch\<lparr>pt_status := Some PartRetired\<rparr>) d) db retire"

text \<open>The random ids of the rows an ingest may write: the plan, its revision, and an ask per part.\<close>

record fresh_ids =
  fr_plan :: string
  fr_revision :: string
  fr_ask :: "string \<Rightarrow> string"

definition ask_step :: "int \<Rightarrow> fresh_ids \<Rightarrow> nat option \<Rightarrow> plan_db \<Rightarrow> plan_part \<Rightarrow> plan_db" where
  "ask_step ts fresh issueNumber db p =
     recordHumanTask ts (fr_ask fresh (pp_id p)) (pp_title p) (Some (default_to (pp_scope p) (pp_acceptance p)))
       None None (case issueNumber of None \<Rightarrow> None | Some n \<Rightarrow> Some (partOrigin n (pp_slug p))) (Some (pp_id p))
       KindAsk db"

record ingest_result =
  in_plan :: plan
  in_status :: plan_status
  in_retired :: "string list"

definition ingestPlanDocument ::
  "int \<Rightarrow> fresh_ids \<Rightarrow> plan_document \<Rightarrow> string \<Rightarrow> string \<Rightarrow> bool \<Rightarrow> plan_db \<Rightarrow> ingest_result \<times> plan_db" where
  "ingestPlanDocument ts fresh doc originRef title approved db =
     (let existing = (case getPlanByOrigin db originRef of None \<Rightarrow> [] | Some pl \<Rightarrow> listPlanParts db (pl_id pl));
          declared = planPartInputs doc;
          retire = partsToRetire existing (map pi_slug declared);
          st = (if approved then Active else AwaitingApproval);
          n = planNarrative doc;
          (pl, db1) = upsertPlan ts (fr_plan fresh) originRef title st n db;
          db2 = recordPlanRevision ts (fr_revision fresh) (pl_id pl) n declared db1;
          db3 = retire_all ts retire db2;
          db4 = withdrawPartAsks ts retire AMENDED_PART_RESOLUTION db3;
          db5 = upsertPlanAtoms (pl_id pl) (pd_atoms doc) db4;
          (written, db6) = upsertPlanParts ts (pl_id pl) declared db5;
          db7 = foldl (ask_step ts fresh (planIssueNumber originRef)) db6 (filter partIsHuman written);
          (rolled, db8) = (if approved then rollUpPlanStatus ts (pl_id pl) db7 else (None, db7))
      in (\<lparr>in_plan = pl, in_status = default_to st rolled, in_retired = map pp_slug retire\<rparr>, db8))"

section \<open>Answering for a plan\<close>

text \<open>What a settlement answers: whether it did anything, and the counts its sentence names.\<close>

datatype settlement =
    PlanGone
  | WrongStatus plan_status
  | NothingLive
  | Released nat
  | SentBack nat nat
  | AbandonedPlan nat nat
  | ReplanRequested
  | PartGone "string option"
  | FollowupWritten string bool

fun settled_ok :: "settlement \<Rightarrow> bool" where
  "settled_ok (Released _) = True"
| "settled_ok (SentBack _ _) = True"
| "settled_ok (AbandonedPlan _ _) = True"
| "settled_ok ReplanRequested = True"
| "settled_ok (FollowupWritten _ _) = True"
| "settled_ok _ = False"

text \<open>The horizontal ellipsis a cut reason ends in, one code unit, by its Windows-1252 code.\<close>

definition ellipsis :: char where "ellipsis = CHR 0x85"

definition MAX_PLAN_REASON :: nat where "MAX_PLAN_REASON = 4000"

definition appendPlanReason :: "string option \<Rightarrow> string \<Rightarrow> string" where
  "appendPlanReason reason note =
     (let joined = (if reason = None \<or> reason = Some '''' then note
                    else default_to '''' reason @ [CHR 0x0A, CHR 0x0A] @ note)
      in if MAX_PLAN_REASON < length joined then take (MAX_PLAN_REASON - 1) joined @ [ellipsis] else joined)"

definition note_tail :: "string option \<Rightarrow> string" where
  "note_tail note = (if note = None \<or> note = Some '''' then ''.'' else '': '' @ default_to '''' note)"

definition refusedPlanReason :: "string option \<Rightarrow> string option \<Rightarrow> string" where
  "refusedPlanReason reason note = appendPlanReason reason
     (''An operator declined this plan'' @ note_tail note @ '' Reconsider it in the light of that.'')"

definition declinedPlanReason :: "string option \<Rightarrow> string option \<Rightarrow> string" where
  "declinedPlanReason reason note = appendPlanReason reason
     (''An operator backed out of this plan'' @ note_tail note @ '' Nothing was scheduled for it.'')"

definition appendShortfallReason :: "string option \<Rightarrow> string \<Rightarrow> string" where
  "appendShortfallReason reason summary = appendPlanReason reason
     (''An assessment of the delivered work found: '' @ summary)"

definition survivorsOf :: "plan_part list \<Rightarrow> plan_part list \<Rightarrow> plan_part list" where
  "survivorsOf parts retired = filter (\<lambda>p. pp_id p \<notin> pp_id ` set retired) (liveParts parts)"

definition releasePlan :: "int \<Rightarrow> string \<Rightarrow> plan_db \<Rightarrow> settlement \<times> plan_db" where
  "releasePlan ts planId db =
     (case getPlan db planId of
        None \<Rightarrow> (PlanGone, db)
      | Some pl \<Rightarrow>
          if pl_status pl \<noteq> AwaitingApproval then (WrongStatus (pl_status pl), db)
          else let parts = liveParts (listPlanParts db planId) in
            if parts = [] then (NothingLive, db)
            else (Released (length parts), setPlanStatus ts planId Active None db))"

definition send_back ::
  "int \<Rightarrow> string \<Rightarrow> plan_status \<Rightarrow> (string option \<Rightarrow> string) \<Rightarrow> (nat \<Rightarrow> nat \<Rightarrow> settlement) \<Rightarrow> plan_db \<Rightarrow> settlement \<times> plan_db" where
  "send_back ts planId st reason answer db =
     (case getPlan db planId of
        None \<Rightarrow> (PlanGone, db)
      | Some pl \<Rightarrow>
          if pl_status pl \<noteq> AwaitingApproval then (WrongStatus (pl_status pl), db)
          else let parts = listPlanParts db planId;
                   retire = partsToRetire parts [];
                   db1 = retire_all ts retire db;
                   db2 = withdrawPartAsks ts retire REFUSED_PART_RESOLUTION db1
               in (answer (length retire) (length (survivorsOf parts retire)),
                   setPlanStatus ts planId st (Some (reason (pl_reason pl))) db2))"

definition refusePlan :: "int \<Rightarrow> string \<Rightarrow> string option \<Rightarrow> plan_db \<Rightarrow> settlement \<times> plan_db" where
  "refusePlan ts planId note db = send_back ts planId Planning (\<lambda>r. refusedPlanReason r note) SentBack db"

definition declinePlan :: "int \<Rightarrow> string \<Rightarrow> string option \<Rightarrow> plan_db \<Rightarrow> settlement \<times> plan_db" where
  "declinePlan ts planId note db = send_back ts planId Abandoned (\<lambda>r. declinedPlanReason r note) AbandonedPlan db"

section \<open>A shortfall\<close>

datatype shortfall_cause = CausePlan | CausePart | CauseGoal

datatype shortfall_arm = ArmReplan | ArmFollowup | ArmEscalate | ArmNone

definition shortfallArm :: "shortfall_cause option \<Rightarrow> bool \<Rightarrow> shortfall_arm" where
  "shortfallArm cause hasPlan =
     (case cause of
        None \<Rightarrow> ArmNone
      | Some c \<Rightarrow> if c = CauseGoal then ArmEscalate else if \<not> hasPlan then ArmEscalate
          else if c = CausePlan then ArmReplan else ArmFollowup)"

definition slot_free :: "plan_part list \<Rightarrow> string \<Rightarrow> bool" where
  "slot_free parts slug \<longleftrightarrow> map_of (index_by pp_slug parts) slug = None"

definition slot_unstarted :: "plan_part list \<Rightarrow> string \<Rightarrow> bool" where
  "slot_unstarted parts slug \<longleftrightarrow>
     (case map_of (index_by pp_slug parts) slug of
        None \<Rightarrow> False
      | Some e \<Rightarrow> pp_status e \<noteq> PartRetired \<and> \<not> partHasWork e \<and> pp_branch e = None \<and> pp_prNumber e = None)"

text \<open>
  The loop over \<^verbatim>\<open>base-2\<close>, \<^verbatim>\<open>base-3\<close>, \<open>\<dots>\<close> with fuel. Every candidate it passes over is the slug of an
  existing part, so one more round than there are parts is enough.
\<close>

fun next_slot :: "plan_part list \<Rightarrow> string \<Rightarrow> nat \<Rightarrow> nat \<Rightarrow> (string \<times> bool) option" where
  "next_slot parts base n 0 = None"
| "next_slot parts base n (Suc fuel) =
     (let candidate = base @ ''-'' @ show_nat n in
      if slot_free parts candidate then Some (candidate, False)
      else if slot_unstarted parts candidate then Some (candidate, True)
      else next_slot parts base (n + 1) fuel)"

definition ends_with :: "string \<Rightarrow> string \<Rightarrow> bool" where
  "ends_with suffix s \<longleftrightarrow> starts_with (rev suffix) (rev s)"

definition followupSlot :: "plan_part \<Rightarrow> plan_part list \<Rightarrow> (string \<times> bool) option" where
  "followupSlot p parts =
     (let base = (if ends_with ''-followup'' (pp_slug p) then pp_slug p else pp_slug p @ ''-followup'') in
      if slot_free parts base then Some (base, False)
      else if slot_unstarted parts base then Some (base, True)
      else next_slot parts base 2 (Suc (length parts)))"

definition followupPartInput :: "plan_part \<Rightarrow> string \<Rightarrow> nat \<Rightarrow> string \<Rightarrow> part_input" where
  "followupPartInput p summary seq slug = \<lparr>pi_slug = slug, pi_seq = seq,
     pi_title = ''Finish \"'' @ pp_title p @ ''\"'', pi_scope = summary, pi_touches = [], pi_atoms = None,
     pi_dependsOn = [],
     pi_rationale = Some (''An assessment of the delivered work found that \"'' @ pp_slug p @ ''\" did not deliver its scope.''),
     pi_acceptance = None, pi_size = None, pi_expectedKind = Some KindCode, pi_profile = pp_profile p,
     pi_coverage = None\<rparr>"

definition actOnShortfall ::
  "int \<Rightarrow> string \<Rightarrow> bool \<Rightarrow> string option \<Rightarrow> string \<Rightarrow> plan_db \<Rightarrow> settlement \<times> plan_db" where
  "actOnShortfall ts planId causePlan partSlug summary db =
     (case getPlan db planId of
        None \<Rightarrow> (PlanGone, db)
      | Some pl \<Rightarrow>
          if pl_status pl = Planning \<or> pl_status pl = AwaitingApproval then (WrongStatus (pl_status pl), db)
          else if causePlan then
            (ReplanRequested, setPlanStatus ts planId Planning (Some (appendShortfallReason (pl_reason pl) summary)) db)
          else let parts = listPlanParts db planId in
            case find (\<lambda>p. Some (pp_slug p) = partSlug) (liveParts parts) of
              None \<Rightarrow> (PartGone partSlug, db)
            | Some target \<Rightarrow>
                (case followupSlot target parts of
                   None \<Rightarrow> (PartGone partSlug, db)
                 | Some (slug, refreshing) \<Rightarrow>
                     let seq = foldl max 0 (map pp_seq parts) + 1;
                         (written, db1) = upsertPlanParts ts planId [followupPartInput target summary seq slug] db;
                         (rolled, db2) = rollUpPlanStatus ts planId db1
                     in (FollowupWritten slug refreshing, db2)))"

section \<open>Amendments\<close>

datatype amendment_result =
    AmendmentGone
  | AlreadySettled amendment_status
  | AmendedPlanGone
  | PlanNotActive plan_status
  | NoLongerValid "doc_issue list"
  | AmendmentApplied plan_status nat nat
  | AmendmentDeclined
  | NothingChanged

definition pendingAmendmentFor :: "plan_db \<Rightarrow> string \<Rightarrow> amendment option" where
  "pendingAmendmentFor db planId = find (\<lambda>a. am_status a = AmPending) (listPlanAmendments db planId)"

datatype propose_error =
  ProposeWrongStatus plan_status | AlreadyWaiting string | BadDocument "doc_issue list" | NoReason

definition proposePlanAmendment ::
  "int \<Rightarrow> string \<Rightarrow> plan \<Rightarrow> plan_document \<Rightarrow> string \<Rightarrow> amendment_author \<Rightarrow> string option \<Rightarrow> plan_db
     \<Rightarrow> (propose_error + amendment) \<times> plan_db" where
  "proposePlanAmendment ts newId pl document note author authorRef db =
     (if pl_status pl \<noteq> Active then (Inl (ProposeWrongStatus (pl_status pl)), db)
      else case pendingAmendmentFor db (pl_id pl) of
        Some standing \<Rightarrow> (Inl (AlreadyWaiting (am_note standing)), db)
      | None \<Rightarrow>
          (case validatePlanDocument document of
             Inl issues \<Rightarrow> (Inl (BadDocument issues), db)
           | Inr parsed \<Rightarrow>
               if trim note = '''' then (Inl NoReason, db)
               else let a = \<lparr>am_id = newId, am_planId = pl_id pl, am_originRef = pl_originRef pl, am_document = parsed,
                       am_note = trim note, am_author = author, am_authorRef = authorRef, am_status = AmPending,
                       am_resolution = None, am_createdAt = ts, am_decidedAt = None\<rparr>
                    in (Inr a, recordPlanAmendment a db)))"

fun plan_status_word :: "plan_status \<Rightarrow> string" where
  "plan_status_word Planning = ''planning''"
| "plan_status_word AwaitingApproval = ''awaiting_approval''"
| "plan_status_word Active = ''active''"
| "plan_status_word Complete = ''complete''"
| "plan_status_word Abandoned = ''abandoned''"

text \<open>\<open>describe\<close> is the text the schema library gives for the issues it found.\<close>

definition applyPlanAmendment ::
  "(doc_issue list \<Rightarrow> string) \<Rightarrow> int \<Rightarrow> fresh_ids \<Rightarrow> string \<Rightarrow> plan_db \<Rightarrow> amendment_result \<times> plan_db" where
  "applyPlanAmendment describe ts fresh amendmentId db =
     (case getPlanAmendment db amendmentId of
        None \<Rightarrow> (AmendmentGone, db)
      | Some a \<Rightarrow>
          if am_status a \<noteq> AmPending then (AlreadySettled (am_status a), db)
          else case getPlan db (am_planId a) of
              None \<Rightarrow> (AmendedPlanGone, db)
            | Some pl \<Rightarrow>
                if pl_status pl \<noteq> Active then
                  (PlanNotActive (pl_status pl), settlePlanAmendment ts amendmentId AmSuperseded
                     (''The plan moved to \"'' @ plan_status_word (pl_status pl) @ ''\" before this amendment was applied.'') db)
                else case validatePlanDocument (am_document a) of
                    Inl issues \<Rightarrow> (NoLongerValid issues, settlePlanAmendment ts amendmentId AmSuperseded
                       (''The amended plan no longer validates: '' @ describe issues) db)
                  | Inr parsed \<Rightarrow>
                      let (r, db1) = ingestPlanDocument ts fresh parsed (am_originRef a) (pl_title pl) True db;
                          db2 = settlePlanAmendment ts amendmentId AmApplied (am_note a) db1;
                          live = liveParts (listPlanParts db2 (pl_id pl))
                      in (AmendmentApplied (in_status r) (length live) (length (in_retired r)), db2))"

definition declinePlanAmendment :: "int \<Rightarrow> string \<Rightarrow> string option \<Rightarrow> plan_db \<Rightarrow> amendment_result \<times> plan_db" where
  "declinePlanAmendment ts amendmentId note db =
     (let said = trim (default_to '''' note);
          resolution = (if said \<noteq> '''' then said else ''An operator declined this amendment; the plan is unchanged.'');
          db1 = settlePlanAmendment ts amendmentId AmDeclined resolution db
      in case getPlanAmendment db amendmentId of
           None \<Rightarrow> (NothingChanged, db1)
         | Some a \<Rightarrow> (if am_status a = AmPending then AmendmentDeclined else NothingChanged, db1))"

definition supersedePlanAmendments :: "int \<Rightarrow> string \<Rightarrow> string \<Rightarrow> plan_db \<Rightarrow> plan_db" where
  "supersedePlanAmendments ts planId reason db =
     foldl (\<lambda>d a. if am_status a \<noteq> AmPending then d else settlePlanAmendment ts (am_id a) AmSuperseded reason d)
       db (listPlanAmendments db planId)"

section \<open>What an amendment rewrites under running work\<close>

definition prose :: "string option \<Rightarrow> string option" where
  "prose t = (case t of None \<Rightarrow> None | Some s \<Rightarrow>
     let collapsed = join_with '' '' (words_of s) in if collapsed = '''' then None else Some collapsed)"

definition unordered :: "string list \<Rightarrow> string option" where
  "unordered values = (if values = [] then None else Some (join_with '', '' (sort_strings values)))"

datatype material = MTitle | MScope | MAcceptance | MPaths | MDependencies | MExpectedOutcome

definition materialChanges :: "plan_part \<Rightarrow> part_input \<Rightarrow> material list" where
  "materialChanges p d =
     (if prose (Some (pp_title p)) \<noteq> prose (Some (pi_title d)) then [MTitle] else []) @
     (if prose (Some (pp_scope p)) \<noteq> prose (Some (pi_scope d)) then [MScope] else []) @
     (if prose (pp_acceptance p) \<noteq> prose (pi_acceptance d) then [MAcceptance] else []) @
     (if unordered (pp_touches p) \<noteq> unordered (pi_touches d) then [MPaths] else []) @
     (if unordered (pp_dependsOn p) \<noteq> unordered (pi_dependsOn d) then [MDependencies] else []) @
     (if default_to KindCode (pp_expectedKind p) \<noteq> default_to KindCode (pi_expectedKind d) then [MExpectedOutcome] else [])"

datatype amendment_warning =
    DroppedWhileWorked string part_status "nat option"
  | AlreadyFinishedPart string part_status
  | RewrittenWhileWorked string part_status "nat option" "material list"

definition warn_part :: "(string, part_input) jsmap \<Rightarrow> plan_part \<Rightarrow> amendment_warning list" where
  "warn_part keep p =
     (case map_of keep (pp_slug p) of
        None \<Rightarrow> (if partHasWork p then [DroppedWhileWorked (pp_slug p) (pp_status p) (pp_prNumber p)] else [])
      | Some redeclared \<Rightarrow>
          if partSettled p then [AlreadyFinishedPart (pp_slug p) (pp_status p)]
          else if \<not> partHasWork p then []
          else let changed = materialChanges p redeclared in
            if changed = [] then [] else [RewrittenWhileWorked (pp_slug p) (pp_status p) (pp_prNumber p) changed])"

definition amendmentWarnings :: "plan_part list \<Rightarrow> part_input list \<Rightarrow> amendment_warning list" where
  "amendmentWarnings existing declared =
     concat (map (warn_part (index_by pi_slug declared)) (liveParts existing))"

section \<open>Which tables an operation touches\<close>

named_theorems touch_simps "an operation leaves a table alone"

lemma parts_of_setPlanStatus [touch_simps]: "db_parts (setPlanStatus ts i st r db) = db_parts db"
  by (simp add: setPlanStatus_def)

lemma parts_of_upsertPlan [touch_simps]: "db_parts (snd (upsertPlan ts k ref t st n db)) = db_parts db"
  by (simp add: upsertPlan_def Let_def split: option.splits)

lemma parts_of_revision [touch_simps]: "db_parts (recordPlanRevision ts k i n ps db) = db_parts db"
  by (simp add: recordPlanRevision_def)

lemma parts_of_atoms [touch_simps]: "db_parts (upsertPlanAtoms i atoms db) = db_parts db"
  by (simp add: upsertPlanAtoms_def Let_def)

lemma parts_of_settleHuman [touch_simps]: "db_parts (settleHumanTask ts i st r db) = db_parts db"
  by (simp add: settleHumanTask_def)

lemma parts_of_recordHuman [touch_simps]:
  "db_parts (recordHumanTask ts k t d ag tk ref pid kd db) = db_parts db"
  by (simp add: recordHumanTask_def Let_def split: option.splits)

lemma parts_of_fold: "(\<And>d x. db_parts (f d x) = db_parts d) \<Longrightarrow> db_parts (foldl f db xs) = db_parts db"
  by (induction xs arbitrary: db) auto

lemma parts_of_withdraw [touch_simps]: "db_parts (withdrawPartAsks ts ps r db) = db_parts db"
  by (simp add: withdrawPartAsks_def touch_simps parts_of_fold)

lemma parts_of_asks [touch_simps]: "db_parts (foldl (ask_step ts fresh n) db ps) = db_parts db"
  by (rule parts_of_fold) (simp add: ask_step_def touch_simps)

lemma parts_of_rollUp [touch_simps]: "db_parts (snd (rollUpPlanStatus ts i db)) = db_parts db"
  by (simp add: rollUpPlanStatus_def Let_def touch_simps split: option.splits)

lemma parts_of_record [touch_simps]: "db_parts (recordPlanAmendment a db) = db_parts db"
  by (simp add: recordPlanAmendment_def)

lemma parts_of_settle [touch_simps]: "db_parts (settlePlanAmendment ts i st r db) = db_parts db"
  by (simp add: settlePlanAmendment_def)

lemma parts_of_supersede [touch_simps]: "db_parts (supersedePlanAmendments ts i r db) = db_parts db"
  unfolding supersedePlanAmendments_def by (rule parts_of_fold) (simp add: touch_simps)

lemma parts_of_propose [touch_simps]: "db_parts (snd (proposePlanAmendment ts k pl d n au ar db)) = db_parts db"
  by (simp add: proposePlanAmendment_def Let_def touch_simps split: option.splits sum.splits)

lemma parts_of_declineAmendment [touch_simps]: "db_parts (snd (declinePlanAmendment ts i n db)) = db_parts db"
  by (simp add: declinePlanAmendment_def Let_def touch_simps split: option.splits)

section \<open>Work is never discarded\<close>

text \<open>What a part has done so far: everything but its declaration.\<close>

definition progress_of ::
  "plan_part \<Rightarrow> part_status \<times> string option \<times> nat option \<times> string option \<times> string list \<times> outcome_kind option
     \<times> string option \<times> string option" where
  "progress_of p = (pp_status p, pp_branch p, pp_prNumber p, pp_taskId p, pp_acceptanceMet p, pp_outcomeKind p,
     pp_outcomeRef p, pp_outcomeSummary p)"

definition keeps_work :: "plan_part list \<Rightarrow> plan_part list \<Rightarrow> bool" where
  "keeps_work rows rows' \<longleftrightarrow> (\<forall>p \<in> set rows. partHasWork p \<longrightarrow>
     (\<exists>q \<in> set rows'. row_key q = row_key p \<and> progress_of q = progress_of p))"

lemma progress_has_work: "progress_of q = progress_of p \<Longrightarrow> partHasWork q = partHasWork p"
  by (simp add: progress_of_def partHasWork_def partSettled_def)

lemma keeps_work_refl [simp]: "keeps_work rows rows"
  by (auto simp: keeps_work_def)

lemma keeps_work_trans: "keeps_work a b \<Longrightarrow> keeps_work b c \<Longrightarrow> keeps_work a c"
  unfolding keeps_work_def by (metis progress_has_work)

definition good :: "plan_part list \<Rightarrow> plan_part list \<Rightarrow> bool" where
  "good rows rows' \<longleftrightarrow> (parts_ok rows \<longrightarrow> parts_ok rows' \<and> keeps_work rows rows')"

lemma good_refl [simp]: "good rows rows"
  by (simp add: good_def)

lemma good_trans: "good a b \<Longrightarrow> good b c \<Longrightarrow> good a c"
  unfolding good_def using keeps_work_trans by blast

lemma retire_one:
  assumes "parts_ok (db_parts db)" and "p \<in> set (db_parts db)" and "\<not> partHasWork p"
  shows "parts_ok (db_parts (updatePlanPart ts (pp_id p) patch db)) \<and>
    keeps_work (db_parts db) (db_parts (updatePlanPart ts (pp_id p) patch db))"
proof -
  let ?f = "\<lambda>p. (apply_patch p patch)\<lparr>pp_updatedAt := ts\<rparr>"
  have keys: "row_key (?f r) = row_key r" "pp_id (?f r) = pp_id r" "pp_planId (?f r) = pp_planId r"
    "pp_slug (?f r) = pp_slug r" for r
    by (simp_all add: row_key_def apply_patch_def)
  have rows: "db_parts (updatePlanPart ts (pp_id p) patch db) = update_where (\<lambda>q. pp_id q = pp_id p) ?f (db_parts db)"
    by (simp add: updatePlanPart_def)
  have "map row_key (update_where (\<lambda>q. pp_id q = pp_id p) ?f (db_parts db)) = map row_key (db_parts db)"
    by (rule update_where_keeps) (rule keys)
  then have one: "parts_ok (db_parts (updatePlanPart ts (pp_id p) patch db))"
    using assms(1) unfolding rows parts_ok_def list_all_iff by (auto simp: in_update_where keys)
  have "keeps_work (db_parts db) (db_parts (updatePlanPart ts (pp_id p) patch db))"
    unfolding keeps_work_def rows
  proof (intro ballI impI)
    fix r assume r: "r \<in> set (db_parts db)" "partHasWork r"
    then have "pp_id r \<noteq> pp_id p" using parts_ok_id [OF assms(1) r(1) assms(2)] assms(3) by auto
    with r show "\<exists>q \<in> set (update_where (\<lambda>q. pp_id q = pp_id p) ?f (db_parts db)).
        row_key q = row_key r \<and> progress_of q = progress_of r"
      by (auto simp: in_update_where intro!: bexI [of _ r])
  qed
  with one show ?thesis by blast
qed

lemma part_stays:
  "r \<in> set (db_parts db) \<Longrightarrow> pp_id r \<noteq> i \<Longrightarrow> r \<in> set (db_parts (updatePlanPart ts i patch db))"
  by (auto simp: updatePlanPart_def in_update_where intro!: bexI [of _ r])

lemma retire_good:
  assumes "parts_ok (db_parts db)" and "distinct (map pp_id retire)"
    and "\<forall>p \<in> set retire. p \<in> set (db_parts db) \<and> \<not> partHasWork p"
  shows "parts_ok (db_parts (retire_all ts retire db)) \<and> keeps_work (db_parts db) (db_parts (retire_all ts retire db))"
  using assms
proof (induction retire arbitrary: db)
  case (Cons p ps)
  let ?db = "updatePlanPart ts (pp_id p) (no_patch\<lparr>pt_status := Some PartRetired\<rparr>) db"
  have one: "parts_ok (db_parts ?db)" "keeps_work (db_parts db) (db_parts ?db)"
    using retire_one [OF Cons.prems(1)] Cons.prems(3) by auto
  have "\<forall>q \<in> set ps. q \<in> set (db_parts ?db) \<and> \<not> partHasWork q"
    using Cons.prems(2,3) by (auto intro!: part_stays simp: image_iff)
  with Cons.IH [OF one(1)] Cons.prems(2) one(2) show ?case
    by (auto simp: retire_all_def intro: keeps_work_trans)
qed (simp add: retire_all_def)

lemma partsToRetire_sub: "set (partsToRetire parts declared) \<subseteq> {p \<in> set parts. \<not> partHasWork p}"
  by (auto simp: partsToRetire_def)

lemma listed_ids: "parts_ok (db_parts db) \<Longrightarrow> distinct (map pp_id (listPlanParts db i))"
proof -
  assume ok: "parts_ok (db_parts db)"
  then have "distinct (db_parts db)" by (auto simp: parts_ok_def distinct_map)
  then have "distinct (listPlanParts db i)" by (simp add: listPlanParts_def)
  then show ?thesis
    using parts_ok_id [OF ok] by (auto simp: distinct_map inj_on_def part_of_plan)
qed

lemma retire_parts_good:
  assumes "parts_ok (db_parts db)" and "existing = [] \<or> (\<exists>i. existing = listPlanParts db i)"
    and "db_parts db' = db_parts db"
  shows "parts_ok (db_parts (retire_all ts (partsToRetire existing declared) db')) \<and>
     keeps_work (db_parts db) (db_parts (retire_all ts (partsToRetire existing declared) db'))"
proof -
  have "distinct (map pp_id existing)" using assms(2) listed_ids [OF assms(1)] by auto
  then have "distinct (map pp_id (partsToRetire existing declared))"
    by (auto simp: partsToRetire_def distinct_map_filter)
  moreover have "set existing \<subseteq> set (db_parts db)" using assms(2) by (auto simp: part_of_plan)
  ultimately show ?thesis
    using retire_good [of db' "partsToRetire existing declared" ts] assms(1,3)
      partsToRetire_sub [of existing declared] by auto
qed

lemma redeclared_progress: "pp_status p \<noteq> PartRetired \<Longrightarrow>
    progress_of (redeclaredPart planId i (Some p) ts) = progress_of p"
  by (simp add: progress_of_def redeclaredPart_def carriedProgress_def Let_def)

lemma upsert_good:
  assumes ok: "parts_ok (db_parts db)" and d: "distinct (map pi_slug inputs)" and i: "plan_id_ok planId"
    and u: "upsertPlanParts ts planId inputs db = (rows, db')"
  shows "parts_ok (db_parts db') \<and> keeps_work (db_parts db) (db_parts db')"
proof -
  note stored = upsert_parts_set [OF ok d u i]
  have "\<exists>q \<in> set (db_parts db'). row_key q = row_key p \<and> progress_of q = progress_of p"
    if p: "p \<in> set (db_parts db)" "partHasWork p" for p
  proof (cases "pp_planId p = planId \<and> pp_slug p \<in> pi_slug ` set inputs")
    case True
    then obtain x where x: "x \<in> set inputs" "pi_slug x = pp_slug p" by auto
    have prev: "map_of (index_by pp_slug (listPlanParts db planId)) (pi_slug x) = Some p"
      using existing_part [OF ok p(1)] True x(2) by simp
    have "rows = map (\<lambda>i. redeclaredPart planId i (map_of (index_by pp_slug (listPlanParts db planId)) (pi_slug i)) ts) inputs"
      using u by (simp add: upsertPlanParts_def Let_def)
    with x(1) prev have "redeclaredPart planId x (Some p) ts \<in> set rows" by (auto intro: rev_image_eqI)
    moreover have "pp_status p \<noteq> PartRetired" using p(2) by (auto simp: partHasWork_def partSettled_def)
    ultimately show ?thesis
      using stored(1) True x(2) redeclared_progress [of p planId x ts]
      by (intro bexI [of _ "redeclaredPart planId x (Some p) ts"]) (auto simp: row_key_def redeclared_keys)
  next
    case False
    with p(1) stored(1) show ?thesis by auto
  qed
  with stored(2) show ?thesis by (auto simp: keeps_work_def)
qed

section \<open>The operations as one step relation\<close>

definition plan_ids :: "plan_db \<Rightarrow> string list" where
  "plan_ids db = map pl_id (db_plans db)"

named_theorems plan_id_simps "an operation keeps the ids of the plans"

lemma ids_of_setPlanStatus [plan_id_simps]: "plan_ids (setPlanStatus ts i st r db) = plan_ids db"
  by (simp add: plan_ids_def setPlanStatus_def update_where_def)

lemma ids_of_revision [plan_id_simps]: "plan_ids (recordPlanRevision ts k i n ps db) = plan_ids db"
  by (simp add: plan_ids_def recordPlanRevision_def)

lemma ids_of_atoms [plan_id_simps]: "plan_ids (upsertPlanAtoms i atoms db) = plan_ids db"
  by (simp add: plan_ids_def upsertPlanAtoms_def Let_def)

lemma ids_of_fold: "(\<And>d x. plan_ids (f d x) = plan_ids d) \<Longrightarrow> plan_ids (foldl f db xs) = plan_ids db"
  by (induction xs arbitrary: db) auto

lemma ids_of_retire [plan_id_simps]: "plan_ids (retire_all ts ps db) = plan_ids db"
  unfolding retire_all_def by (rule ids_of_fold) (simp add: plan_ids_def updatePlanPart_def)

lemma ids_of_withdraw [plan_id_simps]: "plan_ids (withdrawPartAsks ts ps r db) = plan_ids db"
  unfolding withdrawPartAsks_def by (auto simp: plan_ids_def settleHumanTask_def intro!: ids_of_fold [unfolded plan_ids_def])

lemma ids_of_upsertParts [plan_id_simps]: "plan_ids (snd (upsertPlanParts ts i ps db)) = plan_ids db"
  by (simp add: plan_ids_def upsertPlanParts_def Let_def)

lemma ids_of_asks [plan_id_simps]: "plan_ids (foldl (ask_step ts fresh n) db ps) = plan_ids db"
  by (rule ids_of_fold) (simp add: plan_ids_def ask_step_def recordHumanTask_def Let_def split: option.splits)

lemma ids_of_rollUp [plan_id_simps]: "plan_ids (snd (rollUpPlanStatus ts i db)) = plan_ids db"
  by (simp add: rollUpPlanStatus_def Let_def plan_id_simps split: option.splits)

lemma ids_of_record [plan_id_simps]: "plan_ids (recordPlanAmendment a db) = plan_ids db"
  by (simp add: plan_ids_def recordPlanAmendment_def)

lemma ids_of_settle [plan_id_simps]: "plan_ids (settlePlanAmendment ts i st r db) = plan_ids db"
  by (simp add: plan_ids_def settlePlanAmendment_def)

definition ids_ok :: "plan_db \<Rightarrow> bool" where
  "ids_ok db \<longleftrightarrow> parts_ok (db_parts db) \<and> list_all plan_id_ok (plan_ids db)"

lemma found_plan_ok: "ids_ok db \<Longrightarrow> getPlan db i = Some pl \<Longrightarrow> plan_id_ok i"
  by (auto simp: ids_ok_def plan_ids_def getPlan_def list_all_iff dest!: find_Some_iff')

lemma upsertPlan_ok:
  assumes "list_all plan_id_ok (plan_ids db)" and "plan_id_ok newId" and "upsertPlan ts newId ref t st n db = (pl, db')"
  shows "plan_id_ok (pl_id pl) \<and> list_all plan_id_ok (plan_ids db')"
proof (cases "getPlanByOrigin db ref")
  case None
  with assms show ?thesis by (auto simp: upsertPlan_def Let_def plan_ids_def)
next
  case (Some e)
  then have "e \<in> set (db_plans db)" unfolding getPlanByOrigin_def using find_Some_iff' by metis
  with assms Some show ?thesis
    by (auto simp: upsertPlan_def Let_def plan_ids_def list_all_iff in_update_where)
qed

text \<open>
  Ingesting a validated document, whoever asks for it: what a planner or an operator submits waits for
  approval, what an accepted amendment carries is active at once.
\<close>

lemma input_slugs: "map pi_slug (planPartInputs d) = map dp_slug (pd_parts d)"
proof -
  have "map (\<lambda>x. f (snd x)) (enumerate n xs) = map f xs" for f :: "doc_part \<Rightarrow> string" and n xs
    by (induction xs arbitrary: n) auto
  from this [of dp_slug 0 "pd_parts d"] show ?thesis
    by (simp add: planPartInputs_def o_def case_prod_beta)
qed

lemma ingest_good:
  assumes ok: "ids_ok db" and new: "plan_id_ok (fr_plan fresh)"
    and doc: "distinct (map dp_slug (pd_parts doc))"
    and r: "ingestPlanDocument ts fresh doc ref title approved db = (res, db')"
  shows "ids_ok db' \<and> keeps_work (db_parts db) (db_parts db')"
proof -
  let ?existing = "case getPlanByOrigin db ref of None \<Rightarrow> [] | Some pl \<Rightarrow> listPlanParts db (pl_id pl)"
  let ?declared = "planPartInputs doc"
  let ?retire = "partsToRetire ?existing (map pi_slug ?declared)"
  obtain pl db1 where u: "upsertPlan ts (fr_plan fresh) ref title (if approved then Active else AwaitingApproval) (planNarrative doc) db = (pl, db1)"
    by fastforce
  define db2 where "db2 = recordPlanRevision ts (fr_revision fresh) (pl_id pl) (planNarrative doc) ?declared db1"
  define db5 where "db5 = upsertPlanAtoms (pl_id pl) (pd_atoms doc)
      (withdrawPartAsks ts ?retire AMENDED_PART_RESOLUTION (retire_all ts ?retire db2))"
  obtain written db6 where w: "upsertPlanParts ts (pl_id pl) ?declared db5 = (written, db6)" by fastforce
  define db7 where "db7 = foldl (ask_step ts fresh (planIssueNumber ref)) db6 (filter partIsHuman written)"
  have db': "db' = (if approved then snd (rollUpPlanStatus ts (pl_id pl) db7) else db7)"
    using r by (auto simp: ingestPlanDocument_def Let_def u w [unfolded db5_def db2_def] db7_def split: prod.splits if_splits)
  have pok: "parts_ok (db_parts db)" and plans: "list_all plan_id_ok (plan_ids db)" using ok by (auto simp: ids_ok_def)
  have "plan_id_ok (pl_id pl)" and ids1: "list_all plan_id_ok (plan_ids db1)"
    using upsertPlan_ok [OF plans new u] by auto
  have slugs: "distinct (map pi_slug ?declared)"
    using doc by (simp add: input_slugs)
  have "db_parts db2 = db_parts db" using u parts_of_upsertPlan [of ts "fr_plan fresh"] by (metis db2_def parts_of_revision snd_conv)
  then have "parts_ok (db_parts (retire_all ts ?retire db2)) \<and> keeps_work (db_parts db) (db_parts (retire_all ts ?retire db2))"
    by (intro retire_parts_good [OF pok]) (auto split: option.splits)
  then have five: "parts_ok (db_parts db5)" "keeps_work (db_parts db) (db_parts db5)" by (auto simp: db5_def touch_simps)
  have six: "parts_ok (db_parts db6) \<and> keeps_work (db_parts db5) (db_parts db6)"
    by (rule upsert_good [OF five(1) slugs \<open>plan_id_ok (pl_id pl)\<close> w])
  have parts: "db_parts db' = db_parts db6" by (simp add: db' db7_def touch_simps)
  have "plan_ids db' = plan_ids db6" by (simp add: db' db7_def plan_id_simps)
  also have "\<dots> = plan_ids db5" using ids_of_upsertParts [of ts "pl_id pl" ?declared db5] w by simp
  also have "\<dots> = plan_ids db1" by (simp add: db5_def db2_def plan_id_simps)
  finally show ?thesis using six five(2) ids1 parts by (auto simp: ids_ok_def intro: keeps_work_trans)
qed

lemma send_back_good:
  assumes "ids_ok db" and "send_back ts i st reason answer db = (res, db')"
  shows "ids_ok db' \<and> keeps_work (db_parts db) (db_parts db')"
proof (cases "res = answer (length (partsToRetire (listPlanParts db i) []))
    (length (survivorsOf (listPlanParts db i) (partsToRetire (listPlanParts db i) []))) \<and> db' \<noteq> db")
  case True
  have "parts_ok (db_parts (retire_all ts (partsToRetire (listPlanParts db i) []) db)) \<and>
      keeps_work (db_parts db) (db_parts (retire_all ts (partsToRetire (listPlanParts db i) []) db))"
    using assms(1) by (intro retire_parts_good) (auto simp: ids_ok_def)
  with True assms show ?thesis
    by (auto simp: send_back_def Let_def ids_ok_def touch_simps plan_id_simps split: option.splits if_splits)
next
  case False
  with assms have "db' = db" by (auto simp: send_back_def Let_def split: option.splits if_splits)
  with assms show ?thesis by simp
qed

lemma shortfall_good:
  assumes ok: "ids_ok db" and r: "actOnShortfall ts i c slug summary db = (res, db')"
  shows "ids_ok db' \<and> keeps_work (db_parts db) (db_parts db')"
proof (cases "db_parts db' = db_parts db \<and> plan_ids db' = plan_ids db")
  case True
  with ok show ?thesis by (simp add: ids_ok_def)
next
  case False
  with r obtain pl target s refreshing where pl: "getPlan db i = Some pl"
    and db': "db' = snd (rollUpPlanStatus ts i (snd (upsertPlanParts ts i
        [followupPartInput target summary (foldl max 0 (map pp_seq (listPlanParts db i)) + 1) s] db)))"
    by (auto simp: actOnShortfall_def Let_def case_prod_beta touch_simps plan_id_simps split: option.splits if_splits)
  let ?in = "[followupPartInput target summary (foldl max 0 (map pp_seq (listPlanParts db i)) + 1) s]"
  obtain rows db1 where u: "upsertPlanParts ts i ?in db = (rows, db1)" by fastforce
  have "parts_ok (db_parts db1) \<and> keeps_work (db_parts db) (db_parts db1)"
    using ok found_plan_ok [OF ok pl] by (intro upsert_good [OF _ _ _ u]) (auto simp: ids_ok_def)
  moreover have "plan_ids db1 = plan_ids db" using ids_of_upsertParts [of ts i ?in db] u by simp
  ultimately show ?thesis
    using ok u by (simp add: db' ids_ok_def touch_simps plan_id_simps)
qed

text \<open>
  Everything the harness does to a plan as a whole, in any order and any number of times. A document is
  ingested after it validated, and the ids handed to new plans are well formed.
\<close>

inductive plan_step :: "plan_db \<Rightarrow> plan_db \<Rightarrow> bool" where
  ingest: "validatePlanDocument raw = Inr doc \<Longrightarrow> plan_id_ok (fr_plan fresh) \<Longrightarrow>
     plan_step db (snd (ingestPlanDocument ts fresh doc ref title False db))"
| release: "plan_step db (snd (releasePlan ts i db))"
| refuse: "plan_step db (snd (refusePlan ts i note db))"
| decline: "plan_step db (snd (declinePlan ts i note db))"
| shortfall: "plan_step db (snd (actOnShortfall ts i causePlan slug summary db))"
| roll_up: "plan_step db (snd (rollUpPlanStatus ts i db))"
| propose: "plan_step db (snd (proposePlanAmendment ts newId pl raw note author authorRef db))"
| accept: "plan_id_ok (fr_plan fresh) \<Longrightarrow> plan_step db (snd (applyPlanAmendment describe ts fresh i db))"
| turn_down: "plan_step db (snd (declinePlanAmendment ts i note db))"
| supersede: "plan_step db (supersedePlanAmendments ts i reason db)"

inductive_cases plan_stepE: "plan_step db db'"

lemma apply_good:
  assumes ok: "ids_ok db" and new: "plan_id_ok (fr_plan fresh)"
  shows "ids_ok (snd (applyPlanAmendment describe ts fresh i db)) \<and>
    keeps_work (db_parts db) (db_parts (snd (applyPlanAmendment describe ts fresh i db)))"
proof -
  have "ids_ok (snd (ingestPlanDocument ts fresh parsed ref title True db)) \<and>
      keeps_work (db_parts db) (db_parts (snd (ingestPlanDocument ts fresh parsed ref title True db)))"
    if "validatePlanDocument d = Inr parsed" for d parsed ref title
  proof -
    have "distinct (map dp_slug (pd_parts parsed))"
      using that by (auto simp: accepted_iff parts_schedulable_def)
    then show ?thesis by (rule ingest_good [OF ok new _ prod.collapse [symmetric]])
  qed
  with ok show ?thesis
    by (auto simp: applyPlanAmendment_def Let_def ids_ok_def touch_simps plan_id_simps case_prod_beta
        split: option.splits sum.splits)
qed

lemma plan_step_good: "plan_step db db' \<Longrightarrow> ids_ok db \<Longrightarrow> ids_ok db' \<and> keeps_work (db_parts db) (db_parts db')"
proof (induction rule: plan_step.induct)
  case (ingest raw doc fresh db ts ref title)
  have "distinct (map dp_slug (pd_parts doc))"
    using ingest(1) by (auto simp: accepted_iff parts_schedulable_def)
  with ingest show ?case by (intro ingest_good [OF _ _ _ prod.collapse [symmetric]]) auto
next
  case (release db ts i)
  then show ?case
    by (auto simp: releasePlan_def Let_def ids_ok_def touch_simps plan_id_simps split: option.splits)
next
  case (refuse db ts i reason)
  then show ?case unfolding refusePlan_def by (rule send_back_good [OF _ prod.collapse [symmetric]])
next
  case (decline db ts i reason)
  then show ?case unfolding declinePlan_def by (rule send_back_good [OF _ prod.collapse [symmetric]])
next
  case (shortfall db ts i causePlan slug summary)
  then show ?case by (rule shortfall_good [OF _ prod.collapse [symmetric]])
next
  case (propose db ts newId pl raw reason author authorRef)
  then show ?case
    by (auto simp: proposePlanAmendment_def Let_def ids_ok_def touch_simps plan_id_simps split: option.splits sum.splits)
next
  case (accept fresh db describe ts i)
  then show ?case by (intro apply_good)
next
  case (supersede db ts i reason)
  have "plan_ids (supersedePlanAmendments ts i reason db) = plan_ids db"
    unfolding supersedePlanAmendments_def by (rule ids_of_fold) (simp add: plan_id_simps)
  with supersede show ?case by (simp add: ids_ok_def touch_simps)
qed (auto simp: ids_ok_def touch_simps plan_id_simps declinePlanAmendment_def Let_def split: option.splits)

lemma plan_run_good:
  "plan_step\<^sup>*\<^sup>* db db' \<Longrightarrow> ids_ok db \<Longrightarrow> ids_ok db' \<and> keeps_work (db_parts db) (db_parts db')"
proof (induction rule: rtranclp_induct)
  case (step y z)
  then show ?case using plan_step_good [OF step(2)] by (auto intro: keeps_work_trans)
qed simp

text \<open>
  C3. However often a plan is replanned, refused, declined, amended or followed up, in whatever order: a
  part that had work on it (dispatched, in review, merged or concluded) is still in the table under its
  plan and slug, with the same status, branch, pull request, task, met criteria and outcome. None of
  these operations retires it or forgets what it produced.
\<close>

theorem replanning_never_discards_work:
  assumes "plan_step\<^sup>*\<^sup>* db db'" and "ids_ok db" and "p \<in> set (db_parts db)" and "partHasWork p"
  shows "\<exists>q. q \<in> set (db_parts db') \<and> row_key q = row_key p \<and> progress_of q = progress_of p"
  using plan_run_good [OF assms(1,2)] assms(3,4) by (auto simp: keeps_work_def)

definition working_part :: plan_part where
  "working_part = (part0 ''a'' [])\<lparr>pp_id := ''p1:a'', pp_status := PartInReview, pp_branch := Some ''issue/7/a'', pp_prNumber := Some 12\<rparr>"

theorem replanning_never_discards_work_witness:
  "\<exists>q. q \<in> set (db_parts (snd (refusePlan 9 ''p1'' None
      (empty_db\<lparr>db_plans := [plan0 7 AwaitingApproval], db_parts := [working_part]\<rparr>)))) \<and>
    row_key q = row_key working_part \<and> progress_of q = progress_of working_part"
proof (rule replanning_never_discards_work)
  show "plan_step\<^sup>*\<^sup>* (empty_db\<lparr>db_plans := [plan0 7 AwaitingApproval], db_parts := [working_part]\<rparr>)
      (snd (refusePlan 9 ''p1'' None (empty_db\<lparr>db_plans := [plan0 7 AwaitingApproval], db_parts := [working_part]\<rparr>)))"
    by (rule r_into_rtranclp) (rule plan_step.refuse)
  show "ids_ok (empty_db\<lparr>db_plans := [plan0 7 AwaitingApproval], db_parts := [working_part]\<rparr>)"
    by (simp add: ids_ok_def parts_ok_def plan_ids_def plan_id_ok_def working_part_def part0_def plan0_def part_key_def empty_db_def)
qed (simp_all add: working_part_def part0_def partHasWork_def)

section \<open>One amendment at a time\<close>

named_theorems amend_simps "an operation leaves the amendments alone"

lemma am_of_setPlanStatus [amend_simps]: "db_amendments (setPlanStatus ts i st r db) = db_amendments db"
  by (simp add: setPlanStatus_def)

lemma am_of_upsertPlan [amend_simps]: "db_amendments (snd (upsertPlan ts k ref t st n db)) = db_amendments db"
  by (simp add: upsertPlan_def Let_def split: option.splits)

lemma am_of_revision [amend_simps]: "db_amendments (recordPlanRevision ts k i n ps db) = db_amendments db"
  by (simp add: recordPlanRevision_def)

lemma am_of_atoms [amend_simps]: "db_amendments (upsertPlanAtoms i atoms db) = db_amendments db"
  by (simp add: upsertPlanAtoms_def Let_def)

lemma am_of_upsertParts [amend_simps]: "db_amendments (snd (upsertPlanParts ts i ps db)) = db_amendments db"
  by (simp add: upsertPlanParts_def Let_def)

lemma am_of_fold: "(\<And>d x. db_amendments (f d x) = db_amendments d) \<Longrightarrow> db_amendments (foldl f db xs) = db_amendments db"
  by (induction xs arbitrary: db) auto

lemma am_of_retire [amend_simps]: "db_amendments (retire_all ts ps db) = db_amendments db"
  unfolding retire_all_def by (rule am_of_fold) (simp add: updatePlanPart_def)

lemma am_of_withdraw [amend_simps]: "db_amendments (withdrawPartAsks ts ps r db) = db_amendments db"
  by (simp add: withdrawPartAsks_def settleHumanTask_def am_of_fold)

lemma am_of_asks [amend_simps]: "db_amendments (foldl (ask_step ts fresh n) db ps) = db_amendments db"
  by (rule am_of_fold) (simp add: ask_step_def recordHumanTask_def Let_def split: option.splits)

lemma am_of_rollUp [amend_simps]: "db_amendments (snd (rollUpPlanStatus ts i db)) = db_amendments db"
  by (simp add: rollUpPlanStatus_def Let_def amend_simps split: option.splits)

lemma am_of_ingest [amend_simps]:
  "db_amendments (snd (ingestPlanDocument ts fresh doc ref title approved db)) = db_amendments db"
  by (simp add: ingestPlanDocument_def Let_def case_prod_beta amend_simps)

lemma am_of_sendBack [amend_simps]: "db_amendments (snd (send_back ts i st reason answer db)) = db_amendments db"
  by (simp add: send_back_def Let_def amend_simps split: option.splits)

lemma am_of_shortfall [amend_simps]: "db_amendments (snd (actOnShortfall ts i c slug summary db)) = db_amendments db"
  by (simp add: actOnShortfall_def Let_def case_prod_beta amend_simps split: option.splits)

lemma am_of_release [amend_simps]: "db_amendments (snd (releasePlan ts i db)) = db_amendments db"
  by (simp add: releasePlan_def Let_def amend_simps split: option.splits)

definition pending_of :: "string \<Rightarrow> amendment list \<Rightarrow> amendment list" where
  "pending_of planId rows = filter (\<lambda>a. am_planId a = planId \<and> am_status a = AmPending) rows"

definition amendments_ok :: "amendment list \<Rightarrow> bool" where
  "amendments_ok rows \<longleftrightarrow> (\<forall>planId. length (pending_of planId rows) \<le> 1)"

definition settled_kept :: "amendment list \<Rightarrow> amendment list \<Rightarrow> bool" where
  "settled_kept rows rows' \<longleftrightarrow> (\<forall>a \<in> set rows. am_status a \<noteq> AmPending \<longrightarrow> a \<in> set rows')"

lemma settle_pending:
  assumes "st \<noteq> AmPending"
  shows "pending_of planId (db_amendments (settlePlanAmendment ts i st r db)) =
    filter (\<lambda>a. am_id a \<noteq> i) (pending_of planId (db_amendments db))"
proof -
  have "pending_of planId (update_where (\<lambda>a. am_id a = i \<and> am_status a = AmPending) f rows) =
      filter (\<lambda>a. am_id a \<noteq> i) (pending_of planId rows)" if "\<And>a. am_status (f a) = st" for f rows
    using that assms by (induction rows) (auto simp: update_where_def pending_of_def)
  then show ?thesis by (simp add: settlePlanAmendment_def)
qed

lemma settle_ok:
  assumes "st \<noteq> AmPending" and "amendments_ok (db_amendments db)"
  shows "amendments_ok (db_amendments (settlePlanAmendment ts i st r db)) \<and>
    settled_kept (db_amendments db) (db_amendments (settlePlanAmendment ts i st r db))"
proof -
  have "length (filter P xs) \<le> 1" if "length xs \<le> 1" for P and xs :: "amendment list"
    using le_trans [OF length_filter_le that] .
  with assms have "amendments_ok (db_amendments (settlePlanAmendment ts i st r db))"
    by (simp add: amendments_ok_def settle_pending)
  moreover have "settled_kept (db_amendments db) (db_amendments (settlePlanAmendment ts i st r db))"
    unfolding settled_kept_def settlePlanAmendment_def by (auto simp: in_update_where intro: bexI)
  ultimately show ?thesis by blast
qed

lemma settled_kept_refl [simp]: "settled_kept rows rows"
  by (auto simp: settled_kept_def)

lemma settled_kept_trans: "settled_kept a b \<Longrightarrow> settled_kept b c \<Longrightarrow> settled_kept a c"
  by (auto simp: settled_kept_def)

lemma no_pending: "pendingAmendmentFor db planId = None \<Longrightarrow> pending_of planId (db_amendments db) = []"
  by (auto simp: pendingAmendmentFor_def listPlanAmendments_def find_None_iff' pending_of_def filter_empty_conv)

lemma propose_ok:
  assumes ok: "amendments_ok (db_amendments db)"
  shows "amendments_ok (db_amendments (snd (proposePlanAmendment ts k pl raw n au ar db))) \<and>
    settled_kept (db_amendments db) (db_amendments (snd (proposePlanAmendment ts k pl raw n au ar db)))"
proof (cases "db_amendments (snd (proposePlanAmendment ts k pl raw n au ar db)) = db_amendments db")
  case True
  with ok show ?thesis by simp
next
  case False
  then have "\<exists>a. pendingAmendmentFor db (pl_id pl) = None \<and> am_planId a = pl_id pl \<and> am_status a = AmPending \<and>
    db_amendments (snd (proposePlanAmendment ts k pl raw n au ar db)) = db_amendments db @ [a]"
    by (auto simp: proposePlanAmendment_def recordPlanAmendment_def Let_def split: option.splits sum.splits if_splits)
  then obtain a where a: "pendingAmendmentFor db (pl_id pl) = None" "am_planId a = pl_id pl" "am_status a = AmPending"
    "db_amendments (snd (proposePlanAmendment ts k pl raw n au ar db)) = db_amendments db @ [a]" by blast
  have "length (pending_of i (db_amendments db @ [a])) \<le> 1" for i
    using ok no_pending [OF a(1)] a(2,3) by (cases "i = pl_id pl") (auto simp: amendments_ok_def pending_of_def)
  then show ?thesis unfolding a(4) by (simp add: amendments_ok_def settled_kept_def)
qed

lemma supersede_ok:
  "amendments_ok (db_amendments db) \<Longrightarrow> amendments_ok (db_amendments (supersedePlanAmendments ts i r db)) \<and>
     settled_kept (db_amendments db) (db_amendments (supersedePlanAmendments ts i r db))"
proof -
  have "amendments_ok (db_amendments d) \<Longrightarrow> amendments_ok (db_amendments (foldl (\<lambda>d a. if am_status a \<noteq> AmPending then d
        else settlePlanAmendment ts (am_id a) AmSuperseded r d) d as)) \<and>
      settled_kept (db_amendments d) (db_amendments (foldl (\<lambda>d a. if am_status a \<noteq> AmPending then d
        else settlePlanAmendment ts (am_id a) AmSuperseded r d) d as))" for d as
  proof (induction "as" arbitrary: d)
    case (Cons a "as")
    show ?case
    proof (cases "am_status a = AmPending")
      case True
      have "amendments_ok (db_amendments (settlePlanAmendment ts (am_id a) AmSuperseded r d)) \<and>
          settled_kept (db_amendments d) (db_amendments (settlePlanAmendment ts (am_id a) AmSuperseded r d))"
        by (rule settle_ok) (use Cons.prems in auto)
      with Cons.IH True show ?thesis by (auto intro: settled_kept_trans)
    qed (use Cons in auto)
  qed simp
  then show "amendments_ok (db_amendments db) \<Longrightarrow> amendments_ok (db_amendments (supersedePlanAmendments ts i r db)) \<and>
     settled_kept (db_amendments db) (db_amendments (supersedePlanAmendments ts i r db))"
    unfolding supersedePlanAmendments_def by blast
qed

lemma apply_ok:
  assumes ok: "amendments_ok (db_amendments db)"
  shows "amendments_ok (db_amendments (snd (applyPlanAmendment describe ts fresh i db))) \<and>
    settled_kept (db_amendments db) (db_amendments (snd (applyPlanAmendment describe ts fresh i db)))"
proof -
  have one: "amendments_ok (db_amendments (settlePlanAmendment ts i st r d)) \<and>
      settled_kept (db_amendments db) (db_amendments (settlePlanAmendment ts i st r d))"
    if "db_amendments d = db_amendments db" "st \<noteq> AmPending" for d st r
    using settle_ok [of st d ts i r] that ok by simp
  show ?thesis
    by (auto simp: applyPlanAmendment_def Let_def case_prod_beta ok one amend_simps split: option.splits sum.splits)
qed

lemma plan_step_amendments:
  "plan_step db db' \<Longrightarrow> amendments_ok (db_amendments db) \<Longrightarrow>
     amendments_ok (db_amendments db') \<and> settled_kept (db_amendments db) (db_amendments db')"
proof (induction rule: plan_step.induct)
  case (propose db ts newId pl raw reason author authorRef)
  then show ?case by (rule propose_ok)
next
  case (accept fresh db describe ts i)
  then show ?case by (intro apply_ok)
next
  case (turn_down db ts i reason)
  have "db_amendments (snd (declinePlanAmendment ts i reason db)) = db_amendments (settlePlanAmendment ts i AmDeclined
      (if trim (default_to '''' reason) \<noteq> '''' then trim (default_to '''' reason)
       else ''An operator declined this amendment; the plan is unchanged.'') db)"
    by (auto simp: declinePlanAmendment_def Let_def split: option.splits)
  then show ?case using settle_ok [OF _ turn_down] by (simp del: default_to.simps)
next
  case (supersede db ts i reason)
  then show ?case by (rule supersede_ok)
qed (simp_all add: amend_simps refusePlan_def declinePlan_def)

text \<open>
  C12. Whatever is done to the plans, in whatever order: at most one amendment of a plan waits for the
  operator at any time, and an amendment that has been applied, declined or superseded is never
  changed again.
\<close>

theorem one_amendment_waits:
  assumes "plan_step\<^sup>*\<^sup>* db db'" and "amendments_ok (db_amendments db)"
  shows "amendments_ok (db_amendments db') \<and> settled_kept (db_amendments db) (db_amendments db')"
  using assms
proof (induction rule: rtranclp_induct)
  case (step y z)
  then show ?case using plan_step_amendments [OF step(2)] by (auto intro: settled_kept_trans)
qed simp

theorem one_amendment_waits_witness:
  "amendments_ok (db_amendments (snd (refusePlan 9 ''p1'' None (empty_db\<lparr>db_plans := [plan0 7 AwaitingApproval]\<rparr>))))"
proof -
  have "plan_step\<^sup>*\<^sup>* (empty_db\<lparr>db_plans := [plan0 7 AwaitingApproval]\<rparr>)
      (snd (refusePlan 9 ''p1'' None (empty_db\<lparr>db_plans := [plan0 7 AwaitingApproval]\<rparr>)))"
    by (rule r_into_rtranclp) (rule plan_step.refuse)
  from one_amendment_waits [OF this] show ?thesis
    by (simp add: empty_db_def amendments_ok_def pending_of_def)
qed

section \<open>The slug of a follow-up part\<close>

lemma next_slot_taken:
  "next_slot parts base n fuel = None \<Longrightarrow> \<forall>m < fuel. base @ ''-'' @ show_nat (n + m) \<in> pp_slug ` set parts"
proof (induction parts base n fuel rule: next_slot.induct)
  case (2 parts base n fuel)
  have taken: "base @ ''-'' @ show_nat n \<in> pp_slug ` set parts"
    using 2(2) by (auto simp: Let_def slot_free_def index_by_None split: if_splits)
  have "next_slot parts base (n + 1) fuel = None"
    using 2(2) by (auto simp: Let_def split: if_splits)
  moreover have "\<not> slot_free parts (base @ ''-'' @ show_nat n)" "\<not> slot_unstarted parts (base @ ''-'' @ show_nat n)"
    using 2(2) by (auto simp: Let_def split: if_splits)
  ultimately have rest: "\<forall>m < fuel. base @ ''-'' @ show_nat (n + 1 + m) \<in> pp_slug ` set parts"
    using 2(1) by simp
  show ?case
  proof (intro allI impI)
    fix m assume "m < Suc fuel"
    then show "base @ ''-'' @ show_nat (n + m) \<in> pp_slug ` set parts"
      using taken rest by (cases m) auto
  qed
qed simp

lemma next_slot_found: "next_slot parts base n (Suc (length parts)) \<noteq> None"
proof
  assume none: "next_slot parts base n (Suc (length parts)) = None"
  let ?f = "\<lambda>m. base @ ''-'' @ show_nat (n + m)"
  have "?f ` {..<Suc (length parts)} \<subseteq> pp_slug ` set parts"
    using next_slot_taken [OF none] by blast
  then have "card (?f ` {..<Suc (length parts)}) \<le> card (pp_slug ` set parts)"
    by (intro card_mono) auto
  moreover have "inj ?f" by (auto simp: inj_def dest: show_nat_inj [THEN iffD1])
  then have "card (?f ` {..<Suc (length parts)}) = Suc (length parts)"
    by (simp add: card_image inj_on_def inj_def)
  moreover have "card (pp_slug ` set parts) \<le> length parts"
    by (metis card_length length_map list.set_map)
  ultimately show False by simp
qed

lemma next_slot_result:
  "next_slot parts base n fuel = Some (slug, r) \<Longrightarrow> (if r then slot_unstarted parts slug else slot_free parts slug)"
  by (induction parts base n fuel rule: next_slot.induct) (auto simp: Let_def split: if_splits)

text \<open>
  C26. A follow-up part always finds a slug: the search over the numbered names ends within one round
  more than there are parts, and the slug is either free or that of a part nobody has started, so
  appending the follow-up never rewrites a part with work on it.
\<close>

theorem followup_slot_found:
  "\<exists>slug r. followupSlot p parts = Some (slug, r) \<and> (if r then slot_unstarted parts slug else slot_free parts slug)"
proof -
  define base where "base = (if ends_with ''-followup'' (pp_slug p) then pp_slug p else pp_slug p @ ''-followup'')"
  obtain s r where s: "next_slot parts base 2 (Suc (length parts)) = Some (s, r)"
    using next_slot_found [of parts base 2] by (cases "next_slot parts base 2 (Suc (length parts))") auto
  note res = next_slot_result [OF s]
  have f: "followupSlot p parts = (if slot_free parts base then Some (base, False)
      else if slot_unstarted parts base then Some (base, True) else Some (s, r))"
    unfolding followupSlot_def Let_def base_def [symmetric] s by (rule refl)
  show ?thesis
  proof (cases "slot_free parts base \<or> slot_unstarted parts base")
    case True
    then show ?thesis unfolding f by (cases "slot_free parts base") auto
  next
    case False
    then have "followupSlot p parts = Some (s, r)" unfolding f by simp
    with res show ?thesis by blast
  qed
qed

end
