(* ===== verification/Conclusion.thy ===== *)
theory Conclusion
  imports Pickup PrHealth PlanLifecycle
begin

text \<open>
  Whether a goal is done: the conclusion an agent, an assessor or an operator recorded resolved against
  the plan and the standing shortfall (\<^verbatim>\<open>src/src/issueConclusion.ts\<close>), what makes a goal's run complete
  and which issues are shown after their tracker closed them (\<^verbatim>\<open>src/src/runs/runs.ts\<close>), and the world a
  dispatch pass is given (\<^verbatim>\<open>src/src/harnessCycleReadings.ts\<close>, \<^verbatim>\<open>src/src/world/readPlan.ts\<close>).
\<close>

section \<open>Conclusions\<close>

datatype conclusion_verdict = VerdictDone | VerdictMoreWork

datatype conclusion_author = ConcludedByAgent | ConcludedByAssessor | ConcludedByOperator

record conclusion =
  cn_originRef :: string
  cn_verdict :: conclusion_verdict
  cn_note :: string
  cn_by :: conclusion_author
  cn_updatedAt :: int

datatype shortfall_author = ShortfallByAssessor | ShortfallByOperator

record shortfall =
  sf_originRef :: string
  sf_cause :: "shortfall_cause option"
  sf_partSlug :: "string option"
  sf_summary :: string
  sf_by :: shortfall_author
  sf_updatedAt :: int

text \<open>Who a resolved verdict speaks for, with the sentence a plan in flight or complete gives.\<close>

datatype resolved_by = Declared conclusion_author string | PlanDrawnUp | PlanInFlight | PlanMerged

datatype resolved_conclusion = Undeclared | ResolvedDone resolved_by | ResolvedMoreWork resolved_by

definition planInFlightVerdict :: "plan option \<Rightarrow> resolved_conclusion option" where
  "planInFlightVerdict pl =
     (case pl of
        None \<Rightarrow> None
      | Some p \<Rightarrow>
          if planInFlight p then
            Some (ResolvedMoreWork (if pl_status p = Planning then PlanDrawnUp else PlanInFlight))
          else None)"

definition resolved :: "conclusion \<Rightarrow> resolved_conclusion" where
  "resolved c = (case cn_verdict c of
     VerdictDone \<Rightarrow> ResolvedDone (Declared (cn_by c) (cn_note c))
   | VerdictMoreWork \<Rightarrow> ResolvedMoreWork (Declared (cn_by c) (cn_note c)))"

definition resolveIssueConclusion :: "conclusion option \<Rightarrow> plan option \<Rightarrow> shortfall option \<Rightarrow> resolved_conclusion" where
  "resolveIssueConclusion stored pl short =
     (case stored of
        Some c \<Rightarrow>
          if cn_by c = ConcludedByOperator then resolved c
          else (case short of
              Some s \<Rightarrow> ResolvedMoreWork (Declared
                (if sf_by s = ShortfallByOperator then ConcludedByOperator else ConcludedByAssessor) (sf_summary s))
            | None \<Rightarrow> default_to (resolved c) (planInFlightVerdict pl))
      | None \<Rightarrow>
          (case short of
              Some s \<Rightarrow> ResolvedMoreWork (Declared
                (if sf_by s = ShortfallByOperator then ConcludedByOperator else ConcludedByAssessor) (sf_summary s))
            | None \<Rightarrow>
                (case planInFlightVerdict pl of
                   Some r \<Rightarrow> r
                 | None \<Rightarrow>
                     (case pl of
                        None \<Rightarrow> Undeclared
                      | Some p \<Rightarrow> if pl_status p = Complete then ResolvedDone PlanMerged else Undeclared))))"

definition is_moreWork :: "resolved_conclusion \<Rightarrow> bool" where
  "is_moreWork r \<longleftrightarrow> (case r of ResolvedMoreWork _ \<Rightarrow> True | _ \<Rightarrow> False)"

definition is_done :: "resolved_conclusion \<Rightarrow> bool" where
  "is_done r \<longleftrightarrow> (case r of ResolvedDone _ \<Rightarrow> True | _ \<Rightarrow> False)"

definition by_plan :: "resolved_conclusion \<Rightarrow> bool" where
  "by_plan r \<longleftrightarrow> r \<in> {ResolvedMoreWork PlanDrawnUp, ResolvedMoreWork PlanInFlight, ResolvedDone PlanMerged}"

definition issueConclusionOrigin :: "nat \<Rightarrow> string" where
  "issueConclusionOrigin n = issueOriginRef Root n None"

text \<open>Why an origin concludes nothing: a part concludes from its plan, the deliberating agents have tools of their own.\<close>

datatype conclude_error = WorkingAPart "nat option" | PlanningIt nat | AssessingIt nat | AppraisingIt nat | NotAnIssue string

definition conclusionOrigin :: "string option \<Rightarrow> conclude_error + string" where
  "conclusionOrigin originRef =
     (let ref = default_to '''' originRef in
      if issueOriginNumber Root ref \<noteq> None then Inr ref
      else if inIssueOriginFamily PartFam ref then Inl (WorkingAPart (issueSubtreeNumber ref))
      else case issueOriginNumber PlanFam ref of Some n \<Rightarrow> Inl (PlanningIt n) | None \<Rightarrow>
           (case issueOriginNumber Assess ref of Some n \<Rightarrow> Inl (AssessingIt n) | None \<Rightarrow>
           (case issueOriginNumber AppraisalFam ref of Some n \<Rightarrow> Inl (AppraisingIt n) | None \<Rightarrow>
             Inl (NotAnIssue ref))))"

section \<open>Runs\<close>

record completion_signals =
  sg_retrospectives :: "string list"
  sg_conclusions :: "conclusion list"
  sg_deliveries :: "delivery list"
  sg_shortfalls :: "shortfall list"
  sg_plans :: "plan list"

definition goal_resolution :: "nat \<Rightarrow> completion_signals \<Rightarrow> resolved_conclusion" where
  "goal_resolution n sg =
     (let origin = issueConclusionOrigin n in
      resolveIssueConclusion (find (\<lambda>c. cn_originRef c = origin) (sg_conclusions sg))
        (find (\<lambda>p. pl_originRef p = origin) (sg_plans sg))
        (find (\<lambda>s. sf_originRef s = origin) (sg_shortfalls sg)))"

definition isGoalComplete :: "nat \<Rightarrow> completion_signals \<Rightarrow> bool" where
  "isGoalComplete n sg =
     (let origin = issueConclusionOrigin n; r = goal_resolution n sg in
      if is_moreWork r then False
      else if origin \<in> set (sg_retrospectives sg) then True
      else if list_ex (\<lambda>d. dl_originRef d = origin) (sg_deliveries sg) then True
      else is_done r)"

record run_record =
  rr_originRef :: string
  rr_issueNumber :: nat
  rr_title :: string
  rr_body :: string
  rr_labels :: "string list"
  rr_linkedPr :: "nat option"
  rr_workState :: "string option"
  rr_complete :: bool

definition runsToRecord :: "issue list \<Rightarrow> task list \<Rightarrow> completion_signals \<Rightarrow> run_record list" where
  "runsToRecord issues tasks sg =
     List.map_filter (\<lambda>i. let complete = isGoalComplete (i_number i) sg in
       if \<not> complete \<and> \<not> hasPriorWork (i_number i) tasks then None
       else Some \<lparr>rr_originRef = issueConclusionOrigin (i_number i), rr_issueNumber = i_number i, rr_title = i_title i,
         rr_body = i_body i, rr_labels = i_labels i, rr_linkedPr = i_linkedPr i, rr_workState = i_workState i,
         rr_complete = complete\<rparr>) issues"

definition abandonedRunIssues :: "issue_run list \<Rightarrow> nat list" where
  "abandonedRunIssues runs = map rn_issueNumber (filter rn_dismissed runs)"

text \<open>A run whose issue left the world is shown as a closed issue with nothing else known of it.\<close>

definition run_issue :: "issue_run \<Rightarrow> issue" where
  "run_issue r =
     \<lparr>i_number = rn_issueNumber r, i_title = rn_title r, i_body = rn_body r, i_labels = rn_labels r,
      i_labelsByViewer = None, i_state = IssueClosed, i_workState = rn_workState r, i_type = None, i_parent = None,
      i_children = None, i_siblings = None, i_dependsOn = None, i_linkedPr = rn_linkedPr r, i_areaPath = None\<rparr>"

definition retainedRunIssues :: "issue_run list \<Rightarrow> issue list \<Rightarrow> issue list" where
  "retainedRunIssues runs live =
     map run_issue (filter (\<lambda>r. \<not> rn_dismissed r \<and> rn_issueNumber r \<notin> set (map i_number live)) runs)"

section \<open>The world a dispatch pass is given\<close>

record world =
  w_takenAt :: int
  w_pullRequests :: "pull_request list"
  w_issues :: "issue list"

definition actedOn :: "string \<Rightarrow> pull_request \<Rightarrow> bool" where
  "actedOn label pr \<longleftrightarrow> isPrWatched pr label \<and> \<not> isSomeoneElsesPr pr"

definition dispatchView :: "world \<Rightarrow> string \<Rightarrow> issue_run list \<Rightarrow> pull_request list \<times> issue list \<times> world" where
  "dispatchView w label runs =
     (let hidden = filter (\<lambda>pr. \<not> actedOn label pr) (w_pullRequests w);
          retained = retainedRunIssues runs (w_issues w);
          live = filter (\<lambda>i. i_number i \<notin> set (abandonedRunIssues runs)) (w_issues w)
      in (hidden, retained,
          if hidden \<noteq> [] \<or> retained \<noteq> [] \<or> length live < length (w_issues w)
          then w\<lparr>w_pullRequests := filter (actedOn label) (w_pullRequests w), w_issues := live @ retained\<rparr>
          else w))"

section \<open>References an agent finished on since a reading\<close>

definition prReadRef :: "nat \<Rightarrow> string" where
  "prReadRef n = ''pr:'' @ show_nat n"

definition issueReadRef :: "nat \<Rightarrow> string" where
  "issueReadRef n = issueOriginRef Root n None"

definition origin_root :: "string \<Rightarrow> string" where
  "origin_root ref = join_with '':'' (take 2 (split_on (CHR '':'') ref))"

definition ended_since :: "int \<Rightarrow> task \<Rightarrow> bool" where
  "ended_since since t \<longleftrightarrow> \<not> isActiveTask t \<and> (case date_parse (tk_updatedAt t) of None \<Rightarrow> False | Some e \<Rightarrow> since < e)"

definition refsFinishedSince :: "task list \<Rightarrow> pull_request list \<Rightarrow> instant \<Rightarrow> string list" where
  "refsFinishedSince tasks prs since =
     (case date_parse since of
        None \<Rightarrow> []
      | Some ts \<Rightarrow>
          let ended = filter (ended_since ts) tasks;
              branches = List.map_filter (\<lambda>t. truthy (tk_branch t)) ended
          in uniq (List.map_filter (\<lambda>t. map_option origin_root (tk_originRef t)) ended
               @ map (\<lambda>pr. prReadRef (pr_number pr)) (filter (\<lambda>pr. pr_branch pr \<in> set branches) prs)))"

section \<open>How fresh a reading must be\<close>

record read_lanes =
  rl_hotMaxAgeMs :: int
  rl_coldMaxAgeMs :: int

definition DEFAULT_READ_LANES :: read_lanes where
  "DEFAULT_READ_LANES = \<lparr>rl_hotMaxAgeMs = 60000, rl_coldMaxAgeMs = 5 * 60000\<rparr>"

text \<open>\<^verbatim>\<open>hot\<close> is every reference (None) when there is no reading before, or the listed ones.\<close>

record read_plan = read_lanes +
  rp_hot :: "string list option"
  rp_fresh :: "string list"

definition isUnsettledPr :: "pull_request \<Rightarrow> bool" where
  "isUnsettledPr pr =
     (if pr_ciStatus pr \<noteq> CiPassing \<and> pr_ciStatus pr \<noteq> CiFailing then True
      else if pr_approved pr = Some True then True
      else pr_mergeableState pr = Some Behind \<or> pr_mergeableState pr = Some Dirty)"

definition hot_refs :: "world \<Rightarrow> task list \<Rightarrow> world_event list \<Rightarrow> int \<Rightarrow> string list" where
  "hot_refs previous tasks events since =
     (let active = filter isActiveTask tasks;
          branches = List.map_filter (\<lambda>t. truthy (tk_branch t)) active
      in map (\<lambda>pr. prReadRef (pr_number pr)) (filter isUnsettledPr (w_pullRequests previous))
         @ List.map_filter (\<lambda>t. map_option origin_root (tk_originRef t)) active
         @ map (\<lambda>pr. prReadRef (pr_number pr)) (filter (\<lambda>pr. pr_branch pr \<in> set branches) (w_pullRequests previous))
         @ List.map_filter we_ref (filter (\<lambda>e. \<not> we_createdAt e < since) events))"

definition buildReadPlan :: "world option \<Rightarrow> task list \<Rightarrow> world_event list \<Rightarrow> int \<Rightarrow> read_lanes \<Rightarrow> read_plan" where
  "buildReadPlan previous tasks events now lanes =
     (case previous of
        None \<Rightarrow> \<lparr>rl_hotMaxAgeMs = rl_hotMaxAgeMs lanes, rl_coldMaxAgeMs = rl_coldMaxAgeMs lanes,
                  rp_hot = None, rp_fresh = []\<rparr>
      | Some w \<Rightarrow> \<lparr>rl_hotMaxAgeMs = rl_hotMaxAgeMs lanes, rl_coldMaxAgeMs = rl_coldMaxAgeMs lanes,
                  rp_hot = Some (uniq (hot_refs w tasks events (now - rl_coldMaxAgeMs lanes))),
                  rp_fresh = refsFinishedSince tasks (w_pullRequests w) (Instant (w_takenAt w))\<rparr>)"

definition hydrationMaxAgeMs :: "read_plan option \<Rightarrow> string \<Rightarrow> int" where
  "hydrationMaxAgeMs plan ref =
     (case plan of
        None \<Rightarrow> rl_hotMaxAgeMs DEFAULT_READ_LANES
      | Some p \<Rightarrow>
          if ref \<in> set (rp_fresh p) then 0
          else case rp_hot p of
              None \<Rightarrow> rl_hotMaxAgeMs p
            | Some refs \<Rightarrow> (if ref \<in> set refs then rl_hotMaxAgeMs p else rl_coldMaxAgeMs p))"

end
