(* ===== verification/Validation.thy ===== *)
theory Validation
  imports Intake
begin

text \<open>
  The validation of a delivered goal (\<^verbatim>\<open>src/src/validation/\<close>): the steps of a check's test plan and
  who carries each (\<^verbatim>\<open>steps.ts\<close>), what a re-declared check keeps of its reading
  (\<^verbatim>\<open>checkMerge.ts\<close>), the verdict over a set (\<^verbatim>\<open>verdict.ts\<close>), whether a set is authored and released
  (\<^verbatim>\<open>authoring.ts\<close>, \<^verbatim>\<open>planApproval.ts\<close>), the claim a desktop session holds (\<^verbatim>\<open>desktop.ts\<close>), the
  origins of the agents (\<^verbatim>\<open>fleet.ts\<close>, \<^verbatim>\<open>local/origin.ts\<close>) and the local run a validation is pinned to
  (\<^verbatim>\<open>local/stale.ts\<close>). The explanation shown for a step that is a person's is the fault it is written
  from.
\<close>

section \<open>Steps\<close>

datatype step_kind = BrowserStep | SuiteStep | ScreenshotStep | StateStep | SignalStep | MeasureStep | ManualStep

datatype step_when = Inline | DeferredStep

datatype check_actor = Human | Fleet

record capabilities =
  cap_browser :: bool
  cap_state :: bool
  cap_observe :: bool
  cap_tenant :: bool

definition NO_STEP_CAPABILITIES :: capabilities where
  "NO_STEP_CAPABILITIES = \<lparr>cap_browser = False, cap_state = False, cap_observe = False, cap_tenant = False\<rparr>"

text \<open>What an environment declares; of the blocks only whether they are there is read.\<close>

record capability_env =
  ce_observe :: "string option"
  ce_validate :: bool
  ce_tenant :: bool
  ce_browser :: bool
  ce_stateRun :: "string option"

definition said_something :: "string option \<Rightarrow> bool" where
  "said_something s = (case s of None \<Rightarrow> False | Some t \<Rightarrow> trim t \<noteq> '''')"

definition capability_step :: "capabilities \<Rightarrow> capability_env \<Rightarrow> capabilities" where
  "capability_step caps env =
     (if \<not> ce_validate env then caps
      else \<lparr>cap_browser = cap_browser caps \<or> ce_browser env,
             cap_state = cap_state caps \<or> said_something (ce_stateRun env),
             cap_observe = cap_observe caps \<or> said_something (ce_observe env),
             cap_tenant = cap_tenant caps \<or> ce_tenant env\<rparr>)"

definition stepCapabilities :: "capability_env list \<Rightarrow> capabilities" where
  "stepCapabilities environments = foldl capability_step NO_STEP_CAPABILITIES environments"

datatype step_fault = ByDefinition | NoBrowserToDrive | NoTenant | NoBrowserSuite | NoStateRun | NoObserve

definition stepFault :: "step_kind \<Rightarrow> capabilities \<Rightarrow> step_fault option" where
  "stepFault k caps =
     (case k of
        ManualStep \<Rightarrow> Some ByDefinition
      | BrowserStep \<Rightarrow> (if \<not> cap_browser caps then Some NoBrowserToDrive
                       else if \<not> cap_tenant caps then Some NoTenant else None)
      | SuiteStep \<Rightarrow> (if cap_browser caps then None else Some NoBrowserSuite)
      | ScreenshotStep \<Rightarrow> (if cap_browser caps then None else Some NoBrowserSuite)
      | StateStep \<Rightarrow> (if cap_state caps then None else Some NoStateRun)
      | SignalStep \<Rightarrow> (if cap_observe caps then None else Some NoObserve)
      | MeasureStep \<Rightarrow> (if cap_observe caps then None else Some NoObserve))"

record declared_step =
  sd_kind :: step_kind
  sd_do :: string
  sd_area :: "string option"
  sd_expects :: "string list option"
  sd_when :: "step_when option"
  sd_script :: "string option"

record validation_step =
  st_kind :: step_kind
  st_do :: string
  st_area :: "string option"
  st_expects :: "string list option"
  st_when :: step_when
  st_script :: "string option"
  st_scriptSweptAt :: "int option"
  st_actor :: check_actor
  st_why :: "step_fault option"

definition resolve_step :: "capabilities \<Rightarrow> declared_step \<Rightarrow> validation_step" where
  "resolve_step caps s =
     (let fault = stepFault (sd_kind s) caps in
      \<lparr>st_kind = sd_kind s, st_do = sd_do s,
       st_area = (if sd_kind s = SuiteStep then sd_area s else None),
       st_expects = (if sd_kind s = SuiteStep then sd_expects s else None),
       st_when = (if sd_kind s = ManualStep then default_to Inline (sd_when s) else Inline),
       st_script = (if sd_kind s = BrowserStep then sd_script s else None),
       st_scriptSweptAt = None,
       st_actor = (if fault = None then Fleet else Human),
       st_why = fault\<rparr>)"

definition resolveSteps :: "declared_step list \<Rightarrow> capabilities \<Rightarrow> validation_step list" where
  "resolveSteps declared caps = map (resolve_step caps) declared"

fun stepArea :: "validation_step list \<Rightarrow> string option" where
  "stepArea [] = None"
| "stepArea (s # steps) =
     (if st_kind s = SuiteStep \<and> truthy (st_area s) \<noteq> None then st_area s else stepArea steps)"

fun stepExpects :: "validation_step list \<Rightarrow> string list option" where
  "stepExpects [] = None"
| "stepExpects (s # steps) =
     (if st_kind s = SuiteStep \<and> default_to [] (st_expects s) \<noteq> [] then st_expects s else stepExpects steps)"

fun stepScript :: "validation_step list \<Rightarrow> string option" where
  "stepScript [] = None"
| "stepScript (s # steps) =
     (if st_kind s = BrowserStep \<and> truthy (st_script s) \<noteq> None then st_script s else stepScript steps)"

definition stepDriven :: "validation_step list \<Rightarrow> bool" where
  "stepDriven steps =
     (if stepArea steps \<noteq> None \<or> stepScript steps \<noteq> None then False
      else list_ex (\<lambda>s. st_kind s = BrowserStep \<and> st_actor s = Fleet) steps)"

definition sweptScripts :: "validation_step list \<Rightarrow> int \<Rightarrow> validation_step list option" where
  "sweptScripts steps ts =
     (if \<not> list_ex (\<lambda>s. st_script s \<noteq> None) steps then None
      else Some (map (\<lambda>s. if st_script s = None then s
                           else s\<lparr>st_script := None, st_scriptSweptAt := Some ts\<rparr>) steps))"

definition handsBackAScreen :: "validation_step list \<Rightarrow> bool" where
  "handsBackAScreen steps = list_ex (\<lambda>s. st_kind s = ScreenshotStep) steps"

fun segmentBoundary :: "validation_step list \<Rightarrow> nat option" where
  "segmentBoundary [] = None"
| "segmentBoundary (s # steps) =
     (if st_actor s = Human \<and> st_when s = Inline then Some 0 else map_option Suc (segmentBoundary steps))"

definition fleetCanStart :: "validation_step list \<Rightarrow> bool option" where
  "fleetCanStart steps = (case steps of [] \<Rightarrow> None | s # _ \<Rightarrow> Some (st_actor s = Fleet))"

section \<open>Checks\<close>

datatype check_state = Unrun | Passed | FailedCheck | Waived | DeferredCheck | Captured | DeclinedCheck

datatype result_by = ResultOperator | ResultAgent | ResultDesktop | ResultSpec | ResultScript

record revision =
  re_title :: string
  re_do :: string
  re_expect :: string
  re_proof :: "string option"
  re_state :: "check_state option"
  re_note :: "string option"

record validation_check =
  vc_originRef :: string
  vc_id :: string
  vc_letter :: string
  vc_seq :: nat
  vc_title :: string
  vc_do :: string
  vc_expect :: string
  vc_proof :: "string option"
  vc_uses :: "string list"
  vc_covers :: "string list"
  vc_rationale :: "string option"
  vc_fleetCandidate :: bool
  vc_candidateWhy :: "string option"
  vc_actor :: check_actor
  vc_handbackNote :: "string option"
  vc_state :: check_state
  vc_resultNote :: "string option"
  vc_resultBy :: "result_by option"
  vc_resultAt :: "instant option"
  vc_claimedBy :: "string option"
  vc_claimedAt :: "int option"
  vc_deferUntil :: "int option"
  vc_supersededReason :: "string option"
  vc_revision :: "revision option"
  vc_amendedAt :: "int option"
  vc_amendNote :: "string option"
  vc_steps :: "validation_step list"
  vc_capture :: "string option"
  vc_createdAt :: int
  vc_updatedAt :: int

definition fleetWillRun :: "validation_check \<Rightarrow> bool" where
  "fleetWillRun c \<longleftrightarrow> vc_actor c = Fleet \<and> vc_state c = Unrun \<and> fleetCanStart (vc_steps c) \<noteq> Some False"

definition liveChecks :: "validation_check list \<Rightarrow> validation_check list" where
  "liveChecks checks = filter (\<lambda>c. vc_supersededReason c = None) checks"

record validation_verdict =
  vv_clear :: bool
  vv_total :: nat
  vv_passed :: nat
  vv_failed :: nat
  vv_unrun :: nat
  vv_deferred :: nat
  vv_captured :: nat
  vv_declined :: nat
  vv_waived :: nat

definition count_state :: "validation_check list \<Rightarrow> check_state \<Rightarrow> nat" where
  "count_state live st = length (filter (\<lambda>c. vc_state c = st) live)"

definition validationVerdict :: "validation_check list \<Rightarrow> validation_verdict" where
  "validationVerdict checks =
     (let live = liveChecks checks in
      \<lparr>vv_clear = (count_state live Passed + count_state live Waived = length live),
       vv_total = length live, vv_passed = count_state live Passed, vv_failed = count_state live FailedCheck,
       vv_unrun = count_state live Unrun, vv_deferred = count_state live DeferredCheck,
       vv_captured = count_state live Captured, vv_declined = count_state live DeclinedCheck,
       vv_waived = count_state live Waived\<rparr>)"

section \<open>Re-declaring a check\<close>

record check_input =
  ci_id :: string
  ci_seq :: nat
  ci_title :: string
  ci_do :: string
  ci_expect :: string
  ci_proof :: "string option"
  ci_uses :: "string list"
  ci_covers :: "string list"
  ci_rationale :: "string option"
  ci_fleetCandidate :: bool
  ci_candidateWhy :: "string option"
  ci_steps :: "validation_step list"

definition isReworded :: "validation_check \<Rightarrow> check_input \<Rightarrow> bool" where
  "isReworded prev nxt \<longleftrightarrow>
     vc_title prev \<noteq> ci_title nxt \<or> vc_do prev \<noteq> ci_do nxt \<or> vc_expect prev \<noteq> ci_expect nxt \<or> vc_proof prev \<noteq> ci_proof nxt"

definition unanswered :: "validation_check \<Rightarrow> revision option" where
  "unanswered prev =
     (if vc_state prev = Unrun then
        (case vc_revision prev of None \<Rightarrow> None | Some r \<Rightarrow> if re_state r \<noteq> None then Some r else None)
      else None)"

definition priorWording :: "validation_check \<Rightarrow> revision" where
  "priorWording prev =
     \<lparr>re_title = vc_title prev, re_do = vc_do prev, re_expect = vc_expect prev, re_proof = vc_proof prev,
      re_state = (if vc_state prev = Unrun then None else Some (vc_state prev)), re_note = vc_resultNote prev\<rparr>"

text \<open>The band an amendment leaves on the check: what was reworded, when, and the amender's note.\<close>

type_synonym band = "revision option \<times> int option \<times> string option"

definition new_band :: "validation_check option \<Rightarrow> bool \<Rightarrow> int \<Rightarrow> string \<Rightarrow> band" where
  "new_band prev reworded ts amendNote =
     ((case prev of
         Some p \<Rightarrow> if reworded then Some (default_to (priorWording p) (unanswered p)) else None
       | None \<Rightarrow> None), Some ts, Some amendNote)"

definition carriedBand :: "validation_check option \<Rightarrow> band" where
  "carriedBand prev =
     (case prev of None \<Rightarrow> (None, None, None) | Some p \<Rightarrow> (vc_revision p, vc_amendedAt p, vc_amendNote p))"

text \<open>A check nobody has run: the row \<^verbatim>\<open>keptReading(undefined)\<close> gives, on the wording of the input.\<close>

definition fresh_check :: "string \<Rightarrow> check_input \<Rightarrow> string \<Rightarrow> int \<Rightarrow> band \<Rightarrow> validation_check" where
  "fresh_check originRef input letter ts b =
     \<lparr>vc_originRef = originRef, vc_id = ci_id input, vc_letter = letter, vc_seq = ci_seq input,
      vc_title = ci_title input, vc_do = ci_do input, vc_expect = ci_expect input, vc_proof = ci_proof input,
      vc_uses = ci_uses input, vc_covers = ci_covers input, vc_rationale = ci_rationale input,
      vc_fleetCandidate = ci_fleetCandidate input, vc_candidateWhy = ci_candidateWhy input,
      vc_actor = Human, vc_handbackNote = None, vc_state = Unrun, vc_resultNote = None, vc_resultBy = None,
      vc_resultAt = None, vc_claimedBy = None, vc_claimedAt = None, vc_deferUntil = None,
      vc_supersededReason = None, vc_revision = fst b, vc_amendedAt = fst (snd b), vc_amendNote = snd (snd b),
      vc_steps = ci_steps input, vc_capture = None, vc_createdAt = ts, vc_updatedAt = ts\<rparr>"

definition keep_reading :: "validation_check \<Rightarrow> validation_check \<Rightarrow> validation_check" where
  "keep_reading p c =
     c\<lparr>vc_actor := vc_actor p, vc_handbackNote := vc_handbackNote p, vc_claimedBy := vc_claimedBy p,
       vc_claimedAt := vc_claimedAt p, vc_state := vc_state p, vc_resultNote := vc_resultNote p,
       vc_resultBy := vc_resultBy p, vc_resultAt := vc_resultAt p, vc_deferUntil := vc_deferUntil p,
       vc_capture := vc_capture p\<rparr>"

definition mergeCheck ::
  "string \<Rightarrow> validation_check option \<Rightarrow> check_input \<Rightarrow> string \<Rightarrow> int \<Rightarrow> string option \<Rightarrow> validation_check" where
  "mergeCheck originRef prev input letter ts amendNote =
     (let reworded = (case prev of None \<Rightarrow> False | Some p \<Rightarrow> isReworded p input);
          changed = (case prev of None \<Rightarrow> True | Some p \<Rightarrow> reworded \<or> vc_supersededReason p \<noteq> None);
          b = (case amendNote of
                 Some note \<Rightarrow> if changed then new_band prev reworded ts note else carriedBand prev
               | None \<Rightarrow> carriedBand prev);
          c = fresh_check originRef input letter ts b
      in case prev of
           None \<Rightarrow> c
         | Some p \<Rightarrow>
             (if reworded then c else keep_reading p c)
               \<lparr>vc_rationale := or_else (ci_rationale input) (vc_rationale p), vc_createdAt := vc_createdAt p\<rparr>)"

section \<open>A set as a whole\<close>

record plan_record =
  vr_originRef :: string
  vr_hint :: "string option"
  vr_note :: "string option"
  vr_emptyReason :: "string option"
  vr_authoredAt :: "int option"
  vr_releasedAt :: "int option"

definition planTimeCheckIsUnderway :: "validation_check \<Rightarrow> bool" where
  "planTimeCheckIsUnderway c =
     (if vc_supersededReason c \<noteq> None then False
      else vc_state c \<noteq> Unrun \<or> vc_claimedBy c \<noteq> None \<or> vc_actor c \<noteq> Human)"

definition checkSetAuthored :: "plan_record option \<Rightarrow> validation_check list \<Rightarrow> bool" where
  "checkSetAuthored rec checks =
     (case rec of
        Some r \<Rightarrow> if vr_authoredAt r \<noteq> None then True
                  else if vr_note r \<noteq> None then False
                  else list_ex planTimeCheckIsUnderway checks
      | None \<Rightarrow> list_ex planTimeCheckIsUnderway checks)"

record check_set_standing =
  cs_accepted :: bool
  cs_acceptedAt :: "int option"
  cs_authoredAt :: "int option"

definition checkSetStanding :: "plan_record option \<Rightarrow> validation_check list \<Rightarrow> check_set_standing" where
  "checkSetStanding rec checks =
     (let authoredAt = (case rec of None \<Rightarrow> None | Some r \<Rightarrow> vr_authoredAt r);
          releasedAt = (case rec of None \<Rightarrow> None | Some r \<Rightarrow> vr_releasedAt r)
      in if releasedAt \<noteq> None then \<lparr>cs_accepted = True, cs_acceptedAt = releasedAt, cs_authoredAt = authoredAt\<rparr>
         else if authoredAt \<noteq> None then \<lparr>cs_accepted = False, cs_acceptedAt = None, cs_authoredAt = authoredAt\<rparr>
         else \<lparr>cs_accepted = (0 < length checks), cs_acceptedAt = None, cs_authoredAt = None\<rparr>)"

definition checkSetReleased :: "plan_record option \<Rightarrow> validation_check list \<Rightarrow> bool" where
  "checkSetReleased rec checks = cs_accepted (checkSetStanding rec checks)"

definition checkSetUnanswered :: "plan_record \<Rightarrow> bool" where
  "checkSetUnanswered r \<longleftrightarrow> vr_releasedAt r = None \<and> (vr_authoredAt r \<noteq> None \<or> vr_note r \<noteq> None)"

definition validationPlanOrigin :: "nat \<Rightarrow> string" where
  "validationPlanOrigin n = issueOriginRef ValidationPlanFam n None"

definition validationPlanBranch :: "nat \<Rightarrow> string" where
  "validationPlanBranch n = ''validate-plan/issue/'' @ show_nat n"

definition validationPlanIssue :: "string \<Rightarrow> nat option" where
  "validationPlanIssue ref = issueOriginNumber ValidationPlanFam ref"

definition checkSetAuthoringIssue :: "string \<Rightarrow> nat option" where
  "checkSetAuthoringIssue ref = or_else (validationPlanIssue ref) (assessIssueNumber ref)"

section \<open>Claims\<close>

definition claimStaleBefore :: "int \<Rightarrow> int \<Rightarrow> int" where
  "claimStaleBefore now minutes = now - max 1 minutes * 60000"

definition claimIsLive :: "validation_check \<Rightarrow> int \<Rightarrow> int \<Rightarrow> bool" where
  "claimIsLive c now minutes =
     (case (vc_claimedBy c, vc_claimedAt c) of
        (Some _, Some ts) \<Rightarrow> claimStaleBefore now minutes < ts
      | _ \<Rightarrow> False)"

definition withLiveClaim :: "validation_check \<Rightarrow> int \<Rightarrow> int \<Rightarrow> validation_check" where
  "withLiveClaim c now minutes =
     (if vc_claimedBy c = None \<or> claimIsLive c now minutes then c
      else c\<lparr>vc_claimedBy := None, vc_claimedAt := None\<rparr>)"

definition findCheckByRef :: "validation_check list \<Rightarrow> string \<Rightarrow> validation_check option" where
  "findCheckByRef checks ref =
     or_else (find (\<lambda>c. vc_id c = trim ref) checks)
       (find (\<lambda>c. to_lower (vc_letter c) = to_lower (trim ref)) checks)"

section \<open>Origins and branches\<close>

definition validateOrigin :: "nat \<Rightarrow> string \<Rightarrow> string" where
  "validateOrigin n checkId = issueOriginRef Validate n (Some checkId)"

definition validateBranch :: "nat \<Rightarrow> string \<Rightarrow> string" where
  "validateBranch n checkId = ''validate/issue/'' @ show_nat n @ ''/'' @ checkId"

definition validationFailureOrigin :: "nat \<Rightarrow> string \<Rightarrow> string" where
  "validationFailureOrigin n checkId = issueOriginRef ValidateFailure n (Some checkId)"

definition validationFailureBranch :: "nat \<Rightarrow> string \<Rightarrow> string" where
  "validationFailureBranch n checkId = ''validate-failure/issue/'' @ show_nat n @ ''/'' @ checkId"

definition localValidationOrigin :: "nat \<Rightarrow> string \<Rightarrow> string" where
  "localValidationOrigin n i = issueOriginRef LocalValidationFam n (Some i)"

definition localValidationFixOrigin :: "nat \<Rightarrow> string \<Rightarrow> string" where
  "localValidationFixOrigin n i = issueOriginRef LocalValidationFix n (Some i)"

definition localValidationKey :: "nat \<Rightarrow> string \<Rightarrow> string" where
  "localValidationKey n i = ''validate-local/issue/'' @ show_nat n @ ''/'' @ i"

section \<open>The local run\<close>

datatype local_run_status = RunStarting | RunRunning | RunStopping | RunStopped | RunFailed

record local_run =
  lr_id :: string
  lr_originRef :: string
  lr_commit :: "string option"
  lr_status :: local_run_status

datatype local_validation_status =
  LvPending | LvDispatched | LvPassed | LvFailed | LvBlocked | LvAbandoned

record local_validation =
  lv_id :: string
  lv_originRef :: string
  lv_runId :: string
  lv_ref :: string
  lv_commit :: "string option"
  lv_status :: local_validation_status
  lv_fixTaskId :: "string option"
  lv_findings :: "string list"

datatype stale_reason = EnvStopped | EnvRestarted | EnvSwapped string | EnvGoingDown | CommitUnknown | CommitMoved

definition validationRunStale :: "local_validation \<Rightarrow> local_run option \<Rightarrow> stale_reason option" where
  "validationRunStale row live =
     (case live of
        None \<Rightarrow> Some EnvStopped
      | Some l \<Rightarrow>
          if lr_id l \<noteq> lv_runId row then
            Some (if lr_originRef l = lv_originRef row then EnvRestarted else EnvSwapped (lr_originRef l))
          else if lr_status l = RunStopping then Some EnvGoingDown
          else if lv_commit row = None \<or> lr_commit l = None then Some CommitUnknown
          else if lr_commit l \<noteq> lv_commit row then Some CommitMoved
          else None)"

definition localValidationIsOpen :: "local_validation \<Rightarrow> bool" where
  "localValidationIsOpen row \<longleftrightarrow> lv_status row = LvPending \<or> lv_status row = LvDispatched"

end
