(* ===== verification/Discussions.thy ===== *)
theory Discussions
  imports Relations
begin

text \<open>
  The discussion file beside a story or Feature as dispatch reads it: the standing entries
  (\<^verbatim>\<open>src/src/discussions/entries.ts\<close>), the memoised reader and the pair of a story and its Feature
  (\<^verbatim>\<open>reader.ts\<close>), and the hold an open question puts on a story (\<^verbatim>\<open>questionHold.ts\<close>). Reading the file
  itself is a parameter, the function from an issue number to the parsed document or nothing.
\<close>

section \<open>Entries\<close>

datatype discussion_kind = NoteEntry | IdeaEntry | QuestionEntry | DecisionEntry

datatype entry_state = EntryOpen | EntryAccepted | EntryParked | EntryDropped | EntryAnswered

record discussion_entry =
  dn_kind :: discussion_kind
  dn_state :: "entry_state option"
  dn_id :: "string option"
  dn_heading :: string
  dn_body :: string
  dn_supersedes :: "string list"

record discussion_doc =
  dd_path :: string
  dd_parentNumber :: "nat option"
  dd_entries :: "discussion_entry list"

type_synonym discussion_reader = "nat \<Rightarrow> discussion_doc option"

definition superseded_ids :: "discussion_entry list \<Rightarrow> string list" where
  "superseded_ids entries = concat (map (\<lambda>e. if dn_kind e = DecisionEntry then dn_supersedes e else []) entries)"

definition standingDecisions :: "discussion_entry list \<Rightarrow> discussion_entry list" where
  "standingDecisions entries =
     filter (\<lambda>e. dn_kind e = DecisionEntry \<and>
       (case dn_id e of None \<Rightarrow> True | Some i \<Rightarrow> i \<notin> set (superseded_ids entries))) entries"

definition openQuestions :: "discussion_entry list \<Rightarrow> discussion_entry list" where
  "openQuestions entries = filter (\<lambda>e. dn_kind e = QuestionEntry \<and> dn_state e = Some EntryOpen) entries"

definition answeredQuestions :: "discussion_entry list \<Rightarrow> discussion_entry list" where
  "answeredQuestions entries = filter (\<lambda>e. dn_kind e = QuestionEntry \<and> dn_state e = Some EntryAnswered) entries"

definition acceptedIdeas :: "discussion_entry list \<Rightarrow> discussion_entry list" where
  "acceptedIdeas entries = filter (\<lambda>e. dn_kind e = IdeaEntry \<and> dn_state e = Some EntryAccepted) entries"

definition notesNewestFirst :: "discussion_entry list \<Rightarrow> discussion_entry list" where
  "notesNewestFirst entries = rev (filter (\<lambda>e. dn_kind e = NoteEntry) entries)"

section \<open>Reading\<close>

text \<open>One call of the memoised reader: the answer, and the memo after it.\<close>

definition memoReader ::
  "discussion_reader \<Rightarrow> nat \<Rightarrow> (nat, discussion_doc option) jsmap \<Rightarrow> discussion_doc option \<times> (nat, discussion_doc option) jsmap" where
  "memoReader read n seen =
     (case map_of seen n of Some d \<Rightarrow> (d, seen) | None \<Rightarrow> (read n, map_put n (read n) seen))"

definition discussionParent :: "nat \<Rightarrow> nat option \<Rightarrow> discussion_doc option \<Rightarrow> nat option" where
  "discussionParent n issueParent doc =
     (case or_else issueParent (case doc of None \<Rightarrow> None | Some d \<Rightarrow> dd_parentNumber d) of
        None \<Rightarrow> None
      | Some p \<Rightarrow> if p = n then None else Some p)"

definition discussionPair ::
  "discussion_reader \<Rightarrow> nat \<Rightarrow> nat option \<Rightarrow> discussion_doc option \<times> discussion_doc option" where
  "discussionPair read n issueParent =
     (let story = read n in
      (story, case discussionParent n issueParent story of None \<Rightarrow> None | Some p \<Rightarrow> read p))"

section \<open>The hold of an open question\<close>

record question_hold =
  qh_count :: nat
  qh_paths :: "string list"

definition questionHold :: "discussion_reader option \<Rightarrow> nat \<Rightarrow> nat option \<Rightarrow> bool \<Rightarrow> question_hold option" where
  "questionHold reader n issueParent planned =
     (case reader of
        None \<Rightarrow> None
      | Some read \<Rightarrow>
          let (story, feature) = (if planned then (read n, None) else discussionPair read n issueParent);
              docs = List.map_filter id [story, feature];
              asking = filter (\<lambda>d. openQuestions (dd_entries d) \<noteq> []) docs;
              total = sum_list (map (\<lambda>d. length (openQuestions (dd_entries d))) asking)
          in if total = 0 then None else Some \<lparr>qh_count = total, qh_paths = map dd_path asking\<rparr>)"

end
