(* ===== verification/CiPolicy.thy ===== *)
theory CiPolicy
  imports PrHealth
begin

text \<open>
  What the CI policy says of a pull request's checks (\<^verbatim>\<open>src/src/ci/ciPolicy.ts\<close>) and how much of
  their output an agent is shown (\<^verbatim>\<open>ciEvidence.ts\<close>). The check-name glob is a matcher on lists of
  characters here and a regular expression in the code; the theory gives the language it accepts.
\<close>

section \<open>Check-name globs\<close>

function matchesCheckGlob :: "string \<Rightarrow> string \<Rightarrow> bool" where
  "matchesCheckGlob [] s = (s = [])"
| "matchesCheckGlob (p # ps) s =
     (if p = CHR ''*'' then
        matchesCheckGlob ps s \<or> (case s of [] \<Rightarrow> False | c # cs \<Rightarrow> \<not> is_line_end c \<and> matchesCheckGlob (p # ps) cs)
      else case s of [] \<Rightarrow> False
        | c # cs \<Rightarrow> (if p = CHR ''?'' then \<not> is_line_end c else lower_char c = lower_char p) \<and> matchesCheckGlob ps cs)"
  by pat_completeness auto

termination
  by (relation "measures [\<lambda>(p, s). length p + length s]") auto

declare matchesCheckGlob.simps(2) [simp del]

section \<open>The policy\<close>

datatype failure_action = FailDispatch | FailIgnore | FailEscalate

record ci_rule =
  cr_match :: string
  cr_states :: "ci_status list option"
  cr_onFailure :: "failure_action option"
  cr_guidance :: "string option"
  cr_urgent :: bool

record ci_match =
  cm_name :: string
  cm_rule :: "ci_rule option"
  cm_blocking :: "bool option"
  cm_expired :: bool
  cm_requeueRef :: "string option"

definition ruleStates :: "ci_rule \<Rightarrow> ci_status list" where
  "ruleStates r = default_to [CiFailing] (cr_states r)"

definition rule_action :: "ci_rule \<Rightarrow> failure_action" where
  "rule_action r = default_to FailIgnore (cr_onFailure r)"

definition ruleClaims :: "ci_rule \<Rightarrow> ci_check \<Rightarrow> bool" where
  "ruleClaims r c \<longleftrightarrow>
     c_status c \<in> set (ruleStates r)
     \<and> list_ex (\<lambda>n. matchesCheckGlob (cr_match r) n) (c_name c # default_to [] (c_aliases c))"

datatype ci_policy_error =
    EmptyMatch nat
  | NoStates nat
  | UnknownState nat ci_status
  | GuidanceDiscarded nat
  | UrgentDiscarded nat
  | EscalateNeverFires nat

definition validateRuleStates :: "nat \<Rightarrow> ci_rule \<Rightarrow> ci_policy_error option" where
  "validateRuleStates i r =
     (case cr_states r of
        None \<Rightarrow> None
      | Some states \<Rightarrow>
          if states = [] then Some (NoStates i)
          else map_option (UnknownState i) (find (\<lambda>s. s \<noteq> CiFailing \<and> s \<noteq> CiPending) states))"

definition validateRuleAction :: "nat \<Rightarrow> ci_rule \<Rightarrow> ci_policy_error option" where
  "validateRuleAction i r =
     (if cr_guidance r \<noteq> None \<and> rule_action r \<noteq> FailDispatch then Some (GuidanceDiscarded i)
      else if cr_urgent r \<and> rule_action r \<noteq> FailDispatch then Some (UrgentDiscarded i)
      else if CiFailing \<notin> set (ruleStates r) \<and> rule_action r = FailEscalate then Some (EscalateNeverFires i)
      else None)"

definition validate_rule :: "nat \<Rightarrow> ci_rule \<Rightarrow> ci_policy_error option" where
  "validate_rule i r =
     (if trim (cr_match r) = '''' then Some (EmptyMatch i)
      else or_else (validateRuleStates i r) (validateRuleAction i r))"

text \<open>The first error is thrown: the rules after it are not looked at.\<close>

fun validate_rules :: "nat \<Rightarrow> ci_rule list \<Rightarrow> ci_policy_error option" where
  "validate_rules i [] = None"
| "validate_rules i (r # rs) = or_else (validate_rule i r) (validate_rules (i + 1) rs)"

definition validateCiPolicy :: "ci_rule list \<Rightarrow> ci_policy_error option" where
  "validateCiPolicy checks = validate_rules 0 checks"

section \<open>What the failures ask for\<close>

record ci_verdict =
  cv_actionable :: bool
  cv_dispatch :: "ci_match list"
  cv_escalate :: "ci_match list"
  cv_ignored :: "ci_match list"
  cv_urgent :: bool

definition match_of :: "ci_rule list \<Rightarrow> ci_check \<Rightarrow> ci_match" where
  "match_of policy c = \<lparr>cm_name = c_name c, cm_rule = find (\<lambda>r. ruleClaims r c) policy, cm_blocking = c_blocking c,
     cm_expired = False, cm_requeueRef = None\<rparr>"

definition action_for :: "ci_rule list \<Rightarrow> ci_check \<Rightarrow> failure_action" where
  "action_for policy c = (case find (\<lambda>r. ruleClaims r c) policy of None \<Rightarrow> FailDispatch | Some r \<Rightarrow> rule_action r)"

definition classify_step :: "ci_rule list \<Rightarrow> ci_verdict \<Rightarrow> ci_check \<Rightarrow> ci_verdict" where
  "classify_step policy v c =
     (let m = match_of policy c in
      case action_for policy c of
        FailDispatch \<Rightarrow> v\<lparr>cv_dispatch := cv_dispatch v @ [m],
          cv_urgent := cv_urgent v \<or> (case cm_rule m of None \<Rightarrow> False | Some r \<Rightarrow> cr_urgent r)\<rparr>
      | FailEscalate \<Rightarrow> v\<lparr>cv_escalate := cv_escalate v @ [m]\<rparr>
      | FailIgnore \<Rightarrow> v\<lparr>cv_ignored := cv_ignored v @ [m]\<rparr>)"

definition failing_checks :: "ci_check list option \<Rightarrow> ci_check list" where
  "failing_checks checks = filter (\<lambda>c. c_status c = CiFailing \<and> \<not> c_advisory c) (default_to [] checks)"

definition no_verdict :: ci_verdict where
  "no_verdict = \<lparr>cv_actionable = False, cv_dispatch = [], cv_escalate = [], cv_ignored = [], cv_urgent = False\<rparr>"

definition classifyCiFailures :: "ci_check list option \<Rightarrow> ci_rule list \<Rightarrow> bool \<Rightarrow> ci_verdict" where
  "classifyCiFailures checks policy detailWithheld =
     (let failing = failing_checks checks in
      if failing = [] then no_verdict\<lparr>cv_actionable := (default_to [] checks = [] \<and> \<not> detailWithheld)\<rparr>
      else let v = foldl (classify_step policy) no_verdict failing in v\<lparr>cv_actionable := (cv_dispatch v \<noteq> [])\<rparr>)"

definition ciNeedsHuman :: "ci_verdict \<Rightarrow> bool" where
  "ciNeedsHuman v \<longleftrightarrow> \<not> cv_actionable v \<and> cv_escalate v \<noteq> []"

definition baseFixingCi :: "pull_request \<Rightarrow> pull_request list \<Rightarrow> ci_rule list \<Rightarrow> pull_request option" where
  "baseFixingCi pr openPrs policy =
     (case inheritedCiFailure pr openPrs of
        None \<Rightarrow> None
      | Some base \<Rightarrow>
          if cv_actionable (classifyCiFailures (pr_ciChecks base) policy (pr_ciWithheld base)) then Some base else None)"

record ci_watch =
  cw_watched :: "ci_match list"
  cw_urgent :: bool

definition watch_step :: "ci_rule list \<Rightarrow> ci_watch \<Rightarrow> ci_check \<Rightarrow> ci_watch" where
  "watch_step policy w c =
     (if c_status c = CiFailing \<or> c_advisory c then w
      else let rule = find (\<lambda>r. ruleClaims r c) policy in
        if (case rule of None \<Rightarrow> \<not> c_expired c | Some r \<Rightarrow> rule_action r \<noteq> FailDispatch) then w
        else \<lparr>cw_watched = cw_watched w @ [\<lparr>cm_name = c_name c, cm_rule = rule, cm_blocking = c_blocking c,
                 cm_expired = c_expired c, cm_requeueRef = truthy (c_requeueRef c)\<rparr>],
              cw_urgent = (cw_urgent w \<or> (case rule of None \<Rightarrow> False | Some r \<Rightarrow> cr_urgent r))\<rparr>)"

definition classifyWatchedChecks :: "ci_check list option \<Rightarrow> ci_rule list \<Rightarrow> ci_watch" where
  "classifyWatchedChecks checks policy =
     foldl (watch_step policy) \<lparr>cw_watched = [], cw_urgent = False\<rparr> (default_to [] checks)"

section \<open>What an agent is shown of the output\<close>

datatype evidence_kind = EvErrors | EvLog

record ci_evidence =
  ce_check :: string
  ce_kind :: evidence_kind
  ce_lines :: "string list"

definition MAX_EVIDENCE_CHARS :: nat where "MAX_EVIDENCE_CHARS = 6000"
definition MIN_SHARE_CHARS :: nat where "MIN_SHARE_CHARS = 400"

text \<open>
  The loop of \<^verbatim>\<open>trimEvidence\<close> over the lines in the order they are kept: whole lines while they fit; a
  first line that does not fit is cut, from the front of a log and the back of an error.
\<close>

fun keep_lines :: "evidence_kind \<Rightarrow> nat \<Rightarrow> string list \<Rightarrow> nat \<Rightarrow> string list \<Rightarrow> string list \<times> bool" where
  "keep_lines kind budget kept used [] = (kept, False)"
| "keep_lines kind budget kept used (line # rest) =
     (if budget < used + length line + 1 then
        (if kept \<noteq> [] then (kept, False)
         else let room = budget - 1 in
           (kept @ [if kind = EvLog then drop (length line - room) line else take room line], True))
      else keep_lines kind budget (kept @ [line]) (used + length line + 1) rest)"

record trimmed_evidence =
  te_text :: string
  te_dropped :: nat
  te_cutMidLine :: bool

definition trimEvidence :: "ci_evidence \<Rightarrow> nat \<Rightarrow> trimmed_evidence" where
  "trimEvidence e budget =
     (let ordered = (if ce_kind e = EvLog then rev (ce_lines e) else ce_lines e);
          (kept, wasCut) = keep_lines (ce_kind e) budget [] 0 ordered
      in \<lparr>te_text = join_with [CHR 0x0A] (if ce_kind e = EvLog then rev kept else kept),
          te_dropped = length (ce_lines e) - length kept, te_cutMidLine = wasCut\<rparr>)"

definition evidence_included :: "ci_evidence list \<Rightarrow> ci_evidence list" where
  "evidence_included evidence =
     (let usable = filter (\<lambda>e. ce_lines e \<noteq> []) evidence;
          share = MAX_EVIDENCE_CHARS div length usable
      in if MIN_SHARE_CHARS \<le> share then usable else take (MAX_EVIDENCE_CHARS div MIN_SHARE_CHARS) usable)"

text \<open>The output of each check shown, trimmed to its share: the body of \<^verbatim>\<open>ciEvidenceNote\<close>.\<close>

definition ciEvidenceNote :: "ci_evidence list \<Rightarrow> (string \<times> trimmed_evidence) list" where
  "ciEvidenceNote evidence =
     (let included = evidence_included evidence in
      map (\<lambda>e. (ce_check e, trimEvidence e (MAX_EVIDENCE_CHARS div max (length included) 1))) included)"

section \<open>The language of a glob\<close>

text \<open>What the regular expression accepts: a star is any run without a line end, and letters fold case.\<close>

inductive glob_language :: "string \<Rightarrow> string \<Rightarrow> bool" where
  done_: "glob_language [] []"
| star: "glob_language ps s \<Longrightarrow> \<forall>c \<in> set u. \<not> is_line_end c \<Longrightarrow> glob_language (CHR ''*'' # ps) (u @ s)"
| any: "glob_language ps s \<Longrightarrow> \<not> is_line_end c \<Longrightarrow> glob_language (CHR ''?'' # ps) (c # s)"
| letter: "glob_language ps s \<Longrightarrow> p \<noteq> CHR ''*'' \<Longrightarrow> p \<noteq> CHR ''?'' \<Longrightarrow> lower_char c = lower_char p
    \<Longrightarrow> glob_language (p # ps) (c # s)"

inductive_cases glob_starE: "glob_language (CHR ''*'' # ps) s"

lemma star_more:
  assumes "glob_language (CHR ''*'' # ps) s" and "\<not> is_line_end c"
  shows "glob_language (CHR ''*'' # ps) (c # s)"
proof -
  from assms(1) obtain s' u where "s = u @ s'" "glob_language ps s'" "\<forall>c \<in> set u. \<not> is_line_end c"
    by (rule glob_starE) auto
  with assms(2) show ?thesis using glob_language.star [of ps s' "c # u"] by simp
qed

lemma glob_head:
  "matchesCheckGlob (CHR ''*'' # ps) s \<longleftrightarrow> matchesCheckGlob ps s \<or>
     (\<exists>c cs. s = c # cs \<and> \<not> is_line_end c \<and> matchesCheckGlob (CHR ''*'' # ps) cs)"
  "matchesCheckGlob (CHR ''?'' # ps) s \<longleftrightarrow> (\<exists>c cs. s = c # cs \<and> \<not> is_line_end c \<and> matchesCheckGlob ps cs)"
  "p \<noteq> CHR ''*'' \<Longrightarrow> p \<noteq> CHR ''?'' \<Longrightarrow>
     matchesCheckGlob (p # ps) s \<longleftrightarrow> (\<exists>c cs. s = c # cs \<and> lower_char c = lower_char p \<and> matchesCheckGlob ps cs)"
  by (subst matchesCheckGlob.simps(2), simp split: list.splits)+


section \<open>Every failing check is dealt with once\<close>

lemma classify_fold:
  "foldl (classify_step policy) v cs =
     v\<lparr>cv_dispatch := cv_dispatch v @ map (match_of policy) (filter (\<lambda>c. action_for policy c = FailDispatch) cs),
       cv_escalate := cv_escalate v @ map (match_of policy) (filter (\<lambda>c. action_for policy c = FailEscalate) cs),
       cv_ignored := cv_ignored v @ map (match_of policy) (filter (\<lambda>c. action_for policy c = FailIgnore) cs),
       cv_urgent := cv_urgent v \<or> list_ex (\<lambda>c. action_for policy c = FailDispatch \<and>
          (case find (\<lambda>r. ruleClaims r c) policy of None \<Rightarrow> False | Some r \<Rightarrow> cr_urgent r)) cs\<rparr>"
proof (induction cs arbitrary: v)
  case (Cons c cs)
  show ?case
    by (simp only: foldl.simps Cons)
       (cases "action_for policy c"; simp add: classify_step_def match_of_def Let_def)
qed simp

lemma three_way_split:
  "mset (map f (filter (\<lambda>c. g c = FailDispatch) cs)) + mset (map f (filter (\<lambda>c. g c = FailEscalate) cs))
     + mset (map f (filter (\<lambda>c. g c = FailIgnore) cs)) = mset (map f cs)"
proof (induction cs)
  case (Cons c cs)
  then show ?case by (cases "g c") (simp_all add: ac_simps)
qed simp


section \<open>The evidence fits its budget\<close>

lemma join_length: "length (join_with [c] ws) + 1 = (if ws = [] then 1 else sum_list (map (\<lambda>w. length w + 1) ws))"
proof (induction ws)
  case (Cons w ws)
  then show ?case by (cases ws) auto
qed simp

lemma keep_lines_fit:
  assumes "keep_lines kind budget kept used lines = (out, wasCut)"
    and "sum_list (map (\<lambda>w. length w + 1) kept) = used" and "used \<le> budget" and "0 < budget"
  shows "sum_list (map (\<lambda>w. length w + 1) out) \<le> budget \<and> length out \<le> length kept + length lines
    \<and> (kept \<noteq> [] \<or> lines \<noteq> [] \<longrightarrow> out \<noteq> [])"
  using assms
proof (induction kind budget kept used lines arbitrary: out wasCut rule: keep_lines.induct)
  case (2 kind budget kept used line rest)
  show ?case
  proof (cases "budget < used + length line + 1")
    case True
    with "2.prems" show ?thesis by (auto simp: Let_def split: if_splits)
  next
    case False
    with "2.IH" [of out wasCut] "2.prems" show ?thesis by auto
  qed
qed auto

text \<open>
  The output shown of a failing check is shorter than its share of the budget, whatever the
  lengths of its lines, something of it is always shown, and what is shown of all checks together
  stays under the six thousand characters the prompt has for it.
\<close>

theorem evidence_fits_the_budget:
  "list_all (\<lambda>(check, t). length (te_text t) < MAX_EVIDENCE_CHARS div length (evidence_included evidence))
     (ciEvidenceNote evidence) \<and>
   sum_list (map (\<lambda>(check, t). length (te_text t)) (ciEvidenceNote evidence)) \<le> MAX_EVIDENCE_CHARS \<and>
   length (ciEvidenceNote evidence) \<le> 15"
proof -
  let ?n = "length (evidence_included evidence)" and ?m = "max (length (evidence_included evidence)) 1"
  let ?share = "MAX_EVIDENCE_CHARS div ?n"
  have few: "?n \<le> 15"
  proof -
    have "length us \<le> 15" if "400 \<le> 6000 div length us" for us :: "ci_evidence list"
    proof -
      have "400 * length us \<le> 6000 div length us * length us" using that by simp
      also have "\<dots> \<le> 6000" by (rule div_times_less_eq_dividend)
      finally show ?thesis by simp
    qed
    then show ?thesis by (auto simp: evidence_included_def Let_def MAX_EVIDENCE_CHARS_def MIN_SHARE_CHARS_def)
  qed
  have fits: "length (te_text (trimEvidence e b)) < b" if "0 < b" for e b
  proof -
    obtain out wasCut where k: "keep_lines (ce_kind e) b [] 0 (if ce_kind e = EvLog then rev (ce_lines e) else ce_lines e) = (out, wasCut)"
      by fastforce
    have "length (join_with [CHR 0x0A] ws) < b" if "mset ws = mset out" for ws
    proof -
      have "sum_list (map (\<lambda>w. length w + 1) ws) = sum_list (map (\<lambda>w. length w + 1) out)"
        using that by (metis mset_map sum_mset_sum_list)
      with keep_lines_fit [OF k] join_length [of "CHR 0x0A" ws] \<open>0 < b\<close> show ?thesis
        by (cases "ws = []") auto
    qed
    then show ?thesis using k by (simp add: trimEvidence_def)
  qed
  have shares: "length (te_text t) < ?share" if "(c, t) \<in> set (ciEvidenceNote evidence)" for c t
  proof -
    from that have "evidence_included evidence \<noteq> []" by (auto simp: ciEvidenceNote_def Let_def)
    then have m: "?m = ?n" and "0 < ?n" by (cases "evidence_included evidence"; simp)+
    then have "0 < ?share" using few by (simp add: MAX_EVIDENCE_CHARS_def div_greater_zero_iff)
    with that fits show ?thesis unfolding ciEvidenceNote_def Let_def m by auto
  qed
  have "sum_list (map (\<lambda>(c, t). length (te_text t)) (ciEvidenceNote evidence)) \<le> length (ciEvidenceNote evidence) * ?share"
  proof -
    have bound: "sum_list (map f xs) \<le> length xs * k" if "\<And>x. x \<in> set xs \<Longrightarrow> f x \<le> k" for f :: "string \<times> trimmed_evidence \<Rightarrow> nat" and xs k
      using that by (induction xs) (auto intro: add_mono)
    show ?thesis by (rule bound) (use shares less_imp_le in fastforce)
  qed
  also have "\<dots> = ?share * ?n" by (simp add: ciEvidenceNote_def Let_def)
  also have "\<dots> \<le> MAX_EVIDENCE_CHARS" by (rule div_times_less_eq_dividend)
  finally show ?thesis using shares few by (auto simp: list_all_iff) (simp add: ciEvidenceNote_def Let_def)
qed

end
