(* ===== verification/Proposals.thy ===== *)
theory Proposals
  imports Intake
begin

text \<open>
  What an operator was asked and answered (\<^verbatim>\<open>src/src/proposals/proposals.ts\<close>): the references of the
  acts, when an act stands behind an answer already given, the act read back off a stored proposal,
  and the query for the events that can lift a rejection (\<^verbatim>\<open>store/world.ts\<close> runs it). The theory shows
  the query fetches every event that matters, for rejections and for delivered verdicts alike.
\<close>

section \<open>References\<close>

datatype proposal_kind = ReplyDraft | MergeAct | PlanAct | ShortfallAct | PlanAmendmentAct | ValidationPlanAct

datatype proposal_status = ProposalPending | ProposalAccepted | ProposalRejected | ProposalWithdrawn

datatype decider = ByHuman | ByAutoSend | ByStackLanding

record proposal =
  pn_id :: string
  pn_kind :: proposal_kind
  pn_ref :: string
  pn_status :: proposal_status
  pn_note :: "string option"
  pn_decidedBy :: "decider option"
  pn_decidedAt :: "int option"

definition mergeProposalRef :: "nat \<Rightarrow> string" where
  "mergeProposalRef n = ''pr:'' @ show_nat n @ '':merge''"

definition replyProposalRef :: "nat \<Rightarrow> string option \<Rightarrow> string" where
  "replyProposalRef n commentId =
     (case truthy commentId of
        Some c \<Rightarrow> ''pr:'' @ show_nat n @ '':comment:'' @ c
      | None \<Rightarrow> ''pr:'' @ show_nat n @ '':reply'')"

definition planProposalRef :: "string \<Rightarrow> string" where
  "planProposalRef planOriginRef = planOriginRef @ '':plan''"

definition planAmendmentProposalRef :: "string \<Rightarrow> string" where
  "planAmendmentProposalRef amendmentId = ''plan-amendment:'' @ amendmentId"

definition proposalWorldRef :: "string \<Rightarrow> string option" where
  "proposalWorldRef ref =
     (case split_on (CHR '':'') ref of
        kind # i # _ \<Rightarrow>
          if (kind = ''pr'' \<or> kind = ''issue'') \<and> i \<noteq> '''' then Some (kind @ '':'' @ i) else None
      | _ \<Rightarrow> None)"

section \<open>When an act waits behind an answer\<close>

definition rejection_signal :: "proposal \<Rightarrow> world_event list \<Rightarrow> world_event option" where
  "rejection_signal p signals =
     (case (proposalWorldRef (pn_ref p), pn_decidedAt p) of
        (Some item, Some since) \<Rightarrow> find (\<lambda>e. we_ref e = Some item \<and> since < we_createdAt e) signals
      | _ \<Rightarrow> None)"

datatype proposal_hold =
    AwaitingAnswer string
  | YouRejected string "string option"
  | AlreadyAuthorized string "decider option"

definition SETTLE_WINDOW_MS :: int where "SETTLE_WINDOW_MS = 15 * 60000"

definition standing_proposal :: "proposal_kind \<Rightarrow> string \<Rightarrow> proposal list \<Rightarrow> proposal option" where
  "standing_proposal kind ref proposals = find (\<lambda>p. pn_kind p = kind \<and> pn_ref p = ref) proposals"

definition proposalHold ::
  "proposal_kind \<Rightarrow> string \<Rightarrow> proposal list \<Rightarrow> world_event list \<Rightarrow> int \<Rightarrow> proposal_hold option" where
  "proposalHold kind ref proposals rejectionSignals now =
     (case standing_proposal kind ref proposals of
        None \<Rightarrow> None
      | Some p \<Rightarrow>
          (case pn_status p of
             ProposalPending \<Rightarrow> Some (AwaitingAnswer (pn_id p))
           | ProposalRejected \<Rightarrow>
               (if rejection_signal p rejectionSignals \<noteq> None then None
                else Some (YouRejected (pn_id p) (truthy (pn_note p))))
           | _ \<Rightarrow>
               (case pn_decidedAt p of
                  None \<Rightarrow> None
                | Some at \<Rightarrow>
                    if SETTLE_WINDOW_MS \<le> now - at then None
                    else Some (AlreadyAuthorized (pn_id p) (pn_decidedBy p)))))"

definition planProposalHold :: "string \<Rightarrow> proposal list \<Rightarrow> proposal_hold option" where
  "planProposalHold ref proposals =
     map_option (\<lambda>p. AwaitingAnswer (pn_id p))
       (find (\<lambda>p. pn_kind p = PlanAct \<and> pn_ref p = ref \<and> pn_status p = ProposalPending) proposals)"

definition planAmendmentHold :: "string \<Rightarrow> proposal list \<Rightarrow> proposal_hold option" where
  "planAmendmentHold ref proposals =
     map_option (\<lambda>p. AwaitingAnswer (pn_id p))
       (find (\<lambda>p. pn_kind p = PlanAmendmentAct \<and> pn_ref p = ref \<and> pn_status p = ProposalPending) proposals)"

text \<open>The rejection and the event since, when an act is asked for again because the world moved.\<close>

definition reaskContext ::
  "proposal_kind \<Rightarrow> string \<Rightarrow> proposal list \<Rightarrow> world_event list \<Rightarrow> (proposal \<times> world_event) option" where
  "reaskContext kind ref proposals rejectionSignals =
     (case standing_proposal kind ref proposals of
        None \<Rightarrow> None
      | Some p \<Rightarrow>
          if pn_status p \<noteq> ProposalRejected then None
          else map_option (Pair p) (rejection_signal p rejectionSignals))"

text \<open>The refusals quoted to an agent: for each reference once, the note of a rejected standing proposal.\<close>

definition rejectionGuidance :: "string option list \<Rightarrow> proposal list \<Rightarrow> (proposal_kind \<times> string) list" where
  "rejectionGuidance refs proposals =
     List.map_filter (\<lambda>ref.
        case find (\<lambda>p. pn_ref p = ref) proposals of
          None \<Rightarrow> None
        | Some p \<Rightarrow>
            if pn_status p \<noteq> ProposalRejected then None
            else map_option (Pair (pn_kind p)) (truthy (map_option trim (pn_note p))))
       (uniq (List.map_filter truthy refs))"

section \<open>The query for the events that can lift a rejection\<close>

definition expires_with_world :: "proposal_kind \<Rightarrow> bool" where
  "expires_with_world k \<longleftrightarrow> k \<noteq> PlanAct \<and> k \<noteq> ValidationPlanAct"

record signal_query =
  sq_seen :: "(proposal_kind \<times> string) list"
  sq_since :: "int option"
  sq_refs :: "string list"

definition query_step :: "signal_query \<Rightarrow> proposal \<Rightarrow> signal_query" where
  "query_step s p =
     (if (pn_kind p, pn_ref p) \<in> set (sq_seen s) then s
      else let s = s\<lparr>sq_seen := sq_seen s @ [(pn_kind p, pn_ref p)]\<rparr> in
        if pn_status p \<noteq> ProposalRejected \<or> \<not> expires_with_world (pn_kind p) then s
        else case (pn_decidedAt p, proposalWorldRef (pn_ref p)) of
            (Some at, Some item) \<Rightarrow> s\<lparr>sq_refs := set_add item (sq_refs s),
              sq_since := (case sq_since s of None \<Rightarrow> Some at | Some t \<Rightarrow> if at < t then Some at else Some t)\<rparr>
          | _ \<Rightarrow> s)"

definition rejectionSignalQuery :: "proposal list \<Rightarrow> (int \<times> string list) option" where
  "rejectionSignalQuery proposals =
     (let s = foldl query_step \<lparr>sq_seen = [], sq_since = None, sq_refs = []\<rparr> proposals in
      case sq_since s of None \<Rightarrow> None | Some since \<Rightarrow> if sq_refs s \<noteq> [] then Some (since, sq_refs s) else None)"

definition listWorldEventsSince :: "world_event list \<Rightarrow> int \<Rightarrow> string list \<Rightarrow> world_event list" where
  "listWorldEventsSince events since refs =
     js_sort (by_key (\<lambda>e. - we_createdAt e))
       (rev (filter (\<lambda>e. since < we_createdAt e \<and> (\<exists>r \<in> set refs. we_ref e = Some r)) events))"

text \<open>The signals a pulse reads: none when there is nothing to ask about.\<close>

definition fetched :: "(int \<times> string list) option \<Rightarrow> world_event list \<Rightarrow> world_event list" where
  "fetched query events = (case query of None \<Rightarrow> [] | Some (since, refs) \<Rightarrow> listWorldEventsSince events since refs)"

section \<open>Reading an act back\<close>

text \<open>The fields of a stored action, each present when it has the type the code tests for.\<close>

record act_fields =
  af_prNumber :: "nat option"
  af_planId :: "string option"
  af_originRef :: "string option"
  af_issueNumber :: "nat option"
  af_amendmentId :: "string option"
  af_cause :: "string option"
  af_summary :: "string option"
  af_partSlug :: "string option"
  af_method :: "string option"
  af_draft :: "string option"
  af_commentId :: "string option"
  af_resolve :: bool

datatype shortfall_part = FellShortPlan | FellShortPart string

datatype proposed_act =
    ActMerge nat string
  | ActReply nat "string option" string bool "string option"
  | ActPlan string string
  | ActValidationPlan string nat
  | ActAmendment string string string
  | ActShortfall string string shortfall_part string

datatype act_error =
    NamesNoPlan | NamesNoGoal | NamesNoIssue | NamesNoAmendment | UnknownCause | NoSummary | NoPartNamed
  | NamesNoPr | UnknownMethod | NoDraft

definition readPlanAct :: "act_fields \<Rightarrow> act_error + proposed_act" where
  "readPlanAct a =
     (case (truthy (af_planId a), truthy (af_originRef a)) of
        (Some p, Some r) \<Rightarrow> Inr (ActPlan p r) | _ \<Rightarrow> Inl NamesNoPlan)"

definition readValidationPlanAct :: "act_fields \<Rightarrow> act_error + proposed_act" where
  "readValidationPlanAct a =
     (case truthy (af_originRef a) of
        None \<Rightarrow> Inl NamesNoGoal
      | Some r \<Rightarrow> (case af_issueNumber a of None \<Rightarrow> Inl NamesNoIssue | Some n \<Rightarrow> Inr (ActValidationPlan r n)))"

definition readAmendmentAct :: "act_fields \<Rightarrow> act_error + proposed_act" where
  "readAmendmentAct a =
     (case truthy (af_amendmentId a) of
        None \<Rightarrow> Inl NamesNoAmendment
      | Some i \<Rightarrow>
          (case (truthy (af_planId a), truthy (af_originRef a)) of
             (Some p, Some r) \<Rightarrow> Inr (ActAmendment i p r) | _ \<Rightarrow> Inl NamesNoPlan))"

definition readShortfallAct :: "act_fields \<Rightarrow> act_error + proposed_act" where
  "readShortfallAct a =
     (case (truthy (af_planId a), truthy (af_originRef a)) of
        (Some p, Some r) \<Rightarrow>
          if af_cause a \<noteq> Some ''plan'' \<and> af_cause a \<noteq> Some ''part'' then Inl UnknownCause
          else (case af_summary a of
             None \<Rightarrow> Inl NoSummary
           | Some s \<Rightarrow>
               if trim s = '''' then Inl NoSummary
               else if af_cause a = Some ''plan'' then Inr (ActShortfall p r FellShortPlan s)
               else case truthy (af_partSlug a) of
                   None \<Rightarrow> Inl NoPartNamed
                 | Some slug \<Rightarrow> Inr (ActShortfall p r (FellShortPart slug) s))
      | _ \<Rightarrow> Inl NamesNoPlan)"

definition readMergeAct :: "nat \<Rightarrow> act_fields \<Rightarrow> act_error + proposed_act" where
  "readMergeAct n a =
     (case af_method a of
        None \<Rightarrow> Inl UnknownMethod
      | Some m \<Rightarrow> if m \<in> {''merge'', ''squash'', ''rebase''} then Inr (ActMerge n m) else Inl UnknownMethod)"

definition readReplyAct :: "nat \<Rightarrow> act_fields \<Rightarrow> act_error + proposed_act" where
  "readReplyAct n a =
     (case af_draft a of
        None \<Rightarrow> Inl NoDraft
      | Some body \<Rightarrow>
          if trim body = '''' then Inl NoDraft
          else Inr (ActReply n (af_commentId a) body (af_resolve a) (truthy (af_originRef a))))"

definition readProposedAct :: "proposal_kind \<Rightarrow> act_fields \<Rightarrow> act_error + proposed_act" where
  "readProposedAct kind a =
     (case kind of
        PlanAct \<Rightarrow> readPlanAct a
      | ValidationPlanAct \<Rightarrow> readValidationPlanAct a
      | PlanAmendmentAct \<Rightarrow> readAmendmentAct a
      | ShortfallAct \<Rightarrow> readShortfallAct a
      | _ \<Rightarrow>
          (case af_prNumber a of
             None \<Rightarrow> Inl NamesNoPr
           | Some n \<Rightarrow> if kind = MergeAct then readMergeAct n a else readReplyAct n a))"

section \<open>The query fetches what matters\<close>

lemma in_fetched:
  "e \<in> set (fetched (Some (since, refs)) events) \<longleftrightarrow>
     e \<in> set events \<and> since < we_createdAt e \<and> (\<exists>r \<in> set refs. we_ref e = Some r)"
  by (auto simp: fetched_def listWorldEventsSince_def)

lemma query_seen: "set (sq_seen (foldl query_step s ps)) = set (sq_seen s) \<union> (\<lambda>p. (pn_kind p, pn_ref p)) ` set ps"
  by (induction ps rule: rev_induct)
     (auto simp: query_step_def Let_def split: option.splits)

definition asks_for :: "signal_query \<Rightarrow> int \<Rightarrow> string \<Rightarrow> bool" where
  "asks_for s at item \<longleftrightarrow> item \<in> set (sq_refs s) \<and> (\<exists>t. sq_since s = Some t \<and> t \<le> at)"

lemma query_keeps: "asks_for s at item \<Longrightarrow> asks_for (query_step s p) at item"
  by (auto simp: asks_for_def query_step_def Let_def split: option.splits)

lemma query_fold_keeps: "asks_for s at item \<Longrightarrow> asks_for (foldl query_step s ps) at item"
  by (induction ps arbitrary: s) (auto simp: query_keeps)

lemma query_covers:
  assumes "standing_proposal kind ref ps = Some p" and "(kind, ref) \<notin> set (sq_seen s)"
    and "pn_status p = ProposalRejected" and "expires_with_world kind"
    and "pn_decidedAt p = Some at" and "proposalWorldRef ref = Some item"
  shows "asks_for (foldl query_step s ps) at item"
  using assms(1,2)
proof (induction ps arbitrary: s)
  case (Cons q ps)
  show ?case
  proof (cases "pn_kind q = kind \<and> pn_ref q = ref")
    case True
    with Cons.prems(1) have "q = p" by (simp add: standing_proposal_def)
    with True Cons.prems(2) assms(3-6) have "asks_for (query_step s q) at item"
      by (auto simp: asks_for_def query_step_def Let_def split: option.splits)
    then show ?thesis by (simp add: query_fold_keeps)
  next
    case False
    with Cons.prems(1) have "standing_proposal kind ref ps = Some p" by (auto simp: standing_proposal_def)
    moreover have "(kind, ref) \<notin> set (sq_seen (query_step s q))"
      using query_seen [of s "[q]"] Cons.prems(2) False by auto
    ultimately show ?thesis using Cons.IH by simp
  qed
qed (simp add: standing_proposal_def)

text \<open>
  C33. A rejection is weighed against the events the query fetches exactly as it would be against every
  event there is: nothing that could lift it is missed.
\<close>

theorem rejection_query_is_enough:
  assumes "expires_with_world kind"
  shows "proposalHold kind ref proposals (fetched (rejectionSignalQuery proposals) events) now =
    proposalHold kind ref proposals events now"
proof (cases "standing_proposal kind ref proposals")
  case (Some p)
  then have p: "pn_kind p = kind" "pn_ref p = ref"
    by (auto simp: standing_proposal_def dest!: find_Some_iff')
  let ?s = "foldl query_step \<lparr>sq_seen = [], sq_since = None, sq_refs = []\<rparr> proposals"
  have "rejection_signal p (fetched (rejectionSignalQuery proposals) events) = None \<longleftrightarrow> rejection_signal p events = None"
    if "pn_status p = ProposalRejected"
  proof (cases "proposalWorldRef ref = None \<or> pn_decidedAt p = None")
    case True
    then show ?thesis using p by (auto simp: rejection_signal_def split: option.splits)
  next
    case False
    then obtain item at where item: "proposalWorldRef ref = Some item" "pn_decidedAt p = Some at" by auto
    have "asks_for ?s at item"
      by (rule query_covers [OF Some _ that assms item(2,1)]) simp
    then obtain t where t: "sq_since ?s = Some t" "t \<le> at" "item \<in> set (sq_refs ?s)" by (auto simp: asks_for_def)
    then have "rejectionSignalQuery proposals = Some (t, sq_refs ?s)"
      by (auto simp: rejectionSignalQuery_def Let_def)
    with t item p show ?thesis
      by (auto simp: rejection_signal_def find_None_iff' in_fetched)
  qed
  with Some show ?thesis
    by (cases "pn_status p = ProposalRejected") (auto simp: proposalHold_def split: proposal_status.splits)
qed (simp add: proposalHold_def)

definition rejected_merge :: proposal where
  "rejected_merge = \<lparr>pn_id = ''p'', pn_kind = MergeAct, pn_ref = mergeProposalRef 4, pn_status = ProposalRejected,
     pn_note = None, pn_decidedBy = Some ByHuman, pn_decidedAt = Some 10\<rparr>"

theorem rejection_query_is_enough_witness:
  "proposalHold MergeAct (mergeProposalRef 4) [rejected_merge]
     (fetched (rejectionSignalQuery [rejected_merge]) [\<lparr>we_ref = Some ''pr:4'', we_createdAt = 11\<rparr>]) 20 = None"
proof -
  have "proposalHold MergeAct (mergeProposalRef 4) [rejected_merge] [\<lparr>we_ref = Some ''pr:4'', we_createdAt = 11\<rparr>] 20 = None"
    by code_simp
  then show ?thesis
    using rejection_query_is_enough [of MergeAct] by (simp add: expires_with_world_def)
qed

section \<open>Delivered verdicts are weighed against enough\<close>

definition asks_delivery :: "int option \<times> string list \<Rightarrow> int \<Rightarrow> string \<Rightarrow> bool" where
  "asks_delivery s at item \<longleftrightarrow> item \<in> set (snd s) \<and> (\<exists>t. fst s = Some t \<and> t \<le> at)"

lemma delivery_fold_keeps: "asks_delivery s at item \<Longrightarrow> asks_delivery (foldl signal_step s ds) at item"
proof (induction ds arbitrary: s)
  case (Cons d ds)
  then have "asks_delivery (signal_step s d) at item"
    by (auto simp: asks_delivery_def signal_step_def split: option.splits)
  with Cons.IH show ?case by simp
qed simp

lemma delivery_covers:
  assumes "d \<in> set ds" and "deliveryWorldRef (dl_originRef d) = Some item"
  shows "asks_delivery (foldl signal_step s ds) (verdictCast d) item"
  using assms(1)
proof (induction ds arbitrary: s)
  case (Cons e ds)
  show ?case
  proof (cases "e = d")
    case True
    with assms(2) have "asks_delivery (signal_step s e) (verdictCast d) item"
      by (auto simp: asks_delivery_def signal_step_def split: option.splits)
    then show ?thesis by (simp add: delivery_fold_keeps)
  qed (use Cons in auto)
qed simp

lemma delivery_query_is_enough:
  assumes "d \<in> set deliveries"
  shows "deliveryHold (Some d) i states (fetched (deliverySignalQuery deliveries) events) = deliveryHold (Some d) i states events"
proof -
  have "expiringSignal d (fetched (deliverySignalQuery deliveries) events) = None \<longleftrightarrow> expiringSignal d events = None"
  proof (cases "deliveryWorldRef (dl_originRef d)")
    case (Some item)
    obtain since refs where s: "foldl signal_step (None, []) deliveries = (since, refs)" by fastforce
    with delivery_covers [OF assms Some, of "(None, [])"]
    obtain t where t: "since = Some t" "t \<le> verdictCast d" "item \<in> set refs" by (auto simp: asks_delivery_def)
    with s have "deliverySignalQuery deliveries = Some (t, refs)" by (auto simp: deliverySignalQuery_def)
    with Some t show ?thesis by (auto simp: expiringSignal_def find_None_iff' in_fetched)
  qed (simp add: expiringSignal_def)
  then show ?thesis by (simp add: deliveryHold_def)
qed

end
