(* ===== verification/Review.thy ===== *)
theory Review
  imports CiPolicy Proposals
begin

text \<open>
  The fleet's review of a pull request (\<^verbatim>\<open>src/src/review/prReview.ts\<close>, \<open>policy.ts\<close>) and the test
  every merge goes through: who still has to read it, in which mode, and when it is ready to merge.
\<close>

section \<open>The policy\<close>

datatype publish_mode = PublishNone | PublishComment | PublishTooling

record review_mode =
  rm_charterFile :: "string option"
  rm_profile :: "string option"

record review_policy =
  rv_enabled :: bool
  rv_blocking :: bool
  rv_publish :: publish_mode
  rv_modes :: "(string, review_mode) jsmap"
  rv_allowSkip :: bool
  rv_defaultMode :: "string option"

definition DEFAULT_PR_REVIEW :: review_policy where
  "DEFAULT_PR_REVIEW = \<lparr>rv_enabled = False, rv_blocking = True, rv_publish = PublishNone, rv_modes = [],
     rv_allowSkip = False, rv_defaultMode = None\<rparr>"

record pr_review =
  rw_prNumber :: nat
  rw_headSha :: "string option"

record review_route =
  rr_prNumber :: nat
  rr_mode :: string
  rr_skipped :: bool

text \<open>What was recorded of one pull request, and the numbers reviewed outside the fleet.\<close>

record review_reading =
  rd_review :: "pr_review option"
  rd_route :: "review_route option"
  rd_elsewhere :: "nat set"

definition reviewReading :: "(nat, pr_review) jsmap \<Rightarrow> (nat, review_route) jsmap \<Rightarrow> nat set \<Rightarrow> nat \<Rightarrow> review_reading" where
  "reviewReading prReviews prReviewRoutes prReviewedElsewhere n =
     \<lparr>rd_review = map_of prReviews n, rd_route = map_of prReviewRoutes n, rd_elsewhere = prReviewedElsewhere\<rparr>"

section \<open>Origins\<close>

definition reviewOrigin :: "nat \<Rightarrow> string" where
  "reviewOrigin n = ''pr:'' @ show_nat n @ '':review''"

definition reviewTriageOrigin :: "nat \<Rightarrow> string" where
  "reviewTriageOrigin n = ''pr:'' @ show_nat n @ '':review-triage''"

definition reviewBranch :: "nat \<Rightarrow> string" where
  "reviewBranch n = ''review/pr-'' @ show_nat n"

text \<open>\<^verbatim>\<open>^pr:(\d+):suffix$\<close>.\<close>

definition reviewTargetPr :: "string option \<Rightarrow> string \<Rightarrow> nat option" where
  "reviewTargetPr originRef suffix =
     (case originRef of
        None \<Rightarrow> None
      | Some ref \<Rightarrow>
          if \<not> starts_with ''pr:'' ref then None
          else let rest = drop 3 ref in
            if digits_of rest \<noteq> [] \<and> after_digits rest = '':'' @ suffix then Some (read_nat (digits_of rest)) else None)"

section \<open>Which mode, and whether at all\<close>

definition reviewModeNames :: "review_policy \<Rightarrow> string list" where
  "reviewModeNames policy = map fst (rv_modes policy)"

definition routesBetweenModes :: "review_policy \<Rightarrow> bool" where
  "routesBetweenModes policy \<longleftrightarrow> 1 < length (reviewModeNames policy)"

definition triageRuns :: "review_policy \<Rightarrow> bool" where
  "triageRuns policy \<longleftrightarrow> routesBetweenModes policy \<or> rv_allowSkip policy"

definition reviewSkipped :: "review_route option \<Rightarrow> review_policy \<Rightarrow> bool" where
  "reviewSkipped route policy \<longleftrightarrow> rv_allowSkip policy \<and> (case route of None \<Rightarrow> False | Some r \<Rightarrow> rr_skipped r)"

definition defaultReviewMode :: "review_policy \<Rightarrow> string option" where
  "defaultReviewMode policy =
     (case reviewModeNames policy of
        [] \<Rightarrow> None
      | n # ns \<Rightarrow>
          (case rv_defaultMode policy of
             None \<Rightarrow> Some n
           | Some d \<Rightarrow> if d \<in> set (n # ns) then Some d else Some n))"

definition resolvedReviewMode :: "review_route option \<Rightarrow> review_policy \<Rightarrow> string option" where
  "resolvedReviewMode route policy =
     (case route of
        None \<Rightarrow> defaultReviewMode policy
      | Some r \<Rightarrow> if rr_mode r \<in> set (reviewModeNames policy) then Some (rr_mode r) else defaultReviewMode policy)"

definition allCommentsHandled :: "pull_request \<Rightarrow> bool" where
  "allCommentsHandled pr = list_all pc_handled (pr_comments pr)"

definition needsFleetReview :: "pull_request \<Rightarrow> review_reading \<Rightarrow> review_policy \<Rightarrow> bool" where
  "needsFleetReview pr reading policy =
     (if \<not> rv_enabled policy then False
      else if pr_merged pr \<or> rd_review reading \<noteq> None then False
      else if reviewSkipped (rd_route reading) policy then False
      else if pr_number pr \<in> rd_elsewhere reading then False
      else allCommentsHandled pr)"

definition reviewSatisfied :: "pull_request \<Rightarrow> review_reading \<Rightarrow> review_policy \<Rightarrow> bool" where
  "reviewSatisfied pr reading policy =
     (if \<not> rv_enabled policy \<or> \<not> rv_blocking policy then True
      else if reviewSkipped (rd_route reading) policy then True
      else if pr_number pr \<in> rd_elsewhere reading then True
      else rd_review reading \<noteq> None)"

definition isMergeReady :: "pull_request \<Rightarrow> string \<Rightarrow> review_reading \<Rightarrow> review_policy \<Rightarrow> bool" where
  "isMergeReady pr defaultBranch reading policy \<longleftrightarrow>
     \<not> isStackedPr pr defaultBranch \<and> pr_ciStatus pr = CiPassing \<and> pr_approved pr = Some True
     \<and> pr_mergeable pr = Some True \<and> pr_mergeableState pr \<noteq> Some Behind \<and> pr_mergeableState pr \<noteq> Some MergeBlocked
     \<and> pr_mergeableState pr \<noteq> Some Dirty \<and> allCommentsHandled pr \<and> reviewSatisfied pr reading policy"

definition issueForPr :: "pull_request \<Rightarrow> issue list \<Rightarrow> issue option" where
  "issueForPr pr issues =
     (case find (\<lambda>i. i_linkedPr i = Some (pr_number pr)) issues of
        Some linked \<Rightarrow> Some linked
      | None \<Rightarrow>
          if \<not> starts_with ''issue/'' (pr_branch pr) then None
          else let rest = drop 6 (pr_branch pr); ds = digits_of rest; r = after_digits rest in
            if ds \<noteq> [] \<and> (r = [] \<or> hd r = CHR ''/'') then find (\<lambda>i. i_number i = read_nat ds) issues else None)"

end
