(* ===== verification/Sequence.thy ===== *)
theory Sequence
  imports Cycles Relations
begin

text \<open>
  The order of the stories under a Feature (\<^verbatim>\<open>src/src/sequence/sequence.ts\<close>, \<^verbatim>\<open>readiness.ts\<close>): which
  Features are asked about, what an agent's order has to satisfy, whether a new order carries an answer
  given to the old one, and what a story waits on while the order stands. An order is accepted exactly
  when it ranks the stories that were shown and has no cycle; while it stands it never holds every open
  story at once.
\<close>

section \<open>What a story waits on\<close>

record seq_edge =
  e_issue :: nat
  e_dependsOn :: nat

definition linkEdges :: "issue list \<Rightarrow> seq_edge list" where
  "linkEdges issues = concat (map (\<lambda>i. map (\<lambda>d. \<lparr>e_issue = i_number i, e_dependsOn = rel_number d\<rparr>)
     (filter (\<lambda>d. rel_number d \<noteq> i_number i) (default_to [] (i_dependsOn i)))) issues)"

datatype predecessor = Satisfied | Waiting | Unworkable

record sequence_wait =
  sw_on :: "nat list"
  sw_unworkable :: "nat list"

definition verdictOf :: "issue list \<Rightarrow> (issue \<Rightarrow> bool) \<Rightarrow> nat \<Rightarrow> predecessor" where
  "verdictOf issues watched n =
     (case map_of (index_by i_number issues) n of
        None \<Rightarrow> Satisfied
      | Some i \<Rightarrow> if i_state i \<noteq> IssueOpen then Satisfied else if watched i then Waiting else Unworkable)"

definition wait_step ::
  "issue list \<Rightarrow> (issue \<Rightarrow> bool) \<Rightarrow> (nat, sequence_wait) jsmap \<Rightarrow> seq_edge \<Rightarrow> (nat, sequence_wait) jsmap" where
  "wait_step issues watched m e =
     (let v = verdictOf issues watched (e_dependsOn e) in
      if v = Satisfied then m
      else let held = default_to \<lparr>sw_on = [], sw_unworkable = []\<rparr> (map_of m (e_issue e)) in
        map_put (e_issue e) \<lparr>sw_on = set_add (e_dependsOn e) (sw_on held),
          sw_unworkable = (if v = Unworkable then set_add (e_dependsOn e) (sw_unworkable held) else sw_unworkable held)\<rparr> m)"

definition sort_nats :: "nat list \<Rightarrow> nat list" where
  "sort_nats ns = js_sort (by_key int) ns"

definition sequenceReadiness :: "seq_edge list \<Rightarrow> issue list \<Rightarrow> (issue \<Rightarrow> bool) \<Rightarrow> (nat, sequence_wait) jsmap" where
  "sequenceReadiness edges issues watched =
     map (\<lambda>(n, w). (n, \<lparr>sw_on = sort_nats (sw_on w), sw_unworkable = sort_nats (sw_unworkable w)\<rparr>))
       (foldl (wait_step issues watched) [] edges)"

section \<open>Which Features are asked about\<close>

record feature_group =
  fg_feature :: issue_relative
  fg_children :: "issue list"
  fg_members :: "nat list"
  fg_unwatched :: "nat list"
  fg_anyWatched :: bool

definition group_step ::
  "string list option \<Rightarrow> (issue \<Rightarrow> bool) \<Rightarrow> (nat, feature_group) jsmap \<Rightarrow> issue \<Rightarrow> (nat, feature_group) jsmap" where
  "group_step containerTypes watched m i =
     (case i_parent i of
        Some (Some parent) \<Rightarrow>
          (if isContainerIssue i containerTypes then m
           else let g = default_to \<lparr>fg_feature = parent, fg_children = [], fg_members = [], fg_unwatched = [], fg_anyWatched = False\<rparr>
                    (map_of m (rel_number parent));
                    opn = (i_state i = IssueOpen)
                in map_put (rel_number parent) \<lparr>fg_feature = fg_feature g,
                     fg_children = fg_children g @ (if opn then [i] else []),
                     fg_members = fg_members g @ [i_number i],
                     fg_unwatched = fg_unwatched g @ (if opn \<and> \<not> watched i then [i_number i] else []),
                     fg_anyWatched = (watched i \<or> fg_anyWatched g)\<rparr> m)
      | _ \<Rightarrow> m)"

record asked_feature =
  af_feature :: issue_relative
  af_children :: "issue list"
  af_members :: "nat list"
  af_unwatched :: "nat list"
  af_containerWatched :: bool

definition close_group :: "(nat, issue) jsmap \<Rightarrow> (issue \<Rightarrow> bool) \<Rightarrow> nat \<times> feature_group \<Rightarrow> asked_feature option" where
  "close_group containers watched ng =
     (case ng of (n, g) \<Rightarrow>
        let containerWatched = (case map_of containers n of None \<Rightarrow> False | Some c \<Rightarrow> watched c) in
        if \<not> containerWatched \<and> \<not> fg_anyWatched g then None
        else Some \<lparr>af_feature = fg_feature g,
          af_children = js_sort (by_key (\<lambda>i. int (i_number i))) (fg_children g),
          af_members = sort_nats (fg_members g), af_unwatched = sort_nats (fg_unwatched g),
          af_containerWatched = containerWatched\<rparr>)"

definition featureGroups :: "issue list \<Rightarrow> string list option \<Rightarrow> (issue \<Rightarrow> bool) \<Rightarrow> asked_feature list" where
  "featureGroups issues containerTypes watched =
     (let containers = index_by i_number (filter (\<lambda>i. isContainerIssue i containerTypes) issues);
          groups = foldl (group_step containerTypes watched) [] issues
      in js_sort (by_key (\<lambda>g. int (rel_number (af_feature g)))) (List.map_filter (close_group containers watched) groups))"

text \<open>\<^verbatim>\<open>createHash('sha256')\<close>, cut to 32 hexadecimal digits, is the argument \<open>digest\<close>.\<close>

definition featureSequenceKey :: "(string \<Rightarrow> string) \<Rightarrow> nat list \<Rightarrow> seq_edge list \<Rightarrow> string" where
  "featureSequenceKey digest members edges =
     (let ls = sort_strings (map (\<lambda>n. ''c '' @ show_nat n) members
          @ map (\<lambda>e. ''e '' @ show_nat (e_issue e) @ '' '' @ show_nat (e_dependsOn e)) edges)
      in digest (join_with [CHR 0x0A] ls))"

definition DEFAULT_SEQUENCE_MAX_CHILDREN :: nat where "DEFAULT_SEQUENCE_MAX_CHILDREN = 40"

definition sequenceableFeatures ::
  "(string \<Rightarrow> string) \<Rightarrow> issue list \<Rightarrow> string list option \<Rightarrow> (issue \<Rightarrow> bool) \<Rightarrow> nat \<Rightarrow> (asked_feature \<times> string) list" where
  "sequenceableFeatures digest issues containerTypes watched maxChildren =
     map (\<lambda>g. (g, featureSequenceKey digest (af_members g) (linkEdges (af_children g))))
       (filter (\<lambda>g. \<not> (length (af_children g) < 2 \<or> maxChildren < length (af_children g)))
         (featureGroups issues containerTypes watched))"

definition featureSequenceOrigin :: "nat \<Rightarrow> string" where
  "featureSequenceOrigin n = issueOriginRef SequenceFam n None"

definition featureSequenceSubmitOrigin :: "string \<Rightarrow> (string \<times> nat) option" where
  "featureSequenceSubmitOrigin ref = map_option (\<lambda>n. (issueOriginRef Root n None, n)) (issueOriginNumber SequenceFam ref)"

section \<open>An order submitted\<close>

text \<open>
  The arguments of the tool call: a value that is not a string is absent, one that is no number of an
  item is \<^const>\<open>None\<close>.
\<close>

record order_entry =
  oe_issue :: "nat option"
  oe_waitsOn :: "nat option list"
  oe_why :: "string option"

record order_args =
  oa_reason :: "string option"
  oa_unsure :: "string option"
  oa_order :: "order_entry list option"

record reasoned_edge = seq_edge +
  e_reason :: "string option"

datatype order_error =
    NoOrderReason
  | OrderNotAList
  | UnknownStory "nat option"
  | WaitsOnItself nat
  | UnknownPredecessor nat "nat option"
  | OrderCycle "nat list"

definition MAX_REASON :: nat where "MAX_REASON = 2000"
definition MAX_EDGE_REASON :: nat where "MAX_EDGE_REASON = 400"

definition said :: "string option \<Rightarrow> string option" where
  "said raw = (case raw of None \<Rightarrow> None | Some s \<Rightarrow> if trim s = '''' then None else Some (trim s))"

type_synonym edge_state = "(nat \<times> nat) list \<times> reasoned_edge list"

fun entry_edges :: "nat list \<Rightarrow> nat \<Rightarrow> string option \<Rightarrow> nat option list \<Rightarrow> edge_state \<Rightarrow> order_error + edge_state" where
  "entry_edges known n why [] s = Inr s"
| "entry_edges known n why (on # ons) s =
     (if on = Some n then Inl (WaitsOnItself n)
      else case on of
          None \<Rightarrow> Inl (UnknownPredecessor n on)
        | Some m \<Rightarrow>
            if m \<notin> set known then Inl (UnknownPredecessor n on)
            else if (n, m) \<in> set (fst s) then entry_edges known n why ons s
            else entry_edges known n why ons (fst s @ [(n, m)],
              snd s @ [\<lparr>e_issue = n, e_dependsOn = m, e_reason = map_option (take MAX_EDGE_REASON) why\<rparr>]))"

fun order_edges :: "nat list \<Rightarrow> order_entry list \<Rightarrow> edge_state \<Rightarrow> order_error + edge_state" where
  "order_edges known [] s = Inr s"
| "order_edges known (entry # entries) s =
     (case oe_issue entry of
        None \<Rightarrow> Inl (UnknownStory None)
      | Some n \<Rightarrow>
          if n \<notin> set known then Inl (UnknownStory (Some n))
          else case entry_edges known n (said (oe_why entry)) (oe_waitsOn entry) s of
              Inl e \<Rightarrow> Inl e
            | Inr s' \<Rightarrow> order_edges known entries s')"

definition edge_pair :: "('a) seq_edge_scheme \<Rightarrow> nat \<times> nat" where
  "edge_pair e = (e_issue e, e_dependsOn e)"

definition findCycle :: "('a) seq_edge_scheme list \<Rightarrow> nat list option" where
  "findCycle edges = search (group_pairs (map edge_pair edges)) False"

record submission =
  sb_reason :: string
  sb_unsure :: "string option"
  sb_edges :: "reasoned_edge list"

definition validateSequenceSubmission :: "order_args \<Rightarrow> nat list \<Rightarrow> order_error + submission" where
  "validateSequenceSubmission args children =
     (case said (oa_reason args) of
        None \<Rightarrow> Inl NoOrderReason
      | Some reason \<Rightarrow>
          (case oa_order args of
             None \<Rightarrow> Inl OrderNotAList
           | Some raw \<Rightarrow>
               (case order_edges children raw ([], []) of
                  Inl e \<Rightarrow> Inl e
                | Inr (seen, edges) \<Rightarrow>
                    (case findCycle edges of
                       Some c \<Rightarrow> Inl (OrderCycle c)
                     | None \<Rightarrow> Inr \<lparr>sb_reason = take MAX_REASON reason, sb_unsure = said (oa_unsure args), sb_edges = edges\<rparr>))))"

section \<open>Carrying an answer over\<close>

datatype sequence_status = SeqProposed | SeqAccepted | SeqDeclined

record standing_order =
  so_status :: sequence_status
  so_edges :: "(nat \<times> nat) list"
  so_members :: "nat list option"

text \<open>\<^const>\<open>None\<close> is \<^verbatim>\<open>{ carry: false }\<close>; otherwise the members added since.\<close>

definition resequenceVerdict :: "standing_order option \<Rightarrow> (nat \<times> nat) list \<Rightarrow> nat list \<Rightarrow> nat list option" where
  "resequenceVerdict previous proposed members =
     (case previous of
        None \<Rightarrow> None
      | Some prev \<Rightarrow>
          if so_status prev \<noteq> SeqAccepted then None
          else case so_members prev of
              None \<Rightarrow> None
            | Some before \<Rightarrow>
                let added = filter (\<lambda>n. n \<notin> set before) members in
                if list_ex (\<lambda>e. fst e \<in> set members \<and> snd e \<in> set members \<and> e \<notin> set proposed) (so_edges prev) then None
                else if list_ex (\<lambda>e. e \<notin> set (so_edges prev) \<and> fst e \<notin> set added \<and> snd e \<notin> set added) proposed then None
                else Some added)"

section \<open>Readiness in closed form\<close>

lemma wait_step_lookup:
  "map_of (wait_step issues watched m e) n =
     (let v = verdictOf issues watched (e_dependsOn e); held = default_to \<lparr>sw_on = [], sw_unworkable = []\<rparr> (map_of m n) in
      if v \<noteq> Satisfied \<and> e_issue e = n
      then Some \<lparr>sw_on = set_add (e_dependsOn e) (sw_on held),
          sw_unworkable = (if v = Unworkable then set_add (e_dependsOn e) (sw_unworkable held) else sw_unworkable held)\<rparr>
      else map_of m n)"
  by (simp add: wait_step_def Let_def map_of_map_put)

lemma wait_fold:
  "map_of (foldl (wait_step issues watched) [] edges) n =
     (let held = filter (\<lambda>e. e_issue e = n \<and> verdictOf issues watched (e_dependsOn e) \<noteq> Satisfied) edges in
      if held = [] then None
      else Some \<lparr>sw_on = uniq (map e_dependsOn held),
        sw_unworkable = uniq (map e_dependsOn (filter (\<lambda>e. verdictOf issues watched (e_dependsOn e) = Unworkable) held))\<rparr>)"
proof (induction edges rule: rev_induct)
  case (snoc e edges)
  define m where "m = foldl (wait_step issues watched) [] edges"
  have add: "set_add x (uniq xs) = uniq (xs @ [x])" "set_add x [] = uniq [x]" for x and xs :: "nat list"
    by (simp_all add: set_add_def uniq_def)
  have "foldl (wait_step issues watched) [] (edges @ [e]) = wait_step issues watched m e"
    by (simp add: m_def)
  then have rec: "map_of (foldl (wait_step issues watched) [] (edges @ [e])) n = map_of (wait_step issues watched m e) n"
    by (rule arg_cong)
  show ?case
    unfolding rec wait_step_lookup using snoc [folded m_def]
    by (cases "verdictOf issues watched (e_dependsOn e)"; cases "e_issue e = n"; cases "map_of m n")
       (auto simp: Let_def add simp del: uniq_snoc filter_filter split: if_splits)
qed simp

lemma readiness_lookup:
  "map_of (sequenceReadiness edges issues watched) n =
     map_option (\<lambda>w. \<lparr>sw_on = sort_nats (sw_on w), sw_unworkable = sort_nats (sw_unworkable w)\<rparr>)
       (map_of (foldl (wait_step issues watched) [] edges) n)"
proof -
  have "map_of (map (\<lambda>(k, v). (k, f v)) m) n = map_option f (map_of m n)" for f :: "sequence_wait \<Rightarrow> sequence_wait" and m
    by (induction m) auto
  then show ?thesis by (simp add: sequenceReadiness_def)
qed

text \<open>
  C23. While an order stands, a story is held exactly when the order has it wait on an item that is still
  open; the hold lists exactly those items, each once, in ascending order, and singles out exactly the
  ones nothing is going to work.
\<close>

theorem readiness_exact:
  "map_of (sequenceReadiness edges issues watched) n =
     (let waits = (\<lambda>v. {m. (\<exists>e. e \<in> set edges \<and> e_issue e = n \<and> e_dependsOn e = m) \<and> v (verdictOf issues watched m)}) in
      if waits (\<lambda>v. v \<noteq> Satisfied) = {} then None
      else Some \<lparr>sw_on = sorted_list_of_set (waits (\<lambda>v. v \<noteq> Satisfied)),
        sw_unworkable = sorted_list_of_set (waits (\<lambda>v. v = Unworkable))\<rparr>)"
proof -
  have sort: "sort_nats (uniq xs) = sorted_list_of_set (set xs)" for xs
  proof (rule sorted_distinct_set_unique)
    have "sorted_wrt (\<lambda>a b. by_key int a b \<le> 0) (sort_nats (uniq xs))"
      unfolding sort_nats_def by (rule key_cmp.sorted_js_sort)
    then show "sorted (sort_nats (uniq xs))" by (simp add: by_key_def)
  qed (simp_all add: sort_nats_def)
  let ?held = "filter (\<lambda>e. e_issue e = n \<and> verdictOf issues watched (e_dependsOn e) \<noteq> Satisfied) edges"
  have on: "{m. (\<exists>e. e \<in> set edges \<and> e_issue e = n \<and> e_dependsOn e = m) \<and> verdictOf issues watched m \<noteq> Satisfied} =
      set (map e_dependsOn ?held)" by auto
  have un: "{m. (\<exists>e. e \<in> set edges \<and> e_issue e = n \<and> e_dependsOn e = m) \<and> verdictOf issues watched m = Unworkable} =
      set (map e_dependsOn (filter (\<lambda>e. verdictOf issues watched (e_dependsOn e) = Unworkable) ?held))" by auto
  show ?thesis
    unfolding readiness_lookup wait_fold Let_def on un by (simp add: sort del: set_map)
qed

text \<open>
  C24. An order without a cycle never holds everything: as long as some story is open, some open story is
  waiting on nothing.
\<close>

theorem an_open_story_is_free:
  assumes "acyclic (set (map edge_pair edges))" and "distinct (map i_number issues)"
    and "i \<in> set issues" and "i_state i = IssueOpen"
  shows "\<exists>j. j \<in> set issues \<and> i_state j = IssueOpen \<and> map_of (sequenceReadiness edges issues watched) (i_number j) = None"
proof -
  have "wf ((set (map edge_pair edges))\<inverse>)"
    using assms(1) by (intro finite_acyclic_wf) (auto simp: acyclic_converse)
  moreover have "i_number i \<in> {n. verdictOf issues watched n \<noteq> Satisfied}"
    using assms(4) by (simp add: verdictOf_def index_by_member [OF assms(2,3)])
  ultimately obtain n where n: "verdictOf issues watched n \<noteq> Satisfied"
    "\<And>m. (m, n) \<in> (set (map edge_pair edges))\<inverse> \<Longrightarrow> m \<notin> {n. verdictOf issues watched n \<noteq> Satisfied}"
    using wfE_min [of "(set (map edge_pair edges))\<inverse>" "i_number i" "{n. verdictOf issues watched n \<noteq> Satisfied}"] by blast
  from n(1) obtain j where j: "map_of (index_by i_number issues) n = Some j" "i_state j = IssueOpen"
    by (auto simp: verdictOf_def split: option.splits if_splits)
  have "\<not> (e_issue e = n \<and> verdictOf issues watched (e_dependsOn e) \<noteq> Satisfied)" if "e \<in> set edges" for e
    using n(2) [of "e_dependsOn e"] that by (auto simp: edge_pair_def image_iff)
  then have "map_of (sequenceReadiness edges issues watched) n = None"
    unfolding readiness_lookup wait_fold Let_def by (auto simp: filter_empty_conv)
  with j index_by_Some [OF j(1)] show ?thesis by blast
qed

theorem an_open_story_is_free_witness:
  "\<exists>j. j \<in> set [issue0 1, issue0 2] \<and> i_state j = IssueOpen \<and>
     map_of (sequenceReadiness [\<lparr>e_issue = 1, e_dependsOn = 2\<rparr>] [issue0 1, issue0 2] (\<lambda>_. True)) (i_number j) = None"
proof (rule an_open_story_is_free [where i = "issue0 1"])
  show "acyclic (set (map edge_pair [\<lparr>e_issue = 1, e_dependsOn = 2\<rparr>]))"
    by (simp add: edge_pair_def acyclic_insert wf_acyclic)
qed (simp_all add: issue0_def)

section \<open>When an order is accepted\<close>

text \<open>The pairs an entry list asks for, in the order they are read.\<close>

definition asked_pairs :: "order_entry list \<Rightarrow> (nat option \<times> nat option) list" where
  "asked_pairs entries = concat (map (\<lambda>en. map (\<lambda>on. (oe_issue en, on)) (oe_waitsOn en)) entries)"

definition edges_agree :: "edge_state \<Rightarrow> bool" where
  "edges_agree s \<longleftrightarrow> fst s = map edge_pair (snd s) \<and> distinct (fst s)"

lemma agree_snoc:
  "edges_agree s \<Longrightarrow> (n, m) \<notin> set (fst s) \<Longrightarrow>
     edges_agree (fst s @ [(n, m)], snd s @ [\<lparr>e_issue = n, e_dependsOn = m, e_reason = r\<rparr>])"
  by (cases s) (auto simp: edges_agree_def edge_pair_def)

definition may_wait :: "nat list \<Rightarrow> nat \<Rightarrow> nat option \<Rightarrow> bool" where
  "may_wait known n on \<longleftrightarrow> (\<exists>m. on = Some m \<and> m \<noteq> n \<and> m \<in> set known)"

lemma entry_refused: "\<not> list_all (may_wait known n) ons \<Longrightarrow> \<exists>e. entry_edges known n why ons s = Inl e"
  by (induction known n why ons s rule: entry_edges.induct) (auto simp: may_wait_def split: option.split)

lemma entry_accepted:
  "list_all (may_wait known n) ons \<Longrightarrow> edges_agree s \<Longrightarrow>
     \<exists>s'. entry_edges known n why ons s = Inr s' \<and> edges_agree s' \<and> set (fst s') = set (fst s) \<union> {(n, m) | m. Some m \<in> set ons}"
proof (induction ons arbitrary: s)
  case (Cons on ons)
  then obtain m where m: "on = Some m" "m \<noteq> n" "m \<in> set known" by (auto simp: may_wait_def)
  let ?s = "if (n, m) \<in> set (fst s) then s
      else (fst s @ [(n, m)], snd s @ [\<lparr>e_issue = n, e_dependsOn = m, e_reason = map_option (take MAX_EDGE_REASON) why\<rparr>])"
  have "edges_agree ?s" using Cons.prems(2) agree_snoc by simp
  then obtain s' where s': "entry_edges known n why ons ?s = Inr s'" "edges_agree s'"
    "set (fst s') = set (fst ?s) \<union> {(n, m) | m. Some m \<in> set ons}" using Cons by fastforce
  have "entry_edges known n why (on # ons) s = Inr s'" using m s'(1) by (cases "(n, m) \<in> set (fst s)") auto
  moreover have "set (fst ?s) = insert (n, m) (set (fst s))" by auto
  ultimately show ?case using s'(2,3) m(1) by auto
qed auto

definition entry_ok :: "nat list \<Rightarrow> order_entry \<Rightarrow> bool" where
  "entry_ok known en \<longleftrightarrow> (\<exists>n. oe_issue en = Some n \<and> n \<in> set known \<and> list_all (may_wait known n) (oe_waitsOn en))"

lemma order_refused: "\<not> list_all (entry_ok known) entries \<Longrightarrow> edges_agree s \<Longrightarrow> \<exists>e. order_edges known entries s = Inl e"
proof (induction entries arbitrary: s)
  case (Cons en entries)
  show ?case
  proof (cases "entry_ok known en")
    case True
    then obtain n where n: "oe_issue en = Some n" "n \<in> set known" "list_all (may_wait known n) (oe_waitsOn en)"
      by (auto simp: entry_ok_def)
    obtain s' where s': "entry_edges known n (said (oe_why en)) (oe_waitsOn en) s = Inr s'" "edges_agree s'"
      using entry_accepted [OF n(3) Cons.prems(2)] by blast
    obtain e where "order_edges known entries s' = Inl e" using Cons.IH [OF _ s'(2)] Cons.prems(1) True by auto
    with n s' show ?thesis by simp
  next
    case False
    show ?thesis
    proof (cases "oe_issue en")
      case (Some n)
      with False entry_refused [of known n "oe_waitsOn en" "said (oe_why en)" s] show ?thesis
        by (cases "n \<in> set known") (auto simp: entry_ok_def)
    qed simp
  qed
qed simp

definition waits_of :: "order_entry list \<Rightarrow> (nat \<times> nat) set" where
  "waits_of entries = {(n, m). \<exists>en \<in> set entries. oe_issue en = Some n \<and> Some m \<in> set (oe_waitsOn en)}"

lemma order_accepted:
  "list_all (entry_ok known) entries \<Longrightarrow> edges_agree s \<Longrightarrow>
     \<exists>s'. order_edges known entries s = Inr s' \<and> edges_agree s' \<and> set (fst s') = set (fst s) \<union> waits_of entries"
proof (induction entries arbitrary: s)
  case (Cons en entries)
  then obtain n where n: "oe_issue en = Some n" "n \<in> set known" "list_all (may_wait known n) (oe_waitsOn en)"
    by (auto simp: entry_ok_def)
  obtain s' where s': "entry_edges known n (said (oe_why en)) (oe_waitsOn en) s = Inr s'" "edges_agree s'"
    "set (fst s') = set (fst s) \<union> {(n, m) | m. Some m \<in> set (oe_waitsOn en)}"
    using entry_accepted [OF n(3) Cons.prems(2)] by blast
  obtain s'' where s'': "order_edges known entries s' = Inr s''" "edges_agree s''" "set (fst s'') = set (fst s') \<union> waits_of entries"
    using Cons.IH [OF _ s'(2)] Cons.prems(1) by auto
  have "waits_of (en # entries) = {(n, m) | m. Some m \<in> set (oe_waitsOn en)} \<union> waits_of entries"
    using n(1) by (auto simp: waits_of_def)
  with n s' s'' show ?case by auto
qed (simp add: waits_of_def)

lemma findCycle_None: "findCycle edges = None \<longleftrightarrow> acyclic (set (map edge_pair edges))"
proof -
  have "edges_of (group_pairs kvs) = set kvs" for kvs :: "(nat \<times> nat) list"
    unfolding edges_of_def succs_def group_lookup by force
  then show ?thesis by (simp only: findCycle_def search_None_iff)
qed

text \<open>
  C25. An order is accepted exactly when a reason is given, every story it names is one of the stories the
  agent was shown, none waits on itself or on a story it was not shown, and what the entries ask for
  together has no cycle. What is stored is then exactly the waits asked for, each once.
\<close>

theorem sequence_accepted_iff:
  "(\<exists>sub. validateSequenceSubmission args children = Inr sub) \<longleftrightarrow>
     said (oa_reason args) \<noteq> None \<and> oa_order args \<noteq> None \<and>
     list_all (\<lambda>en. \<exists>n. oe_issue en = Some n \<and> n \<in> set children \<and>
        list_all (\<lambda>on. \<exists>m. on = Some m \<and> m \<noteq> n \<and> m \<in> set children) (oe_waitsOn en)) (the (oa_order args)) \<and>
     acyclic (waits_of (the (oa_order args)))"
proof (cases "said (oa_reason args) = None \<or> oa_order args = None")
  case True
  then show ?thesis by (auto simp: validateSequenceSubmission_def split: option.splits)
next
  case False
  then obtain reason raw where r: "said (oa_reason args) = Some reason" "oa_order args = Some raw" by auto
  have ok: "list_all (\<lambda>en. \<exists>n. oe_issue en = Some n \<and> n \<in> set children \<and>
        list_all (\<lambda>on. \<exists>m. on = Some m \<and> m \<noteq> n \<and> m \<in> set children) (oe_waitsOn en)) raw \<longleftrightarrow> list_all (entry_ok children) raw"
    by (simp only: entry_ok_def [abs_def] may_wait_def [abs_def])
  show ?thesis
  proof (cases "list_all (entry_ok children) raw")
    case True
    then obtain s where s: "order_edges children raw ([], []) = Inr s" "edges_agree s" "set (fst s) = waits_of raw"
      using order_accepted [of children raw "([], [])"] by (auto simp: edges_agree_def)
    have "findCycle (snd s) = None \<longleftrightarrow> acyclic (waits_of raw)"
      using s(2,3) by (simp add: findCycle_None edges_agree_def)
    then show ?thesis
      using r s(1) True ok by (cases s) (auto simp: validateSequenceSubmission_def split: option.splits)
  next
    case False
    then obtain e where "order_edges children raw ([], []) = Inl e"
      using order_refused [of children raw "([], [])"] by (auto simp: edges_agree_def)
    with r False ok show ?thesis by (simp add: validateSequenceSubmission_def)
  qed
qed

text \<open>
  An accepted answer is carried to a new order exactly when it contradicts nothing that was answered:
  every wait between stories still there is kept, and every wait that is new involves a story added
  since.
\<close>

theorem answer_carried_iff:
  "resequenceVerdict (Some \<lparr>so_status = SeqAccepted, so_edges = old, so_members = Some before\<rparr>) proposed members = Some added
   \<longleftrightarrow> added = filter (\<lambda>n. n \<notin> set before) members
     \<and> {e. e \<in> set old \<and> fst e \<in> set members \<and> snd e \<in> set members} \<subseteq> set proposed
     \<and> {e. e \<in> set proposed \<and> fst e \<notin> set added \<and> snd e \<notin> set added} \<subseteq> set old"
  by (auto simp: resequenceVerdict_def Let_def list_ex_iff)

end
