(* ===== verification/Stage.thy ===== *)
theory Stage
  imports Conclusion Validation Discussions Review Sequence
begin

text \<open>
  What a dispatch pass works from: the context one pulse gathers (\<^verbatim>\<open>src/src/dispatcher/dispatcher.ts\<close>),
  the lookups the stages share (\<^verbatim>\<open>ruleDispatcherStage.ts\<close>, \<^verbatim>\<open>rules/context.ts\<close>) and the part of a stage
  the rules write to. A field of the context that may be absent is a list, empty when it is absent, as
  each reader defaults it. Every fixed lookup of \<^verbatim>\<open>StageContext\<close> is a function of the record \<open>stage\<close>; the
  four things the rules push to are \<open>stage_state\<close>. Titles, prompts and reasons are left out.
\<close>

section \<open>The context of a pulse\<close>

datatype agent_status =
  AStarting | ARunning | AWaiting | ADone | AKilled | AInterrupted | AFailed | ACrashed

record agent =
  ag_id :: string
  ag_status :: agent_status

datatype bot_outcome_kind = Adapted | UpstreamBug | IntendedBreak | UnclearOutcome

record bot_outcome =
  bo_prNumber :: nat
  bo_headSha :: string
  bo_outcome :: bot_outcome_kind

record description_ask =
  da_originRef :: string
  da_prNumber :: nat
  da_authoredAt :: instant

datatype remote_status = RemotePending | RemoteDispatched | RemoteEnded | RemoteAbandoned

record remote_run =
  ru_runId :: string
  ru_issueNumber :: nat
  ru_status :: remote_status
  ru_origin :: string
  ru_leaseKey :: string
  ru_deployedSha :: string
  ru_confirmed :: nat

record feature_standing =
  fs_number :: nat
  fs_key :: string

record summary_key =
  sk_originRef :: string
  sk_standingKey :: string
  sk_repeats :: nat
  sk_repeatKeys :: "string list"

record feature_sequence =
  fq_originRef :: string
  fq_status :: sequence_status
  fq_standingKey :: string
  fq_edges :: "seq_edge list"

record plan_context =
  dx_plans :: "plan list"
  dx_planParts :: "plan_part list"
  dx_planAmendments :: "amendment list"
  dx_conclusions :: "conclusion list"
  dx_deliveries :: "delivery list"
  dx_deliverySignals :: "world_event list"
  dx_shortfalls :: "shortfall list"
  dx_appraisals :: "appraisal list"
  dx_investigations :: "investigation list"
  dx_retrospectives :: "string list"

record pr_context = plan_context +
  dx_hiddenPrs :: "pull_request list"
  dx_botPrOutcomes :: "bot_outcome list"
  dx_prReviews :: "pr_review list"
  dx_prReviewRoutes :: "review_route list"
  dx_prReviewedElsewhere :: "nat set"
  dx_prSplits :: "nat list"
  dx_descriptionDrafts :: "description_ask list"
  dx_uncheckedDescriptions :: "description_ask list"
  dx_botPrRiskRun :: "string option"

record run_context = pr_context +
  dx_validationChecks :: "validation_check list"
  dx_validationPlans :: "plan_record list"
  dx_localRun :: "local_run option"
  dx_localValidations :: "local_validation list"
  dx_remoteRuns :: "remote_run list"
  dx_featureStandings :: "feature_standing list"
  dx_featureSummaryKeys :: "summary_key list"
  dx_featureSequences :: "feature_sequence list"

record dispatch_context = run_context +
  dx_world :: world
  dx_clock :: int
  dx_retainedIssues :: "nat list"
  dx_modelPins :: "(string \<times> agent_models) option"
  dx_tasks :: "task list"
  dx_agents :: "agent list"
  dx_openEscalations :: "escalation list"
  dx_queuedJobs :: "job list"
  dx_standingJobs :: "job list"
  dx_ejections :: "string list"
  dx_priorityOverrides :: "priority_override list"
  dx_goalPriorities :: "string list"
  dx_goalPauses :: "string list"
  dx_profileOverrides :: "profile_override list"
  dx_discussion :: "discussion_reader option"
  dx_agentHeadroom :: int
  dx_recentDecisions :: "decision list"
  dx_proposals :: "proposal list"
  dx_rejectionSignals :: "world_event list"

text \<open>The options a dispatcher is built with; \<open>dp_digest\<close> is the SHA-256 of the goal and sequence keys.\<close>

record dispatcher =
  dp_pickup :: pickup_policy
  dp_cooldown :: cooldown_policy
  dp_planning :: planning_policy
  dp_ci :: "ci_rule list"
  dp_review :: review_policy
  dp_defaultBranch :: string
  dp_checkSets :: bool
  dp_remoteValidationOn :: bool
  dp_validationClaimMinutes :: int
  dp_digest :: "string \<Rightarrow> string"

record stage =
  sx_ctx :: dispatch_context
  sx_opts :: dispatcher

section \<open>Candidates\<close>

datatype rule_held = HeldCooldown | HeldCapped | HeldUnapproved | HeldSuperseded | HeldSequenced | HeldQuestions

definition LIFTABLE_HOLDS :: "rule_held list" where
  "LIFTABLE_HOLDS = [HeldSequenced, HeldQuestions]"

record candidate =
  cd_origin :: string
  cd_rule :: rule_id
  cd_kind :: task_kind
  cd_branch :: "string option"
  cd_action :: action
  cd_held :: "rule_held option"

record stage_state =
  ss_raw :: "action list"
  ss_candidates :: "candidate list"
  ss_appraising :: "nat list"
  ss_investigating :: "nat list"

definition empty_stage :: stage_state where
  "empty_stage = \<lparr>ss_raw = [], ss_candidates = [], ss_appraising = [], ss_investigating = []\<rparr>"

definition push_raw :: "action \<Rightarrow> stage_state \<Rightarrow> stage_state" where
  "push_raw a st = st\<lparr>ss_raw := ss_raw st @ [a]\<rparr>"

definition push_candidate :: "candidate \<Rightarrow> stage_state \<Rightarrow> stage_state" where
  "push_candidate c st = st\<lparr>ss_candidates := ss_candidates st @ [c]\<rparr>"

definition add_appraising :: "nat \<Rightarrow> stage_state \<Rightarrow> stage_state" where
  "add_appraising n st = st\<lparr>ss_appraising := set_add n (ss_appraising st)\<rparr>"

definition add_investigating :: "nat \<Rightarrow> stage_state \<Rightarrow> stage_state" where
  "add_investigating n st = st\<lparr>ss_investigating := set_add n (ss_investigating st)\<rparr>"

section \<open>Shared lookups\<close>

definition s_issues :: "stage \<Rightarrow> issue list" where "s_issues s = w_issues (dx_world (sx_ctx s))"

definition s_now :: "stage \<Rightarrow> int" where "s_now s = w_takenAt (dx_world (sx_ctx s))"

definition activeOriginsOf :: "dispatch_context \<Rightarrow> string list" where
  "activeOriginsOf ctx =
     List.map_filter (\<lambda>t. if isActiveTask t then truthy (tk_originRef t) else None) (dx_tasks ctx)
     @ List.map_filter (\<lambda>j. truthy (jb_originRef j)) (dx_standingJobs ctx)
     @ dx_ejections ctx"

definition s_active :: "stage \<Rightarrow> string list" where "s_active s = activeOriginsOf (sx_ctx s)"

definition s_openPrs :: "stage \<Rightarrow> pull_request list" where
  "s_openPrs s =
     (if dx_hiddenPrs (sx_ctx s) \<noteq> [] then w_pullRequests (dx_world (sx_ctx s)) @ dx_hiddenPrs (sx_ctx s)
      else w_pullRequests (dx_world (sx_ctx s)))"

definition s_pickup :: "stage \<Rightarrow> pickup_policy" where
  "s_pickup s = (dp_pickup (sx_opts s))
     \<lparr>py_pausedIssues := set (pausedIssueNumbers (dx_goalPauses (sx_ctx s)) (s_issues s)
        (py_containerTypes (dp_pickup (sx_opts s))))\<rparr>"

definition plansByOrigin :: "stage \<Rightarrow> string \<Rightarrow> plan option" where
  "plansByOrigin s = map_of (index_by pl_originRef (dx_plans (sx_ctx s)))"

definition partsOfPlan :: "stage \<Rightarrow> plan \<Rightarrow> plan_part list" where
  "partsOfPlan s p = filter (\<lambda>x. pp_planId x = pl_id p) (dx_planParts (sx_ctx s))"

definition readingBehindFleet :: "stage \<Rightarrow> nat \<Rightarrow> bool" where
  "readingBehindFleet s n \<longleftrightarrow>
     prReadRef n \<in> set (refsFinishedSince (dx_tasks (sx_ctx s)) (s_openPrs s) (Instant (s_now s)))"

definition issueByNumber :: "stage \<Rightarrow> nat \<Rightarrow> issue option" where
  "issueByNumber s = map_of (index_by i_number (s_issues s))"

definition liveIssue :: "stage \<Rightarrow> nat \<Rightarrow> issue option" where
  "liveIssue s n = (if n \<in> set (dx_retainedIssues (sx_ctx s)) then None else issueByNumber s n)"

definition partsPlanFor :: "stage \<Rightarrow> nat \<Rightarrow> plan option" where
  "partsPlanFor s n =
     (case plansByOrigin s (issueOrigin n) of
        None \<Rightarrow> None
      | Some p \<Rightarrow> if pl_status p \<noteq> Active \<and> pl_status p \<noteq> Complete then None else Some p)"

section \<open>The gates of an issue\<close>

definition deliveryParked :: "stage \<Rightarrow> issue \<Rightarrow> bool" where
  "deliveryParked s i \<longleftrightarrow>
     deliveryHold (map_of (index_by dl_originRef (dx_deliveries (sx_ctx s))) (issueOrigin (i_number i))) i
       (py_pickupStates (s_pickup s)) (dx_deliverySignals (sx_ctx s)) \<noteq> None"

definition storedAppraisal :: "stage \<Rightarrow> nat \<Rightarrow> appraisal option" where
  "storedAppraisal s n = map_of (index_by ap_originRef (dx_appraisals (sx_ctx s))) (issueOrigin n)"

definition appraisalParked :: "stage \<Rightarrow> issue \<Rightarrow> bool" where
  "appraisalParked s i \<longleftrightarrow> appraisalHold (dp_digest (sx_opts s)) (storedAppraisal s (i_number i)) i \<noteq> None"

definition issue_eligible :: "stage \<Rightarrow> issue \<Rightarrow> bool" where
  "issue_eligible s i \<longleftrightarrow>
     i_number i \<notin> set (dx_retainedIssues (sx_ctx s)) \<and> i_state i = IssueOpen \<and>
     openPrForIssue i (s_openPrs s) = None \<and> \<not> deliveryParked s i \<and> \<not> appraisalParked s i \<and>
     map_of (blockedGoals (dx_openEscalations (sx_ctx s))) (issueOrigin (i_number i)) = None \<and>
     fst (isIssuePickupEligible i (s_pickup s))"

definition eligibleIssues :: "stage \<Rightarrow> (issue \<times> int) list" where
  "eligibleIssues s =
     js_sort (cmp_or (by_key (\<lambda>x. - snd x)) (by_key (\<lambda>x. int (i_number (fst x)))))
       (map (\<lambda>i. (i, issuePriority (i_labels i) (s_pickup s))) (filter (issue_eligible s) (s_issues s)))"

definition investigations :: "stage \<Rightarrow> (nat, investigation_standing) jsmap" where
  "investigations s =
     investigationStandings (dp_digest (sx_opts s)) (s_issues s) (dx_investigations (sx_ctx s))
       (py_investigateLabel (s_pickup s)) (py_requireOwnLabel (s_pickup s))"

definition issue_route :: "stage \<Rightarrow> nat \<Rightarrow> plan_route" where
  "issue_route s n =
     (let pl = plansByOrigin s (issueOrigin n) in
      resolvePlanRoute pl
        (plannerVerdict n pl (Instant (s_now s)) (dx_recentDecisions (sx_ctx s)) (dp_cooldown (sx_opts s)))
        (case pl of None \<Rightarrow> 0 | Some p \<Rightarrow> length (liveParts (partsOfPlan s p))))"

definition planRoutes :: "stage \<Rightarrow> (nat, plan_route) jsmap" where
  "planRoutes s = map_from (map (\<lambda>(i, w). (i_number i, issue_route s (i_number i))) (eligibleIssues s))"

section \<open>Sequencing and open questions\<close>

definition watched_by_gate :: "stage \<Rightarrow> issue \<Rightarrow> bool" where
  "watched_by_gate s i \<longleftrightarrow> issueWatchGateReason i (s_pickup s) = None"

definition s_sequencing :: "stage \<Rightarrow> sequencing" where
  "s_sequencing s = default_to SequencingOff (py_sequencing (s_pickup s))"

definition sequences :: "stage \<Rightarrow> (string, feature_sequence) jsmap" where
  "sequences s = index_by fq_originRef (dx_featureSequences (sx_ctx s))"

definition sequence_edges :: "stage \<Rightarrow> seq_edge list" where
  "sequence_edges s =
     (if s_sequencing s = SequencingOff then []
      else linkEdges (s_issues s)
        @ concat (map fq_edges (filter (\<lambda>q. fq_status q = SeqAccepted) (map snd (sequences s)))))"

definition sequenceWaits :: "stage \<Rightarrow> (nat, sequence_wait) jsmap" where
  "sequenceWaits s = sequenceReadiness (sequence_edges s) (s_issues s) (watched_by_gate s)"

definition askableFeatures :: "stage \<Rightarrow> (asked_feature \<times> string) list" where
  "askableFeatures s =
     (if s_sequencing s = SequencingFull then
        sequenceableFeatures (dp_digest (sx_opts s)) (s_issues s) (py_containerTypes (s_pickup s)) (watched_by_gate s)
          (default_to DEFAULT_SEQUENCE_MAX_CHILDREN (py_sequenceMaxChildren (s_pickup s)))
      else [])"

text \<open>A container, or a number the world does not hold, is discussed on its own.\<close>

definition discussion_parent_of :: "stage \<Rightarrow> nat \<Rightarrow> nat option" where
  "discussion_parent_of s n =
     (case issueByNumber s n of
        None \<Rightarrow> None
      | Some i \<Rightarrow>
          if isContainerIssue i (py_containerTypes (dp_pickup (sx_opts s))) then None
          else case i_parent i of Some (Some p) \<Rightarrow> Some (rel_number p) | _ \<Rightarrow> None)"

datatype issue_hold = HoldSequence sequence_wait | HoldQuestions question_hold

definition issueHold :: "stage \<Rightarrow> nat \<Rightarrow> bool \<Rightarrow> issue_hold option" where
  "issueHold s n sequence =
     (case (if sequence then map_of (sequenceWaits s) n else None) of
        Some w \<Rightarrow> Some (HoldSequence w)
      | None \<Rightarrow>
          map_option HoldQuestions
            (questionHold (dx_discussion (sx_ctx s)) n (discussion_parent_of s n)
               (plansByOrigin s (issueOrigin n) \<noteq> None)))"

fun held_by :: "issue_hold \<Rightarrow> rule_held" where
  "held_by (HoldSequence w) = HeldSequenced"
| "held_by (HoldQuestions q) = HeldQuestions"

definition checksByOrigin :: "stage \<Rightarrow> string \<Rightarrow> validation_check list" where
  "checksByOrigin s ref =
     default_to [] (map_of (group_pairs (map (\<lambda>c. (vc_originRef c, c)) (dx_validationChecks (sx_ctx s)))) ref)"

definition planRecord :: "stage \<Rightarrow> string \<Rightarrow> plan_record option" where
  "planRecord s ref = map_of (index_by vr_originRef (dx_validationPlans (sx_ctx s))) ref"

section \<open>Considering a candidate\<close>

text \<open>
  The gate every proposing rule shares, over the decisions the rule narrows the attempts to: the
  answer is whether the origin was claimed.
\<close>

definition considerWith ::
  "stage \<Rightarrow> candidate \<Rightarrow> (nat \<Rightarrow> action) option \<Rightarrow> decision list \<Rightarrow> stage_state \<Rightarrow> bool \<times> stage_state" where
  "considerWith s c escalate decisions st =
     (case dispatchVerdict (cd_origin c) (Instant (s_now s)) decisions (dp_cooldown (sx_opts s)) of
        VEscalate n \<Rightarrow> (False, case escalate of None \<Rightarrow> st | Some f \<Rightarrow> push_raw (f n) st)
      | VCooldown \<Rightarrow> (True, push_candidate (c\<lparr>cd_held := Some HeldCooldown\<rparr>) st)
      | VDispatch \<Rightarrow> (True, push_candidate c st)
      | VHold \<Rightarrow> (False, st))"

definition stage_consider :: "stage \<Rightarrow> candidate \<Rightarrow> stage_state \<Rightarrow> stage_state" where
  "stage_consider s c st = snd (considerWith s c None (dx_recentDecisions (sx_ctx s)) st)"

section \<open>Pins\<close>

definition profileOverride :: "stage \<Rightarrow> string \<Rightarrow> string option" where
  "profileOverride s ref =
     map_of (map_from (map (\<lambda>o'. (pv_origin o', pv_profile o')) (dx_profileOverrides (sx_ctx s)))) ref"

definition goal_pin :: "stage \<Rightarrow> nat \<Rightarrow> string option" where
  "goal_pin s n =
     fst (resolveModelTag (map_option i_labels (find (\<lambda>i. i_number i = n) (s_issues s)))
        (case dx_modelPins (sx_ctx s) of None \<Rightarrow> '''' | Some (prefix, _) \<Rightarrow> prefix)
        (map_option snd (dx_modelPins (sx_ctx s))))"

definition part_pin :: "stage \<Rightarrow> nat \<Rightarrow> string \<Rightarrow> string option" where
  "part_pin s n slug =
     (case plansByOrigin s (issueOrigin n) of
        None \<Rightarrow> None
      | Some pl \<Rightarrow>
          (case find (\<lambda>p. pp_planId p = pl_id pl \<and> pp_slug p = slug) (dx_planParts (sx_ctx s)) of
             None \<Rightarrow> None | Some p \<Rightarrow> pp_profile p))"

definition pinFor :: "stage \<Rightarrow> string option \<Rightarrow> string option" where
  "pinFor s ref =
     or_else (case ref of None \<Rightarrow> None | Some r \<Rightarrow> profileOverride s r) (pinnedProfileFor ref (goal_pin s) (part_pin s))"

section \<open>What earlier decisions already told\<close>

definition notifiedOriginsByAgent :: "decision list \<Rightarrow> string list" where
  "notifiedOriginsByAgent decisions =
     concat (map (\<lambda>d.
        if de_outcome d \<noteq> Executed \<or> a_type (de_action d) \<noteq> RespondToAgent then []
        else case (a_agentId (de_action d), a_originRefs (de_action d)) of
            (Some agentId, Some origins) \<Rightarrow> map (\<lambda>ref. agentId @ ''::'' @ ref) origins
          | _ \<Rightarrow> []) decisions)"

definition dispatchedSignalsByBranch :: "decision list \<Rightarrow> string list" where
  "dispatchedSignalsByBranch decisions =
     concat (map (\<lambda>d.
        if de_outcome d \<noteq> Executed \<or> a_type (de_action d) \<noteq> DispatchCodeAgent then []
        else case (a_branch (de_action d), a_signalRefs (de_action d)) of
            (Some branch, Some refs) \<Rightarrow> map (\<lambda>ref. branch @ ''::'' @ ref) refs
          | _ \<Rightarrow> []) decisions)"

definition workItemStates :: "stage \<Rightarrow> (string \<times> string list) option" where
  "workItemStates s =
     (case (truthy (py_inReviewState (s_pickup s)), effectivePickupStates (s_pickup s)) of
        (Some st, Some (x # xs)) \<Rightarrow> Some (st, x # xs)
      | _ \<Rightarrow> None)"

definition workItemInProgressGate :: "stage \<Rightarrow> (string \<times> string list) option" where
  "workItemInProgressGate s =
     (case (truthy (py_inProgressState (s_pickup s)), effectivePickupStates (s_pickup s)) of
        (Some st, Some (x # xs)) \<Rightarrow> Some (st, x # xs)
      | _ \<Rightarrow> None)"

definition storedConclusion :: "stage \<Rightarrow> string \<Rightarrow> conclusion option" where
  "storedConclusion s ref = map_of (index_by cn_originRef (dx_conclusions (sx_ctx s))) ref"

definition storedShortfall :: "stage \<Rightarrow> string \<Rightarrow> shortfall option" where
  "storedShortfall s ref = map_of (index_by sf_originRef (dx_shortfalls (sx_ctx s))) ref"

end
