(* ===== verification/DispatchSamples.thy ===== *)
theory DispatchSamples
  imports Stage Samples
begin

text \<open>A small dispatch pass the concrete instances of the dispatcher's theorems are built from.\<close>

definition ctx0 :: "issue list \<Rightarrow> dispatch_context" where
  "ctx0 issues =
     \<lparr>dx_plans = [], dx_planParts = [], dx_planAmendments = [], dx_conclusions = [], dx_deliveries = [],
      dx_deliverySignals = [], dx_shortfalls = [], dx_appraisals = [], dx_investigations = [], dx_retrospectives = [],
      dx_hiddenPrs = [], dx_botPrOutcomes = [], dx_prReviews = [], dx_prReviewRoutes = [], dx_prReviewedElsewhere = {},
      dx_prSplits = [], dx_descriptionDrafts = [], dx_uncheckedDescriptions = [], dx_botPrRiskRun = None,
      dx_validationChecks = [], dx_validationPlans = [], dx_localRun = None, dx_localValidations = [],
      dx_remoteRuns = [], dx_featureStandings = [], dx_featureSummaryKeys = [], dx_featureSequences = [],
      dx_world = \<lparr>w_takenAt = 1000000, w_pullRequests = [], w_issues = issues\<rparr>, dx_clock = 1000000,
      dx_retainedIssues = [], dx_modelPins = None, dx_tasks = [], dx_agents = [], dx_openEscalations = [],
      dx_queuedJobs = [], dx_standingJobs = [], dx_ejections = [], dx_priorityOverrides = [], dx_goalPriorities = [],
      dx_goalPauses = [], dx_profileOverrides = [], dx_discussion = None, dx_agentHeadroom = 2,
      dx_recentDecisions = [], dx_proposals = [], dx_rejectionSignals = []\<rparr>"

definition pickup0 :: pickup_policy where
  "pickup0 = \<lparr>py_watchLabel = None, py_requireOwnLabel = False, py_investigateLabel = ''investigate'',
     py_priorityLabels = [], py_defaultPriority = 0, py_pickupStates = None, py_inReviewState = None,
     py_inProgressState = None, py_containerTypes = None, py_parentedTypes = None, py_sequencing = None,
     py_sequenceMaxChildren = None, py_pausedIssues = {}\<rparr>"

definition opts0 :: dispatcher where
  "opts0 = \<lparr>dp_pickup = pickup0, dp_cooldown = \<lparr>maxAttempts = 3, cooldownMs = 60000\<rparr>, dp_planning = DEFAULT_PLANNING,
     dp_ci = [], dp_review = DEFAULT_PR_REVIEW, dp_defaultBranch = ''main'', dp_checkSets = False,
     dp_remoteValidationOn = False, dp_validationClaimMinutes = 60, dp_digest = id\<rparr>"

definition stage0 :: "issue list \<Rightarrow> stage" where
  "stage0 issues = \<lparr>sx_ctx = ctx0 issues, sx_opts = opts0\<rparr>"

text \<open>A goal with a released plan, two parts ready, one more the fleet is on, and a pull request gone red.\<close>

definition part_stage :: "stage" where
  "part_stage = (stage0 [issue0 7])\<lparr>sx_ctx := (ctx0 [issue0 7])
     \<lparr>dx_plans := [plan0 7 Active],
      dx_planParts := [(part0 ''api'' [])\<lparr>pp_status := PartReady\<rparr>, (part0 ''ui'' [])\<lparr>pp_status := PartReady, pp_seq := 2\<rparr>,
        (part0 ''db'' [])\<lparr>pp_status := PartDispatched, pp_seq := 3\<rparr>],
      dx_tasks := [(task0 ''t1'' TRunning)\<lparr>tk_originRef := Some ''issue:7:part:db'', tk_branch := Some ''issue/7/db''\<rparr>],
      dx_world := \<lparr>w_takenAt = 1000000, w_pullRequests = [(pr0 12 ''fix/login'' ''main'')\<lparr>pr_ciStatus := CiFailing\<rparr>],
        w_issues = [issue0 7]\<rparr>,
      dx_agentHeadroom := 3\<rparr>\<rparr>"

end
