(* ===== verification/Agreement.thy ===== *)
theory Agreement
  imports DispatchSamples
begin

text \<open>
  The status the cockpit shows for an issue (\<^verbatim>\<open>issuePickupStatus\<close>, over the context
  \<^verbatim>\<open>src/src/server/stateReads.ts\<close> builds) against the gate the dispatcher applies to it
  (\<^verbatim>\<open>issueGates\<close> in \<^verbatim>\<open>ruleDispatcherStage.ts\<close>): two pieces of code that read the same rows.
\<close>

definition pickupCtx :: "stage \<Rightarrow> issue_run list \<Rightarrow> int \<Rightarrow> bool \<Rightarrow> pickup_context" where
  "pickupCtx s runs headroom paused =
     \<lparr>cx_policy = s_pickup s, cx_cooldown = dp_cooldown (sx_opts s), cx_now = Instant (s_now s),
      cx_tasks = dx_tasks (sx_ctx s), cx_recentDecisions = dx_recentDecisions (sx_ctx s), cx_openPrs = s_openPrs s,
      cx_plans = dx_plans (sx_ctx s), cx_planParts = dx_planParts (sx_ctx s),
      cx_deliveries = dx_deliveries (sx_ctx s), cx_deliverySignals = dx_deliverySignals (sx_ctx s),
      cx_appraisals = dx_appraisals (sx_ctx s), cx_investigations = investigations s,
      cx_goalBlocks = blockedGoals (dx_openEscalations (sx_ctx s)), cx_runs = runs,
      cx_headroom = headroom, cx_paused = paused\<rparr>"

text \<open>Kinds shown for work that is under way or over, which say nothing of the gate.\<close>

definition past_the_gate :: "pickup_kind \<Rightarrow> bool" where
  "past_the_gate k \<longleftrightarrow> k \<in> {PkPlanning, PkActive, PkAbandoned}"

definition says_eligible :: "pickup_status \<Rightarrow> bool" where
  "says_eligible st \<longleftrightarrow>
     ps_kind st \<in> {PkInvestigation, PkEscalated, PkBlocked} \<or>
     ps_kind st = PkAppraisal \<and> \<not> (\<exists>h. AppraisalStands h \<in> set (ps_reasons st))"

lemma ended_kinds: "endedStatus i ctx = Some st \<Longrightarrow> ps_kind st = PkAbandoned \<or>
    i_state i \<noteq> IssueOpen \<and> ps_kind st \<in> {PkDone, PkRetained}"
  by (auto simp: endedStatus_def closedStatus_def Let_def split: option.splits if_splits)

lemma ended_None: "endedStatus i ctx = None \<Longrightarrow> i_state i = IssueOpen"
  by (auto simp: endedStatus_def Let_def split: if_splits)

lemma gated_kind: "planGateStatus route pl parts = Some st \<Longrightarrow> ps_kind st = PkPlanning"
  by (auto simp: planGateStatus_def Let_def split: option.splits plan_route.splits prod.splits)

lemma active_kind: "activeStatus origin ctx = Some st \<Longrightarrow> ps_kind st = PkActive"
  by (auto simp: activeStatus_def split: option.splits)

lemma preplan_reason:
  "preplanAgentReason i ctx a = Some r \<Longrightarrow> r \<in> {pa_waiting a, pa_running a, pa_cooldown a, pa_awaiting a}"
  by (auto simp: preplanAgentReason_def split: if_splits option.splits dispatch_verdict.splits)

lemma appraisal_reason:
  "appraisalFor digest i ctx = Some r \<Longrightarrow>
     (\<exists>h. r = AppraisalStands h) \<longleftrightarrow>
       appraisalHold digest (find (\<lambda>a. ap_originRef a = issueOrigin (i_number i)) (cx_appraisals ctx)) i \<noteq> None"
  by (auto simp: appraisalFor_def issueOrigin_def Let_def or_else_Some_iff dest!: preplan_reason)

lemma appraisal_none:
  "appraisalFor digest i ctx = None \<Longrightarrow>
     appraisalHold digest (find (\<lambda>a. ap_originRef a = issueOrigin (i_number i)) (cx_appraisals ctx)) i = None"
  by (cases "appraisalHold digest (find (\<lambda>a. ap_originRef a = issueOrigin (i_number i)) (cx_appraisals ctx)) i")
    (simp_all add: appraisalFor_def issueOrigin_def Let_def)

text \<open>The part of the gate the standing verdicts answer for, over a context as the cockpit builds it.\<close>

definition standing_clear :: "(string \<Rightarrow> string) \<Rightarrow> issue \<Rightarrow> pickup_context \<Rightarrow> bool" where
  "standing_clear digest i ctx \<longleftrightarrow>
     deliveryHold (find (\<lambda>d. dl_originRef d = issueOrigin (i_number i)) (cx_deliveries ctx)) i
       (py_pickupStates (cx_policy ctx)) (cx_deliverySignals ctx) = None \<and>
     map_of (cx_goalBlocks ctx) (issueOrigin (i_number i)) = None \<and>
     fst (isIssuePickupEligible i (cx_policy ctx)) \<and>
     appraisalHold digest (find (\<lambda>a. ap_originRef a = issueOrigin (i_number i)) (cx_appraisals ctx)) i = None"

lemma paused_not_eligible: "isGoalPaused i policy \<Longrightarrow> fst (isIssuePickupEligible i policy) = False"
  by (auto simp: isIssuePickupEligible_def Let_def)

lemma standing_none:
  assumes "standingHoldStatus digest i (issueOrigin (i_number i)) ctx = None"
  shows "standing_clear digest i ctx"
  using assms unfolding standingHoldStatus_def standing_clear_def
  by (auto simp: Let_def split: option.splits if_splits prod.splits dest!: appraisal_none)

lemma standing_some:
  assumes "standingHoldStatus digest i (issueOrigin (i_number i)) ctx = Some st"
  shows "\<not> past_the_gate (ps_kind st) \<and> ps_kind st \<notin> {PkCooldown, PkEligible, PkDone, PkRetained, PkHasPr} \<and>
    (says_eligible st \<longleftrightarrow> standing_clear digest i ctx)"
proof -
  consider (gated) "\<not> (deliveryHold (find (\<lambda>d. dl_originRef d = issueOrigin (i_number i)) (cx_deliveries ctx)) i
        (py_pickupStates (cx_policy ctx)) (cx_deliverySignals ctx) = None \<and>
      map_of (cx_goalBlocks ctx) (issueOrigin (i_number i)) = None \<and> fst (isIssuePickupEligible i (cx_policy ctx)))"
      "ps_kind st \<in> {PkDelivered, PkParked, PkPaused, PkContainer, PkUnwatched}"
    | (appraising) r where "appraisalFor digest i ctx = Some r" "st = \<lparr>ps_kind = PkAppraisal, ps_reasons = [r]\<rparr>"
      "deliveryHold (find (\<lambda>d. dl_originRef d = issueOrigin (i_number i)) (cx_deliveries ctx)) i
        (py_pickupStates (cx_policy ctx)) (cx_deliverySignals ctx) = None"
      "map_of (cx_goalBlocks ctx) (issueOrigin (i_number i)) = None" "fst (isIssuePickupEligible i (cx_policy ctx))"
    using assms unfolding standingHoldStatus_def
    by (auto simp: Let_def paused_not_eligible split: option.splits if_splits prod.splits)
  then show ?thesis
  proof cases
    case gated
    then show ?thesis by (auto simp: past_the_gate_def says_eligible_def standing_clear_def)
  next
    case appraising
    then show ?thesis using appraisal_reason [OF appraising(1)]
      by (auto simp: past_the_gate_def says_eligible_def standing_clear_def)
  qed
qed

lemma investigation_some:
  "investigationStatus i ctx standing = Some st \<Longrightarrow> ps_kind st = PkInvestigation"
  by (auto simp: investigationStatus_def split: if_splits)

lemma route_kinds: "ps_kind (planningRouteStatus i ctx route) \<in> {PkPlanning, PkEscalated, PkBlocked}"
  by (auto simp: planningRouteStatus_def Let_def split: plan_route.splits)

lemma says_eligible_kind: "ps_kind st \<in> {PkInvestigation, PkEscalated, PkBlocked} \<Longrightarrow> says_eligible st"
  by (simp add: says_eligible_def)

text \<open>The two gates over one context: the shared part, the world's part and the harness's own records.\<close>

lemma gates_agree:
  assumes "distinct (map dl_originRef (dx_deliveries (sx_ctx s)))"
    and "distinct (map ap_originRef (dx_appraisals (sx_ctx s)))"
    and "i_number i \<notin> set (dx_retainedIssues (sx_ctx s))"
  shows "issue_eligible s i \<longleftrightarrow> i_state i = IssueOpen \<and> openPrForIssue i (s_openPrs s) = None \<and>
    standing_clear (dp_digest (sx_opts s)) i (pickupCtx s runs headroom paused)"
  using assms
  by (simp add: issue_eligible_def standing_clear_def pickupCtx_def deliveryParked_def appraisalParked_def
      storedAppraisal_def index_by_lookup_distinct conj_ac)

lemma status_cases:
  obtains (ended) st where "endedStatus i ctx = Some st" "issuePickupStatus digest i ctx = st"
  | (planned) "endedStatus i ctx = None" "ps_kind (issuePickupStatus digest i ctx) = PkPlanning"
  | (pr) "endedStatus i ctx = None" "openPrForIssue i (cx_openPrs ctx) \<noteq> None" "ps_kind (issuePickupStatus digest i ctx) = PkHasPr"
  | (active) "endedStatus i ctx = None" "ps_kind (issuePickupStatus digest i ctx) = PkActive"
  | (standing) "endedStatus i ctx = None" "openPrForIssue i (cx_openPrs ctx) = None"
      "standingHoldStatus digest i (issueOrigin (i_number i)) ctx = Some (issuePickupStatus digest i ctx)"
  | (beyond) "endedStatus i ctx = None" "openPrForIssue i (cx_openPrs ctx) = None"
      "standingHoldStatus digest i (issueOrigin (i_number i)) ctx = None"
      "ps_kind (issuePickupStatus digest i ctx) \<in> {PkInvestigation, PkPlanning, PkEscalated, PkBlocked}"
proof (cases "endedStatus i ctx")
  case None
  show thesis
  proof (cases "planGateStatus (status_route i ctx) (status_plan i ctx) (status_parts (status_plan i ctx) ctx)")
    case (Some st)
    with None gated_kind [OF Some] show thesis by (intro planned) (simp_all add: issuePickupStatus_def)
  next
    case gate: None
    show thesis
    proof (cases "openPrForIssue i (cx_openPrs ctx)")
      case (Some p)
      with None gate show thesis by (intro pr) (simp_all add: issuePickupStatus_def)
    next
      case noPr: None
      show thesis
      proof (cases "activeStatus (issueOrigin (i_number i)) ctx")
        case (Some st)
        with None gate noPr active_kind [OF Some] show thesis by (intro active) (simp_all add: issuePickupStatus_def)
      next
        case idle: None
        show thesis
        proof (cases "standingHoldStatus digest i (issueOrigin (i_number i)) ctx")
          case (Some st)
          with None gate noPr idle show thesis by (intro standing) (simp_all add: issuePickupStatus_def)
        next
          case clear: None
          have "ps_kind (issuePickupStatus digest i ctx) \<in> {PkInvestigation, PkPlanning, PkEscalated, PkBlocked}"
            using None gate noPr idle clear route_kinds [of i ctx "status_route i ctx"]
              investigation_some [of i ctx "investigationStanding (cx_investigations ctx) (i_number i)"]
            by (auto simp: issuePickupStatus_def split: option.splits)
          with None noPr clear show thesis by (rule beyond)
        qed
      qed
    qed
  qed
qed (simp add: ended issuePickupStatus_def)


definition busy_stage :: stage where
  "busy_stage = (stage0 [issue0 7])\<lparr>sx_ctx := (ctx0 [issue0 7])
     \<lparr>dx_appraisals := [\<lparr>ap_originRef = ''issue:7'', ap_verdict = Workable, ap_goalRef = [CHR 0x00], ap_by = ByAppraiser,
        ap_proposedProfile = None, ap_profileAnsweredAt = None, ap_proposedParent = None, ap_parentSettledAt = None,
        ap_proposedAreaPath = None, ap_areaPathSettledAt = None\<rparr>],
      dx_deliveries := [\<lparr>dl_originRef = ''issue:8'', dl_summary = '''', dl_by = ByAssessor, dl_decidedAt = 0,
        dl_updatedAt = None\<rparr>]\<rparr>\<rparr>"


end
