(* ===== verification/Rules.thy ===== *)
theory Rules
  imports Stage
begin

text \<open>
  The contract every stage of the pipeline keeps: a rule only appends to the raw actions and to the
  candidates (\<^verbatim>\<open>src/src/dispatcher/rules/context.ts\<close>). A rule satisfies \<open>appends C R\<close> when all it appends
  satisfies \<open>C\<close> and \<open>R\<close>; the lemmas follow the shape of the rules' code, a loop over a list whose body
  returns early, pushes an action or considers a candidate. Also here: the actions the rules build.
\<close>

section \<open>Appending\<close>

named_theorems append_rules

definition appends :: "(candidate \<Rightarrow> bool) \<Rightarrow> (action \<Rightarrow> bool) \<Rightarrow> stage_state \<Rightarrow> stage_state \<Rightarrow> bool" where
  "appends C R st st' \<longleftrightarrow> (\<exists>cs rs. ss_candidates st' = ss_candidates st @ cs \<and> ss_raw st' = ss_raw st @ rs \<and>
     list_all C cs \<and> list_all R rs)"

lemma appends_refl [append_rules]: "appends C R st st"
  by (auto simp: appends_def)

lemma appends_trans: "appends C R st st' \<Longrightarrow> appends C R st' st'' \<Longrightarrow> appends C R st st''"
  by (fastforce simp: appends_def)

lemma appends_mono:
  "appends C R st st' \<Longrightarrow> (\<And>c. C c \<Longrightarrow> C' c) \<Longrightarrow> (\<And>a. R a \<Longrightarrow> R' a) \<Longrightarrow> appends C' R' st st'"
  unfolding appends_def by (metis (mono_tags, lifting) list.pred_mono_strong)

lemma appends_raw [append_rules]: "R a \<Longrightarrow> appends C R st (push_raw a st)"
  by (auto simp: appends_def push_raw_def)

lemma appends_candidate [append_rules]: "C c \<Longrightarrow> appends C R st (push_candidate c st)"
  by (auto simp: appends_def push_candidate_def)

lemma appends_marks [append_rules]:
  "appends C R st (add_appraising n st')  = appends C R st st'"
  "appends C R st (add_investigating n st') = appends C R st st'"
  by (simp_all add: appends_def add_appraising_def add_investigating_def)

lemma appends_foldl:
  "(\<And>st x. x \<in> set xs \<Longrightarrow> appends C R st (f st x)) \<Longrightarrow> appends C R st (foldl f st xs)"
proof (induction xs arbitrary: st)
  case (Cons x xs)
  from Cons.prems have "appends C R st (f st x)" by simp
  moreover from Cons have "appends C R (f st x) (foldl f (f st x) xs)" by simp
  ultimately show ?case by (simp add: appends_trans)
qed (simp add: appends_refl)

lemma foldl_invariant:
  "I a \<Longrightarrow> (\<And>a x. I a \<Longrightarrow> x \<in> set xs \<Longrightarrow> I (f a x)) \<Longrightarrow> I (foldl f a xs)"
  by (induction xs arbitrary: a) auto

text \<open>What a candidate considered becomes, and the action raised at the cap.\<close>

lemma considerWith_appends:
  assumes "C c" and "C (c\<lparr>cd_held := Some HeldCooldown\<rparr>)" and "\<And>f n. escalate = Some f \<Longrightarrow> R (f n)"
  shows "appends C R st (snd (considerWith s c escalate ds st))"
  using assms
  by (auto simp: considerWith_def appends_refl appends_raw appends_candidate split: dispatch_verdict.split option.split)

lemma consider_appends [append_rules]:
  "C c \<Longrightarrow> C (c\<lparr>cd_held := Some HeldCooldown\<rparr>) \<Longrightarrow> appends C R st (stage_consider s c st)"
  unfolding stage_consider_def by (rule considerWith_appends) simp_all

lemma appendsD:
  assumes "appends C R st st'"
  shows "c \<in> set (ss_candidates st') \<Longrightarrow> c \<in> set (ss_candidates st) \<or> C c"
    and "a \<in> set (ss_raw st') \<Longrightarrow> a \<in> set (ss_raw st) \<or> R a"
  using assms by (auto simp: appends_def list_all_iff)

section \<open>The contract of a rule\<close>

text \<open>
  A rule of the pipeline: from any state it appends only candidates of its own rules, well formed, and
  actions of its own rules that dispatch no agent. What it says of a candidate beyond that is \<open>claim\<close>.
\<close>

definition wf_candidate :: "candidate \<Rightarrow> bool" where
  "wf_candidate c \<longleftrightarrow>
     a_originRef (cd_action c) = Some (cd_origin c) \<and> a_rule (cd_action c) = Some (cd_rule c) \<and>
     a_branch (cd_action c) = cd_branch c \<and>
     a_type (cd_action c) = (if cd_kind c = CodeTask then DispatchCodeAgent else DispatchDeskAgent)"

definition no_dispatch :: "action \<Rightarrow> bool" where
  "no_dispatch a \<longleftrightarrow> a_type a \<noteq> DispatchCodeAgent \<and> a_type a \<noteq> DispatchDeskAgent"

locale stage_rule =
  fixes stage :: "stage \<Rightarrow> stage_state \<Rightarrow> stage_state"
    and own :: "rule_id set"
    and claim :: "stage \<Rightarrow> candidate \<Rightarrow> bool"
  assumes runs: "appends (\<lambda>c. cd_rule c \<in> own \<and> wf_candidate c \<and> claim s c) no_dispatch st (stage s st)"
begin

lemma candidates_of:
  "c \<in> set (ss_candidates (stage s st)) \<Longrightarrow> c \<in> set (ss_candidates st) \<or> cd_rule c \<in> own \<and> wf_candidate c \<and> claim s c"
  using appendsD(1) [OF runs] by blast

lemma raw_of: "a \<in> set (ss_raw (stage s st)) \<Longrightarrow> a \<in> set (ss_raw st) \<or> no_dispatch a"
  using appendsD(2) [OF runs] by blast

lemma keeps_all:
  "(\<And>c. c \<in> set (ss_candidates st) \<Longrightarrow> P c) \<Longrightarrow> (\<And>c. cd_rule c \<in> own \<Longrightarrow> wf_candidate c \<Longrightarrow> claim s c \<Longrightarrow> P c) \<Longrightarrow>
     c \<in> set (ss_candidates (stage s st)) \<Longrightarrow> P c"
  using candidates_of by blast

end

section \<open>The actions rules build\<close>

definition dispatch_action :: "task_kind \<Rightarrow> string \<Rightarrow> rule_id \<Rightarrow> action" where
  "dispatch_action k origin rule =
     (new_action (if k = CodeTask then DispatchCodeAgent else DispatchDeskAgent))
       \<lparr>a_originRef := Some origin, a_rule := Some rule\<rparr>"

text \<open>A read-only checkout of \<open>of_ref\<close> under the lease \<open>name\<close>, the fields \<^verbatim>\<open>readOnlyDispatch\<close> spreads in.\<close>

definition readOnlyDispatch :: "string \<Rightarrow> string \<Rightarrow> action \<Rightarrow> action" where
  "readOnlyDispatch name of_ref a = a\<lparr>a_branch := Some name, a_base := Some of_ref, a_readOnly := True\<rparr>"

definition candidate_of :: "task_kind \<Rightarrow> string \<Rightarrow> rule_id \<Rightarrow> action \<Rightarrow> candidate" where
  "candidate_of k origin rule a =
     \<lparr>cd_origin = origin, cd_rule = rule, cd_kind = k, cd_branch = a_branch a, cd_action = a, cd_held = None\<rparr>"

definition read_only_candidate :: "string \<Rightarrow> rule_id \<Rightarrow> string \<Rightarrow> string \<Rightarrow> candidate" where
  "read_only_candidate origin rule branch of_ref =
     candidate_of CodeTask origin rule (readOnlyDispatch branch of_ref (dispatch_action CodeTask origin rule))"

definition desk_candidate :: "string \<Rightarrow> rule_id \<Rightarrow> candidate" where
  "desk_candidate origin rule = candidate_of DeskTask origin rule (dispatch_action DeskTask origin rule)"

definition escalation_of :: "string \<Rightarrow> rule_id \<Rightarrow> action" where
  "escalation_of contextOrigin rule =
     (new_action EscalateToHuman)\<lparr>a_contextOrigin := Some contextOrigin, a_rule := Some rule\<rparr>"

definition cap_escalation :: "string \<Rightarrow> rule_id \<Rightarrow> action" where
  "cap_escalation contextOrigin rule = (escalation_of contextOrigin rule)\<lparr>a_admission := Some CooldownEscalate\<rparr>"

lemmas build_defs = dispatch_action_def readOnlyDispatch_def candidate_of_def read_only_candidate_def
  desk_candidate_def new_action_def

lemma wf_built [simp]:
  "wf_candidate (read_only_candidate origin rule branch of_ref)"
  "wf_candidate (desk_candidate origin rule)"
  "wf_candidate (c\<lparr>cd_held := h\<rparr>) = wf_candidate c"
  by (simp_all add: wf_candidate_def build_defs)

lemma built_fields [simp]:
  "cd_origin (read_only_candidate origin rule branch of_ref) = origin"
  "cd_rule (read_only_candidate origin rule branch of_ref) = rule"
  "cd_kind (read_only_candidate origin rule branch of_ref) = CodeTask"
  "cd_branch (read_only_candidate origin rule branch of_ref) = Some branch"
  "cd_held (read_only_candidate origin rule branch of_ref) = None"
  "a_readOnly (cd_action (read_only_candidate origin rule branch of_ref))"
  "cd_origin (desk_candidate origin rule) = origin"
  "cd_rule (desk_candidate origin rule) = rule"
  "cd_kind (desk_candidate origin rule) = DeskTask"
  "cd_branch (desk_candidate origin rule) = None"
  "cd_held (desk_candidate origin rule) = None"
  by (simp_all add: build_defs)

lemma escalations_dispatch_nothing [simp]:
  "no_dispatch (escalation_of ref rule)" "no_dispatch (cap_escalation ref rule)"
  by (simp_all add: no_dispatch_def escalation_of_def cap_escalation_def new_action_def)

lemma no_dispatch_new: "no_dispatch (new_action t) \<longleftrightarrow> t \<noteq> DispatchCodeAgent \<and> t \<noteq> DispatchDeskAgent"
  by (simp add: no_dispatch_def new_action_def)

text \<open>Some origin at or under the issue is already worked, the test several rules make before they start.\<close>

definition subtree_active :: "stage \<Rightarrow> nat \<Rightarrow> bool" where
  "subtree_active s n =
     list_ex (\<lambda>o'. o' = issueOrigin n \<or> starts_with (issueOrigin n @ '':'') o') (s_active s)"

end
