(* ===== verification/IssueRules.thy ===== *)
theory IssueRules
  imports Rules
begin

text \<open>
  The rules that carry an issue from its goal to its write-up (\<^verbatim>\<open>src/src/dispatcher/rules/\<close>): the
  operator's jobs, the appraisal, the investigation, the plan, the assessment, the shortfall and the
  retrospective. Each is a loop over the pulse's issues, written as a fold of its body.
\<close>

section \<open>Operator-launched jobs\<close>

definition jobBranch :: "job \<Rightarrow> string option" where
  "jobBranch j = (if jb_kind j = CodeTask then Some (default_to (''job/'' @ jb_id j) (jb_branch j)) else None)"

definition manual_candidate :: "job \<Rightarrow> candidate" where
  "manual_candidate j =
     (let origin = ''job:'' @ jb_id j in
      candidate_of (jb_kind j) origin ManualJob
        ((dispatch_action (jb_kind j) origin ManualJob)\<lparr>a_branch := jobBranch j, a_jobId := Some (jb_id j)\<rparr>))"

definition manualJob :: "stage \<Rightarrow> stage_state \<Rightarrow> stage_state" where
  "manualJob s st =
     foldl (\<lambda>st j. if ''job:'' @ jb_id j \<in> set (s_active s) then st else push_candidate (manual_candidate j) st)
       st (dx_queuedJobs (sx_ctx s))"

section \<open>The appraisal\<close>

definition appraisal_candidate :: "stage \<Rightarrow> nat \<Rightarrow> candidate" where
  "appraisal_candidate s n =
     read_only_candidate (appraisalOrigin n) RuleAppraisal (appraisalBranch n) (dp_defaultBranch (sx_opts s))"

definition appraise_issue :: "stage \<Rightarrow> stage_state \<Rightarrow> issue \<Rightarrow> stage_state" where
  "appraise_issue s st i =
     (let n = i_number i; c = appraisal_candidate s n in
      if isAppraised (dp_digest (sx_opts s)) (storedAppraisal s n) i then st
      else if hasWorkStarted n (dx_tasks (sx_ctx s)) then st
      else if plansByOrigin s (issueOrigin n) \<noteq> None then st
      else if appraisalOrigin n \<in> set (s_active s) then add_appraising n st
      else if subtree_active s n then st
      else case issueHold s n True of
          Some h \<Rightarrow> push_candidate (c\<lparr>cd_held := Some (held_by h)\<rparr>) st
        | None \<Rightarrow>
            (case considerWith s c None (dx_recentDecisions (sx_ctx s)) st of
               (claimed, st') \<Rightarrow> if claimed then add_appraising n st' else st'))"

definition issueAppraisal :: "stage \<Rightarrow> stage_state \<Rightarrow> stage_state" where
  "issueAppraisal s st = foldl (appraise_issue s) st (map fst (eligibleIssues s))"

section \<open>The investigation\<close>

definition investigation_candidate :: "stage \<Rightarrow> nat \<Rightarrow> candidate" where
  "investigation_candidate s n =
     read_only_candidate (investigateOrigin n) RuleInvestigate (investigateBranch n) (dp_defaultBranch (sx_opts s))"

definition investigate_issue :: "stage \<Rightarrow> stage_state \<Rightarrow> issue \<Rightarrow> stage_state" where
  "investigate_issue s st i =
     (let n = i_number i; standing = investigationStanding (investigations s) n; c = investigation_candidate s n in
      if \<not> is_labelled standing \<or> is_inForce standing \<noteq> None then st
      else if n \<in> set (ss_appraising st) then st
      else if plansByOrigin s (issueOrigin n) \<noteq> None then st
      else if hasWorkStarted n (dx_tasks (sx_ctx s)) then st
      else if investigateOrigin n \<in> set (s_active s) then add_investigating n st
      else if list_ex (\<lambda>o'. issueSubtreeNumber o' = Some n) (s_active s) then st
      else case issueHold s n True of
          Some h \<Rightarrow> add_investigating n (push_candidate (c\<lparr>cd_held := Some (held_by h)\<rparr>) st)
        | None \<Rightarrow>
            (case considerWith s c None (dx_recentDecisions (sx_ctx s)) st of
               (claimed, st') \<Rightarrow> if claimed then add_investigating n st' else st'))"

definition issueInvestigate :: "stage \<Rightarrow> stage_state \<Rightarrow> stage_state" where
  "issueInvestigate s st = foldl (investigate_issue s) st (map fst (eligibleIssues s))"

text \<open>Whether the planner stands aside for the investigation.\<close>

definition investigationSupersedes :: "stage \<Rightarrow> stage_state \<Rightarrow> nat \<Rightarrow> bool" where
  "investigationSupersedes s st n =
     (let standing = investigationStanding (investigations s) n in
      if \<not> is_labelled standing then False
      else if n \<in> set (ss_investigating st) then True
      else is_hold standing \<noteq> None)"

section \<open>The plan\<close>

definition planHold :: "stage \<Rightarrow> stage_state \<Rightarrow> nat \<Rightarrow> planner_state \<Rightarrow> rule_held option" where
  "planHold s st n planner =
     (if n \<in> set (ss_appraising st) then Some HeldSuperseded
      else if investigationSupersedes s st n then Some HeldSuperseded
      else case issueHold s n True of
          Some h \<Rightarrow> Some (held_by h)
        | None \<Rightarrow> (if planner = PlannerCooldown then Some HeldCooldown else None))"

definition escalatePlanner :: "stage \<Rightarrow> nat \<Rightarrow> stage_state \<Rightarrow> stage_state" where
  "escalatePlanner s n st =
     (if planHold s st n PlannerDispatch \<noteq> None then st
      else push_raw (cap_escalation (planOrigin n) RulePlan) st)"

definition plan_candidate :: "stage \<Rightarrow> nat \<Rightarrow> rule_held option \<Rightarrow> candidate" where
  "plan_candidate s n held =
     (read_only_candidate (planOrigin n) RulePlan (planBranch n) (dp_defaultBranch (sx_opts s)))\<lparr>cd_held := held\<rparr>"

definition plan_issue :: "stage \<Rightarrow> stage_state \<Rightarrow> issue \<Rightarrow> stage_state" where
  "plan_issue s st i =
     (let n = i_number i in
      case map_of (planRoutes s) n of
        Some (RouteEscalated raise) \<Rightarrow> (if raise \<noteq> None then escalatePlanner s n st else st)
      | Some (RoutePlanning planner) \<Rightarrow>
          (if planOrigin n \<in> set (s_active s) then st
           else push_candidate (plan_candidate s n (planHold s st n planner)) st)
      | _ \<Rightarrow> st)"

definition issuePlan :: "stage \<Rightarrow> stage_state \<Rightarrow> stage_state" where
  "issuePlan s st = foldl (plan_issue s) st (map fst (eligibleIssues s))"

section \<open>The assessment\<close>

definition assess_candidate :: "stage \<Rightarrow> nat \<Rightarrow> candidate" where
  "assess_candidate s n =
     read_only_candidate (assessOrigin n) RuleAssess (assessBranch n) (dp_defaultBranch (sx_opts s))"

definition assessable :: "stage \<Rightarrow> issue \<Rightarrow> bool" where
  "assessable s i \<longleftrightarrow>
     \<not> (i_state i \<noteq> IssueOpen \<and> i_number i \<notin> set (dx_retainedIssues (sx_ctx s))) \<and>
     issueWatchGateReason i (s_pickup s) = None \<and> openPrForIssue i (s_openPrs s) = None \<and> \<not> deliveryParked s i \<and>
     hasPriorWork (i_number i) (dx_tasks (sx_ctx s)) \<and>
     (case plansByOrigin s (issueOrigin (i_number i)) of None \<Rightarrow> False | Some p \<Rightarrow> \<not> planInFlight p) \<and>
     assessOrigin (i_number i) \<notin> set (s_active s) \<and> \<not> subtree_active s (i_number i)"

definition issueAssess :: "stage \<Rightarrow> stage_state \<Rightarrow> stage_state" where
  "issueAssess s st =
     foldl (\<lambda>st i. if assessable s i then stage_consider s (assess_candidate s (i_number i)) st else st) st (s_issues s)"

section \<open>The retrospective\<close>

definition retroOrigin :: "nat \<Rightarrow> string" where
  "retroOrigin n = issueOriginRef Retro n None"

definition retroable :: "stage \<Rightarrow> issue \<Rightarrow> bool" where
  "retroable s i \<longleftrightarrow>
     issueWatchGateReason i (s_pickup s) = None \<and> issueOrigin (i_number i) \<notin> set (dx_retrospectives (sx_ctx s)) \<and>
     deliveryParked s i \<and> \<not> subtree_active s (i_number i)"

definition issueRetro :: "stage \<Rightarrow> stage_state \<Rightarrow> stage_state" where
  "issueRetro s st =
     foldl (\<lambda>st i. if retroable s i then stage_consider s (desk_candidate (retroOrigin (i_number i)) RuleRetro) st else st)
       st (s_issues s)"

section \<open>The shortfall\<close>

definition shortfallRef :: "nat \<Rightarrow> string" where
  "shortfallRef n = issueOriginRef ShortfallFam n None"

definition live_watched :: "stage \<Rightarrow> nat \<Rightarrow> issue option" where
  "live_watched s n =
     (case liveIssue s n of
        None \<Rightarrow> None
      | Some i \<Rightarrow> if i_state i = IssueOpen \<and> issueWatchGateReason i (s_pickup s) = None then Some i else None)"

definition act_shortfall :: "stage \<Rightarrow> stage_state \<Rightarrow> shortfall \<Rightarrow> stage_state" where
  "act_shortfall s st sf =
     (case planIssueNumber (sf_originRef sf) of
        None \<Rightarrow> st
      | Some n \<Rightarrow>
          if live_watched s n = None then st
          else let pl = plansByOrigin s (issueOrigin n); arm = shortfallArm (sf_cause sf) (pl \<noteq> None); ref = shortfallRef n in
            if arm = ArmNone then st
            else if arm = ArmEscalate then
              (if askedAlready ref (dx_openEscalations (sx_ctx s)) (dx_recentDecisions (sx_ctx s)) then st
               else push_raw ((escalation_of ref RuleShortfall)\<lparr>a_number := Some n\<rparr>) st)
            else if proposalHold ShortfallAct ref (dx_proposals (sx_ctx s)) (dx_rejectionSignals (sx_ctx s)) (dx_clock (sx_ctx s)) \<noteq> None
              then st
            else case pl of
                None \<Rightarrow> st
              | Some p \<Rightarrow> push_raw ((new_action ProposeShortfall)\<lparr>a_originRef := Some (sf_originRef sf), a_number := Some n,
                    a_planId := Some (pl_id p), a_rule := Some RuleShortfall\<rparr>) st)"

definition issueShortfall :: "stage \<Rightarrow> stage_state \<Rightarrow> stage_state" where
  "issueShortfall s st = foldl (act_shortfall s) st (dx_shortfalls (sx_ctx s))"

section \<open>What the rules offer\<close>

text \<open>
  A read-only agent for an issue that passed the gate of the pulse, the claim of the three rules before
  the plan.
\<close>

definition eligible_read :: "(nat \<Rightarrow> string) \<Rightarrow> stage \<Rightarrow> candidate \<Rightarrow> bool" where
  "eligible_read origin s c \<longleftrightarrow> a_readOnly (cd_action c) \<and>
     (\<exists>i. i \<in> set (s_issues s) \<and> issue_eligible s i \<and> cd_origin c = origin (i_number i))"

lemma eligible_members: "i \<in> fst ` set (eligibleIssues s) \<longleftrightarrow> i \<in> set (s_issues s) \<and> issue_eligible s i"
  by (force simp: eligibleIssues_def)

lemma eligible_readI:
  "i \<in> fst ` set (eligibleIssues s) \<Longrightarrow> cd_origin c = origin (i_number i) \<Longrightarrow> a_readOnly (cd_action c) \<Longrightarrow> eligible_read origin s c"
  unfolding eligible_read_def eligible_members by blast

lemma eligible_read_held [simp]: "eligible_read origin s (c\<lparr>cd_held := h\<rparr>) = eligible_read origin s c"
  by (simp add: eligible_read_def)

interpretation manual_rule: stage_rule manualJob "{ManualJob}"
  "\<lambda>s c. \<exists>j. j \<in> set (dx_queuedJobs (sx_ctx s)) \<and> c = manual_candidate j"
proof
  fix s st
  show "appends (\<lambda>c. cd_rule c \<in> {ManualJob} \<and> wf_candidate c \<and>
      (\<exists>j. j \<in> set (dx_queuedJobs (sx_ctx s)) \<and> c = manual_candidate j)) no_dispatch st (manualJob s st)"
    unfolding manualJob_def
    by (rule appends_foldl)
      (auto intro!: append_rules simp: manual_candidate_def Let_def build_defs wf_candidate_def)
qed

lemma appraise_issue_appends:
  assumes "C (appraisal_candidate s (i_number i))"
    and "\<And>h. C ((appraisal_candidate s (i_number i))\<lparr>cd_held := h\<rparr>)"
  shows "appends C no_dispatch st (appraise_issue s st i)"
  using assms considerWith_appends [of C "appraisal_candidate s (i_number i)" None no_dispatch st s "dx_recentDecisions (sx_ctx s)"]
  by (auto simp: appraise_issue_def Let_def append_rules split: option.split prod.split)

interpretation appraisal_rule: stage_rule issueAppraisal "{RuleAppraisal}" "eligible_read appraisalOrigin"
proof
  fix s st
  show "appends (\<lambda>c. cd_rule c \<in> {RuleAppraisal} \<and> wf_candidate c \<and> eligible_read appraisalOrigin s c) no_dispatch st
      (issueAppraisal s st)"
    unfolding issueAppraisal_def
    by (rule appends_foldl, rule appraise_issue_appends)
      (auto simp: appraisal_candidate_def intro: eligible_readI)
qed

lemma investigate_issue_appends:
  assumes "C (investigation_candidate s (i_number i))"
    and "\<And>h. C ((investigation_candidate s (i_number i))\<lparr>cd_held := h\<rparr>)"
  shows "appends C no_dispatch st (investigate_issue s st i)"
  using assms considerWith_appends [of C "investigation_candidate s (i_number i)" None no_dispatch st s "dx_recentDecisions (sx_ctx s)"]
  by (auto simp: investigate_issue_def Let_def append_rules split: option.split prod.split)

interpretation investigation_rule: stage_rule issueInvestigate "{RuleInvestigate}" "eligible_read investigateOrigin"
proof
  fix s st
  show "appends (\<lambda>c. cd_rule c \<in> {RuleInvestigate} \<and> wf_candidate c \<and> eligible_read investigateOrigin s c) no_dispatch st
      (issueInvestigate s st)"
    unfolding issueInvestigate_def
    by (rule appends_foldl, rule investigate_issue_appends)
      (auto simp: investigation_candidate_def intro: eligible_readI)
qed

interpretation plan_rule: stage_rule issuePlan "{RulePlan}" "eligible_read planOrigin"
proof
  fix s st
  show "appends (\<lambda>c. cd_rule c \<in> {RulePlan} \<and> wf_candidate c \<and> eligible_read planOrigin s c) no_dispatch st (issuePlan s st)"
    unfolding issuePlan_def
    by (rule appends_foldl)
      (auto simp: plan_issue_def escalatePlanner_def plan_candidate_def Let_def split: option.split plan_route.split
        intro!: append_rules intro: eligible_readI)
qed

text \<open>The assessment and the write-up ask the same of an issue they ask of any: that it is watched.\<close>

definition watched_read :: "(nat \<Rightarrow> string) \<Rightarrow> stage \<Rightarrow> candidate \<Rightarrow> bool" where
  "watched_read origin s c \<longleftrightarrow> (cd_kind c = CodeTask \<longrightarrow> a_readOnly (cd_action c)) \<and>
     (\<exists>i. i \<in> set (s_issues s) \<and> issueWatchGateReason i (s_pickup s) = None \<and> cd_origin c = origin (i_number i))"

lemma watched_read_held [simp]: "watched_read origin s (c\<lparr>cd_held := h\<rparr>) = watched_read origin s c"
  by (simp add: watched_read_def)

interpretation assess_rule: stage_rule issueAssess "{RuleAssess}" "watched_read assessOrigin"
proof
  fix s st
  show "appends (\<lambda>c. cd_rule c \<in> {RuleAssess} \<and> wf_candidate c \<and> watched_read assessOrigin s c) no_dispatch st (issueAssess s st)"
    unfolding issueAssess_def
    by (rule appends_foldl) (auto simp: assess_candidate_def assessable_def watched_read_def intro!: append_rules)
qed

interpretation retro_rule: stage_rule issueRetro "{RuleRetro}" "watched_read retroOrigin"
proof
  fix s st
  show "appends (\<lambda>c. cd_rule c \<in> {RuleRetro} \<and> wf_candidate c \<and> watched_read retroOrigin s c) no_dispatch st (issueRetro s st)"
    unfolding issueRetro_def
    by (rule appends_foldl) (auto simp: retroable_def watched_read_def intro!: append_rules)
qed

text \<open>A rule that only asks or proposes offers no candidate at all.\<close>

interpretation shortfall_rule: stage_rule issueShortfall "{}" "\<lambda>s c. False"
proof
  fix s st
  show "appends (\<lambda>c. cd_rule c \<in> {} \<and> wf_candidate c \<and> False) no_dispatch st (issueShortfall s st)"
    unfolding issueShortfall_def
    by (rule appends_foldl)
      (auto simp: act_shortfall_def Let_def no_dispatch_def escalation_of_def new_action_def
        split: option.split intro!: append_rules)
qed

end
