(* ===== verification/Reconciler.thy ===== *)
theory Reconciler
  imports PlanLifecycle
begin

text \<open>
  One pulse of \<^verbatim>\<open>src/src/plans/planReconciler.ts\<close> over a plan: what its pull requests and its tasks say of
  each part is folded into the rows, every part that waits is gated on its branch, on a declined ask and
  on what it depends on, and the plan's status is rolled up. What git knows of a branch is a pair of
  functions the theory is parameterised by, in place of the \<^verbatim>\<open>GitObserver\<close>; posting the status comment
  and recording a blocked plan are input and output and are not modelled. The theory shows that a part
  the pulse leaves ready can be branched off one base that already holds everything it depends on.
\<close>

record branch_presence =
  bp_local :: bool
  bp_remote :: bool

record git_view =
  gv_presence :: "string \<Rightarrow> branch_presence"
  gv_hasCommitsBeyond :: "string \<Rightarrow> string \<Rightarrow> bool"

definition part_branch_of :: "nat \<Rightarrow> plan_part \<Rightarrow> string" where
  "part_branch_of n p = default_to (partBranch n (pp_slug p)) (pp_branch p)"

definition foldPr :: "plan_part \<Rightarrow> nat \<Rightarrow> pull_request list \<Rightarrow> pull_request list \<Rightarrow> part_patch option" where
  "foldPr p n prs closedPrs = observePartPr p (part_branch_of n p) prs closedPrs"

definition foldStalled :: "plan_part \<Rightarrow> task list \<Rightarrow> part_patch option" where
  "foldStalled p tasks =
     (if pp_status p \<noteq> PartDispatched then None
      else case find (\<lambda>t. Some (tk_id t) = pp_taskId p) tasks of
          None \<Rightarrow> Some (no_patch\<lparr>pt_status := Some PartReady\<rparr>)
        | Some t \<Rightarrow> (if isActiveTask t then None else Some (no_patch\<lparr>pt_status := Some PartReady\<rparr>)))"

definition observe_part ::
  "nat \<Rightarrow> pull_request list \<Rightarrow> pull_request list \<Rightarrow> task list \<Rightarrow> plan_part \<Rightarrow> part_patch option" where
  "observe_part n prs closedPrs tasks p =
     (if partIsHuman p then None
      else if pp_status p = PartRetired \<or> pp_status p = PartConcluded then None
      else or_else (foldPr p n prs closedPrs) (foldStalled p tasks))"

definition foldObservations ::
  "plan_part list \<Rightarrow> nat \<Rightarrow> pull_request list \<Rightarrow> pull_request list \<Rightarrow> task list \<Rightarrow> (string, part_patch) jsmap" where
  "foldObservations parts n prs closedPrs tasks =
     foldl (\<lambda>m p. case observe_part n prs closedPrs tasks p of None \<Rightarrow> m | Some c \<Rightarrow> map_put (pp_slug p) c m) [] parts"

definition patched :: "(string, part_patch) jsmap \<Rightarrow> plan_part \<Rightarrow> plan_part" where
  "patched m p = (case map_of m (pp_slug p) of None \<Rightarrow> p | Some c \<Rightarrow> apply_patch p c)"

definition awaitsGate :: "plan_part \<Rightarrow> bool" where
  "awaitsGate p \<longleftrightarrow> pp_status p = PartPending \<or> pp_status p = PartReady \<or> pp_status p = PartBlocked"

definition readiness :: "git_view \<Rightarrow> string \<Rightarrow> nat \<Rightarrow> part_index \<Rightarrow> plan_part \<Rightarrow> part_status" where
  "readiness git defaultBranch n idx p =
     (let deps = dependenciesOf p idx in
      if deps = [] then PartReady
      else let unsettled = filter (\<lambda>d. \<not> partSettled d) deps in
        if 1 < length unsettled then PartPending
        else let pushed = map_from (map (\<lambda>d. (pp_slug d, gv_hasCommitsBeyond git (part_branch_of n d) defaultBranch)) unsettled) in
          if list_all (\<lambda>dep. dependencySatisfied dep (\<lambda>d. map_of pushed (pp_slug d) = Some True)) deps
          then PartReady else PartPending)"

definition collidesWith :: "bool \<Rightarrow> nat \<Rightarrow> plan_part \<Rightarrow> bool" where
  "collidesWith flatTaken n p \<longleftrightarrow> flatTaken \<and> \<not> partIsHuman p \<and> part_branch_of n p \<noteq> issue_branch n"

definition blockReason :: "part_blocker option \<Rightarrow> plan_part \<Rightarrow> nat \<Rightarrow> branch_presence \<Rightarrow> blocked_reason option" where
  "blockReason blockedBy p n presence =
     (case blockedBy of
        Some Collision \<Rightarrow> Some (CollisionReason n (bp_remote presence))
      | Some Declined \<Rightarrow> Some (DeclinedReason (pp_title p))
      | None \<Rightarrow> None)"

text \<open>The gate of one part: what stands in its way, and the status that leaves it with.\<close>

definition gate_blocker :: "branch_presence \<Rightarrow> string list \<Rightarrow> nat \<Rightarrow> plan_part \<Rightarrow> part_blocker option" where
  "gate_blocker presence declined n p =
     (if collidesWith (bp_local presence \<or> bp_remote presence) n p then Some Collision
      else if pp_id p \<in> set declined then Some Declined else None)"

definition gate_part ::
  "git_view \<Rightarrow> string \<Rightarrow> string list \<Rightarrow> nat \<Rightarrow> part_index \<Rightarrow> (string, part_patch) jsmap \<Rightarrow> plan_part \<Rightarrow> (string, part_patch) jsmap" where
  "gate_part git defaultBranch declined n idx next p =
     (if \<not> awaitsGate p then next
      else let presence = gv_presence git (issue_branch n);
               blockedBy = gate_blocker presence declined n p;
               st = (if blockedBy \<noteq> None then PartBlocked else readiness git defaultBranch n idx p);
               reason = blockReason blockedBy p n presence
           in if st \<noteq> pp_status p \<or> reason \<noteq> pp_blockedReason p \<or> blockedBy \<noteq> pp_blockedBy p
              then map_put (pp_slug p) ((default_to no_patch (map_of next (pp_slug p)))
                     \<lparr>pt_status := Some st, pt_blockedReason := Some reason, pt_blockedBy := Some blockedBy\<rparr>) next
              else next)"

definition differs :: "plan_part \<Rightarrow> part_patch \<Rightarrow> bool" where
  "differs p c \<longleftrightarrow> apply_patch p c \<noteq> p"

definition write_step :: "int \<Rightarrow> (string, part_patch) jsmap \<Rightarrow> plan_db \<Rightarrow> plan_part \<Rightarrow> plan_db" where
  "write_step ts next db p =
     (case map_of next (pp_slug p) of
        None \<Rightarrow> db
      | Some c \<Rightarrow> (if differs p c then updatePlanPart ts (pp_id p) c db else db))"

definition writePatches :: "int \<Rightarrow> plan_part list \<Rightarrow> (string, part_patch) jsmap \<Rightarrow> plan_db \<Rightarrow> plan_db" where
  "writePatches ts parts next db = foldl (write_step ts next) db parts"

definition declined_parts :: "plan_db \<Rightarrow> plan_part list \<Rightarrow> string list" where
  "declined_parts db parts = List.map_filter ht_partId
     (filter (\<lambda>t. ht_status t = HumanDeclined) (listHumanTasksForParts db (map pp_id (filter partIsHuman parts))))"

definition reconcile_patches ::
  "git_view \<Rightarrow> string \<Rightarrow> nat \<Rightarrow> pull_request list \<Rightarrow> pull_request list \<Rightarrow> task list \<Rightarrow> string list \<Rightarrow> plan_part list
     \<Rightarrow> (string, part_patch) jsmap" where
  "reconcile_patches git defaultBranch n prs closedPrs tasks declined parts =
     (let next = foldObservations parts n prs closedPrs tasks;
          observed = map (patched next) parts
      in foldl (gate_part git defaultBranch declined n (bySlug observed)) next observed)"

definition reconcilePlan ::
  "int \<Rightarrow> git_view \<Rightarrow> string \<Rightarrow> pull_request list \<Rightarrow> pull_request list \<Rightarrow> task list \<Rightarrow> plan \<Rightarrow> plan_db \<Rightarrow> plan_db" where
  "reconcilePlan ts git defaultBranch prs closedPrs tasks pl db =
     (case planIssueNumber (pl_originRef pl) of
        None \<Rightarrow> db
      | Some n \<Rightarrow>
          let parts = listPlanParts db (pl_id pl);
              next = reconcile_patches git defaultBranch n prs closedPrs tasks (declined_parts db parts) parts
          in snd (rollUpPlanStatus ts (pl_id pl) (writePatches ts parts next db)))"

definition reconcile ::
  "int \<Rightarrow> git_view \<Rightarrow> string \<Rightarrow> pull_request list \<Rightarrow> pull_request list \<Rightarrow> task list \<Rightarrow> plan_db \<Rightarrow> plan_db" where
  "reconcile ts git defaultBranch prs closedPrs tasks db =
     foldl (\<lambda>d pl. reconcilePlan ts git defaultBranch prs closedPrs tasks pl d) db
       (filter (\<lambda>pl. pl_status pl \<in> {Active, Complete, AwaitingApproval}) (db_plans db))"

section \<open>The rows a pulse leaves\<close>

definition observed_part ::
  "nat \<Rightarrow> pull_request list \<Rightarrow> pull_request list \<Rightarrow> task list \<Rightarrow> plan_part \<Rightarrow> plan_part" where
  "observed_part n prs closedPrs tasks p =
     (case observe_part n prs closedPrs tasks p of None \<Rightarrow> p | Some c \<Rightarrow> apply_patch p c)"

definition gated ::
  "git_view \<Rightarrow> string \<Rightarrow> string list \<Rightarrow> nat \<Rightarrow> part_index \<Rightarrow> plan_part \<Rightarrow> plan_part" where
  "gated git defaultBranch declined n idx p =
     (if \<not> awaitsGate p then p
      else let presence = gv_presence git (issue_branch n); blockedBy = gate_blocker presence declined n p
           in p\<lparr>pp_status := (if blockedBy \<noteq> None then PartBlocked else readiness git defaultBranch n idx p),
                pp_blockedReason := blockReason blockedBy p n presence, pp_blockedBy := blockedBy\<rparr>)"

lemma apply_patch_keys [simp]: "pp_slug (apply_patch p c) = pp_slug p" "pp_id (apply_patch p c) = pp_id p"
  "pp_planId (apply_patch p c) = pp_planId p" "pp_dependsOn (apply_patch p c) = pp_dependsOn p"
  "pp_expectedKind (apply_patch p c) = pp_expectedKind p" "pp_title (apply_patch p c) = pp_title p"
  "row_key (apply_patch p c) = row_key p" "pp_seq (apply_patch p c) = pp_seq p"
  by (simp_all add: apply_patch_def row_key_def)

lemma patched_keys [simp]: "pp_slug (patched m p) = pp_slug p" "pp_id (patched m p) = pp_id p"
  by (simp_all add: patched_def split: option.splits)

lemma observations_lookup:
  "distinct (map pp_slug parts) \<Longrightarrow>
     map_of (foldObservations parts n prs closedPrs tasks) s =
       (case find (\<lambda>p. pp_slug p = s) parts of None \<Rightarrow> None | Some p \<Rightarrow> observe_part n prs closedPrs tasks p)"
proof (induction parts rule: rev_induct)
  case (snoc p parts)
  have new: "find (\<lambda>q. pp_slug q = pp_slug p) parts = None"
    using snoc.prems by (auto simp: find_None_iff' image_iff)
  have rec: "foldObservations (parts @ [p]) n prs closedPrs tasks =
      (case observe_part n prs closedPrs tasks p of None \<Rightarrow> foldObservations parts n prs closedPrs tasks
       | Some c \<Rightarrow> map_put (pp_slug p) c (foldObservations parts n prs closedPrs tasks))"
    unfolding foldObservations_def by simp
  from snoc new show ?case
    by (auto simp: rec find_snoc map_of_map_put split: option.splits)
qed (simp add: foldObservations_def)

lemma find_key: "distinct (map f xs) \<Longrightarrow> x \<in> set xs \<Longrightarrow> find (\<lambda>y. f y = f x) xs = Some x"
  by (induction xs) (auto simp: rev_image_eqI)

lemma patched_observation:
  "distinct (map pp_slug parts) \<Longrightarrow> p \<in> set parts \<Longrightarrow>
     patched (foldObservations parts n prs closedPrs tasks) p = observed_part n prs closedPrs tasks p"
  by (simp add: patched_def observed_part_def observations_lookup find_key)

lemma gate_other: "pp_slug q \<noteq> s \<Longrightarrow> map_of (gate_part git b dc n idx m q) s = map_of m s"
  by (simp add: gate_part_def Let_def map_of_map_put)

lemma gate_fold_other:
  "s \<notin> pp_slug ` set qs \<Longrightarrow> map_of (foldl (gate_part git b dc n idx) m qs) s = map_of m s"
  by (induction qs arbitrary: m) (auto simp: gate_other)

lemma apply_patch_override:
  "apply_patch p (c\<lparr>pt_status := Some st, pt_blockedReason := Some r, pt_blockedBy := Some b\<rparr>) =
     (apply_patch p c)\<lparr>pp_status := st, pp_blockedReason := r, pp_blockedBy := b\<rparr>"
  by (simp add: apply_patch_def)

lemma apply_no_patch [simp]: "apply_patch p no_patch = p"
  by (simp add: apply_patch_def no_patch_def)

lemma same_fields: "st = pp_status q \<Longrightarrow> r = pp_blockedReason q \<Longrightarrow> b = pp_blockedBy q \<Longrightarrow>
    q\<lparr>pp_status := st, pp_blockedReason := r, pp_blockedBy := b\<rparr> = q"
  by simp

lemma gate_lookup:
  assumes "pp_slug q = pp_slug p"
    and "apply_patch p (default_to no_patch (map_of m (pp_slug p))) = q"
  shows "patched (gate_part git b dc n idx m q) p = (if \<not> awaitsGate q then patched m p
     else let presence = gv_presence git (issue_branch n); blockedBy = gate_blocker presence dc n q;
              st = (if blockedBy \<noteq> None then PartBlocked else readiness git b n idx q);
              reason = blockReason blockedBy q n presence
          in if st \<noteq> pp_status q \<or> reason \<noteq> pp_blockedReason q \<or> blockedBy \<noteq> pp_blockedBy q
             then q\<lparr>pp_status := st, pp_blockedReason := reason, pp_blockedBy := blockedBy\<rparr> else patched m p)"
  unfolding gate_part_def Let_def patched_def
  by (simp only: assms(1) if_distrib [of "\<lambda>m. case map_of m (pp_slug p) of None \<Rightarrow> p | Some c \<Rightarrow> apply_patch p c"]
      map_of_map_put simp_thms(6) if_True option.case apply_patch_override assms(2) cong: if_cong)

lemma patched_default: "apply_patch p (default_to no_patch (map_of m (pp_slug p))) = patched m p"
  by (simp add: patched_def split: option.split)

lemma patched_gate:
  "patched (gate_part git b dc n idx m (patched m p)) p = gated git b dc n idx (patched m p)"
  unfolding gate_lookup [OF patched_keys(1) patched_default] gated_def Let_def
  using same_fields [of _ "patched m p"] by (auto simp only: split: if_split)

lemma patched_lookup_cong: "map_of m (pp_slug p) = map_of m' (pp_slug p) \<Longrightarrow> patched m p = patched m' p"
  by (simp add: patched_def)

lemma gate_fold_patched:
  assumes "distinct (map pp_slug parts)" and "p \<in> set parts"
  shows "patched (foldl (gate_part git b dc n idx) m (map (patched m) parts)) p = gated git b dc n idx (patched m p)"
proof -
  obtain us vs where parts: "parts = us @ p # vs" using assms(2) by (meson split_list)
  let ?step = "gate_part git b dc n idx"
  define m1 where "m1 = foldl ?step m (map (patched m) us)"
  define m2 where "m2 = ?step m1 (patched m p)"
  have "map_of m1 (pp_slug p) = map_of m (pp_slug p)"
    unfolding m1_def by (rule gate_fold_other) (use assms(1) parts in \<open>auto simp: image_iff\<close>)
  then have same: "patched m1 p = patched m p" by (rule patched_lookup_cong)
  have "map_of (foldl ?step m2 (map (patched m) vs)) (pp_slug p) = map_of m2 (pp_slug p)"
    by (rule gate_fold_other) (use assms(1) parts in \<open>auto simp: image_iff\<close>)
  then have "patched (foldl ?step m (map (patched m) parts)) p = patched m2 p"
    by (intro patched_lookup_cong) (simp add: parts m1_def m2_def)
  also have "\<dots> = gated git b dc n idx (patched m1 p)"
    unfolding m2_def same [symmetric] by (rule patched_gate)
  finally show ?thesis by (simp add: same)
qed

text \<open>What one pulse makes of a part, in closed form.\<close>

lemma reconcile_patches_row:
  assumes "distinct (map pp_slug parts)" and "p \<in> set parts"
  shows "patched (reconcile_patches git b n prs closedPrs tasks dc parts) p =
     gated git b dc n (bySlug (map (observed_part n prs closedPrs tasks) parts)) (observed_part n prs closedPrs tasks p)"
proof -
  have "map (patched (foldObservations parts n prs closedPrs tasks)) parts = map (observed_part n prs closedPrs tasks) parts"
    using patched_observation [OF assms(1)] by simp
  then show ?thesis
    unfolding reconcile_patches_def Let_def
    using gate_fold_patched [OF assms] patched_observation [OF assms] by metis
qed

section \<open>The rows a pulse writes\<close>

definition written_part :: "int \<Rightarrow> (string, part_patch) jsmap \<Rightarrow> plan_part \<Rightarrow> plan_part" where
  "written_part ts m p = (if patched m p \<noteq> p then (patched m p)\<lparr>pp_updatedAt := ts\<rparr> else p)"

lemma written_keys [simp]: "pp_slug (written_part ts m p) = pp_slug p" "pp_id (written_part ts m p) = pp_id p"
  "pp_planId (written_part ts m p) = pp_planId p" "row_key (written_part ts m p) = row_key p"
  by (auto simp: written_part_def patched_def row_key_def apply_patch_def split: option.splits)

lemma write_step_rows:
  assumes "parts_ok (db_parts db)" and "p \<in> set (db_parts db)"
  shows "db_parts (write_step ts m db p) =
    map (\<lambda>r. if pp_id r = pp_id p then written_part ts m r else r) (db_parts db)"
proof -
  have eq: "r = p" if "r \<in> set (db_parts db)" "pp_id r = pp_id p" for r
    using parts_ok_id [OF assms(1) that(1) assms(2) that(2)] .
  have same: "map (\<lambda>r. if pp_id r = pp_id p then written_part ts m r else r) (db_parts db) = db_parts db"
    if "patched m p = p"
  proof (rule map_idI)
    fix r assume "r \<in> set (db_parts db)"
    with eq [OF this] that show "(if pp_id r = pp_id p then written_part ts m r else r) = r"
      by (cases "pp_id r = pp_id p") (auto simp: written_part_def)
  qed
  show ?thesis
  proof (cases "patched m p = p")
    case True
    then have "write_step ts m db p = db"
      by (auto simp: write_step_def differs_def patched_def split: option.splits)
    with same [OF True] show ?thesis by simp
  next
    case False
    then obtain c where c: "map_of m (pp_slug p) = Some c" "apply_patch p c \<noteq> p" "patched m p = apply_patch p c"
      by (auto simp: patched_def split: option.splits)
    have "(if pp_id r = pp_id p then (apply_patch r c)\<lparr>pp_updatedAt := ts\<rparr> else r) =
        (if pp_id r = pp_id p then written_part ts m r else r)" if "r \<in> set (db_parts db)" for r
      using eq [OF that] c by (cases "pp_id r = pp_id p") (auto simp: written_part_def)
    then show ?thesis
      using c by (simp add: write_step_def differs_def updatePlanPart_def update_where_def)
  qed
qed

lemma write_step_ok: "parts_ok (db_parts db) \<Longrightarrow> p \<in> set (db_parts db) \<Longrightarrow> parts_ok (db_parts (write_step ts m db p))"
proof -
  assume ok: "parts_ok (db_parts db)" and p: "p \<in> set (db_parts db)"
  have "map row_key (db_parts (write_step ts m db p)) = map row_key (db_parts db)"
    unfolding write_step_rows [OF ok p] by simp
  moreover have "plan_id_ok (pp_planId r) \<and> pp_id r = part_key (pp_planId r) (pp_slug r)"
    if "r \<in> set (db_parts (write_step ts m db p))" for r
    using that ok unfolding write_step_rows [OF ok p] parts_ok_def list_all_iff by auto
  ultimately show ?thesis using ok by (auto simp: parts_ok_def list_all_iff)
qed

lemma writePatches_rows:
  assumes "parts_ok (db_parts db)" and "distinct (map pp_id ps)" and "set ps \<subseteq> set (db_parts db)"
  shows "db_parts (writePatches ts ps m db) =
    map (\<lambda>r. if pp_id r \<in> pp_id ` set ps then written_part ts m r else r) (db_parts db)"
  using assms
proof (induction ps arbitrary: db)
  case (Cons p ps)
  let ?db = "write_step ts m db p"
  have p: "p \<in> set (db_parts db)" using Cons.prems(3) by simp
  note rows = write_step_rows [OF Cons.prems(1) p, of ts m]
  have "set ps \<subseteq> set (db_parts ?db)"
    using Cons.prems(2,3) unfolding rows by (force simp: image_iff)
  with Cons have IH: "db_parts (writePatches ts ps m ?db) =
      map (\<lambda>r. if pp_id r \<in> pp_id ` set ps then written_part ts m r else r) (db_parts ?db)"
    using write_step_ok [OF Cons.prems(1) p] by simp
  have "pp_id p \<notin> pp_id ` set ps" using Cons.prems(2) by auto
  with IH show ?case
    by (auto simp: writePatches_def rows)
qed (simp add: writePatches_def)

text \<open>What the pulse leaves of one part, and its relation to what was observed of it.\<close>

lemma readiness_cases: "readiness git b n idx p = PartReady \<or> readiness git b n idx p = PartPending"
  by (simp add: readiness_def Let_def)

lemma gated_keys [simp]: "pp_slug (gated git b dc n idx p) = pp_slug p" "pp_id (gated git b dc n idx p) = pp_id p"
  "pp_dependsOn (gated git b dc n idx p) = pp_dependsOn p"
  "pp_expectedKind (gated git b dc n idx p) = pp_expectedKind p"
  by (simp_all add: gated_def Let_def)

lemma settled_gated: "partSettled (gated git b dc n idx p) = partSettled p"
  "pp_status p = PartDispatched \<or> pp_status p = PartInReview \<Longrightarrow> gated git b dc n idx p = p"
  "part_branch_of n' (gated git b dc n idx p) = part_branch_of n' p"
  using readiness_cases [of git b n idx p]
  by (auto simp: gated_def Let_def partSettled_def awaitsGate_def part_branch_of_def)

lemma gated_active: "pp_status (gated git b dc n idx p) = PartDispatched \<or> pp_status (gated git b dc n idx p) = PartInReview
    \<longleftrightarrow> pp_status p = PartDispatched \<or> pp_status p = PartInReview"
  by (auto simp: gated_def Let_def readiness_def awaitsGate_def split: if_splits)

lemma gated_ready:
  assumes "pp_status (gated git b dc n idx p) = PartReady"
  shows "gate_blocker (gv_presence git (issue_branch n)) dc n p = None \<and> readiness git b n idx p = PartReady"
  using assms by (auto simp: gated_def Let_def awaitsGate_def split: if_splits)

definition same_but_time :: "plan_part \<Rightarrow> plan_part \<Rightarrow> bool" where
  "same_but_time p q \<longleftrightarrow> p\<lparr>pp_updatedAt := 0\<rparr> = q\<lparr>pp_updatedAt := 0\<rparr>"

lemma same_but_timeD:
  assumes "same_but_time p q"
  shows "pp_status p = pp_status q" "pp_branch p = pp_branch q" "pp_slug p = pp_slug q" "pp_id p = pp_id q"
    "pp_dependsOn p = pp_dependsOn q" "pp_expectedKind p = pp_expectedKind q" "partSettled p = partSettled q"
    "part_branch_of n p = part_branch_of n q" "partIsHuman p = partIsHuman q"
proof -
  have *: "f (p\<lparr>pp_updatedAt := 0\<rparr>) = f (q\<lparr>pp_updatedAt := 0\<rparr>)" for f :: "plan_part \<Rightarrow> 'b"
    using assms by (simp only: same_but_time_def)
  show "pp_status p = pp_status q" "pp_branch p = pp_branch q" "pp_slug p = pp_slug q" "pp_id p = pp_id q"
    "pp_dependsOn p = pp_dependsOn q" "pp_expectedKind p = pp_expectedKind q"
    using * [of pp_status] * [of pp_branch] * [of pp_slug] * [of pp_id] * [of pp_dependsOn] * [of pp_expectedKind] by auto
  then show "partSettled p = partSettled q" "part_branch_of n p = part_branch_of n q" "partIsHuman p = partIsHuman q"
    by (auto simp: partSettled_def part_branch_of_def partIsHuman_def)
qed

lemma written_same: "same_but_time (written_part ts m p) (patched m p)"
  by (simp add: written_part_def same_but_time_def)

lemma bySlug_iff: "distinct (map pp_slug rows) \<Longrightarrow> map_of (bySlug rows) s = Some r \<longleftrightarrow> r \<in> set rows \<and> pp_slug r = s"
  using bySlug_part [of rows r] index_by_Some [of pp_slug rows s r] by (auto simp: bySlug_def)

lemma plan_slugs_distinct: "parts_ok (db_parts db) \<Longrightarrow> distinct (map pp_slug (listPlanParts db i))"
proof -
  assume ok: "parts_ok (db_parts db)"
  then have "distinct (listPlanParts db i)" by (auto simp: listPlanParts_def parts_ok_def distinct_map)
  then show ?thesis
    using ok by (auto simp: distinct_map inj_on_def part_of_plan parts_ok_def row_key_def)
qed

lemma deps_of_map:
  assumes d: "distinct (map pp_slug rows)" and f: "\<And>r. pp_slug (f r) = pp_slug r" and q: "pp_dependsOn q = pp_dependsOn p"
    and rows': "set rows' = f ` set rows" and d': "distinct (map pp_slug rows')"
  shows "dependenciesOf q (bySlug rows') = map f (dependenciesOf p (bySlug rows))"
proof -
  have "map_of (bySlug rows') s = map_option f (map_of (bySlug rows) s)" for s
  proof (cases "map_of (bySlug rows) s")
    case None
    then have "s \<notin> pp_slug ` set rows" by (simp add: bySlug_def index_by_None)
    then have "s \<notin> pp_slug ` set rows'" using rows' f by auto
    with None show ?thesis by (simp add: bySlug_def index_by_None [THEN iffD2])
  next
    case (Some r)
    then have "r \<in> set rows" "pp_slug r = s" using bySlug_iff [OF d] by auto
    then have "map_of (bySlug rows') s = Some (f r)" using bySlug_iff [OF d'] rows' f by auto
    with Some show ?thesis by simp
  qed
  then have look: "map_of (bySlug rows') = (\<lambda>s. map_option f (map_of (bySlug rows) s))" by (rule ext)
  have mf: "List.map_filter (\<lambda>s. map_option f (g s)) xs = map f (List.map_filter g xs)" for g :: "string \<Rightarrow> plan_part option" and xs
    by (induction xs) (auto simp: map_filter_simps split: option.splits)
  show ?thesis by (simp only: dependenciesOf_def q look mf)
qed

lemma readiness_ready:
  assumes "readiness git b n idx p = PartReady"
  shows "length (filter (\<lambda>d. \<not> partSettled d) (dependenciesOf p idx)) \<le> 1 \<and>
    (\<forall>d \<in> set (dependenciesOf p idx). \<not> partSettled d \<longrightarrow>
      (pp_status d = PartDispatched \<or> pp_status d = PartInReview) \<and> gv_hasCommitsBeyond git (part_branch_of n d) b)"
proof (cases "dependenciesOf p idx = []")
  case False
  let ?deps = "dependenciesOf p idx" and ?un = "filter (\<lambda>d. \<not> partSettled d) (dependenciesOf p idx)"
  let ?pushed = "map_from (map (\<lambda>d. (pp_slug d, gv_hasCommitsBeyond git (part_branch_of n d) b)) ?un)"
  have one: "length ?un \<le> 1" and sat: "list_all (\<lambda>dep. dependencySatisfied dep (\<lambda>d. map_of ?pushed (pp_slug d) = Some True)) ?deps"
    using assms False by (auto simp: readiness_def Let_def split: if_splits)
  have "(pp_status d = PartDispatched \<or> pp_status d = PartInReview) \<and> gv_hasCommitsBeyond git (part_branch_of n d) b"
    if d: "d \<in> set ?deps" "\<not> partSettled d" for d
  proof -
    have "d \<in> set ?un" using d by simp
    with one have un: "?un = [d]" by (cases ?un) auto
    from sat d have "dependencySatisfied d (\<lambda>d. map_of ?pushed (pp_slug d) = Some True)" by (simp add: list_all_iff)
    with d(2) show ?thesis unfolding un by (auto simp: dependencySatisfied_def map_from_def split: if_splits)
  qed
  with one show ?thesis by blast
qed simp

section \<open>A ready part has one base\<close>

lemma find_only: "length (filter P xs) \<le> 1 \<Longrightarrow> x \<in> set xs \<Longrightarrow> P x \<Longrightarrow> find P xs = Some x"
proof (induction xs)
  case (Cons y ys)
  show ?case
  proof (cases "P y")
    case True
    with Cons.prems(1) have "filter P ys = []" by simp
    with Cons.prems True show ?thesis by (auto simp: filter_empty_conv)
  next
    case False
    with Cons show ?thesis by auto
  qed
qed simp

lemma reconciled_rows:
  assumes ok: "ids_ok db" and n: "planIssueNumber (pl_originRef pl) = Some n"
    and m: "m = reconcile_patches git b n prs closedPrs tasks (declined_parts db (listPlanParts db (pl_id pl))) (listPlanParts db (pl_id pl))"
    and db': "db' = reconcilePlan ts git b prs closedPrs tasks pl db"
  shows "parts_ok (db_parts db')"
    and "set (listPlanParts db' (pl_id pl)) = written_part ts m ` set (listPlanParts db (pl_id pl))"
proof -
  let ?parts = "listPlanParts db (pl_id pl)"
  have pok: "parts_ok (db_parts db)" using ok by (simp add: ids_ok_def)
  have "db_parts db' = db_parts (writePatches ts ?parts m db)"
    by (simp add: db' reconcilePlan_def n Let_def m touch_simps)
  also have "\<dots> = map (\<lambda>r. if pp_id r \<in> pp_id ` set ?parts then written_part ts m r else r) (db_parts db)"
    by (rule writePatches_rows [OF pok listed_ids [OF pok]]) (auto simp: part_of_plan)
  also have "\<dots> = map (\<lambda>r. if pp_planId r = pl_id pl then written_part ts m r else r) (db_parts db)"
  proof (rule map_cong [OF refl])
    fix r assume r: "r \<in> set (db_parts db)"
    have "pp_id r \<in> pp_id ` set ?parts \<longleftrightarrow> pp_planId r = pl_id pl"
    proof
      assume "pp_id r \<in> pp_id ` set ?parts"
      then obtain x where x: "x \<in> set ?parts" "pp_id r = pp_id x" by blast
      then have "x \<in> set (db_parts db)" "pp_planId x = pl_id pl" by (simp_all add: part_of_plan)
      with parts_ok_id [OF pok r _ x(2)] show "pp_planId r = pl_id pl" by simp
    next
      assume "pp_planId r = pl_id pl"
      with r have "r \<in> set ?parts" by (simp add: part_of_plan)
      then show "pp_id r \<in> pp_id ` set ?parts" by (rule imageI)
    qed
    then show "(if pp_id r \<in> pp_id ` set ?parts then written_part ts m r else r) =
        (if pp_planId r = pl_id pl then written_part ts m r else r)" by simp
  qed
  finally have rows: "db_parts db' = map (\<lambda>r. if pp_planId r = pl_id pl then written_part ts m r else r) (db_parts db)" .
  have "map row_key (db_parts db') = map row_key (db_parts db)" by (simp add: rows)
  moreover have "plan_id_ok (pp_planId r) \<and> pp_id r = part_key (pp_planId r) (pp_slug r)" if r: "r \<in> set (db_parts db')" for r
  proof -
    obtain r0 where r0: "r0 \<in> set (db_parts db)" "r = (if pp_planId r0 = pl_id pl then written_part ts m r0 else r0)"
      using r unfolding rows by auto
    have "pp_planId r = pp_planId r0" "pp_slug r = pp_slug r0" "pp_id r = pp_id r0" unfolding r0(2) by simp_all
    moreover have "plan_id_ok (pp_planId r0) \<and> pp_id r0 = part_key (pp_planId r0) (pp_slug r0)"
      using pok r0(1) unfolding parts_ok_def list_all_iff by blast
    ultimately show ?thesis by simp
  qed
  ultimately show "parts_ok (db_parts db')" using pok by (auto simp: parts_ok_def list_all_iff)
  show "set (listPlanParts db' (pl_id pl)) = written_part ts m ` set ?parts"
  proof (rule set_eqI)
    fix r
    have "r \<in> set (listPlanParts db' (pl_id pl)) \<longleftrightarrow>
        (\<exists>x \<in> set (db_parts db). r = (if pp_planId x = pl_id pl then written_part ts m x else x) \<and> pp_planId r = pl_id pl)"
      unfolding part_of_plan rows by (simp only: set_map image_iff) blast
    also have "\<dots> \<longleftrightarrow> (\<exists>x \<in> set (db_parts db). pp_planId x = pl_id pl \<and> r = written_part ts m x)"
      by (rule bex_cong [OF refl]) (auto split: if_splits)
    also have "\<dots> \<longleftrightarrow> r \<in> written_part ts m ` set ?parts"
      unfolding image_iff by (auto simp: part_of_plan)
    finally show "r \<in> set (listPlanParts db' (pl_id pl)) \<longleftrightarrow> r \<in> written_part ts m ` set ?parts" .
  qed
qed

text \<open>
  C11. After a pulse, a part of the plan that stands ready: nothing blocks it (its branch is free of the
  issue's flat branch, and no declined ask is its own), at most one of the parts it depends on is not
  settled, and that one is being worked, has pushed commits and is exactly the branch \<open>partBase\<close> picks.
  Everything else it depends on is settled, so the one base holds all of it.
\<close>

theorem ready_part_has_one_base:
  assumes ok: "ids_ok db" and n: "planIssueNumber (pl_originRef pl) = Some n"
    and db': "db' = reconcilePlan ts git defaultBranch prs closedPrs tasks pl db"
    and q: "q \<in> set (listPlanParts db' (pl_id pl))" and ready: "pp_status q = PartReady"
  shows "\<not> collidesWith (bp_local (gv_presence git (issue_branch n)) \<or> bp_remote (gv_presence git (issue_branch n))) n q
    \<and> pp_id q \<notin> set (declined_parts db (listPlanParts db (pl_id pl)))
    \<and> length (filter (\<lambda>d. \<not> partSettled d) (dependenciesOf q (bySlug (listPlanParts db' (pl_id pl))))) \<le> 1
    \<and> list_all (\<lambda>d. partSettled d \<or>
        ((pp_status d = PartDispatched \<or> pp_status d = PartInReview)
         \<and> gv_hasCommitsBeyond git (part_branch_of n d) defaultBranch
         \<and> partBase q (bySlug (listPlanParts db' (pl_id pl))) n defaultBranch = part_branch_of n d))
      (dependenciesOf q (bySlug (listPlanParts db' (pl_id pl))))"
proof -
  let ?parts = "listPlanParts db (pl_id pl)" and ?dc = "declined_parts db (listPlanParts db (pl_id pl))"
  define m where "m = reconcile_patches git defaultBranch n prs closedPrs tasks ?dc ?parts"
  let ?obs = "observed_part n prs closedPrs tasks"
  define idx where "idx = bySlug (map ?obs ?parts)"
  note rows = reconciled_rows [OF ok n m_def db']
  have pok: "parts_ok (db_parts db)" using ok by (simp add: ids_ok_def)
  note slugs = plan_slugs_distinct [OF pok, of "pl_id pl"]
  note slugs' = plan_slugs_distinct [OF rows(1), of "pl_id pl"]
  have fin: "same_but_time (written_part ts m r) (gated git defaultBranch ?dc n idx (?obs r))" if "r \<in> set ?parts" for r
    using written_same [of ts m r] reconcile_patches_row [OF slugs that, of git defaultBranch n prs closedPrs tasks ?dc]
    by (simp add: m_def idx_def)
  have obs_slug: "pp_slug (?obs r) = pp_slug r" "pp_dependsOn (?obs r) = pp_dependsOn r" "pp_id (?obs r) = pp_id r" for r
    by (simp_all add: observed_part_def split: option.splits)
  obtain p where p: "p \<in> set ?parts" "q = written_part ts m p" using q rows(2) by auto
  let ?g = "gated git defaultBranch ?dc n idx (?obs p)"
  note same = same_but_timeD [OF fin [OF p(1)], folded p(2)]
  have gr: "gate_blocker (gv_presence git (issue_branch n)) ?dc n (?obs p) = None"
    "readiness git defaultBranch n idx (?obs p) = PartReady"
    using gated_ready [of git defaultBranch ?dc n idx "?obs p"] ready same(1) by auto
  have id: "pp_id q = pp_id (?obs p)" using p(2) obs_slug by simp
  have branch: "part_branch_of n q = part_branch_of n (?obs p)" using same(8) settled_gated(3) by metis
  have human: "partIsHuman q = partIsHuman (?obs p)"
    using same(9) by (simp add: gated_def Let_def partIsHuman_def split: if_splits)
  have clear: "\<not> collidesWith (bp_local (gv_presence git (issue_branch n)) \<or> bp_remote (gv_presence git (issue_branch n))) n q"
    "pp_id q \<notin> set ?dc"
    using gr(1) branch human id by (auto simp: gate_blocker_def collidesWith_def split: if_splits)
  have mapped: "distinct (map pp_slug (map ?obs ?parts))" using slugs obs_slug by (simp add: o_def)
  have deps_q: "dependenciesOf q (bySlug (listPlanParts db' (pl_id pl))) = map (written_part ts m) (dependenciesOf p (bySlug ?parts))"
    by (rule deps_of_map [OF slugs _ _ rows(2) slugs']) (use same(5) obs_slug in simp_all)
  have deps_o: "dependenciesOf (?obs p) idx = map ?obs (dependenciesOf p (bySlug ?parts))"
    unfolding idx_def by (rule deps_of_map [OF slugs _ _ _ mapped]) (auto simp: obs_slug)
  let ?ds = "dependenciesOf p (bySlug ?parts)"
  have ds: "d \<in> set ?parts" if "d \<in> set ?ds" for d
    using dependenciesOf_in_index [OF that] bySlug_parts [OF slugs] by simp
  have settled: "partSettled (written_part ts m d) = partSettled (?obs d)" if "d \<in> set ?ds" for d
    using same_but_timeD(7) [OF fin [OF ds [OF that]]] settled_gated(1) by metis
  have branches: "part_branch_of n (written_part ts m d) = part_branch_of n (?obs d)" if "d \<in> set ?ds" for d
    using same_but_timeD(8) [OF fin [OF ds [OF that]]] settled_gated(3) by metis
  have active: "pp_status (written_part ts m d) = pp_status (?obs d)"
    if "d \<in> set ?ds" "pp_status (?obs d) = PartDispatched \<or> pp_status (?obs d) = PartInReview" for d
    using same_but_timeD(1) [OF fin [OF ds [OF that(1)]]] settled_gated(2) [OF that(2)] by metis
  note rd = readiness_ready [OF gr(2), unfolded deps_o]
  have "filter (\<lambda>d. \<not> partSettled d) (map (written_part ts m) ?ds) = map (written_part ts m) (filter (\<lambda>d. \<not> partSettled (?obs d)) ?ds)"
    using settled by (simp add: filter_map o_def cong: filter_cong)
  then have few: "length (filter (\<lambda>d. \<not> partSettled d) (map (written_part ts m) ?ds)) \<le> 1"
    using rd by (simp add: filter_map o_def)
  have "partSettled d \<or> ((pp_status d = PartDispatched \<or> pp_status d = PartInReview)
      \<and> gv_hasCommitsBeyond git (part_branch_of n d) defaultBranch
      \<and> partBase q (bySlug (listPlanParts db' (pl_id pl))) n defaultBranch = part_branch_of n d)"
    if d: "d \<in> set (map (written_part ts m) ?ds)" for d
  proof (cases "partSettled d")
    case False
    from d obtain e where e: "e \<in> set ?ds" "d = written_part ts m e" by auto
    with False settled have "\<not> partSettled (?obs e)" by simp
    with rd e(1) have "pp_status (?obs e) = PartDispatched \<or> pp_status (?obs e) = PartInReview"
      "gv_hasCommitsBeyond git (part_branch_of n (?obs e)) defaultBranch" by auto
    moreover have "find (\<lambda>d. \<not> partSettled d) (map (written_part ts m) ?ds) = Some d"
      by (rule find_only [OF few d False])
    then have "partBase q (bySlug (listPlanParts db' (pl_id pl))) n defaultBranch = part_branch_of n d"
      by (simp add: partBase_def deps_q part_branch_of_def)
    ultimately show ?thesis using active [OF e(1)] branches [OF e(1)] e(2) by simp
  qed simp
  with clear few show ?thesis by (simp only: deps_q list_all_iff) blast
qed

definition git0 :: git_view where
  "git0 = \<lparr>gv_presence = (\<lambda>_. \<lparr>bp_local = False, bp_remote = False\<rparr>), gv_hasCommitsBeyond = (\<lambda>_ _. True)\<rparr>"

definition two_parts :: plan_db where
  "two_parts = empty_db\<lparr>db_plans := [plan0 7 Active], db_parts :=
     [(part0 ''a'' [])\<lparr>pp_id := ''p1:a'', pp_status := PartDispatched, pp_branch := Some ''issue/7/a'', pp_taskId := Some ''t1''\<rparr>,
      (part0 ''b'' [''a''])\<lparr>pp_id := ''p1:b''\<rparr>]\<rparr>"

definition after_pulse :: plan_db where
  "after_pulse = reconcilePlan 5 git0 ''main'' [] [] [task0 ''t1'' TRunning] (plan0 7 Active) two_parts"

definition part_b :: plan_part where
  "part_b = (part0 ''b'' [''a''])\<lparr>pp_id := ''p1:b'', pp_status := PartReady, pp_updatedAt := 5\<rparr>"

lemma part_b_ready: "list_ex (\<lambda>q. q = part_b) (listPlanParts after_pulse ''p1'') \<and> dependenciesOf part_b (bySlug (listPlanParts after_pulse ''p1'')) \<noteq> []"
  by code_simp

theorem ready_part_has_one_base_witness:
  "list_all (\<lambda>d. partSettled d \<or> partBase part_b (bySlug (listPlanParts after_pulse ''p1'')) 7 ''main'' = part_branch_of 7 d)
     (dependenciesOf part_b (bySlug (listPlanParts after_pulse ''p1'')))"
proof -
  have "planIssueNumber (pl_originRef (plan0 7 Active)) = Some 7"
    by (simp add: plan0_def planIssueNumber_def root_number)
  moreover have "ids_ok two_parts"
    by (simp add: two_parts_def ids_ok_def parts_ok_def plan_ids_def plan_id_ok_def part0_def plan0_def part_key_def row_key_def empty_db_def)
  moreover have "part_b \<in> set (listPlanParts after_pulse (pl_id (plan0 7 Active)))"
    using part_b_ready by (simp add: list_ex_iff plan0_def)
  moreover have "pp_status part_b = PartReady" by (simp add: part_b_def)
  ultimately show ?thesis
    using ready_part_has_one_base [of two_parts "plan0 7 Active" 7 after_pulse 5 git0 "''main''" "[]" "[]" "[task0 ''t1'' TRunning]" part_b]
    by (auto simp: after_pulse_def list_all_iff plan0_def)
qed

section \<open>A step declared again\<close>

text \<open>
  A replan that drops a step for a person declines its ask, and the ask keeps that answer when a later
  replan declares the step again: the store finds the old ask and only rewrites its detail. The step
  comes back pending, and the next pulse blocks it as declined, although nobody declined it.
\<close>

definition doc_step :: "string \<Rightarrow> outcome_kind option \<Rightarrow> doc_part" where
  "doc_step slug k = \<lparr>dp_slug = slug, dp_title = slug, dp_scope = slug, dp_touches = [], dp_atoms = [], dp_size = None,
     dp_dependsOn = [], dp_rationale = None, dp_acceptance = None, dp_expectedKind = k, dp_profile = None, dp_coverage = None\<rparr>"

definition doc_of :: "doc_part list \<Rightarrow> plan_document" where
  "doc_of ps = \<lparr>pd_reason = ''r'', pd_diagnosis = None, pd_approach = None, pd_risks = None, pd_outOfScope = None,
     pd_alternatives = None, pd_openQuestions = None, pd_verification = None, pd_evidence = [], pd_document = None,
     pd_atoms = [], pd_parts = ps\<rparr>"

definition ids0 :: fresh_ids where
  "ids0 = \<lparr>fr_plan = ''p1'', fr_revision = ''r1'', fr_ask = (\<lambda>i. ''hum:'' @ i)\<rparr>"

definition submit :: "doc_part list \<Rightarrow> plan_db \<Rightarrow> plan_db" where
  "submit ps db = snd (ingestPlanDocument 1 ids0 (doc_of ps) ''issue:7'' ''t'' False db)"

definition thrice_planned :: plan_db where
  "thrice_planned = submit [doc_step ''s'' (Some KindHuman), doc_step ''o'' None]
     (submit [doc_step ''o'' None] (submit [doc_step ''s'' (Some KindHuman)] empty_db))"

lemma redeclared_step_comes_back_blocked:
  "map (\<lambda>p. (pp_slug p, pp_status p)) (listPlanParts thrice_planned ''p1'') = [(''s'', PartPending), (''o'', PartPending)] \<and>
   map (\<lambda>p. (pp_slug p, pp_status p, pp_blockedBy p))
     (listPlanParts (reconcilePlan 2 git0 ''main'' [] [] [] (plan0 7 Active) thrice_planned) ''p1'') =
     [(''s'', PartBlocked, Some Declined), (''o'', PartReady, None)]"
  by code_simp

end
