(* ===== verification/PlanRules.thy ===== *)
theory PlanRules
  imports IssueRules Reconciler
begin

text \<open>
  The rules over a plan (\<^verbatim>\<open>src/src/dispatcher/rules/\<close>): putting it and its amendments to the operator,
  asking about one that is wedged, and dispatching its parts under the concurrency cap.
\<close>

section \<open>Asking about a plan\<close>

text \<open>The issue number of a plan whose issue is live, open and watched, the guard the plan rules share.\<close>

definition plan_issue_number :: "stage \<Rightarrow> plan \<Rightarrow> nat option" where
  "plan_issue_number s p =
     (case planIssueNumber (pl_originRef p) of
        None \<Rightarrow> None
      | Some n \<Rightarrow> if live_watched s n = None then None else Some n)"

definition propose_plan :: "stage \<Rightarrow> stage_state \<Rightarrow> plan \<Rightarrow> stage_state" where
  "propose_plan s st p =
     (if pl_status p \<noteq> AwaitingApproval then st
      else if plan_issue_number s p = None then st
      else if planProposalHold (planProposalRef (pl_originRef p)) (dx_proposals (sx_ctx s)) \<noteq> None then st
      else push_raw ((new_action ProposePlan)\<lparr>a_planId := Some (pl_id p), a_originRef := Some (pl_originRef p),
        a_rule := Some RulePlanApproval\<rparr>) st)"

definition planApproval :: "stage \<Rightarrow> stage_state \<Rightarrow> stage_state" where
  "planApproval s st = foldl (propose_plan s) st (dx_plans (sx_ctx s))"

definition propose_amendment :: "stage \<Rightarrow> stage_state \<Rightarrow> amendment \<Rightarrow> stage_state" where
  "propose_amendment s st a =
     (if am_status a \<noteq> AmPending then st
      else case map_of (index_by pl_id (dx_plans (sx_ctx s))) (am_planId a) of
          None \<Rightarrow> st
        | Some p \<Rightarrow>
            if pl_status p \<noteq> Active then st
            else if plan_issue_number s p = None then st
            else if planAmendmentHold (planAmendmentProposalRef (am_id a)) (dx_proposals (sx_ctx s)) \<noteq> None then st
            else push_raw ((new_action ProposePlanAmendment)\<lparr>a_amendmentId := Some (am_id a), a_planId := Some (pl_id p),
              a_originRef := Some (pl_originRef p), a_rule := Some RulePlanAmendment\<rparr>) st)"

definition planAmendment :: "stage \<Rightarrow> stage_state \<Rightarrow> stage_state" where
  "planAmendment s st = foldl (propose_amendment s) st (dx_planAmendments (sx_ctx s))"

definition ask_about_wedged :: "stage \<Rightarrow> stage_state \<Rightarrow> plan \<Rightarrow> stage_state" where
  "ask_about_wedged s st p =
     (if pl_status p \<noteq> Active then st
      else case plan_issue_number s p of
          None \<Rightarrow> st
        | Some n \<Rightarrow>
            if \<not> planIsWedged (liveParts (partsOfPlan s p)) then st
            else if askedAlready (planOrigin n) (dx_openEscalations (sx_ctx s)) (dx_recentDecisions (sx_ctx s)) then st
            else push_raw (escalation_of (planOrigin n) RulePlanBlocked) st)"

definition planBlocked :: "stage \<Rightarrow> stage_state \<Rightarrow> stage_state" where
  "planBlocked s st = foldl (ask_about_wedged s) st (dx_plans (sx_ctx s))"

section \<open>Dispatching parts\<close>

record part_entry =
  pe_depth :: nat
  pe_issue :: nat
  pe_seq :: nat
  pe_candidate :: candidate

definition part_candidate :: "stage \<Rightarrow> nat \<Rightarrow> part_index \<Rightarrow> plan_part \<Rightarrow> rule_held option \<Rightarrow> candidate" where
  "part_candidate s n idx p held =
     (let origin = partOrigin n (pp_slug p);
          branch = default_to (partBranch n (pp_slug p)) (pp_branch p)
      in (candidate_of CodeTask origin RulePlanPart
           ((dispatch_action CodeTask origin RulePlanPart)\<lparr>a_branch := Some branch,
              a_base := Some (partBase p idx n (dp_defaultBranch (sx_opts s))), a_partId := Some (pp_id p)\<rparr>))
           \<lparr>cd_held := held\<rparr>)"

definition part_active :: "stage \<Rightarrow> nat \<Rightarrow> plan_part \<Rightarrow> bool" where
  "part_active s n p \<longleftrightarrow> partOrigin n (pp_slug p) \<in> set (s_active s)"

definition ready_parts :: "stage \<Rightarrow> nat \<Rightarrow> plan_part list \<Rightarrow> (plan_part \<times> nat) list" where
  "ready_parts s n parts =
     js_sort (cmp_or (by_key (\<lambda>x. int (snd x))) (by_key (\<lambda>x. int (pp_seq (fst x)))))
       (map (\<lambda>p. (p, partDepth p (bySlug parts)))
         (filter (\<lambda>p. \<not> partIsHuman p \<and> pp_status p = PartReady \<and> \<not> part_active s n p) parts))"

text \<open>One ready part: the room left, the entries so far and the escalations raised, threaded through.\<close>

definition offer_part ::
  "stage \<Rightarrow> bool \<Rightarrow> nat \<Rightarrow> part_index \<Rightarrow> rule_held option \<Rightarrow> int \<times> part_entry list \<times> stage_state \<Rightarrow> plan_part \<times> nat
     \<Rightarrow> int \<times> part_entry list \<times> stage_state" where
  "offer_part s unapproved n idx hold acc pd =
     (case (acc, pd) of ((room, entries, st), (p, depth)) \<Rightarrow>
        let entry = (\<lambda>held. \<lparr>pe_depth = depth, pe_issue = n, pe_seq = pp_seq p, pe_candidate = part_candidate s n idx p held\<rparr>);
            origin = partOrigin n (pp_slug p)
        in if unapproved then (room, entries @ [entry (Some HeldUnapproved)], st)
           else case dispatchVerdict origin (Instant (s_now s)) (dx_recentDecisions (sx_ctx s)) (dp_cooldown (sx_opts s)) of
               VHold \<Rightarrow> (room, entries, st)
             | VEscalate k \<Rightarrow> (room, entries, push_raw (cap_escalation origin RulePlanPart) st)
             | VCooldown \<Rightarrow> (room, entries @ [entry (Some HeldCooldown)], st)
             | VDispatch \<Rightarrow>
                 if room \<le> 0 then (room, entries @ [entry (Some HeldCapped)], st)
                 else (room - 1, entries @ [entry hold], st))"

definition planCandidates :: "stage \<Rightarrow> plan \<Rightarrow> nat \<Rightarrow> stage_state \<Rightarrow> part_entry list \<times> stage_state" where
  "planCandidates s pl n st =
     (let unapproved = (pl_status pl = AwaitingApproval);
          parts = liveParts (partsOfPlan s pl);
          inFlight = length (filter (part_active s n) parts);
          room = maxConcurrentPartsPerIssue (dp_planning (sx_opts s)) - int inFlight;
          hold = (if unapproved then None else map_option held_by (issueHold s n False))
      in snd (foldl (offer_part s unapproved n (bySlug parts) hold) (room, [], st) (ready_parts s n parts)))"

definition collect_plan :: "stage \<Rightarrow> part_entry list \<times> stage_state \<Rightarrow> plan \<Rightarrow> part_entry list \<times> stage_state" where
  "collect_plan s acc p =
     (if pl_status p \<noteq> Active \<and> pl_status p \<noteq> AwaitingApproval then acc
      else case plan_issue_number s p of
          None \<Rightarrow> acc
        | Some n \<Rightarrow> (case planCandidates s p n (snd acc) of (es, st) \<Rightarrow> (fst acc @ es, st)))"

definition entry_order :: "part_entry \<Rightarrow> part_entry \<Rightarrow> int" where
  "entry_order = cmp_or (by_key (\<lambda>e. int (pe_depth e)))
     (cmp_or (by_key (\<lambda>e. int (pe_issue e))) (by_key (\<lambda>e. int (pe_seq e))))"

definition planPart :: "stage \<Rightarrow> stage_state \<Rightarrow> stage_state" where
  "planPart s st =
     (case foldl (collect_plan s) ([], st) (dx_plans (sx_ctx s)) of
        (entries, st') \<Rightarrow> foldl (\<lambda>st e. push_candidate (pe_candidate e) st) st' (js_sort entry_order entries))"

section \<open>What the rules offer\<close>

interpretation approval_rule: stage_rule planApproval "{}" "\<lambda>s c. False"
proof
  fix s st
  show "appends (\<lambda>c. cd_rule c \<in> {} \<and> wf_candidate c \<and> False) no_dispatch st (planApproval s st)"
    unfolding planApproval_def
    by (rule appends_foldl) (auto simp: propose_plan_def no_dispatch_def new_action_def intro!: append_rules)
qed

interpretation amendment_rule: stage_rule planAmendment "{}" "\<lambda>s c. False"
proof
  fix s st
  show "appends (\<lambda>c. cd_rule c \<in> {} \<and> wf_candidate c \<and> False) no_dispatch st (planAmendment s st)"
    unfolding planAmendment_def
    by (rule appends_foldl)
      (auto simp: propose_amendment_def no_dispatch_def new_action_def split: option.split intro!: append_rules)
qed

interpretation blocked_rule: stage_rule planBlocked "{}" "\<lambda>s c. False"
proof
  fix s st
  show "appends (\<lambda>c. cd_rule c \<in> {} \<and> wf_candidate c \<and> False) no_dispatch st (planBlocked s st)"
    unfolding planBlocked_def
    by (rule appends_foldl) (auto simp: ask_about_wedged_def split: option.split intro!: append_rules)
qed

text \<open>
  A part is offered only for a plan that is active or waits for its approval, on an issue that is live,
  open and watched. It is a ready part for an agent; one of a plan that waits is held as unapproved.
\<close>

definition plan_entries :: "stage \<Rightarrow> plan \<Rightarrow> nat \<Rightarrow> part_entry list" where
  "plan_entries s pl n = fst (planCandidates s pl n empty_stage)"

definition part_offer :: "stage \<Rightarrow> candidate \<Rightarrow> bool" where
  "part_offer s c \<longleftrightarrow>
     (\<exists>pl n. pl \<in> set (dx_plans (sx_ctx s)) \<and> pl_status pl \<in> {Active, AwaitingApproval} \<and>
        plan_issue_number s pl = Some n \<and> c \<in> pe_candidate ` set (plan_entries s pl n))"

definition ready_offer :: "stage \<Rightarrow> plan \<Rightarrow> nat \<Rightarrow> candidate \<Rightarrow> bool" where
  "ready_offer s pl n c \<longleftrightarrow>
     (pl_status pl = AwaitingApproval \<longrightarrow> cd_held c = Some HeldUnapproved) \<and>
     (\<exists>p. p \<in> set (liveParts (partsOfPlan s pl)) \<and> pp_status p = PartReady \<and> \<not> partIsHuman p \<and> \<not> part_active s n p \<and>
        c = part_candidate s n (bySlug (liveParts (partsOfPlan s pl))) p (cd_held c))"

lemma part_candidate_fields [simp]:
  "cd_origin (part_candidate s n idx p h) = partOrigin n (pp_slug p)"
  "cd_rule (part_candidate s n idx p h) = RulePlanPart"
  "cd_kind (part_candidate s n idx p h) = CodeTask"
  "cd_held (part_candidate s n idx p h) = h"
  "a_partId (cd_action (part_candidate s n idx p h)) = Some (pp_id p)"
  "wf_candidate (part_candidate s n idx p h)"
  by (simp_all add: part_candidate_def build_defs Let_def wf_candidate_def)

lemma ready_parts_set:
  "(p, d) \<in> set (ready_parts s n parts) \<Longrightarrow>
     p \<in> set parts \<and> \<not> partIsHuman p \<and> pp_status p = PartReady \<and> \<not> part_active s n p"
  by (auto simp: ready_parts_def)

text \<open>What one ready part adds: an entry for itself, or an escalation. Entries that take a place take room.\<close>

definition takes_place :: "part_entry \<Rightarrow> bool" where
  "takes_place e \<longleftrightarrow> cd_held (pe_candidate e) \<notin> {Some HeldCapped, Some HeldCooldown, Some HeldUnapproved}"

lemma offer_part_cases:
  assumes "offer_part s unapproved n idx hold (room, es, st) (p, d) = (room', es', st')"
  shows "appends C no_dispatch st st' \<and>
    (es' = es \<and> room' = room \<or> (\<exists>e. es' = es @ [e] \<and>
       (\<exists>h. pe_candidate e = part_candidate s n idx p h \<and> (unapproved \<longrightarrow> h = Some HeldUnapproved)) \<and>
       (room' = room \<and> \<not> takes_place e \<or> room' = room - 1 \<and> 0 < room)))"
  using assms
  by (auto simp: offer_part_def Let_def appends_refl takes_place_def intro!: append_rules split: if_splits dispatch_verdict.splits)

lemma offer_parts_inv:
  assumes run: "foldl (offer_part s unapproved n idx hold) (room, [], st) ps = (room', es, st')"
  shows "(\<forall>e \<in> set es. \<exists>p h. p \<in> fst ` set ps \<and> pe_candidate e = part_candidate s n idx p h \<and>
      (unapproved \<longrightarrow> h = Some HeldUnapproved)) \<and>
    appends C no_dispatch st st' \<and> int (length (filter takes_place es)) \<le> max 0 room"
proof -
  let ?ok = "\<lambda>e. \<exists>p h. p \<in> fst ` set ps \<and> pe_candidate e = part_candidate s n idx p h \<and> (unapproved \<longrightarrow> h = Some HeldUnapproved)"
  let ?k = "\<lambda>es. int (length (filter takes_place es))"
  let ?I = "\<lambda>acc. (\<forall>e \<in> set (fst (snd acc)). ?ok e) \<and> appends C no_dispatch st (snd (snd acc)) \<and>
      ?k (fst (snd acc)) + fst acc \<le> room \<and> (0 \<le> fst acc \<or> ?k (fst (snd acc)) = 0)"
  have step: "?I (offer_part s unapproved n idx hold acc pd)" if "?I acc" "pd \<in> set ps" for acc pd
  proof -
    obtain r es1 st1 p d where e: "acc = (r, es1, st1)" "pd = (p, d)" by (metis prod.exhaust)
    obtain r' es2 st2 where o: "offer_part s unapproved n idx hold (r, es1, st1) (p, d) = (r', es2, st2)"
      by (metis prod.exhaust)
    have p: "p \<in> fst ` set ps" using that(2) e by force
    from offer_part_cases [OF o, of C] that(1) e have trail: "appends C no_dispatch st st2" by (auto intro: appends_trans)
    from offer_part_cases [OF o, of C] consider "es2 = es1" "r' = r"
      | x where "es2 = es1 @ [x]" "?ok x" "r' = r \<and> \<not> takes_place x \<or> r' = r - 1 \<and> 0 < r"
      using p by blast
    then show ?thesis
    proof cases
      case 1
      with trail that(1) e o show ?thesis by simp
    next
      case (2 x)
      have "\<forall>e \<in> set es2. ?ok e" using 2 that(1) e by auto
      moreover have "?k es2 + r' \<le> room \<and> (0 \<le> r' \<or> ?k es2 = 0)" using 2 that(1) e by auto
      ultimately show ?thesis using trail e o by simp
    qed
  qed
  have "?I (foldl (offer_part s unapproved n idx hold) (room, [], st) ps)"
    by (rule foldl_invariant [where I = ?I]) (use step appends_refl in auto)
  with run show ?thesis by auto
qed

lemma planCandidates_entries:
  assumes run: "planCandidates s pl n st = (es, st')"
  shows "(\<forall>e \<in> set es. ready_offer s pl n (pe_candidate e)) \<and> appends C no_dispatch st st' \<and>
    int (length (filter takes_place es))
      \<le> max 0 (maxConcurrentPartsPerIssue (dp_planning (sx_opts s))
           - int (length (filter (part_active s n) (liveParts (partsOfPlan s pl)))))"
proof -
  let ?parts = "liveParts (partsOfPlan s pl)" and ?un = "pl_status pl = AwaitingApproval"
  let ?room = "maxConcurrentPartsPerIssue (dp_planning (sx_opts s)) - int (length (filter (part_active s n) ?parts))"
  let ?hold = "if ?un then None else map_option held_by (issueHold s n False)"
  obtain r where f: "foldl (offer_part s ?un n (bySlug ?parts) ?hold) (?room, [], st) (ready_parts s n ?parts) = (r, es, st')"
    using run by (metis planCandidates_def prod.collapse snd_conv)
  note inv = offer_parts_inv [OF f, of C]
  moreover have "ready_offer s pl n (pe_candidate e)" if "e \<in> set es" for e
  proof -
    from inv that obtain p h where "p \<in> fst ` set (ready_parts s n ?parts)"
      "pe_candidate e = part_candidate s n (bySlug ?parts) p h" "?un \<longrightarrow> h = Some HeldUnapproved" by blast
    moreover from this obtain d where "(p, d) \<in> set (ready_parts s n ?parts)" by force
    then have "p \<in> set ?parts \<and> pp_status p = PartReady \<and> \<not> partIsHuman p \<and> \<not> part_active s n p"
      using ready_parts_set by blast
    ultimately show ?thesis unfolding ready_offer_def by (intro conjI exI [of _ p]) simp_all
  qed
  ultimately show ?thesis by blast
qed

text \<open>Which parts a plan offers does not depend on what the rules before it appended.\<close>

lemma offer_part_entries:
  "fst (snd (offer_part s un n idx hold (room, es, st) pd)) = fst (snd (offer_part s un n idx hold (room, es, st') pd)) \<and>
   fst (offer_part s un n idx hold (room, es, st) pd) = fst (offer_part s un n idx hold (room, es, st') pd)"
  by (cases pd) (auto simp: offer_part_def Let_def split: dispatch_verdict.split)

lemma offer_parts_entries:
  "fst (snd (foldl (offer_part s un n idx hold) (room, es, st) ps)) =
     fst (snd (foldl (offer_part s un n idx hold) (room, es, st') ps))"
proof (induction ps arbitrary: room es st st')
  case (Cons p ps)
  obtain r1 e1 s1 where a: "offer_part s un n idx hold (room, es, st) p = (r1, e1, s1)" by (metis prod.exhaust)
  obtain r2 e2 s2 where b: "offer_part s un n idx hold (room, es, st') p = (r2, e2, s2)" by (metis prod.exhaust)
  from offer_part_entries [of s un n idx hold room es st p st'] a b have "r1 = r2" "e1 = e2" by simp_all
  with a b Cons.IH [of r1 e1 s1 s2] show ?case by simp
qed simp

lemma plan_entries_any: "planCandidates s pl n st = (es, st') \<Longrightarrow> es = plan_entries s pl n"
  unfolding plan_entries_def planCandidates_def Let_def
  using offer_parts_entries by (metis fst_conv)

lemma plan_entries_ready: "c \<in> pe_candidate ` set (plan_entries s pl n) \<Longrightarrow> ready_offer s pl n c"
  using planCandidates_entries [of s pl n empty_stage] unfolding plan_entries_def by (metis imageE prod.collapse)

lemma plan_entries_fit:
  "int (length (filter takes_place (plan_entries s pl n)))
     \<le> max 0 (maxConcurrentPartsPerIssue (dp_planning (sx_opts s))
          - int (length (filter (part_active s n) (liveParts (partsOfPlan s pl)))))"
  using planCandidates_entries [of s pl n empty_stage] unfolding plan_entries_def by (metis prod.collapse)

lemma part_offer_wf: "part_offer s c \<Longrightarrow> cd_rule c = RulePlanPart \<and> wf_candidate c"
  unfolding part_offer_def using plan_entries_ready unfolding ready_offer_def
  by (metis part_candidate_fields(2,6))

interpretation part_rule: stage_rule planPart "{RulePlanPart}" part_offer
proof
  fix s st
  let ?C = "\<lambda>c. cd_rule c \<in> {RulePlanPart} \<and> wf_candidate c \<and> part_offer s c"
  let ?I = "\<lambda>acc. (\<forall>e \<in> set (fst acc). part_offer s (pe_candidate e)) \<and> appends ?C no_dispatch st (snd acc)"
  have step: "?I (collect_plan s acc pl)" if "?I acc" "pl \<in> set (dx_plans (sx_ctx s))" for acc pl
  proof -
    { fix n assume a: "pl_status pl \<in> {Active, AwaitingApproval}" "plan_issue_number s pl = Some n"
      obtain es st' where r: "planCandidates s pl n (snd acc) = (es, st')" by fastforce
      have "\<forall>e \<in> set es. part_offer s (pe_candidate e)"
        unfolding part_offer_def using that(2) a plan_entries_any [OF r] by blast
      with planCandidates_entries [OF r, of ?C] that(1) r a have ?thesis
        by (auto simp: collect_plan_def intro: appends_trans) }
    with that(1) show ?thesis by (auto simp: collect_plan_def split: option.split)
  qed
  let ?r = "foldl (collect_plan s) ([], st) (dx_plans (sx_ctx s))"
  have inv: "?I ?r" by (rule foldl_invariant [where I = ?I]) (use step appends_refl in auto)
  have "appends ?C no_dispatch (snd ?r) (foldl (\<lambda>st e. push_candidate (pe_candidate e) st) (snd ?r) (js_sort entry_order (fst ?r)))"
    by (rule appends_foldl, rule appends_candidate) (use inv part_offer_wf in auto)
  with inv show "appends ?C no_dispatch st (planPart s st)"
    by (auto simp: planPart_def split: prod.split intro: appends_trans)
qed

end
