(* ===== verification/TrackerRules.thy ===== *)
theory TrackerRules
  imports IssueRules
begin

text \<open>
  The rules that move work items on the tracker's board and keep the readings of a Feature
  (\<^verbatim>\<open>src/src/dispatcher/rules/workItem*.ts\<close>, \<^verbatim>\<open>featureSequence.ts\<close>, \<^verbatim>\<open>featureSummary.ts\<close>).
\<close>

section \<open>Work item states\<close>

definition liveWorkTask :: "stage \<Rightarrow> nat \<Rightarrow> task option" where
  "liveWorkTask s n =
     find (\<lambda>t. isActiveTask t \<and> (case tk_originRef t of None \<Rightarrow> False | Some ref \<Rightarrow> issueOriginRole n ref = Some Work))
       (dx_tasks (sx_ctx s))"

definition set_state :: "nat \<Rightarrow> string \<Rightarrow> rule_id \<Rightarrow> action" where
  "set_state n state rule =
     (new_action SetWorkItemState)\<lparr>a_number := Some n, a_state := Some state, a_rule := Some rule\<rparr>"

definition start_progress :: "stage \<Rightarrow> string \<times> string list \<Rightarrow> stage_state \<Rightarrow> issue \<Rightarrow> stage_state" where
  "start_progress s g st i =
     (case i_workState i of
        None \<Rightarrow> st
      | Some state \<Rightarrow>
          if i_number i \<in> set (dx_retainedIssues (sx_ctx s)) \<or> i_state i \<noteq> IssueOpen then st
          else if state \<notin> set (snd g) \<or> state = fst g then st
          else if openPrForIssue i (s_openPrs s) \<noteq> None then st
          else if liveWorkTask s (i_number i) = None then st
          else push_raw (set_state (i_number i) (fst g) WorkItemInProgress) st)"

definition workItemInProgress :: "stage \<Rightarrow> stage_state \<Rightarrow> stage_state" where
  "workItemInProgress s st =
     (case workItemInProgressGate s of None \<Rightarrow> st | Some g \<Rightarrow> foldl (start_progress s g) st (s_issues s))"

definition workItemRelease :: "stage \<Rightarrow> issue \<Rightarrow> resolved_conclusion option" where
  "workItemRelease s i =
     (if openPrForIssue i (s_openPrs s) \<noteq> None then None
      else let origin = issueOrigin (i_number i);
               c = resolveIssueConclusion (storedConclusion s origin) (plansByOrigin s origin) (storedShortfall s origin)
           in if \<not> is_moreWork c then None
              else if by_plan c \<and> partsPlanFor s (i_number i) \<noteq> None then None else Some c)"

definition planUnderway :: "stage \<Rightarrow> nat \<Rightarrow> bool" where
  "planUnderway s n =
     (case partsPlanFor s n of
        None \<Rightarrow> False
      | Some p \<Rightarrow>
          liveWorkTask s n = None \<and>
          list_ex (\<lambda>x. pp_planId x = pl_id p \<and> pp_status x \<in> {PartDispatched, PartInReview, PartMerged, PartConcluded})
            (dx_planParts (sx_ctx s)))"

definition start_review :: "stage \<Rightarrow> string \<times> string list \<Rightarrow> stage_state \<Rightarrow> issue \<Rightarrow> stage_state" where
  "start_review s g st i =
     (case i_workState i of
        None \<Rightarrow> st
      | Some state \<Rightarrow>
          if i_number i \<in> set (dx_retainedIssues (sx_ctx s)) \<or> i_state i \<noteq> IssueOpen then st
          else if state \<notin> set (snd g) then st
          else if openPrForIssue i (s_openPrs s) = None \<and> \<not> planUnderway s (i_number i) then st
          else if workItemRelease s i \<noteq> None then st
          else push_raw (set_state (i_number i) (fst g) WorkItemInReview) st)"

definition workItemInReview :: "stage \<Rightarrow> stage_state \<Rightarrow> stage_state" where
  "workItemInReview s st =
     (case workItemStates s of None \<Rightarrow> st | Some g \<Rightarrow> foldl (start_review s g) st (s_issues s))"

definition ask_back :: "stage \<Rightarrow> string \<Rightarrow> stage_state \<Rightarrow> issue \<Rightarrow> stage_state" where
  "ask_back s inReviewState st i =
     (let ref = issueOriginRef ReviewStranded (i_number i) None in
      if i_number i \<in> set (dx_retainedIssues (sx_ctx s)) then st
      else if i_state i \<noteq> IssueOpen \<or> i_workState i \<noteq> Some inReviewState then st
      else if workItemRelease s i = None then st
      else if askedAlready ref (dx_openEscalations (sx_ctx s)) (dx_recentDecisions (sx_ctx s)) then st
      else push_raw ((escalation_of ref WorkItemBackToPickup)\<lparr>a_number := Some (i_number i)\<rparr>) st)"

definition workItemBackToPickup :: "stage \<Rightarrow> stage_state \<Rightarrow> stage_state" where
  "workItemBackToPickup s st =
     (case workItemStates s of
        None \<Rightarrow> st
      | Some (inReviewState, pickupStates) \<Rightarrow>
          if inReviewState \<in> set pickupStates then st else foldl (ask_back s inReviewState) st (s_issues s))"

section \<open>Features\<close>

definition sequence_feature :: "stage \<Rightarrow> stage_state \<Rightarrow> asked_feature \<times> string \<Rightarrow> stage_state" where
  "sequence_feature s st fk =
     (let n = rel_number (af_feature (fst fk)); stored = map_of (sequences s) (issueOrigin n) in
      if map_option fq_standingKey stored = Some (snd fk) then st
      else if featureSequenceOrigin n \<in> set (s_active s) then st
      else stage_consider s (desk_candidate (featureSequenceOrigin n) RuleFeatureSequence) st)"

definition featureSequence :: "stage \<Rightarrow> stage_state \<Rightarrow> stage_state" where
  "featureSequence s st = foldl (sequence_feature s) st (askableFeatures s)"

definition FEATURE_SUMMARY_REPEAT_CAP :: nat where "FEATURE_SUMMARY_REPEAT_CAP = 3"

definition summaryHeld :: "summary_key \<Rightarrow> string \<Rightarrow> bool" where
  "summaryHeld k key \<longleftrightarrow> FEATURE_SUMMARY_REPEAT_CAP \<le> sk_repeats k \<and> key \<in> set (sk_repeatKeys k)"

definition featureSummaryOrigin :: "nat \<Rightarrow> string" where
  "featureSummaryOrigin n = issueOriginRef SummaryFam n None"

definition summarise_feature :: "stage \<Rightarrow> stage_state \<Rightarrow> feature_standing \<Rightarrow> stage_state" where
  "summarise_feature s st f =
     (let onFile = map_of (index_by sk_originRef (dx_featureSummaryKeys (sx_ctx s))) (issueOrigin (fs_number f));
          origin = featureSummaryOrigin (fs_number f) in
      if map_option sk_standingKey onFile = Some (fs_key f) then st
      else if (case onFile of None \<Rightarrow> False | Some k \<Rightarrow> summaryHeld k (fs_key f)) then st
      else if origin \<in> set (s_active s) then st
      else stage_consider s (desk_candidate origin RuleFeatureSummary) st)"

definition featureSummary :: "stage \<Rightarrow> stage_state \<Rightarrow> stage_state" where
  "featureSummary s st = foldl (summarise_feature s) st (dx_featureStandings (sx_ctx s))"

section \<open>What the rules offer\<close>

interpretation in_progress_rule: stage_rule workItemInProgress "{}" "\<lambda>s c. False"
proof
  fix s st
  show "appends (\<lambda>c. cd_rule c \<in> {} \<and> wf_candidate c \<and> False) no_dispatch st (workItemInProgress s st)"
    by (auto simp: workItemInProgress_def start_progress_def set_state_def no_dispatch_def new_action_def
        split: option.split intro!: append_rules appends_foldl)
qed

interpretation in_review_rule: stage_rule workItemInReview "{}" "\<lambda>s c. False"
proof
  fix s st
  show "appends (\<lambda>c. cd_rule c \<in> {} \<and> wf_candidate c \<and> False) no_dispatch st (workItemInReview s st)"
    by (auto simp: workItemInReview_def start_review_def set_state_def no_dispatch_def new_action_def
        split: option.split intro!: append_rules appends_foldl)
qed

interpretation back_rule: stage_rule workItemBackToPickup "{}" "\<lambda>s c. False"
proof
  fix s st
  show "appends (\<lambda>c. cd_rule c \<in> {} \<and> wf_candidate c \<and> False) no_dispatch st (workItemBackToPickup s st)"
    by (auto simp: workItemBackToPickup_def ask_back_def Let_def no_dispatch_def escalation_of_def new_action_def
        split: option.split intro!: append_rules appends_foldl)
qed

text \<open>Both readings of a Feature are made at a desk, with no checkout.\<close>

definition at_desk :: "stage \<Rightarrow> candidate \<Rightarrow> bool" where
  "at_desk s c \<longleftrightarrow> cd_kind c = DeskTask"

interpretation sequence_rule: stage_rule featureSequence "{RuleFeatureSequence}" at_desk
proof
  fix s st
  show "appends (\<lambda>c. cd_rule c \<in> {RuleFeatureSequence} \<and> wf_candidate c \<and> at_desk s c) no_dispatch st (featureSequence s st)"
    unfolding featureSequence_def
    by (rule appends_foldl) (auto simp: sequence_feature_def Let_def at_desk_def intro!: append_rules)
qed

interpretation summary_rule: stage_rule featureSummary "{RuleFeatureSummary}" at_desk
proof
  fix s st
  show "appends (\<lambda>c. cd_rule c \<in> {RuleFeatureSummary} \<and> wf_candidate c \<and> at_desk s c) no_dispatch st (featureSummary s st)"
    unfolding featureSummary_def
    by (rule appends_foldl) (auto simp: summarise_feature_def Let_def at_desk_def intro!: append_rules)
qed

end
