(* ===== verification/PrRules.thy ===== *)
theory PrRules
  imports IssueRules
begin

text \<open>
  The rules over pull requests: the concern pass (\<^verbatim>\<open>src/src/dispatcher/rules/prConcerns.ts\<close> and
  \<^verbatim>\<open>rules/prConcerns/\<close>), which gives each pull request at most one agent for its first concern, and the
  rules that read one (\<^verbatim>\<open>prReviewTriage.ts\<close>, \<^verbatim>\<open>prSplit.ts\<close>, \<^verbatim>\<open>prDescribe.ts\<close>,
  \<^verbatim>\<open>prDescriptionCheck.ts\<close>, \<^verbatim>\<open>botPrRisk.ts\<close>). The order of the rule book is here too, since a concern is
  ranked by it.
\<close>

section \<open>The rule book's order\<close>

definition DISPATCH_PIPELINE :: "rule_id list" where
  "DISPATCH_PIPELINE =
     [ManualJob, LocalValidation, PrReviewTriage, PrSplit, PrDescribe, PrDescriptionCheck, PrReview, PrReviewComment,
      PrCiFailing, PrCiBlocked, PrCiGate, PrBaseUpdate, PrBaseUpdateConflict, PrMergeReady, WorkItemInProgress,
      WorkItemInReview, WorkItemBackToPickup, RuleAppraisal, RuleInvestigate, RulePlan, RuleAssess, RuleShortfall,
      RuleRetro, RulePlanApproval, RulePlanAmendment, RulePlanBlocked, RuleLocalValidationFix, RulePlanPart,
      RuleValidationPlan, RuleValidationPlanApproval, RuleValidateCheck, RuleRemoteValidation, RuleValidationFailed,
      RuleBotPrRisk, RuleFeatureSummary, RuleFeatureSequence]"

fun index_in :: "'a \<Rightarrow> 'a list \<Rightarrow> nat option" where
  "index_in x [] = None"
| "index_in x (y # ys) = (if x = y then Some 0 else map_option Suc (index_in x ys))"

definition MAX_SAFE_INTEGER :: int where "MAX_SAFE_INTEGER = 9007199254740991"

definition concernUrgency :: "rule_id \<Rightarrow> int" where
  "concernUrgency r = (case index_in r DISPATCH_PIPELINE of None \<Rightarrow> MAX_SAFE_INTEGER | Some n \<Rightarrow> int n)"

section \<open>Concerns\<close>

record concern =
  co_rule :: rule_id
  co_origin :: string
  co_act :: "action option"
  co_dispatch :: "(string \<times> string) option"
  co_profile :: "string option"
  co_urgent :: bool
  co_signals :: "string list option"

definition plain_concern :: "rule_id \<Rightarrow> string \<Rightarrow> concern" where
  "plain_concern rule origin = \<lparr>co_rule = rule, co_origin = origin, co_act = None, co_dispatch = None,
     co_profile = None, co_urgent = False, co_signals = None\<rparr>"

definition signalsOf :: "concern \<Rightarrow> string list" where
  "signalsOf c = default_to [co_origin c] (co_signals c)"

definition directActUnperformed :: "action_type \<Rightarrow> string \<Rightarrow> decision list \<Rightarrow> bool" where
  "directActUnperformed t origin decisions =
     list_ex (\<lambda>d. a_type (de_action d) = t \<and> a_originRef (de_action d) = Some origin \<and>
        (de_outcome d = Skipped \<or> de_outcome d = Rejected)) decisions"

definition pr_origin :: "nat \<Rightarrow> string \<Rightarrow> string" where
  "pr_origin n suffix = ''pr:'' @ show_nat n @ '':'' @ suffix"

definition s_reading :: "stage \<Rightarrow> nat \<Rightarrow> review_reading" where
  "s_reading s n = reviewReading (index_by rw_prNumber (dx_prReviews (sx_ctx s)))
     (index_by rr_prNumber (dx_prReviewRoutes (sx_ctx s))) (dx_prReviewedElsewhere (sx_ctx s)) n"

definition s_verdict :: "stage \<Rightarrow> string \<Rightarrow> dispatch_verdict" where
  "s_verdict s origin =
     dispatchVerdict origin (Instant (s_now s)) (dx_recentDecisions (sx_ctx s)) (dp_cooldown (sx_opts s))"

definition triageSpent :: "stage \<Rightarrow> nat \<Rightarrow> bool" where
  "triageSpent s n \<longleftrightarrow> (case s_verdict s (reviewTriageOrigin n) of VEscalate _ \<Rightarrow> True | VHold \<Rightarrow> True | _ \<Rightarrow> False)"

definition reviewSpent :: "stage \<Rightarrow> nat \<Rightarrow> bool" where
  "reviewSpent s n \<longleftrightarrow> s_verdict s (reviewOrigin n) = VHold"

definition modeProfile :: "stage \<Rightarrow> string option \<Rightarrow> string option" where
  "modeProfile s mode =
     (case mode of None \<Rightarrow> None
      | Some m \<Rightarrow> (case map_of (rv_modes (dp_review (sx_opts s))) m of None \<Rightarrow> None | Some r \<Rightarrow> rm_profile r))"

definition reviewComing :: "stage \<Rightarrow> pull_request \<Rightarrow> bool" where
  "reviewComing s pr \<longleftrightarrow>
     needsFleetReview pr (s_reading s (pr_number pr)) (dp_review (sx_opts s)) \<and> \<not> reviewSpent s (pr_number pr)"

definition reviewConcern :: "stage \<Rightarrow> pull_request \<Rightarrow> concern option" where
  "reviewConcern s pr =
     (let route = rd_route (s_reading s (pr_number pr));
          mode = resolvedReviewMode route (dp_review (sx_opts s));
          routing = (route = None \<and> triageRuns (dp_review (sx_opts s)) \<and> \<not> triageSpent s (pr_number pr))
      in if \<not> reviewComing s pr \<or> routing then None
         else Some ((plain_concern PrReview (reviewOrigin (pr_number pr)))
           \<lparr>co_dispatch := Some (reviewBranch (pr_number pr), pr_branch pr), co_profile := modeProfile s mode\<rparr>))"

definition prCommentOrigin :: "nat \<Rightarrow> string \<Rightarrow> string" where
  "prCommentOrigin n commentId = pr_origin n (''comment:'' @ commentId)"

definition prCommentsOrigin :: "nat \<Rightarrow> string" where
  "prCommentsOrigin n = pr_origin n ''comments''"

definition prCommentSignalRef :: "nat \<Rightarrow> pr_comment \<Rightarrow> string" where
  "prCommentSignalRef n thread =
     (let origin = prCommentOrigin n (pc_id thread) in
      case default_to [] (pc_replies thread) of
        [] \<Rightarrow> origin
      | r # rs \<Rightarrow> origin @ ''@'' @ last (r # rs))"

definition reviewCommentConcern :: "pull_request \<Rightarrow> concern option" where
  "reviewCommentConcern pr =
     (case filter (\<lambda>c. \<not> pc_handled c) (pr_comments pr) of
        [] \<Rightarrow> None
      | c # cs \<Rightarrow> Some ((plain_concern PrReviewComment (prCommentsOrigin (pr_number pr)))
          \<lparr>co_signals := Some (map (prCommentSignalRef (pr_number pr)) (c # cs))\<rparr>))"

definition ciHeldByOutcome :: "pull_request \<Rightarrow> bot_outcome list \<Rightarrow> bot_outcome option" where
  "ciHeldByOutcome pr outcomes =
     (case (pr_botAuthored pr, truthy (pr_headSha pr)) of
        (True, Some sha) \<Rightarrow>
          find (\<lambda>x. bo_prNumber x = pr_number pr \<and> bo_headSha x = sha \<and> bo_outcome x \<noteq> Adapted) outcomes
      | _ \<Rightarrow> None)"

text \<open>The concern of a red pull request, or the question asked when only a person can act on it.\<close>

definition ciFailingConcern :: "stage \<Rightarrow> pull_request \<Rightarrow> bool \<Rightarrow> concern option \<times> action option" where
  "ciFailingConcern s pr inherited =
     (let v = classifyCiFailures (pr_ciChecks pr) (dp_ci (sx_opts s)) (pr_ciWithheld pr);
          ciFailing = (ciNeedsAttention pr \<and> \<not> inherited);
          ciOrigin = pr_origin (pr_number pr) ''ci''
      in if ciFailing \<and> ciHeldByOutcome pr (dx_botPrOutcomes (sx_ctx s)) \<noteq> None then (None, None)
         else if ciFailing \<and> cv_actionable v then (Some ((plain_concern PrCiFailing ciOrigin)\<lparr>co_urgent := cv_urgent v\<rparr>), None)
         else if ciFailing \<and> ciNeedsHuman v
              \<and> \<not> askedAlready ciOrigin (dx_openEscalations (sx_ctx s)) (dx_recentDecisions (sx_ctx s))
           then (None, Some ((escalation_of ciOrigin PrCiBlocked)\<lparr>a_number := Some (pr_number pr)\<rparr>))
         else (None, None))"

fun requeues_of :: "ci_match list \<Rightarrow> (string \<times> string) list option" where
  "requeues_of [] = Some []"
| "requeues_of (m # ms) =
     (case (cm_requeueRef m, requeues_of ms) of
        (Some ref, Some rest) \<Rightarrow>
          if \<not> cm_expired m \<or> (case cm_rule m of None \<Rightarrow> False | Some r \<Rightarrow> truthy (map_option trim (cr_guidance r)) \<noteq> None)
          then None else Some ((cm_name m, ref) # rest)
      | _ \<Rightarrow> None)"

definition gateRequeues :: "ci_watch \<Rightarrow> (string \<times> string) list option" where
  "gateRequeues v = (case requeues_of (cw_watched v) of Some (r # rs) \<Rightarrow> Some (r # rs) | _ \<Rightarrow> None)"

definition ciGateConcern :: "stage \<Rightarrow> pull_request \<Rightarrow> bool \<Rightarrow> concern option" where
  "ciGateConcern s pr inherited =
     (let v = classifyWatchedChecks (pr_ciChecks pr) (dp_ci (sx_opts s)); origin = pr_origin (pr_number pr) ''ci-gate'' in
      if cw_watched v = [] \<or> inherited then None
      else Some ((plain_concern PrCiGate origin)
        \<lparr>co_act := (case gateRequeues v of
            None \<Rightarrow> None
          | Some checks \<Rightarrow>
              if directActUnperformed RequeueCiCheck origin (dx_recentDecisions (sx_ctx s)) then None
              else Some ((new_action RequeueCiCheck)\<lparr>a_number := Some (pr_number pr), a_checks := checks,
                a_originRef := Some origin, a_rule := Some PrCiGate\<rparr>)),
         co_urgent := cw_urgent v\<rparr>))"

definition baseUpdateConcern :: "stage \<Rightarrow> pull_request \<Rightarrow> concern option" where
  "baseUpdateConcern s pr =
     (let base = default_to (dp_defaultBranch (sx_opts s)) (pr_base pr);
          behind = (pr_mergeableState pr = Some Behind);
          origin = pr_origin (pr_number pr) ''mergeable'';
          direct = (behind \<and> \<not> directActUnperformed UpdatePrBranch origin (dx_recentDecisions (sx_ctx s)))
      in if \<not> needsBaseUpdate pr then None
         else Some ((plain_concern (if behind then PrBaseUpdate else PrBaseUpdateConflict) origin)
           \<lparr>co_act := (if direct then Some ((new_action UpdatePrBranch)\<lparr>a_number := Some (pr_number pr), a_base := Some base,
              a_branch := Some (pr_branch pr), a_originRef := Some origin, a_rule := Some PrBaseUpdate\<rparr>) else None)\<rparr>))"

section \<open>The pass\<close>

definition gatherConcerns :: "stage \<Rightarrow> pull_request \<Rightarrow> concern list \<times> action option" where
  "gatherConcerns s pr =
     (let inherited = (baseFixingCi pr (s_openPrs s) (dp_ci (sx_opts s)) \<noteq> None);
          (ci, asked) = ciFailingConcern s pr inherited
      in (List.map_filter id [reviewConcern s pr, reviewCommentConcern pr, ci, ciGateConcern s pr inherited,
            baseUpdateConcern s pr], asked))"

datatype branch_agent = BranchRunning agent | BranchBusy | BranchFree

definition resolveBranchAgent :: "dispatch_context \<Rightarrow> string \<Rightarrow> branch_agent" where
  "resolveBranchAgent ctx branch =
     (case find (\<lambda>t. isActiveTask t \<and> tk_branch t = Some branch) (dx_tasks ctx) of
        None \<Rightarrow> BranchFree
      | Some t \<Rightarrow>
          (case truthy (tk_agentId t) of
             None \<Rightarrow> BranchBusy
           | Some a \<Rightarrow>
               (case find (\<lambda>x. ag_id x = a) (dx_agents ctx) of
                  None \<Rightarrow> BranchBusy
                | Some x \<Rightarrow> if ag_status x = ARunning then BranchRunning x else BranchBusy)))"

definition fresh_signals :: "stage \<Rightarrow> pull_request \<Rightarrow> concern list \<Rightarrow> agent \<Rightarrow> string list" where
  "fresh_signals s pr concerns ag =
     filter (\<lambda>ref. ref \<notin> set (s_active s)
         \<and> pr_branch pr @ ''::'' @ ref \<notin> set (dispatchedSignalsByBranch (dx_recentDecisions (sx_ctx s)))
         \<and> ag_id ag @ ''::'' @ ref \<notin> set (notifiedOriginsByAgent (dx_recentDecisions (sx_ctx s))))
       (concat (map signalsOf (filter (\<lambda>c. co_dispatch c = None) concerns)))"

definition notifyBranchAgent :: "stage \<Rightarrow> pull_request \<Rightarrow> concern list \<Rightarrow> agent \<Rightarrow> stage_state \<Rightarrow> stage_state" where
  "notifyBranchAgent s pr concerns ag st =
     (case fresh_signals s pr concerns ag of
        [] \<Rightarrow> st
      | refs \<Rightarrow> push_raw ((new_action RespondToAgent)\<lparr>a_agentId := Some (ag_id ag), a_originRefs := Some refs,
          a_admission := Some BranchNotify\<rparr>) st)"

record pr_entry =
  px_pr :: pull_request
  px_top :: concern
  px_urgent :: bool

definition concern_branch :: "pull_request \<Rightarrow> concern \<Rightarrow> string" where
  "concern_branch pr c = (case co_dispatch c of None \<Rightarrow> pr_branch pr | Some (b, _) \<Rightarrow> b)"

text \<open>The entry a pull request gets: its first concern, when the branch it needs is free and no review comes first.\<close>

definition concern_entry :: "stage \<Rightarrow> pull_request \<Rightarrow> pr_entry list" where
  "concern_entry s pr =
     (case fst (gatherConcerns s pr) of
        [] \<Rightarrow> []
      | c # cs \<Rightarrow>
          if resolveBranchAgent (sx_ctx s) (concern_branch pr c) = BranchFree
             \<and> (\<not> reviewComing s pr \<or> co_rule c = PrReview)
          then [\<lparr>px_pr = pr, px_top = c, px_urgent = list_ex co_urgent (c # cs)\<rparr>] else [])"

definition merge_if_ready :: "stage \<Rightarrow> pull_request \<Rightarrow> stage_state \<Rightarrow> stage_state" where
  "merge_if_ready s pr st =
     (if isMergeReady pr (dp_defaultBranch (sx_opts s)) (s_reading s (pr_number pr)) (dp_review (sx_opts s))
         \<and> proposalHold MergeAct (mergeProposalRef (pr_number pr)) (dx_proposals (sx_ctx s))
             (dx_rejectionSignals (sx_ctx s)) (dx_clock (sx_ctx s)) = None
      then push_raw ((new_action MergePr)\<lparr>a_number := Some (pr_number pr), a_rule := Some PrMergeReady\<rparr>) st else st)"

definition notify_concerns :: "stage \<Rightarrow> pull_request \<Rightarrow> stage_state \<Rightarrow> stage_state" where
  "notify_concerns s pr st =
     (case fst (gatherConcerns s pr) of
        [] \<Rightarrow> st
      | cs \<Rightarrow> (case resolveBranchAgent (sx_ctx s) (pr_branch pr) of
                BranchRunning ag \<Rightarrow> notifyBranchAgent s pr cs ag st | _ \<Rightarrow> st))"

definition weigh_pr :: "stage \<Rightarrow> pr_entry list \<times> stage_state \<Rightarrow> pull_request \<Rightarrow> pr_entry list \<times> stage_state" where
  "weigh_pr s acc pr =
     (if pr_merged pr then acc
      else if readingBehindFleet s (pr_number pr) then acc
      else (fst acc @ concern_entry s pr,
            merge_if_ready s pr (notify_concerns s pr
              (case snd (gatherConcerns s pr) of None \<Rightarrow> snd acc | Some a \<Rightarrow> push_raw a (snd acc)))))"

definition concern_order :: "pr_entry \<Rightarrow> pr_entry \<Rightarrow> int" where
  "concern_order = cmp_or (by_key (\<lambda>e. if px_urgent e then 0 else 1))
     (cmp_or (by_key (\<lambda>e. concernUrgency (co_rule (px_top e)))) (by_key (\<lambda>e. int (pr_number (px_pr e)))))"

definition concern_action :: "pull_request \<Rightarrow> concern \<Rightarrow> action" where
  "concern_action pr c =
     (let a = (dispatch_action CodeTask (co_origin c) (co_rule c))
            \<lparr>a_signalRefs := Some (signalsOf c), a_profile := co_profile c\<rparr>
      in case co_dispatch c of
           None \<Rightarrow> a\<lparr>a_branch := Some (pr_branch pr)\<rparr>
         | Some (b, of_ref) \<Rightarrow> readOnlyDispatch b of_ref a)"

definition concern_candidate :: "pull_request \<Rightarrow> concern \<Rightarrow> candidate" where
  "concern_candidate pr c = candidate_of CodeTask (co_origin c) (co_rule c) (concern_action pr c)"

definition stageConcern :: "stage \<Rightarrow> stage_state \<Rightarrow> pr_entry \<Rightarrow> stage_state" where
  "stageConcern s st e =
     (let c = px_top e;
          asked = (cap_escalation (co_origin c) (co_rule c))\<lparr>a_number := Some (pr_number (px_pr e))\<rparr> in
      case co_act c of
        Some act \<Rightarrow>
          (case s_verdict s (co_origin c) of
             VEscalate n \<Rightarrow> push_raw asked st
           | VDispatch \<Rightarrow> push_raw act st
           | _ \<Rightarrow> st)
      | None \<Rightarrow> snd (considerWith s (concern_candidate (px_pr e) c) (Some (\<lambda>n. asked))
          (dx_recentDecisions (sx_ctx s)) st))"

definition prConcerns :: "stage \<Rightarrow> stage_state \<Rightarrow> stage_state" where
  "prConcerns s st =
     (case foldl (weigh_pr s) ([], st) (w_pullRequests (dx_world (sx_ctx s))) of
        (entries, st') \<Rightarrow> foldl (stageConcern s) st' (js_sort concern_order entries))"

section \<open>Reading a pull request\<close>

definition triage_pr :: "stage \<Rightarrow> stage_state \<Rightarrow> pull_request \<Rightarrow> stage_state" where
  "triage_pr s st pr =
     (if pr_merged pr then st
      else if \<not> needsFleetReview pr (s_reading s (pr_number pr)) (dp_review (sx_opts s)) then st
      else if rd_route (s_reading s (pr_number pr)) \<noteq> None then st
      else if reviewTriageOrigin (pr_number pr) \<in> set (s_active s) then st
      else stage_consider s (desk_candidate (reviewTriageOrigin (pr_number pr)) PrReviewTriage) st)"

definition prReviewTriage :: "stage \<Rightarrow> stage_state \<Rightarrow> stage_state" where
  "prReviewTriage s st =
     (if \<not> triageRuns (dp_review (sx_opts s)) then st
      else foldl (triage_pr s) st (w_pullRequests (dx_world (sx_ctx s))))"

definition split_pr :: "stage \<Rightarrow> stage_state \<Rightarrow> pull_request \<Rightarrow> stage_state" where
  "split_pr s st pr =
     (if pr_merged pr \<or> pr_number pr \<in> set (dx_prSplits (sx_ctx s)) then st
      else case prBreadth pr (fileBudget (dp_planning (sx_opts s))) of
          None \<Rightarrow> st
        | Some (files, over) \<Rightarrow>
            if \<not> over then st
            else case issueForPr pr (s_issues s) of
                None \<Rightarrow> st
              | Some i \<Rightarrow>
                  if splitOrigin (i_number i) (pr_number pr) \<in> set (s_active s) then st
                  else stage_consider s (read_only_candidate (splitOrigin (i_number i) (pr_number pr)) PrSplit
                    (splitBranch (pr_number pr)) (pr_branch pr)) st)"

definition prSplit :: "stage \<Rightarrow> stage_state \<Rightarrow> stage_state" where
  "prSplit s st = foldl (split_pr s) st (w_pullRequests (dx_world (sx_ctx s)))"

definition describeBranch :: "nat \<Rightarrow> string" where
  "describeBranch n = ''describe/pr/'' @ show_nat n"

definition describeCheckBranch :: "nat \<Rightarrow> string" where
  "describeCheckBranch n = ''describe-check/pr/'' @ show_nat n"

text \<open>The open pull request an ask is about, with the issue its origin is under.\<close>

definition described_pr :: "stage \<Rightarrow> description_ask \<Rightarrow> (nat \<times> pull_request) option" where
  "described_pr s d =
     (case find (\<lambda>p. pr_number p = da_prNumber d) (w_pullRequests (dx_world (sx_ctx s))) of
        None \<Rightarrow> None
      | Some pr \<Rightarrow>
          if pr_merged pr then None
          else map_option (\<lambda>o'. (p_issue o', pr)) (parseIssueOrigin (da_originRef d)))"

definition describe_pr :: "stage \<Rightarrow> stage_state \<Rightarrow> description_ask \<Rightarrow> stage_state" where
  "describe_pr s st d =
     (case described_pr s d of
        None \<Rightarrow> st
      | Some (n, pr) \<Rightarrow>
          let origin = issueOriginRef Describe n (Some (show_nat (pr_number pr))) in
          if origin \<in> set (s_active s) then st
          else stage_consider s (read_only_candidate origin PrDescribe (describeBranch (pr_number pr)) (pr_branch pr)) st)"

definition prDescribe :: "stage \<Rightarrow> stage_state \<Rightarrow> stage_state" where
  "prDescribe s st = foldl (describe_pr s) st (dx_descriptionDrafts (sx_ctx s))"

text \<open>The attempts at one version of a description are those since it was written.\<close>

definition decisions_since :: "instant \<Rightarrow> decision list \<Rightarrow> decision list" where
  "decisions_since since ds =
     filter (\<lambda>d. case (date_parse (de_createdAt d), date_parse since) of
        (Some t, Some x) \<Rightarrow> x < t | _ \<Rightarrow> False) ds"

definition check_description :: "stage \<Rightarrow> stage_state \<Rightarrow> description_ask \<Rightarrow> stage_state" where
  "check_description s st d =
     (case described_pr s d of
        None \<Rightarrow> st
      | Some (n, pr) \<Rightarrow>
          let origin = issueOriginRef DescribeCheck n (Some (show_nat (pr_number pr))) in
          if origin \<in> set (s_active s) then st
          else snd (considerWith s
            (read_only_candidate origin PrDescriptionCheck (describeCheckBranch (pr_number pr)) (pr_branch pr))
            (Some (\<lambda>k. cap_escalation origin PrDescriptionCheck))
            (decisions_since (da_authoredAt d) (dx_recentDecisions (sx_ctx s))) st))"

definition prDescriptionCheck :: "stage \<Rightarrow> stage_state \<Rightarrow> stage_state" where
  "prDescriptionCheck s st = foldl (check_description s) st (dx_uncheckedDescriptions (sx_ctx s))"

definition botPrRiskOrigin :: "string \<Rightarrow> string" where
  "botPrRiskOrigin runId = ''bot-prs:risk:'' @ runId"

definition botPrRisk :: "stage \<Rightarrow> stage_state \<Rightarrow> stage_state" where
  "botPrRisk s st =
     (case dx_botPrRiskRun (sx_ctx s) of
        None \<Rightarrow> st
      | Some run \<Rightarrow>
          if botPrRiskOrigin run \<in> set (s_active s) then st
          else push_candidate (candidate_of DeskTask (botPrRiskOrigin run) RuleBotPrRisk
            ((dispatch_action DeskTask (botPrRiskOrigin run) RuleBotPrRisk)\<lparr>a_botPrRiskRun := Some run\<rparr>)) st)"

section \<open>What the rules offer\<close>

definition concern_rules :: "rule_id set" where
  "concern_rules = {PrReview, PrReviewComment, PrCiFailing, PrCiGate, PrBaseUpdate, PrBaseUpdateConflict}"

lemma review_concern_rule: "reviewConcern s pr = Some c \<Longrightarrow> co_rule c = PrReview \<and> co_act c = None \<and> co_dispatch c \<noteq> None"
  by (auto simp: reviewConcern_def Let_def plain_concern_def split: if_splits)

lemma comment_concern_rule: "reviewCommentConcern pr = Some c \<Longrightarrow> co_rule c = PrReviewComment \<and> co_act c = None"
  by (auto simp: reviewCommentConcern_def plain_concern_def split: list.splits)

lemma ci_concern_rule: "ciFailingConcern s pr inherited = (Some c, q) \<Longrightarrow> co_rule c = PrCiFailing \<and> co_act c = None"
  by (auto simp: ciFailingConcern_def Let_def plain_concern_def split: if_splits)

lemma ci_question_dispatches_nothing: "ciFailingConcern s pr inherited = (c, Some a) \<Longrightarrow> no_dispatch a"
  by (auto simp: ciFailingConcern_def Let_def no_dispatch_def escalation_of_def new_action_def split: if_splits)

lemma gate_concern_rule:
  "ciGateConcern s pr inherited = Some c \<Longrightarrow> co_rule c = PrCiGate \<and> (\<forall>a. co_act c = Some a \<longrightarrow> no_dispatch a)"
  by (auto simp: ciGateConcern_def Let_def plain_concern_def no_dispatch_def new_action_def split: if_splits option.splits)

lemma base_concern_rule:
  "baseUpdateConcern s pr = Some c \<Longrightarrow>
     co_rule c \<in> {PrBaseUpdate, PrBaseUpdateConflict} \<and> (\<forall>a. co_act c = Some a \<longrightarrow> no_dispatch a)"
  by (auto simp: baseUpdateConcern_def Let_def plain_concern_def no_dispatch_def new_action_def split: if_splits)

lemma set_map_filter_id: "set (List.map_filter id xs) = {x. Some x \<in> set xs}"
  by (force simp: List.map_filter_def)

lemma gathered_concern:
  assumes "c \<in> set (fst (gatherConcerns s pr))"
  shows "co_rule c \<in> concern_rules \<and> (\<forall>a. co_act c = Some a \<longrightarrow> no_dispatch a) \<and>
    (co_rule c = PrReview \<longrightarrow> co_dispatch c \<noteq> None)"
proof -
  let ?inh = "baseFixingCi pr (s_openPrs s) (dp_ci (sx_opts s)) \<noteq> None"
  obtain ci q where f: "ciFailingConcern s pr ?inh = (ci, q)" by fastforce
  from assms have "Some c \<in> set [reviewConcern s pr, reviewCommentConcern pr, ci, ciGateConcern s pr ?inh, baseUpdateConcern s pr]"
    unfolding gatherConcerns_def Let_def f prod.case fst_conv set_map_filter_id by simp
  then consider "reviewConcern s pr = Some c" | "reviewCommentConcern pr = Some c" | "ci = Some c"
    | "ciGateConcern s pr ?inh = Some c" | "baseUpdateConcern s pr = Some c" by fastforce
  then show ?thesis
    using review_concern_rule [of s pr c] comment_concern_rule [of pr c] ci_concern_rule [of s pr ?inh c q] f
      gate_concern_rule [of s pr ?inh c] base_concern_rule [of s pr c]
    by cases (auto simp: concern_rules_def)
qed

lemma gathered_question: "snd (gatherConcerns s pr) = Some a \<Longrightarrow> no_dispatch a"
  by (auto simp: gatherConcerns_def Let_def split: prod.splits
      dest!: ci_question_dispatches_nothing)

text \<open>
  An agent for a pull request is offered only while the branch it would be put on has no live task, and
  it writes to no other branch than the pull request's own.
\<close>

definition concern_offer :: "stage \<Rightarrow> candidate \<Rightarrow> bool" where
  "concern_offer s c \<longleftrightarrow>
     (\<exists>pr b. pr \<in> set (w_pullRequests (dx_world (sx_ctx s))) \<and> \<not> pr_merged pr \<and> cd_branch c = Some b \<and>
        resolveBranchAgent (sx_ctx s) b = BranchFree \<and> (a_readOnly (cd_action c) \<or> b = pr_branch pr) \<and>
        (cd_rule c = PrReview \<longrightarrow> a_readOnly (cd_action c)))"

lemma concern_offer_held [simp]: "concern_offer s (c\<lparr>cd_held := h\<rparr>) = concern_offer s c"
  by (simp add: concern_offer_def)

lemma concern_candidate_fields [simp]:
  "cd_rule (concern_candidate pr c) = co_rule c"
  "cd_origin (concern_candidate pr c) = co_origin c"
  "cd_branch (concern_candidate pr c) = Some (concern_branch pr c)"
  "wf_candidate (concern_candidate pr c)"
  by (auto simp: concern_candidate_def concern_action_def concern_branch_def build_defs wf_candidate_def Let_def
      split: option.split)

lemma concern_candidate_writes:
  "a_readOnly (cd_action (concern_candidate pr c)) \<or> concern_branch pr c = pr_branch pr"
  "co_dispatch c \<noteq> None \<Longrightarrow> a_readOnly (cd_action (concern_candidate pr c))"
  by (auto simp: concern_candidate_def concern_action_def concern_branch_def build_defs Let_def split: option.split)

definition good_entry :: "stage \<Rightarrow> pr_entry \<Rightarrow> bool" where
  "good_entry s e \<longleftrightarrow> px_pr e \<in> set (w_pullRequests (dx_world (sx_ctx s))) \<and> \<not> pr_merged (px_pr e) \<and>
     px_top e \<in> set (fst (gatherConcerns s (px_pr e))) \<and>
     resolveBranchAgent (sx_ctx s) (concern_branch (px_pr e) (px_top e)) = BranchFree"

lemma concern_entry_good:
  "pr \<in> set (w_pullRequests (dx_world (sx_ctx s))) \<Longrightarrow> \<not> pr_merged pr \<Longrightarrow> e \<in> set (concern_entry s pr) \<Longrightarrow> good_entry s e"
  by (cases "fst (gatherConcerns s pr)") (auto simp: concern_entry_def good_entry_def split: if_splits)

lemma notify_concerns_appends [append_rules]: "appends C no_dispatch st (notify_concerns s pr st)"
  by (auto simp: notify_concerns_def notifyBranchAgent_def no_dispatch_def new_action_def appends_refl appends_raw
      split: list.split branch_agent.split)

lemma merge_if_ready_appends [append_rules]: "appends C no_dispatch st (merge_if_ready s pr st)"
  by (auto simp: merge_if_ready_def no_dispatch_def new_action_def appends_refl appends_raw)

lemma weigh_pr_keeps:
  assumes pr: "pr \<in> set (w_pullRequests (dx_world (sx_ctx s)))"
    and acc: "\<forall>e \<in> set (fst acc). good_entry s e" "appends C no_dispatch st (snd acc)"
  shows "(\<forall>e \<in> set (fst (weigh_pr s acc pr)). good_entry s e) \<and> appends C no_dispatch st (snd (weigh_pr s acc pr))"
proof -
  let ?st1 = "case snd (gatherConcerns s pr) of None \<Rightarrow> snd acc | Some a \<Rightarrow> push_raw a (snd acc)"
  have "appends C no_dispatch (snd acc) ?st1"
    by (auto simp: appends_refl split: option.split intro!: appends_raw dest: gathered_question)
  then have "appends C no_dispatch st (merge_if_ready s pr (notify_concerns s pr ?st1))"
    using acc(2) notify_concerns_appends merge_if_ready_appends by (metis appends_trans)
  then show ?thesis using acc concern_entry_good [OF pr] by (auto simp: weigh_pr_def)
qed

lemma stageConcern_appends:
  assumes "good_entry s e"
  shows "appends (\<lambda>c. cd_rule c \<in> concern_rules \<and> wf_candidate c \<and> concern_offer s c) no_dispatch st (stageConcern s st e)"
proof -
  let ?c = "concern_candidate (px_pr e) (px_top e)"
  let ?C = "\<lambda>c. cd_rule c \<in> concern_rules \<and> wf_candidate c \<and> concern_offer s c"
  from assms have g: "co_rule (px_top e) \<in> concern_rules" "\<And>a. co_act (px_top e) = Some a \<Longrightarrow> no_dispatch a"
    using gathered_concern by (auto simp: good_entry_def)
  from assms have "co_rule (px_top e) = PrReview \<longrightarrow> co_dispatch (px_top e) \<noteq> None"
    using gathered_concern by (auto simp: good_entry_def)
  with assms have "concern_offer s ?c"
    unfolding concern_offer_def good_entry_def using concern_candidate_writes by auto
  with g have c: "?C ?c" "?C (?c\<lparr>cd_held := Some HeldCooldown\<rparr>)" by simp_all
  have asked: "no_dispatch ((cap_escalation o' r)\<lparr>a_number := k\<rparr>)" for o' r k
    by (simp add: no_dispatch_def cap_escalation_def escalation_of_def new_action_def)
  show ?thesis
  proof (cases "co_act (px_top e)")
    case None
    have "appends ?C no_dispatch st (snd (considerWith s ?c
        (Some (\<lambda>n. (cap_escalation (co_origin (px_top e)) (co_rule (px_top e)))\<lparr>a_number := Some (pr_number (px_pr e))\<rparr>))
        (dx_recentDecisions (sx_ctx s)) st))"
      by (rule considerWith_appends [of ?C, OF c]) (use asked in auto)
    with None show ?thesis by (simp add: stageConcern_def Let_def)
  next
    case (Some act)
    with g(2) asked show ?thesis
      by (auto simp: stageConcern_def Let_def split: dispatch_verdict.split intro: append_rules)
  qed
qed

interpretation concern_rule: stage_rule prConcerns concern_rules concern_offer
proof
  fix s st
  let ?C = "\<lambda>c. cd_rule c \<in> concern_rules \<and> wf_candidate c \<and> concern_offer s c"
  let ?I = "\<lambda>acc. (\<forall>e \<in> set (fst acc). good_entry s e) \<and> appends ?C no_dispatch st (snd acc)"
  let ?r = "foldl (weigh_pr s) ([], st) (w_pullRequests (dx_world (sx_ctx s)))"
  have inv: "?I ?r" by (rule foldl_invariant [where I = ?I]) (use weigh_pr_keeps appends_refl in auto)
  then have "appends ?C no_dispatch (snd ?r) (foldl (stageConcern s) (snd ?r) (js_sort concern_order (fst ?r)))"
    by (intro appends_foldl stageConcern_appends) auto
  with inv show "appends ?C no_dispatch st (prConcerns s st)"
    by (auto simp: prConcerns_def split: prod.split intro: appends_trans)
qed

text \<open>The other rules read: at a desk, or in a checkout that cannot be pushed from.\<close>

definition reading :: "stage \<Rightarrow> candidate \<Rightarrow> bool" where
  "reading s c \<longleftrightarrow> (cd_kind c = CodeTask \<longrightarrow> a_readOnly (cd_action c))"

lemma reading_built [simp]:
  "reading s (read_only_candidate origin rule branch of_ref)" "reading s (desk_candidate origin rule)"
  "reading s (c\<lparr>cd_held := h\<rparr>) = reading s c"
  by (simp_all add: reading_def)

interpretation triage_rule: stage_rule prReviewTriage "{PrReviewTriage}" reading
proof
  fix s st
  show "appends (\<lambda>c. cd_rule c \<in> {PrReviewTriage} \<and> wf_candidate c \<and> reading s c) no_dispatch st (prReviewTriage s st)"
    by (auto simp: prReviewTriage_def triage_pr_def intro!: append_rules appends_foldl)
qed

interpretation split_rule: stage_rule prSplit "{PrSplit}" reading
proof
  fix s st
  show "appends (\<lambda>c. cd_rule c \<in> {PrSplit} \<and> wf_candidate c \<and> reading s c) no_dispatch st (prSplit s st)"
    by (auto simp: prSplit_def split_pr_def split: option.split intro!: append_rules appends_foldl)
qed

interpretation describe_rule: stage_rule prDescribe "{PrDescribe}" reading
proof
  fix s st
  show "appends (\<lambda>c. cd_rule c \<in> {PrDescribe} \<and> wf_candidate c \<and> reading s c) no_dispatch st (prDescribe s st)"
    by (auto simp: prDescribe_def describe_pr_def Let_def split: option.split intro!: append_rules appends_foldl)
qed

interpretation description_check_rule: stage_rule prDescriptionCheck "{PrDescriptionCheck}" reading
proof
  fix s st
  show "appends (\<lambda>c. cd_rule c \<in> {PrDescriptionCheck} \<and> wf_candidate c \<and> reading s c) no_dispatch st (prDescriptionCheck s st)"
    by (auto simp: prDescriptionCheck_def check_description_def Let_def split: option.split
        intro!: append_rules appends_foldl considerWith_appends)
qed

interpretation risk_rule: stage_rule botPrRisk "{RuleBotPrRisk}" reading
proof
  fix s st
  show "appends (\<lambda>c. cd_rule c \<in> {RuleBotPrRisk} \<and> wf_candidate c \<and> reading s c) no_dispatch st (botPrRisk s st)"
    by (auto simp: botPrRisk_def reading_def build_defs wf_candidate_def split: option.split intro!: append_rules)
qed

end
