(* ===== verification/ValidationRules.thy ===== *)
theory ValidationRules
  imports IssueRules PrRules
begin

text \<open>
  The rules that validate a delivered goal (\<^verbatim>\<open>src/src/dispatcher/rules/validation*.ts\<close>,
  \<^verbatim>\<open>validateCheck.ts\<close>, \<^verbatim>\<open>localValidation*.ts\<close>, \<^verbatim>\<open>remoteValidation.ts\<close>): writing and releasing its check
  set, running its checks, looking into a failed one, and the runs against a local or a remote
  environment.
\<close>

section \<open>The check set\<close>

definition validating :: "stage \<Rightarrow> issue \<Rightarrow> bool" where
  "validating s i \<longleftrightarrow> issueWatchGateReason i (s_pickup s) = None \<and> deliveryParked s i"

definition author_checks :: "stage \<Rightarrow> stage_state \<Rightarrow> issue \<Rightarrow> stage_state" where
  "author_checks s st i =
     (let n = i_number i; origin = issueOrigin n in
      if \<not> validating s i then st
      else if checkSetAuthored (planRecord s origin) (checksByOrigin s origin) then st
      else if plansByOrigin s origin = None then st
      else stage_consider s (read_only_candidate (validationPlanOrigin n) RuleValidationPlan (validationPlanBranch n)
        (dp_defaultBranch (sx_opts s))) st)"

definition validationPlan :: "stage \<Rightarrow> stage_state \<Rightarrow> stage_state" where
  "validationPlan s st = foldl (author_checks s) st (s_issues s)"

definition validationPlanProposalRef :: "nat \<Rightarrow> string" where
  "validationPlanProposalRef n = validationPlanOrigin n"

definition pendingValidationPlanProposal :: "string \<Rightarrow> proposal list \<Rightarrow> proposal option" where
  "pendingValidationPlanProposal ref proposals =
     find (\<lambda>p. pn_kind p = ValidationPlanAct \<and> pn_ref p = ref \<and> pn_status p = ProposalPending) proposals"

definition validationPlanProposalHold :: "string \<Rightarrow> proposal list \<Rightarrow> proposal_hold option" where
  "validationPlanProposalHold ref proposals =
     map_option (\<lambda>p. AwaitingAnswer (pn_id p)) (pendingValidationPlanProposal ref proposals)"

definition propose_checks :: "stage \<Rightarrow> stage_state \<Rightarrow> issue \<Rightarrow> stage_state" where
  "propose_checks s st i =
     (let n = i_number i; origin = issueOrigin n; rec = planRecord s origin in
      if i_state i \<noteq> IssueOpen \<or> \<not> validating s i then st
      else if (case rec of None \<Rightarrow> True | Some r \<Rightarrow> vr_authoredAt r = None) then st
      else if checkSetReleased rec (liveChecks (checksByOrigin s origin)) then st
      else if validationPlanProposalHold (validationPlanProposalRef n) (dx_proposals (sx_ctx s)) \<noteq> None then st
      else push_raw ((new_action ProposeValidationPlan)\<lparr>a_originRef := Some origin, a_number := Some n,
        a_rule := Some RuleValidationPlanApproval\<rparr>) st)"

definition validationPlanApproval :: "stage \<Rightarrow> stage_state \<Rightarrow> stage_state" where
  "validationPlanApproval s st = foldl (propose_checks s) st (s_issues s)"

section \<open>Running the checks\<close>

definition run_check :: "stage \<Rightarrow> nat \<Rightarrow> stage_state \<Rightarrow> validation_check \<Rightarrow> stage_state" where
  "run_check s n st c =
     (if \<not> fleetWillRun c then st
      else if claimIsLive c (s_now s) (dp_validationClaimMinutes (sx_opts s)) then st
      else stage_consider s (read_only_candidate (validateOrigin n (vc_id c)) RuleValidateCheck (validateBranch n (vc_id c))
        (dp_defaultBranch (sx_opts s))) st)"

definition run_checks :: "stage \<Rightarrow> stage_state \<Rightarrow> issue \<Rightarrow> stage_state" where
  "run_checks s st i =
     (let origin = issueOrigin (i_number i); checks = liveChecks (checksByOrigin s origin) in
      if \<not> validating s i then st
      else if \<not> checkSetReleased (planRecord s origin) checks then st
      else foldl (run_check s (i_number i)) st checks)"

definition validateCheck :: "stage \<Rightarrow> stage_state \<Rightarrow> stage_state" where
  "validateCheck s st = foldl (run_checks s) st (s_issues s)"

definition sinceReading :: "decision list \<Rightarrow> validation_check \<Rightarrow> decision list" where
  "sinceReading ds c =
     (case vc_resultAt c of
        None \<Rightarrow> ds
      | Some since \<Rightarrow> (if date_parse since = None then ds else decisions_since since ds))"

definition look_into :: "stage \<Rightarrow> nat \<Rightarrow> stage_state \<Rightarrow> validation_check \<Rightarrow> stage_state" where
  "look_into s n st c =
     (if vc_state c \<noteq> FailedCheck \<or> vc_resultAt c = None then st
      else if claimIsLive c (s_now s) (dp_validationClaimMinutes (sx_opts s)) then st
      else snd (considerWith s (read_only_candidate (validationFailureOrigin n (vc_id c)) RuleValidationFailed
        (validationFailureBranch n (vc_id c)) (dp_defaultBranch (sx_opts s))) None
        (sinceReading (dx_recentDecisions (sx_ctx s)) c) st))"

definition validationFailed :: "stage \<Rightarrow> stage_state \<Rightarrow> stage_state" where
  "validationFailed s st =
     foldl (\<lambda>st i. if \<not> validating s i then st
        else foldl (look_into s (i_number i)) st (liveChecks (checksByOrigin s (issueOrigin (i_number i)))))
       st (s_issues s)"

section \<open>Runs an operator asked for\<close>

text \<open>The live, watched issue a row is about; its state is not asked for.\<close>

definition watched_issue :: "stage \<Rightarrow> nat \<Rightarrow> bool" where
  "watched_issue s n \<longleftrightarrow>
     (case liveIssue s n of None \<Rightarrow> False | Some i \<Rightarrow> issueWatchGateReason i (s_pickup s) = None)"

definition start_remote :: "stage \<Rightarrow> stage_state \<Rightarrow> remote_run \<Rightarrow> stage_state" where
  "start_remote s st run =
     (if ru_status run \<noteq> RemotePending \<or> ru_confirmed run = 0 then st
      else if \<not> watched_issue s (ru_issueNumber run) then st
      else if ru_origin run \<in> set (s_active s) then st
      else push_candidate (candidate_of CodeTask (ru_origin run) RuleRemoteValidation
        ((readOnlyDispatch (ru_leaseKey run) (ru_deployedSha run)
            (dispatch_action CodeTask (ru_origin run) RuleRemoteValidation))\<lparr>a_remoteRun := Some (ru_runId run)\<rparr>)) st)"

definition remoteValidation :: "stage \<Rightarrow> stage_state \<Rightarrow> stage_state" where
  "remoteValidation s st = foldl (start_remote s) st (dx_remoteRuns (sx_ctx s))"

definition runToValidate :: "stage \<Rightarrow> local_validation \<Rightarrow> local_run option" where
  "runToValidate s row =
     (if validationRunStale row (dx_localRun (sx_ctx s)) \<noteq> None then None
      else case dx_localRun (sx_ctx s) of
          None \<Rightarrow> None
        | Some run \<Rightarrow> if lr_status run \<noteq> RunStarting \<and> lr_status run \<noteq> RunRunning then None else Some run)"

definition start_local :: "stage \<Rightarrow> stage_state \<Rightarrow> local_validation \<Rightarrow> stage_state" where
  "start_local s st row =
     (if lv_status row \<noteq> LvPending \<or> runToValidate s row = None then st
      else case issueOriginNumber Root (lv_originRef row) of
          None \<Rightarrow> st
        | Some n \<Rightarrow>
            let origin = localValidationOrigin n (lv_id row) in
            if \<not> watched_issue s n \<or> origin \<in> set (s_active s) then st
            else push_candidate (candidate_of CodeTask origin LocalValidation
              ((readOnlyDispatch (localValidationKey n (lv_id row)) (default_to (lv_ref row) (lv_commit row))
                  (dispatch_action CodeTask origin LocalValidation))
                \<lparr>a_localValidation := Some (lv_id row, AsValidation)\<rparr>)) st)"

definition localValidation :: "stage \<Rightarrow> stage_state \<Rightarrow> stage_state" where
  "localValidation s st = foldl (start_local s) st (dx_localValidations (sx_ctx s))"

definition fix_local :: "stage \<Rightarrow> stage_state \<Rightarrow> local_validation \<Rightarrow> stage_state" where
  "fix_local s st row =
     (if lv_status row \<noteq> LvFailed \<or> lv_fixTaskId row \<noteq> None \<or> lv_findings row = [] then st
      else if lv_ref row = dp_defaultBranch (sx_opts s) then st
      else case issueOriginNumber Root (lv_originRef row) of
          None \<Rightarrow> st
        | Some n \<Rightarrow>
            let origin = localValidationFixOrigin n (lv_id row) in
            if \<not> watched_issue s n \<or> origin \<in> set (s_active s) then st
            else push_candidate (candidate_of CodeTask origin RuleLocalValidationFix
              ((dispatch_action CodeTask origin RuleLocalValidationFix)
                \<lparr>a_branch := Some (lv_ref row), a_base := Some (dp_defaultBranch (sx_opts s)),
                 a_localValidation := Some (lv_id row, AsFix)\<rparr>)) st)"

definition localValidationFix :: "stage \<Rightarrow> stage_state \<Rightarrow> stage_state" where
  "localValidationFix s st = foldl (fix_local s) st (dx_localValidations (sx_ctx s))"

section \<open>What the rules offer\<close>

interpretation check_set_rule: stage_rule validationPlan "{RuleValidationPlan}" reading
proof
  fix s st
  show "appends (\<lambda>c. cd_rule c \<in> {RuleValidationPlan} \<and> wf_candidate c \<and> reading s c) no_dispatch st (validationPlan s st)"
    by (auto simp: validationPlan_def author_checks_def Let_def intro!: append_rules appends_foldl)
qed

interpretation check_approval_rule: stage_rule validationPlanApproval "{}" "\<lambda>s c. False"
proof
  fix s st
  show "appends (\<lambda>c. cd_rule c \<in> {} \<and> wf_candidate c \<and> False) no_dispatch st (validationPlanApproval s st)"
    by (auto simp: validationPlanApproval_def propose_checks_def Let_def no_dispatch_def new_action_def
        intro!: append_rules appends_foldl)
qed

text \<open>A check is run only for a delivered, watched goal whose check set is released, and only one the fleet can run.\<close>

definition check_offer :: "stage \<Rightarrow> candidate \<Rightarrow> bool" where
  "check_offer s c \<longleftrightarrow> reading s c \<and>
     (\<exists>i k. i \<in> set (s_issues s) \<and> validating s i \<and> k \<in> set (liveChecks (checksByOrigin s (issueOrigin (i_number i)))) \<and>
        fleetWillRun k \<and> checkSetReleased (planRecord s (issueOrigin (i_number i))) (liveChecks (checksByOrigin s (issueOrigin (i_number i)))) \<and>
        cd_origin c = validateOrigin (i_number i) (vc_id k))"

lemma check_offer_held [simp]: "check_offer s (c\<lparr>cd_held := h\<rparr>) = check_offer s c"
  by (simp add: check_offer_def)

interpretation check_rule: stage_rule validateCheck "{RuleValidateCheck}" check_offer
proof
  fix s st
  have "appends (\<lambda>c. cd_rule c \<in> {RuleValidateCheck} \<and> wf_candidate c \<and> check_offer s c) no_dispatch st (run_checks s st i)"
    if i: "i \<in> set (s_issues s)" for st i
  proof -
    let ?cs = "liveChecks (checksByOrigin s (issueOrigin (i_number i)))"
    have "check_offer s (read_only_candidate (validateOrigin (i_number i) (vc_id k)) r b f)"
      if "k \<in> set ?cs" "fleetWillRun k" "validating s i" "checkSetReleased (planRecord s (issueOrigin (i_number i))) ?cs" for k r b f
      using i that unfolding check_offer_def by (auto intro!: exI [of _ i] exI [of _ k])
    then show ?thesis by (auto simp: run_checks_def run_check_def Let_def intro!: append_rules appends_foldl)
  qed
  then show "appends (\<lambda>c. cd_rule c \<in> {RuleValidateCheck} \<and> wf_candidate c \<and> check_offer s c) no_dispatch st (validateCheck s st)"
    unfolding validateCheck_def by (rule appends_foldl)
qed

interpretation failed_rule: stage_rule validationFailed "{RuleValidationFailed}" reading
proof
  fix s st
  show "appends (\<lambda>c. cd_rule c \<in> {RuleValidationFailed} \<and> wf_candidate c \<and> reading s c) no_dispatch st (validationFailed s st)"
    by (auto simp: validationFailed_def look_into_def intro!: append_rules appends_foldl considerWith_appends)
qed

interpretation remote_rule: stage_rule remoteValidation "{RuleRemoteValidation}" reading
proof
  fix s st
  show "appends (\<lambda>c. cd_rule c \<in> {RuleRemoteValidation} \<and> wf_candidate c \<and> reading s c) no_dispatch st (remoteValidation s st)"
    by (auto simp: remoteValidation_def start_remote_def reading_def build_defs wf_candidate_def intro!: append_rules appends_foldl)
qed

interpretation local_rule: stage_rule localValidation "{LocalValidation}" reading
proof
  fix s st
  show "appends (\<lambda>c. cd_rule c \<in> {LocalValidation} \<and> wf_candidate c \<and> reading s c) no_dispatch st (localValidation s st)"
    by (auto simp: localValidation_def start_local_def Let_def reading_def build_defs wf_candidate_def split: option.split
        intro!: append_rules appends_foldl)
qed

text \<open>A fix writes to the branch that was validated, which is never the default branch.\<close>

definition fix_offer :: "stage \<Rightarrow> candidate \<Rightarrow> bool" where
  "fix_offer s c \<longleftrightarrow>
     (\<exists>row. row \<in> set (dx_localValidations (sx_ctx s)) \<and> lv_status row = LvFailed \<and> lv_fixTaskId row = None \<and>
        cd_branch c = Some (lv_ref row) \<and> lv_ref row \<noteq> dp_defaultBranch (sx_opts s))"

interpretation fix_rule: stage_rule localValidationFix "{RuleLocalValidationFix}" fix_offer
proof
  fix s st
  show "appends (\<lambda>c. cd_rule c \<in> {RuleLocalValidationFix} \<and> wf_candidate c \<and> fix_offer s c) no_dispatch st (localValidationFix s st)"
    by (auto simp: localValidationFix_def fix_local_def Let_def fix_offer_def build_defs wf_candidate_def split: option.split
        intro!: append_rules appends_foldl) metis
qed

end
