(* ===== verification/Dispatch.thy ===== *)
theory Dispatch
  imports PlanRules TrackerRules ValidationRules
begin

text \<open>
  One dispatch pass: \<^verbatim>\<open>RuleDispatcher.decide\<close> of \<^verbatim>\<open>src/src/dispatcher/ruleDispatcher.ts\<close>. The rules of
  the pipeline run in order over one stage; the candidates are cleared of the holds an operator lifts,
  ranked (\<^verbatim>\<open>priorityOverride.ts\<close>), and admitted while the fleet has room. Then what is proved of the
  whole pass, from the contracts of its rules.
\<close>

section \<open>The rule book\<close>

fun rule_name :: "rule_id \<Rightarrow> string" where
  "rule_name ManualJob = ''manual-job''"
| "rule_name LocalValidation = ''local-validation''"
| "rule_name PrReviewTriage = ''pr-review-triage''"
| "rule_name PrSplit = ''pr-split''"
| "rule_name PrDescribe = ''pr-describe''"
| "rule_name PrDescriptionCheck = ''pr-description-check''"
| "rule_name PrReview = ''pr-review''"
| "rule_name PrReviewComment = ''pr-review-comment''"
| "rule_name PrCiFailing = ''pr-ci-failing''"
| "rule_name PrCiBlocked = ''pr-ci-blocked''"
| "rule_name PrCiGate = ''pr-ci-gate''"
| "rule_name PrBaseUpdate = ''pr-base-update''"
| "rule_name PrBaseUpdateConflict = ''pr-base-update-conflict''"
| "rule_name PrMergeReady = ''pr-merge-ready''"
| "rule_name WorkItemInProgress = ''work-item-in-progress''"
| "rule_name WorkItemInReview = ''work-item-in-review''"
| "rule_name WorkItemBackToPickup = ''work-item-back-to-pickup''"
| "rule_name RuleAppraisal = ''issue-appraisal''"
| "rule_name RuleInvestigate = ''issue-investigate''"
| "rule_name RulePlan = ''issue-plan''"
| "rule_name RuleAssess = ''issue-assess''"
| "rule_name RuleShortfall = ''issue-shortfall''"
| "rule_name RuleRetro = ''issue-retro''"
| "rule_name RulePlanApproval = ''plan-approval''"
| "rule_name RulePlanAmendment = ''plan-amendment''"
| "rule_name RulePlanBlocked = ''plan-blocked''"
| "rule_name RuleLocalValidationFix = ''local-validation-fix''"
| "rule_name RulePlanPart = ''plan-part''"
| "rule_name RuleValidationPlan = ''validation-plan''"
| "rule_name RuleValidationPlanApproval = ''validation-plan-approval''"
| "rule_name RuleValidateCheck = ''validate-check''"
| "rule_name RuleRemoteValidation = ''remote-validation''"
| "rule_name RuleValidationFailed = ''validation-failed''"
| "rule_name RuleBotPrRisk = ''bot-pr-risk''"
| "rule_name RuleFeatureSummary = ''feature-summary''"
| "rule_name RuleFeatureSequence = ''feature-sequence''"
| "rule_name BranchNotify = ''branch-notify''"
| "rule_name CooldownEscalate = ''cooldown-escalate''"
| "rule_name Idle = ''idle''"

text \<open>The rules another rule's stage emits; every other rule of the pipeline has a stage of its own.\<close>

definition emitted_rules :: "rule_id list" where
  "emitted_rules =
     [PrReview, PrReviewComment, PrCiBlocked, PrCiGate, PrBaseUpdate, PrBaseUpdateConflict, PrMergeReady]"

record rule_conditions =
  rc_workItemStates :: bool
  rc_workItemInProgress :: bool
  rc_review :: bool
  rc_sequencer :: bool
  rc_remoteValidation :: bool
  rc_checkSets :: bool

definition rule_enabled :: "rule_conditions \<Rightarrow> rule_id \<Rightarrow> bool" where
  "rule_enabled c r \<longleftrightarrow>
     (if r = PrReviewTriage \<or> r = PrReview then rc_review c
      else if r = WorkItemInProgress then rc_workItemInProgress c
      else if r = WorkItemInReview \<or> r = WorkItemBackToPickup then rc_workItemStates c
      else if r = RuleValidationPlan \<or> r = RuleValidationPlanApproval then rc_checkSets c
      else if r = RuleRemoteValidation then rc_remoteValidation c
      else if r = RuleFeatureSequence then rc_sequencer c
      else True)"

definition conditions_of :: "stage \<Rightarrow> rule_conditions" where
  "conditions_of s =
     \<lparr>rc_workItemStates = (workItemStates s \<noteq> None), rc_workItemInProgress = (workItemInProgressGate s \<noteq> None),
      rc_review = rv_enabled (dp_review (sx_opts s)),
      rc_sequencer = (py_sequencing (dp_pickup (sx_opts s)) = Some SequencingFull),
      rc_remoteValidation = dp_remoteValidationOn (sx_opts s), rc_checkSets = dp_checkSets (sx_opts s)\<rparr>"

fun STAGES :: "rule_id \<Rightarrow> stage \<Rightarrow> stage_state \<Rightarrow> stage_state" where
  "STAGES ManualJob = manualJob"
| "STAGES PrReviewTriage = prReviewTriage"
| "STAGES PrSplit = prSplit"
| "STAGES PrDescribe = prDescribe"
| "STAGES PrDescriptionCheck = prDescriptionCheck"
| "STAGES PrCiFailing = prConcerns"
| "STAGES WorkItemInProgress = workItemInProgress"
| "STAGES WorkItemInReview = workItemInReview"
| "STAGES WorkItemBackToPickup = workItemBackToPickup"
| "STAGES RuleAppraisal = issueAppraisal"
| "STAGES RuleInvestigate = issueInvestigate"
| "STAGES RulePlan = issuePlan"
| "STAGES RuleAssess = issueAssess"
| "STAGES RuleShortfall = issueShortfall"
| "STAGES RuleRetro = issueRetro"
| "STAGES RulePlanApproval = planApproval"
| "STAGES RulePlanAmendment = planAmendment"
| "STAGES RulePlanBlocked = planBlocked"
| "STAGES RulePlanPart = planPart"
| "STAGES LocalValidation = localValidation"
| "STAGES RuleLocalValidationFix = localValidationFix"
| "STAGES RuleValidationPlan = validationPlan"
| "STAGES RuleValidationPlanApproval = validationPlanApproval"
| "STAGES RuleValidateCheck = validateCheck"
| "STAGES RuleRemoteValidation = remoteValidation"
| "STAGES RuleValidationFailed = validationFailed"
| "STAGES RuleBotPrRisk = botPrRisk"
| "STAGES RuleFeatureSummary = featureSummary"
| "STAGES RuleFeatureSequence = featureSequence"
| "STAGES _ = (\<lambda>s st. st)"

definition run_rule :: "stage \<Rightarrow> stage_state \<Rightarrow> rule_id \<Rightarrow> stage_state" where
  "run_rule s st r =
     (if r \<in> set emitted_rules then st
      else if \<not> rule_enabled (conditions_of s) r then st
      else STAGES r s st)"

definition run_pipeline :: "stage \<Rightarrow> stage_state" where
  "run_pipeline s = foldl (run_rule s) empty_stage DISPATCH_PIPELINE"

section \<open>Ranking\<close>

text \<open>A candidate with its place, its tier and what orders it inside the tier.\<close>

record 'a ranked_entry =
  re_candidate :: 'a
  re_index :: nat
  re_tier :: nat
  re_secondary :: int

definition rank_tier :: "(string, int) jsmap \<Rightarrow> (string \<Rightarrow> bool) \<Rightarrow> candidate \<Rightarrow> nat" where
  "rank_tier overrideRank isExpedited c =
     (if cd_rule c = ManualJob then 0
      else if isExpedited (cd_origin c) then 1
      else if map_of overrideRank (cd_origin c) \<noteq> None then 2 else 3)"

definition keyed_entry :: "(string, int) jsmap \<Rightarrow> (string \<Rightarrow> bool) \<Rightarrow> candidate \<times> nat \<Rightarrow> candidate ranked_entry" where
  "keyed_entry overrideRank isExpedited ci =
     (let t = rank_tier overrideRank isExpedited (fst ci) in
      \<lparr>re_candidate = fst ci, re_index = snd ci, re_tier = t,
       re_secondary = (if t = 2 then the (map_of overrideRank (cd_origin (fst ci))) else int (snd ci))\<rparr>)"

definition rankByPriorityOverride ::
  "candidate list \<Rightarrow> (string, int) jsmap \<Rightarrow> (string \<Rightarrow> bool) \<Rightarrow> candidate list" where
  "rankByPriorityOverride candidates overrideRank isExpedited =
     map re_candidate (js_sort (cmp_or (by_key (\<lambda>k. int (re_tier k))) (cmp_or (by_key re_secondary) (by_key (\<lambda>k. int (re_index k)))))
       (map (keyed_entry overrideRank isExpedited) (zip candidates [0..<length candidates])))"

definition overrideRank :: "stage \<Rightarrow> (string, int) jsmap" where
  "overrideRank s = map_from (map (\<lambda>o'. (po_origin o', po_rank o')) (dx_priorityOverrides (sx_ctx s)))"

definition expeditedFor :: "stage \<Rightarrow> string \<Rightarrow> bool" where
  "expeditedFor s =
     expeditedOrigins (dx_goalPriorities (sx_ctx s))
       \<lparr>gw_openPrs = s_openPrs s, gw_issues = s_issues s, gw_plans = dx_plans (sx_ctx s), gw_parts = dx_planParts (sx_ctx s)\<rparr>
       (py_containerTypes (dp_pickup (sx_opts s)))"

definition clear_hold :: "stage \<Rightarrow> candidate \<Rightarrow> candidate" where
  "clear_hold s c =
     (case cd_held c of
        None \<Rightarrow> c
      | Some h \<Rightarrow>
          if h \<in> set LIFTABLE_HOLDS \<and> (expeditedFor s (cd_origin c) \<or> map_of (overrideRank s) (cd_origin c) \<noteq> None)
          then c\<lparr>cd_held := None\<rparr> else c)"

definition ranked_candidates :: "stage \<Rightarrow> candidate list" where
  "ranked_candidates s =
     rankByPriorityOverride (map (clear_hold s) (ss_candidates (run_pipeline s))) (overrideRank s) (expeditedFor s)"

section \<open>Admission\<close>

datatype queue_status = Dispatching | HeldBy rule_held | WaitingForRoom

record queue_item =
  qi_origin :: string
  qi_rule :: rule_id
  qi_kind :: task_kind
  qi_branch :: "string option"
  qi_status :: queue_status
  qi_expedited :: bool
  qi_profile :: "string option"
  qi_source :: "profile_source option"
  qi_override :: "string option"

definition queue_entry :: "stage \<Rightarrow> candidate \<Rightarrow> queue_status \<Rightarrow> queue_item" where
  "queue_entry s c status =
     (let resolved = resolveAgentProfile (map_option snd (dx_modelPins (sx_ctx s))) (Some (rule_name (cd_rule c)))
                       (pinFor s (Some (cd_origin c))) in
      \<lparr>qi_origin = cd_origin c, qi_rule = cd_rule c, qi_kind = cd_kind c, qi_branch = cd_branch c, qi_status = status,
       qi_expedited = expeditedFor s (cd_origin c), qi_profile = map_option rp_name resolved,
       qi_source = map_option rp_source resolved, qi_override = profileOverride s (cd_origin c)\<rparr>)"

definition pinAction :: "action \<Rightarrow> string option \<Rightarrow> action" where
  "pinAction a profile = (case profile of None \<Rightarrow> a | Some p \<Rightarrow> a\<lparr>a_profile := Some p\<rparr>)"

record admission =
  ad_headroom :: int
  ad_raw :: "action list"
  ad_active :: "string list"
  ad_upcoming :: "queue_item list"

definition admit :: "stage \<Rightarrow> admission \<Rightarrow> candidate \<Rightarrow> admission" where
  "admit s m c =
     (if cd_origin c \<in> set (ad_active m) then m
      else case cd_held c of
          Some h \<Rightarrow> m\<lparr>ad_upcoming := ad_upcoming m @ [queue_entry s c (HeldBy h)]\<rparr>
        | None \<Rightarrow>
            if 0 < ad_headroom m then
              m\<lparr>ad_raw := ad_raw m @ [pinAction (cd_action c) (pinFor s (Some (cd_origin c)))],
                ad_active := ad_active m @ [cd_origin c], ad_headroom := ad_headroom m - 1,
                ad_upcoming := ad_upcoming m @ [queue_entry s c Dispatching]\<rparr>
            else m\<lparr>ad_upcoming := ad_upcoming m @ [queue_entry s c WaitingForRoom]\<rparr>)"

definition admission_of :: "stage \<Rightarrow> admission" where
  "admission_of s =
     foldl (admit s)
       \<lparr>ad_headroom = dx_agentHeadroom (sx_ctx s), ad_raw = ss_raw (run_pipeline s), ad_active = s_active s, ad_upcoming = []\<rparr>
       (ranked_candidates s)"

section \<open>The answer of a pass\<close>

text \<open>
  What the schema of an action asks of the fields the model keeps (\<^verbatim>\<open>actions.ts\<close>); the prose fields it
  also asks for are never empty. An action it refuses is reported, not taken.
\<close>

definition non_empty :: "string option \<Rightarrow> bool" where
  "non_empty x = (case x of Some (c # cs) \<Rightarrow> True | _ \<Rightarrow> False)"

definition schema_accepts :: "action \<Rightarrow> bool" where
  "schema_accepts a \<longleftrightarrow>
     (case a_type a of
        DispatchCodeAgent \<Rightarrow> non_empty (a_branch a) \<and> a_base a \<noteq> Some '''' \<and> a_profile a \<noteq> Some '''' \<and>
          (case a_localValidation a of None \<Rightarrow> True | Some (i, r) \<Rightarrow> i \<noteq> '''') \<and> a_remoteRun a \<noteq> Some ''''
      | DispatchDeskAgent \<Rightarrow> a_botPrRiskRun a \<noteq> Some '''' \<and> a_profile a \<noteq> Some ''''
      | RespondToAgent \<Rightarrow> non_empty (a_agentId a)
      | ProposePlan \<Rightarrow> non_empty (a_planId a) \<and> non_empty (a_originRef a)
      | ProposePlanAmendment \<Rightarrow> non_empty (a_amendmentId a) \<and> non_empty (a_planId a) \<and> non_empty (a_originRef a)
      | ProposeValidationPlan \<Rightarrow> non_empty (a_originRef a) \<and> a_number a \<noteq> None
      | ProposeShortfall \<Rightarrow> non_empty (a_originRef a) \<and> a_number a \<noteq> None \<and> non_empty (a_planId a)
      | UpdatePrBranch \<Rightarrow> a_number a \<noteq> None \<and> non_empty (a_base a) \<and> non_empty (a_branch a) \<and> non_empty (a_originRef a)
      | RequeueCiCheck \<Rightarrow> a_number a \<noteq> None \<and> a_checks a \<noteq> [] \<and> list_all (\<lambda>(n, r). n \<noteq> '''' \<and> r \<noteq> '''') (a_checks a) \<and>
          non_empty (a_originRef a)
      | SetWorkItemState \<Rightarrow> a_number a \<noteq> None \<and> non_empty (a_state a)
      | MergePr \<Rightarrow> a_number a \<noteq> None
      | ReplyOnPr \<Rightarrow> a_number a \<noteq> None
      | EscalateToHuman \<Rightarrow> True
      | NoOp \<Rightarrow> True)"

record dispatch_result =
  dr_actions :: "action list"
  dr_rejected :: "action list"
  dr_upcoming :: "queue_item list"

definition parseActions :: "action list \<Rightarrow> action list \<times> action list" where
  "parseActions raw = (filter schema_accepts raw, filter (\<lambda>a. \<not> schema_accepts a) raw)"

definition no_op :: action where "no_op = (new_action NoOp)\<lparr>a_rule := Some Idle\<rparr>"

definition decide :: "stage \<Rightarrow> dispatch_result" where
  "decide s =
     (let m = admission_of s;
          raw = (if ad_raw m = [] then [no_op] else ad_raw m)
      in \<lparr>dr_actions = fst (parseActions raw), dr_rejected = snd (parseActions raw), dr_upcoming = ad_upcoming m\<rparr>)"

end
