(* ===== verification/DispatchLaws.thy ===== *)
theory DispatchLaws
  imports Dispatch DispatchSamples
begin

text \<open>
  What holds of a whole dispatch pass. The contracts of the rules (\<open>stage_rule\<close>, interpreted with each
  rule) give what a candidate of each rule is; the loop over the ranked candidates is shown to take the
  first offer for each free origin while there is room; together they say what a pass may dispatch.
\<close>

section \<open>What each rule may offer\<close>

fun rule_claim :: "rule_id \<Rightarrow> stage \<Rightarrow> candidate \<Rightarrow> bool" where
  "rule_claim ManualJob = (\<lambda>s c. \<exists>j. j \<in> set (dx_queuedJobs (sx_ctx s)) \<and> c = manual_candidate j)"
| "rule_claim RuleAppraisal = eligible_read appraisalOrigin"
| "rule_claim RuleInvestigate = eligible_read investigateOrigin"
| "rule_claim RulePlan = eligible_read planOrigin"
| "rule_claim RuleAssess = watched_read assessOrigin"
| "rule_claim RuleRetro = watched_read retroOrigin"
| "rule_claim RulePlanPart = part_offer"
| "rule_claim PrReview = concern_offer"
| "rule_claim PrReviewComment = concern_offer"
| "rule_claim PrCiFailing = concern_offer"
| "rule_claim PrCiGate = concern_offer"
| "rule_claim PrBaseUpdate = concern_offer"
| "rule_claim PrBaseUpdateConflict = concern_offer"
| "rule_claim RuleValidateCheck = check_offer"
| "rule_claim RuleLocalValidationFix = fix_offer"
| "rule_claim _ = reading"

definition offered :: "stage \<Rightarrow> candidate \<Rightarrow> bool" where
  "offered s c \<longleftrightarrow> wf_candidate c \<and> rule_claim (cd_rule c) s c"

lemma offered_by_rules:
  "appends (offered s) no_dispatch st (manualJob s st)"
  "appends (offered s) no_dispatch st (prReviewTriage s st)"
  "appends (offered s) no_dispatch st (prSplit s st)"
  "appends (offered s) no_dispatch st (prDescribe s st)"
  "appends (offered s) no_dispatch st (prDescriptionCheck s st)"
  "appends (offered s) no_dispatch st (prConcerns s st)"
  "appends (offered s) no_dispatch st (issueAppraisal s st)"
  "appends (offered s) no_dispatch st (issueInvestigate s st)"
  "appends (offered s) no_dispatch st (issuePlan s st)"
  "appends (offered s) no_dispatch st (issueAssess s st)"
  "appends (offered s) no_dispatch st (issueRetro s st)"
  "appends (offered s) no_dispatch st (planPart s st)"
  "appends (offered s) no_dispatch st (localValidation s st)"
  "appends (offered s) no_dispatch st (localValidationFix s st)"
  "appends (offered s) no_dispatch st (validationPlan s st)"
  "appends (offered s) no_dispatch st (validateCheck s st)"
  "appends (offered s) no_dispatch st (remoteValidation s st)"
  "appends (offered s) no_dispatch st (validationFailed s st)"
  "appends (offered s) no_dispatch st (botPrRisk s st)"
  by (rule manual_rule.runs [THEN appends_mono] triage_rule.runs [THEN appends_mono] split_rule.runs [THEN appends_mono]
      describe_rule.runs [THEN appends_mono] description_check_rule.runs [THEN appends_mono]
      concern_rule.runs [THEN appends_mono] appraisal_rule.runs [THEN appends_mono]
      investigation_rule.runs [THEN appends_mono] plan_rule.runs [THEN appends_mono] assess_rule.runs [THEN appends_mono]
      retro_rule.runs [THEN appends_mono] part_rule.runs [THEN appends_mono] local_rule.runs [THEN appends_mono]
      fix_rule.runs [THEN appends_mono] check_set_rule.runs [THEN appends_mono] check_rule.runs [THEN appends_mono]
      remote_rule.runs [THEN appends_mono] failed_rule.runs [THEN appends_mono] risk_rule.runs [THEN appends_mono];
      auto simp: offered_def concern_rules_def)+

lemma offered_at_desk:
  "appends (offered s) no_dispatch st (featureSummary s st)"
  "appends (offered s) no_dispatch st (featureSequence s st)"
  by (rule summary_rule.runs [THEN appends_mono] sequence_rule.runs [THEN appends_mono];
      auto simp: offered_def at_desk_def reading_def)+

lemma offered_by_askers:
  "appends (offered s) no_dispatch st (workItemInProgress s st)"
  "appends (offered s) no_dispatch st (workItemInReview s st)"
  "appends (offered s) no_dispatch st (workItemBackToPickup s st)"
  "appends (offered s) no_dispatch st (issueShortfall s st)"
  "appends (offered s) no_dispatch st (planApproval s st)"
  "appends (offered s) no_dispatch st (planAmendment s st)"
  "appends (offered s) no_dispatch st (planBlocked s st)"
  "appends (offered s) no_dispatch st (validationPlanApproval s st)"
  by (rule in_progress_rule.runs [THEN appends_mono] in_review_rule.runs [THEN appends_mono] back_rule.runs [THEN appends_mono]
      shortfall_rule.runs [THEN appends_mono] approval_rule.runs [THEN appends_mono] amendment_rule.runs [THEN appends_mono]
      blocked_rule.runs [THEN appends_mono] check_approval_rule.runs [THEN appends_mono]; simp)+

lemma run_rule_offers: "appends (offered s) no_dispatch st (run_rule s st r)"
  unfolding run_rule_def
  by (cases r) (simp_all add: appends_refl offered_by_rules offered_at_desk offered_by_askers)

lemma pipeline_offers: "appends (offered s) no_dispatch empty_stage (run_pipeline s)"
  unfolding run_pipeline_def by (rule appends_foldl) (rule run_rule_offers)

lemma pipeline_candidates: "c \<in> set (ss_candidates (run_pipeline s)) \<Longrightarrow> offered s c"
  using appendsD(1) [OF pipeline_offers] by (auto simp: empty_stage_def)

lemma pipeline_raw: "a \<in> set (ss_raw (run_pipeline s)) \<Longrightarrow> no_dispatch a"
  using appendsD(2) [OF pipeline_offers] by (auto simp: empty_stage_def)

section \<open>The ranking\<close>

text \<open>A sort by a bounded tier first is the sort of each tier, one after the other.\<close>

lemma ins_by_skip:
  "\<forall>y \<in> set ys. t y < t x \<Longrightarrow>
     ins_by (cmp_or (by_key (\<lambda>k. int (t k))) g) x (ys @ zs) = ys @ ins_by (cmp_or (by_key (\<lambda>k. int (t k))) g) x zs"
  by (induction ys) (auto simp: cmp_or_def by_key_def)

lemma ins_by_stay:
  "\<forall>y \<in> set ys. t y = t x \<Longrightarrow> \<forall>z \<in> set zs. t x < t z \<Longrightarrow>
     ins_by (cmp_or (by_key (\<lambda>k. int (t k))) g) x (ys @ zs) = ins_by g x ys @ zs"
  by (induction ys) (cases zs; auto simp: cmp_or_def by_key_def)+

definition bucket :: "('a \<Rightarrow> nat) \<Rightarrow> ('a \<Rightarrow> 'a \<Rightarrow> int) \<Rightarrow> 'a list \<Rightarrow> nat \<Rightarrow> 'a list" where
  "bucket t g xs k = js_sort g (filter (\<lambda>x. t x = k) xs)"

lemma bucket_members: "\<forall>y \<in> set (bucket t g xs k). t y = k"
  by (auto simp: bucket_def)

lemma bucket_Cons: "bucket t g (x # xs) k = (if t x = k then ins_by g x (bucket t g xs k) else bucket t g xs k)"
  by (simp add: bucket_def)

lemma js_sort_buckets:
  "(\<And>x. x \<in> set xs \<Longrightarrow> t x < 4) \<Longrightarrow>
     js_sort (cmp_or (by_key (\<lambda>k. int (t k))) g) xs =
       bucket t g xs 0 @ bucket t g xs 1 @ bucket t g xs 2 @ bucket t g xs 3"
proof (induction xs)
  case (Cons x xs)
  let ?b = "bucket t g xs"
  let ?ins = "ins_by (cmp_or (by_key (\<lambda>k. int (t k))) g) x"
  note skip = ins_by_skip [where t = t and x = x and g = g]
  note stay = ins_by_stay [where t = t and x = x and g = g]
  from Cons.prems have "t x < 4" by simp
  then consider "t x = 0" | "t x = 1" | "t x = 2" | "t x = 3" by linarith
  then have "?ins (?b 0 @ ?b 1 @ ?b 2 @ ?b 3) =
      bucket t g (x # xs) 0 @ bucket t g (x # xs) 1 @ bucket t g (x # xs) 2 @ bucket t g (x # xs) 3"
  proof cases
    case 1
    then show ?thesis using stay [of "?b 0" "?b 1 @ ?b 2 @ ?b 3"] by (simp add: bucket_Cons ball_Un bucket_members [THEN bspec])
  next
    case 2
    then show ?thesis using skip [of "?b 0" "?b 1 @ ?b 2 @ ?b 3"] stay [of "?b 1" "?b 2 @ ?b 3"]
      by (simp add: bucket_Cons ball_Un bucket_members [THEN bspec])
  next
    case 3
    then show ?thesis using skip [of "?b 0 @ ?b 1" "?b 2 @ ?b 3"] stay [of "?b 2" "?b 3"]
      by (simp add: bucket_Cons ball_Un bucket_members [THEN bspec])
  next
    case 4
    then show ?thesis using skip [of "?b 0 @ ?b 1 @ ?b 2" "?b 3"] stay [of "?b 3" "[]"]
      by (simp add: bucket_Cons ball_Un bucket_members [THEN bspec])
  qed
  with Cons show ?case by simp
qed (simp add: bucket_def)

lemma map_ins_by:
  "(\<And>y. y \<in> set ys \<Longrightarrow> g x y \<le> 0 \<longleftrightarrow> h (f x) (f y) \<le> 0) \<Longrightarrow> map f (ins_by g x ys) = ins_by h (f x) (map f ys)"
  by (induction ys) auto

lemma map_js_sort:
  "sorted_wrt (\<lambda>a b. g a b \<le> 0 \<longleftrightarrow> h (f a) (f b) \<le> 0) xs \<Longrightarrow> map f (js_sort g xs) = js_sort h (map f xs)"
proof (induction xs)
  case (Cons a xs)
  then have "map f (ins_by g a (js_sort g xs)) = ins_by h (f a) (map f (js_sort g xs))" by (intro map_ins_by) simp
  with Cons show ?case by simp
qed simp

definition keyed_from :: "(string, int) jsmap \<Rightarrow> (string \<Rightarrow> bool) \<Rightarrow> nat \<Rightarrow> candidate list \<Rightarrow> candidate ranked_entry list" where
  "keyed_from R E m cs = map (keyed_entry R E) (zip cs [m..<m + length cs])"

lemma keyed_from_Cons: "keyed_from R E m (c # cs) = keyed_entry R E (c, m) # keyed_from R E (Suc m) cs"
  by (simp add: keyed_from_def upt_conv_Cons del: upt_Suc)

lemma keyed_from_Nil [simp]: "keyed_from R E m [] = []"
  by (simp add: keyed_from_def)

lemma keyed_entry_fields [simp]:
  "re_candidate (keyed_entry R E ci) = fst ci" "re_index (keyed_entry R E ci) = snd ci"
  "re_tier (keyed_entry R E ci) = rank_tier R E (fst ci)"
  by (simp_all add: keyed_entry_def Let_def)

lemma keyed_from_members:
  "k \<in> set (keyed_from R E m cs) \<Longrightarrow> m \<le> re_index k \<and> (\<exists>c \<in> set cs. k = keyed_entry R E (c, re_index k))"
  by (induction cs arbitrary: m) (fastforce simp: keyed_from_Cons)+

lemma keyed_from_sorted: "sorted_wrt (\<lambda>a b. re_index a < re_index b) (keyed_from R E m cs)"
  by (induction cs arbitrary: m) (fastforce simp: keyed_from_Cons dest: keyed_from_members)+

lemma keyed_from_filter:
  "map re_candidate (filter (\<lambda>k. re_tier k = t) (keyed_from R E m cs)) = filter (\<lambda>c. rank_tier R E c = t) cs"
  by (induction cs arbitrary: m) (auto simp: keyed_from_Cons)

lemma keyed_secondary:
  "k \<in> set (keyed_from R E m cs) \<Longrightarrow>
     re_secondary k = (if re_tier k = 2 then the (map_of R (cd_origin (re_candidate k))) else int (re_index k))"
  by (induction cs arbitrary: m) (auto simp: keyed_from_Cons keyed_entry_def Let_def)

lemma keyed_order:
  assumes "a \<in> set (keyed_from R E m cs)" and "b \<in> set (keyed_from R E m cs)"
    and "re_index a < re_index b" and "re_tier a = re_tier b"
  shows "cmp_or (by_key re_secondary) (by_key (\<lambda>k. int (re_index k))) a b \<le> 0 \<longleftrightarrow>
    re_tier a \<noteq> 2 \<or> by_key (\<lambda>c. the (map_of R (cd_origin c))) (re_candidate a) (re_candidate b) \<le> 0"
proof (cases "re_tier a = 2")
  case True
  then show ?thesis using assms(3,4) unfolding cmp_or_def by_key_def keyed_secondary [OF assms(1)] keyed_secondary [OF assms(2)] by simp
next
  case False
  then show ?thesis using assms(3,4) unfolding cmp_or_def by_key_def keyed_secondary [OF assms(1)] keyed_secondary [OF assms(2)] by simp
qed

lemma rank_tier_bound: "rank_tier R E c < 4"
  by (simp add: rank_tier_def)

lemma sorted_wrt_strengthen:
  "sorted_wrt P xs \<Longrightarrow> (\<And>a b. a \<in> set xs \<Longrightarrow> b \<in> set xs \<Longrightarrow> P a b \<Longrightarrow> Q a b) \<Longrightarrow> sorted_wrt Q xs"
  by (induction xs) auto

text \<open>
  C10. The ranking of a pass: the operator's own jobs first, then what a goal with priority reaches, then
  the origins the operator ordered by hand, by the rank given, then everything else; within a tier, and
  among equal ranks, candidates keep the order the rules offered them in.
\<close>

theorem ranking_is_four_stable_tiers:
  "rankByPriorityOverride cs R E =
     filter (\<lambda>c. cd_rule c = ManualJob) cs
     @ filter (\<lambda>c. cd_rule c \<noteq> ManualJob \<and> E (cd_origin c)) cs
     @ js_sort (by_key (\<lambda>c. the (map_of R (cd_origin c))))
         (filter (\<lambda>c. cd_rule c \<noteq> ManualJob \<and> \<not> E (cd_origin c) \<and> map_of R (cd_origin c) \<noteq> None) cs)
     @ filter (\<lambda>c. cd_rule c \<noteq> ManualJob \<and> \<not> E (cd_origin c) \<and> map_of R (cd_origin c) = None) cs"
proof -
  let ?K = "keyed_from R E 0 cs"
  let ?g = "cmp_or (by_key re_secondary) (by_key (\<lambda>k. int (re_index k)))"
  have tier: "\<And>k. k \<in> set ?K \<Longrightarrow> re_tier k < 4"
    using keyed_from_members rank_tier_bound by (metis fst_conv keyed_entry_fields(3))
  have same: "map re_candidate (bucket re_tier ?g ?K t) = filter (\<lambda>c. rank_tier R E c = t) cs" if "t \<noteq> 2" for t
  proof -
    have "sorted_wrt (\<lambda>a b. ?g a b \<le> 0) (filter (\<lambda>k. re_tier k = t) ?K)"
      by (rule sorted_wrt_strengthen [OF sorted_wrt_filter [OF keyed_from_sorted]])
        (use that keyed_order in auto)
    then have "bucket re_tier ?g ?K t = filter (\<lambda>k. re_tier k = t) ?K"
      unfolding bucket_def by (intro comparator.js_sort_sorted_id) auto
    then show ?thesis by (simp add: keyed_from_filter)
  qed
  let ?h = "by_key (\<lambda>c. the (map_of R (cd_origin c)))"
  have "map re_candidate (bucket re_tier ?g ?K 2) = js_sort ?h (map re_candidate (filter (\<lambda>k. re_tier k = 2) ?K))"
    unfolding bucket_def
    by (rule map_js_sort, rule sorted_wrt_strengthen [OF sorted_wrt_filter [OF keyed_from_sorted]])
      (use keyed_order in auto)
  then have by_hand: "map re_candidate (bucket re_tier ?g ?K 2) = js_sort ?h (filter (\<lambda>c. rank_tier R E c = 2) cs)"
    by (simp add: keyed_from_filter)
  have "rankByPriorityOverride cs R E = map re_candidate (js_sort (cmp_or (by_key (\<lambda>k. int (re_tier k))) ?g) ?K)"
    by (simp add: rankByPriorityOverride_def keyed_from_def)
  also have "\<dots> = map re_candidate (bucket re_tier ?g ?K 0 @ bucket re_tier ?g ?K 1 @ bucket re_tier ?g ?K 2 @ bucket re_tier ?g ?K 3)"
    using js_sort_buckets [of ?K re_tier ?g] tier by simp
  also have "\<dots> = filter (\<lambda>c. rank_tier R E c = 0) cs @ filter (\<lambda>c. rank_tier R E c = 1) cs
      @ js_sort ?h (filter (\<lambda>c. rank_tier R E c = 2) cs) @ filter (\<lambda>c. rank_tier R E c = 3) cs"
    by (simp add: same by_hand)
  also have "filter (\<lambda>c. rank_tier R E c = 0) cs = filter (\<lambda>c. cd_rule c = ManualJob) cs"
    by (rule filter_cong) (simp_all add: rank_tier_def)
  also have "filter (\<lambda>c. rank_tier R E c = 1) cs = filter (\<lambda>c. cd_rule c \<noteq> ManualJob \<and> E (cd_origin c)) cs"
    by (rule filter_cong) (simp_all add: rank_tier_def)
  also have "filter (\<lambda>c. rank_tier R E c = 2) cs =
      filter (\<lambda>c. cd_rule c \<noteq> ManualJob \<and> \<not> E (cd_origin c) \<and> map_of R (cd_origin c) \<noteq> None) cs"
    by (rule filter_cong) (simp_all add: rank_tier_def)
  also have "filter (\<lambda>c. rank_tier R E c = 3) cs =
      filter (\<lambda>c. cd_rule c \<noteq> ManualJob \<and> \<not> E (cd_origin c) \<and> map_of R (cd_origin c) = None) cs"
    by (rule filter_cong) (simp_all add: rank_tier_def)
  finally show ?thesis .
qed

section \<open>The admission loop\<close>

text \<open>The first of the offers for each origin that is not already worked.\<close>

definition first_offers :: "string list \<Rightarrow> candidate list \<Rightarrow> candidate list" where
  "first_offers busy cs =
     map ((!) cs) (filter (\<lambda>i. cd_origin (cs ! i) \<notin> set busy \<and> (\<forall>j < i. cd_origin (cs ! j) \<noteq> cd_origin (cs ! i)))
       [0..<length cs])"

lemma first_offers_Nil [simp]: "first_offers busy [] = []"
  by (simp add: first_offers_def)

lemma first_offers_snoc:
  "first_offers busy (cs @ [c]) =
     first_offers busy cs @ (if cd_origin c \<notin> set busy \<and> cd_origin c \<notin> cd_origin ` set cs then [c] else [])"
proof -
  let ?new = "\<lambda>xs i. cd_origin (xs ! i) \<notin> set busy \<and> (\<forall>j < i. cd_origin (xs ! j) \<noteq> cd_origin (xs ! i))"
  have old: "filter (?new (cs @ [c])) [0..<length cs] = filter (?new cs) [0..<length cs]"
    by (rule filter_cong) (auto simp: nth_append)
  have "map ((!) (cs @ [c])) (filter (?new cs) [0..<length cs]) = map ((!) cs) (filter (?new cs) [0..<length cs])"
    by (rule map_cong) (auto simp: nth_append)
  moreover have "(\<forall>j < length cs. cd_origin (cs ! j) \<noteq> cd_origin c) \<longleftrightarrow> cd_origin c \<notin> cd_origin ` set cs"
    unfolding image_iff bex_simps by (metis in_set_conv_nth)
  then have "?new (cs @ [c]) (length cs) \<longleftrightarrow> cd_origin c \<notin> set busy \<and> cd_origin c \<notin> cd_origin ` set cs"
    by (simp add: nth_append)
  ultimately show ?thesis by (simp add: first_offers_def old)
qed

lemma first_offers_origins:
  "set busy \<union> cd_origin ` set (first_offers busy cs) = set busy \<union> cd_origin ` set cs"
  by (induction cs rule: rev_induct) (auto simp: first_offers_snoc)

lemma first_offers_distinct: "distinct (map cd_origin (first_offers busy cs))"
proof (induction cs rule: rev_induct)
  case (snoc c cs)
  have "cd_origin c \<notin> cd_origin ` set (first_offers busy cs)"
    if "cd_origin c \<notin> set busy" "cd_origin c \<notin> cd_origin ` set cs"
    using first_offers_origins [of busy cs] that by blast
  with snoc show ?case by (simp add: first_offers_snoc)
qed simp

lemma first_offers_free: "c \<in> set (first_offers busy cs) \<Longrightarrow> c \<in> set cs \<and> cd_origin c \<notin> set busy"
  by (induction cs rule: rev_induct) (auto simp: first_offers_snoc split: if_splits)

text \<open>The candidates a pass takes, and the loop that takes them.\<close>

definition taken :: "stage \<Rightarrow> candidate list \<Rightarrow> candidate list" where
  "taken s cs = take (nat (dx_agentHeadroom (sx_ctx s))) (first_offers (s_active s) (filter (\<lambda>c. cd_held c = None) cs))"

definition admission_start :: "stage \<Rightarrow> admission" where
  "admission_start s =
     \<lparr>ad_headroom = dx_agentHeadroom (sx_ctx s), ad_raw = ss_raw (run_pipeline s), ad_active = s_active s, ad_upcoming = []\<rparr>"

definition pinned :: "stage \<Rightarrow> candidate \<Rightarrow> action" where
  "pinned s c = pinAction (cd_action c) (pinFor s (Some (cd_origin c)))"

lemma admission_loop:
  "ad_raw (foldl (admit s) (admission_start s) cs) = ss_raw (run_pipeline s) @ map (pinned s) (taken s cs) \<and>
   ad_active (foldl (admit s) (admission_start s) cs) = s_active s @ map cd_origin (taken s cs) \<and>
   ad_headroom (foldl (admit s) (admission_start s) cs) = dx_agentHeadroom (sx_ctx s) - int (length (taken s cs))"
proof (induction cs rule: rev_induct)
  case (snoc c cs)
  let ?free = "\<lambda>cs. first_offers (s_active s) (filter (\<lambda>c. cd_held c = None) cs)"
  let ?H = "nat (dx_agentHeadroom (sx_ctx s))"
  have split: "set (?free cs) = set (take ?H (?free cs)) \<union> set (drop ?H (?free cs))"
    by (metis append_take_drop_id set_append)
  have known: "cd_origin c \<in> set (s_active s) \<union> cd_origin ` set (filter (\<lambda>c. cd_held c = None) cs) \<longleftrightarrow>
      cd_origin c \<in> set (s_active s) \<union> cd_origin ` set (?free cs)"
    using first_offers_origins [of "s_active s" "filter (\<lambda>c. cd_held c = None) cs"] by simp
  show ?case
  proof (cases "cd_held c = None \<and> cd_origin c \<notin> set (s_active s) \<and> cd_origin c \<notin> cd_origin ` set (taken s cs)")
    case False
    have "taken s (cs @ [c]) = taken s cs"
    proof (cases "cd_held c = None \<and> cd_origin c \<notin> set (s_active s) \<union> cd_origin ` set (?free cs)")
      case True
      with False show ?thesis using split by (auto simp: taken_def)
    next
      case False
      then show ?thesis using known by (auto simp: taken_def first_offers_snoc)
    qed
    with snoc False show ?thesis by (auto simp: admit_def split: option.split)
  next
    case True
    show ?thesis
    proof (cases "0 < dx_agentHeadroom (sx_ctx s) - int (length (taken s cs))")
      case room: True
      then have "length (?free cs) < ?H" by (auto simp: taken_def split: if_splits)
      then have "taken s cs = ?free cs" by (simp add: taken_def)
      moreover from this True known have "?free (cs @ [c]) = ?free cs @ [c]" by (auto simp: first_offers_snoc)
      ultimately have "taken s (cs @ [c]) = taken s cs @ [c]"
        using \<open>length (?free cs) < ?H\<close> by (simp add: taken_def)
      with snoc True room show ?thesis by (auto simp: admit_def pinned_def)
    next
      case full: False
      then have "?H \<le> length (?free cs)" by (auto simp: taken_def min_def split: if_splits)
      then have "taken s (cs @ [c]) = taken s cs" by (auto simp: taken_def first_offers_snoc)
      with snoc True full show ?thesis by (auto simp: admit_def)
    qed
  qed
qed (simp add: admission_start_def taken_def)

lemma admission_raw: "ad_raw (admission_of s) = ss_raw (run_pipeline s) @ map (pinned s) (taken s (ranked_candidates s))"
  using admission_loop by (simp add: admission_of_def admission_start_def)

section \<open>What a pass dispatches\<close>

lemma pinned_fields [simp]:
  "a_type (pinned s c) = a_type (cd_action c)" "a_originRef (pinned s c) = a_originRef (cd_action c)"
  "a_rule (pinned s c) = a_rule (cd_action c)" "a_branch (pinned s c) = a_branch (cd_action c)"
  "a_readOnly (pinned s c) = a_readOnly (cd_action c)" "a_partId (pinned s c) = a_partId (cd_action c)"
  "a_base (pinned s c) = a_base (cd_action c)"
  by (simp_all add: pinned_def pinAction_def split: option.split)

lemma clear_hold_fields [simp]:
  "cd_origin (clear_hold s c) = cd_origin c" "cd_rule (clear_hold s c) = cd_rule c"
  "cd_branch (clear_hold s c) = cd_branch c" "cd_action (clear_hold s c) = cd_action c" "cd_kind (clear_hold s c) = cd_kind c"
  by (simp_all add: clear_hold_def split: option.split)

lemma wf_clear_hold [simp]: "wf_candidate (clear_hold s c) = wf_candidate c"
  by (simp add: wf_candidate_def)

lemma mset_rank: "mset (rankByPriorityOverride cs R E) = mset cs"
proof -
  have "map fst (zip cs [0..<length cs]) = cs" by simp
  then have "image_mset re_candidate (mset (map (keyed_entry R E) (zip cs [0..<length cs]))) = mset cs"
    by (simp only: mset_map [symmetric] map_map o_def keyed_entry_fields)
  then show ?thesis unfolding rankByPriorityOverride_def mset_map mset_js_sort .
qed

lemma ranked_members: "set (ranked_candidates s) = clear_hold s ` set (ss_candidates (run_pipeline s))"
  unfolding ranked_candidates_def using mset_rank by (metis image_set set_mset_mset)

definition dispatches :: "action list \<Rightarrow> action list" where
  "dispatches as = filter (\<lambda>a. a_type a = DispatchCodeAgent \<or> a_type a = DispatchDeskAgent) as"

lemma dispatches_no: "list_all no_dispatch as \<Longrightarrow> dispatches as = []"
  by (auto simp: dispatches_def no_dispatch_def list_all_iff filter_empty_conv)

lemma dispatches_append [simp]: "dispatches (as @ bs) = dispatches as @ dispatches bs"
  by (simp add: dispatches_def)

lemma taken_members: "c \<in> set (taken s cs) \<Longrightarrow> c \<in> set cs \<and> cd_held c = None \<and> cd_origin c \<notin> set (s_active s)"
  unfolding taken_def by (drule in_set_takeD, drule first_offers_free) simp

lemma taken_source:
  assumes "c \<in> set (taken s (ranked_candidates s))"
  obtains c0 where "c0 \<in> set (ss_candidates (run_pipeline s))" "c = clear_hold s c0" "offered s c0"
  using taken_members [OF assms] pipeline_candidates by (auto simp: ranked_members)

lemma taken_wf: "c \<in> set (taken s (ranked_candidates s)) \<Longrightarrow> wf_candidate c"
  by (erule taken_source) (simp add: offered_def)

lemma taken_dispatch: "dispatches (map (pinned s) (taken s (ranked_candidates s))) = map (pinned s) (taken s (ranked_candidates s))"
  unfolding dispatches_def by (rule filter_True) (auto simp: wf_candidate_def dest!: taken_wf split: if_splits)

lemma dispatches_filter: "dispatches (filter P as) = filter P (dispatches as)"
  by (simp add: dispatches_def filter_filter conj_commute cong: filter_cong)

lemma raw_dispatches: "dispatches (ad_raw (admission_of s)) = map (pinned s) (taken s (ranked_candidates s))"
  using pipeline_raw by (simp add: admission_raw taken_dispatch dispatches_no list_all_iff)

lemma decide_dispatches:
  "dispatches (dr_actions (decide s)) = filter schema_accepts (map (pinned s) (taken s (ranked_candidates s)))"
proof -
  have "dispatches (if ad_raw (admission_of s) = [] then [no_op] else ad_raw (admission_of s)) = dispatches (ad_raw (admission_of s))"
    by (simp add: dispatches_def no_op_def new_action_def)
  then show ?thesis by (simp add: decide_def Let_def parseActions_def dispatches_filter raw_dispatches)
qed

lemma dispatched_from:
  assumes "a \<in> set (dispatches (dr_actions (decide s)))"
  obtains c0 where "c0 \<in> set (ss_candidates (run_pipeline s))" "a = pinned s (clear_hold s c0)" "offered s c0"
    "clear_hold s c0 \<in> set (taken s (ranked_candidates s))"
proof -
  from assms obtain c where c: "c \<in> set (taken s (ranked_candidates s))" "a = pinned s c"
    unfolding decide_dispatches by auto
  from taken_source [OF c(1)] that c show ?thesis by metis
qed

text \<open>
  C1. What a pass dispatches, exactly: of the ranked candidates that are not held, the first for each
  origin nobody is on, as many as the fleet has room for, in rank order, each with its profile pinned;
  less those the schema of an action refuses.
\<close>

theorem a_pass_takes_the_first_offers:
  "dispatches (dr_actions (decide s)) =
     filter schema_accepts (map (pinned s)
       (take (nat (dx_agentHeadroom (sx_ctx s)))
         (first_offers (s_active s) (filter (\<lambda>c. cd_held c = None) (ranked_candidates s)))))"
  by (simp only: decide_dispatches taken_def)

text \<open>
  C6. A pass never puts two agents on one origin, never one on an origin that is already worked, queued
  or held by an operator, and never more agents than there is room for.
\<close>

theorem one_agent_per_origin:
  "distinct (map a_originRef (dispatches (dr_actions (decide s)))) \<and>
   set (map a_originRef (dispatches (dr_actions (decide s)))) \<inter> Some ` set (s_active s) = {} \<and>
   length (dispatches (dr_actions (decide s))) \<le> nat (dx_agentHeadroom (sx_ctx s))"
proof -
  let ?t = "taken s (ranked_candidates s)"
  have o: "a_originRef (pinned s c) = Some (cd_origin c)" if "c \<in> set ?t" for c
    using taken_wf [OF that] by (simp add: wf_candidate_def)
  then have "map a_originRef (map (pinned s) ?t) = map Some (map cd_origin ?t)" by simp
  moreover have "distinct (map cd_origin ?t)"
    unfolding taken_def using first_offers_distinct by (simp add: take_map [symmetric] distinct_take)
  ultimately have "distinct (map a_originRef (map (pinned s) ?t))" by (simp only: distinct_map) (auto simp: inj_on_def)
  then have "distinct (map a_originRef (filter schema_accepts (map (pinned s) ?t)))" by (rule distinct_map_filter)
  moreover have "length (filter schema_accepts (map (pinned s) ?t)) \<le> nat (dx_agentHeadroom (sx_ctx s))"
    by (rule le_trans [OF length_filter_le]) (simp add: taken_def)
  ultimately show ?thesis unfolding decide_dispatches using o taken_members by fastforce
qed

text \<open>
  C14. Only an operator lifts a hold: what a pass dispatches is a candidate some rule offered, and if the
  rule held it, the hold was for the order of stories or for open questions and the operator flagged the
  goal or ordered the origin by hand. A candidate held for the cooldown, for the cap, for an unapproved
  plan or as superseded is never dispatched.
\<close>

theorem only_an_operator_lifts_a_hold:
  assumes "a \<in> set (dispatches (dr_actions (decide s)))"
  shows "\<exists>c \<in> set (ss_candidates (run_pipeline s)).
    a_originRef a = Some (cd_origin c) \<and> a_rule a = Some (cd_rule c) \<and>
    (cd_held c = None \<or> cd_held c \<in> {Some HeldSequenced, Some HeldQuestions} \<and>
       (expeditedFor s (cd_origin c) \<or> map_of (overrideRank s) (cd_origin c) \<noteq> None))"
proof -
  from assms obtain c0 where c0: "c0 \<in> set (ss_candidates (run_pipeline s))" "a = pinned s (clear_hold s c0)" "offered s c0"
    "clear_hold s c0 \<in> set (taken s (ranked_candidates s))" by (rule dispatched_from)
  have "cd_held (clear_hold s c0) = None" using taken_members [OF c0(4)] by simp
  then have "cd_held c0 = None \<or> cd_held c0 \<in> {Some HeldSequenced, Some HeldQuestions} \<and>
      (expeditedFor s (cd_origin c0) \<or> map_of (overrideRank s) (cd_origin c0) \<noteq> None)"
    by (auto simp: clear_hold_def LIFTABLE_HOLDS_def split: option.splits if_splits)
  with c0 show ?thesis by (intro bexI [of _ c0]) (auto simp: offered_def wf_candidate_def)
qed

text \<open>
  C2. A part of a plan is put to an agent only when its plan is active, that is released, the issue of
  the plan is live, open and watched, the part is ready and for an agent, and nobody is on it; the action
  names that part, its own branch and its base.
\<close>

theorem dispatched_part_is_released_and_ready:
  assumes "a \<in> set (dispatches (dr_actions (decide s)))" and "a_rule a = Some RulePlanPart"
  shows "\<exists>pl n p. pl \<in> set (dx_plans (sx_ctx s)) \<and> pl_status pl = Active \<and> plan_issue_number s pl = Some n \<and>
    p \<in> set (liveParts (partsOfPlan s pl)) \<and> pp_status p = PartReady \<and> \<not> partIsHuman p \<and> \<not> part_active s n p \<and>
    a_originRef a = Some (partOrigin n (pp_slug p)) \<and> a_partId a = Some (pp_id p) \<and>
    a_branch a = Some (default_to (partBranch n (pp_slug p)) (pp_branch p)) \<and>
    a_base a = Some (partBase p (bySlug (liveParts (partsOfPlan s pl))) n (dp_defaultBranch (sx_opts s)))"
proof -
  from assms(1) obtain c0 where c0: "a = pinned s (clear_hold s c0)" "offered s c0"
    "clear_hold s c0 \<in> set (taken s (ranked_candidates s))" by (rule dispatched_from)
  from c0 assms(2) have "part_offer s c0" by (auto simp: offered_def wf_candidate_def)
  then obtain pl n where pl: "pl \<in> set (dx_plans (sx_ctx s))" "pl_status pl \<in> {Active, AwaitingApproval}"
    "plan_issue_number s pl = Some n" "ready_offer s pl n c0"
    unfolding part_offer_def using plan_entries_ready by blast
  have "cd_held (clear_hold s c0) = None" using taken_members [OF c0(3)] by simp
  then have "cd_held c0 \<noteq> Some HeldUnapproved" by (auto simp: clear_hold_def LIFTABLE_HOLDS_def)
  with pl have active: "pl_status pl = Active" by (auto simp: ready_offer_def)
  from pl(4) obtain p where p: "p \<in> set (liveParts (partsOfPlan s pl))" "pp_status p = PartReady" "\<not> partIsHuman p"
    "\<not> part_active s n p" "c0 = part_candidate s n (bySlug (liveParts (partsOfPlan s pl))) p (cd_held c0)"
    unfolding ready_offer_def by blast
  have "a_branch (cd_action c0) = Some (default_to (partBranch n (pp_slug p)) (pp_branch p))"
    "a_base (cd_action c0) = Some (partBase p (bySlug (liveParts (partsOfPlan s pl))) n (dp_defaultBranch (sx_opts s)))"
    "a_originRef (cd_action c0) = Some (partOrigin n (pp_slug p))" "a_partId (cd_action c0) = Some (pp_id p)"
    by (subst p(5), simp add: part_candidate_def build_defs Let_def)+
  with pl active p(1-4) c0(1) show ?thesis by (intro exI [of _ pl] exI [of _ n] exI [of _ p]) simp
qed

definition writing_rules :: "rule_id list" where
  "writing_rules = [ManualJob, RulePlanPart, PrReviewComment, PrCiFailing, PrCiGate, PrBaseUpdate, PrBaseUpdateConflict,
     RuleLocalValidationFix]"

lemma eligible_read_reads: "eligible_read f s c \<Longrightarrow> reading s c"
  by (simp add: eligible_read_def reading_def)

lemma watched_read_reads: "watched_read f s c \<Longrightarrow> reading s c"
  by (simp add: watched_read_def reading_def)

lemma check_offer_reads: "check_offer s c \<Longrightarrow> reading s c"
  by (simp add: check_offer_def)

lemma review_reads: "concern_offer s c \<Longrightarrow> cd_rule c = PrReview \<Longrightarrow> reading s c"
  by (auto simp: concern_offer_def reading_def)

lemma claim_reads: "rule_claim (cd_rule c) s c \<Longrightarrow> cd_rule c \<notin> set writing_rules \<Longrightarrow> reading s c"
  using eligible_read_reads watched_read_reads check_offer_reads review_reads
  by (cases "cd_rule c") (simp_all add: writing_rules_def)

text \<open>
  C15. A code agent that can push is put out by few rules: the operator's own jobs, the parts of a plan,
  the fixes of a pull request and the fix of a local run. Every other code agent works in a checkout it
  cannot push from.
\<close>

theorem only_writing_rules_write:
  assumes "a \<in> set (dispatches (dr_actions (decide s)))" and "a_type a = DispatchCodeAgent" and "\<not> a_readOnly a"
  shows "a_rule a \<in> Some ` {ManualJob, RulePlanPart, PrReviewComment, PrCiFailing, PrCiGate, PrBaseUpdate,
    PrBaseUpdateConflict, RuleLocalValidationFix}"
proof -
  from assms(1) obtain c0 where c0: "a = pinned s (clear_hold s c0)" "offered s c0" by (rule dispatched_from)
  with assms(2) have code: "cd_kind c0 = CodeTask" by (auto simp: offered_def wf_candidate_def split: if_splits)
  from c0 assms(3) have "\<not> a_readOnly (cd_action c0)" by simp
  with code have "\<not> reading s c0" by (simp add: reading_def)
  with c0(2) claim_reads have "cd_rule c0 \<in> set writing_rules" by (auto simp: offered_def)
  moreover from c0 have "a_rule a = Some (cd_rule c0)" by (simp add: offered_def wf_candidate_def)
  ultimately show ?thesis by (simp add: writing_rules_def)
qed


lemma partOrigin_number: "partOrigin n a = partOrigin m b \<Longrightarrow> n = m"
  unfolding partOrigin_def by (metis option.inject subtree_of_ref)

lemma partOrigin_inj: "inj (partOrigin n)"
  by (rule injI) (simp add: partOrigin_def issueOriginRef_def)

lemma length_filter_disj: "length (filter (\<lambda>x. P x \<or> Q x) xs) \<le> length (filter P xs) + length (filter (\<lambda>x. \<not> P x \<and> Q x) xs)"
  by (induction xs) auto

text \<open>The parts a pass puts an agent on, by their origins.\<close>

definition part_dispatches :: "dispatch_result \<Rightarrow> string option list" where
  "part_dispatches r = map a_originRef (filter (\<lambda>a. a_rule a = Some RulePlanPart) (dispatches (dr_actions r)))"

text \<open>
  C5. The parts of a plan in flight stay under the cap of its issue: after a pass, those an agent was
  already on and those it puts one on are together no more than the cap, or no more than before when
  the cap was already passed.
\<close>

theorem parts_stay_under_the_cap:
  assumes pl: "pl \<in> set (dx_plans (sx_ctx s))" "plan_issue_number s pl = Some n"
    and only: "\<forall>q \<in> set (dx_plans (sx_ctx s)). plan_issue_number s q = Some n \<longrightarrow> q = pl"
    and slugs: "distinct (map pp_slug (liveParts (partsOfPlan s pl)))"
  shows "int (length (filter (\<lambda>p. part_active s n p \<or> Some (partOrigin n (pp_slug p)) \<in> set (part_dispatches (decide s)))
       (liveParts (partsOfPlan s pl))))
    \<le> max (maxConcurrentPartsPerIssue (dp_planning (sx_opts s)))
        (int (length (filter (part_active s n) (liveParts (partsOfPlan s pl)))))"
proof -
  let ?ps = "liveParts (partsOfPlan s pl)" and ?D = "set (part_dispatches (decide s))"
  let ?new = "filter (\<lambda>p. \<not> part_active s n p \<and> Some (partOrigin n (pp_slug p)) \<in> ?D) ?ps"
  let ?E = "filter takes_place (plan_entries s pl n)"
  have "partOrigin n (pp_slug p) \<in> (\<lambda>e. cd_origin (pe_candidate e)) ` set ?E" if p: "p \<in> set ?new" for p
  proof -
    from p obtain a where a: "a \<in> set (dispatches (dr_actions (decide s)))" "a_rule a = Some RulePlanPart"
      "a_originRef a = Some (partOrigin n (pp_slug p))" by (auto simp: part_dispatches_def)
    from a(1) obtain c0 where c0: "a = pinned s (clear_hold s c0)" "offered s c0"
      "clear_hold s c0 \<in> set (taken s (ranked_candidates s))" by (rule dispatched_from)
    with a have o: "part_offer s c0" "cd_origin c0 = partOrigin n (pp_slug p)" by (auto simp: offered_def wf_candidate_def)
    then obtain q m where q: "q \<in> set (dx_plans (sx_ctx s))" "plan_issue_number s q = Some m"
      "c0 \<in> pe_candidate ` set (plan_entries s q m)" unfolding part_offer_def by blast
    from plan_entries_ready [OF q(3)] obtain p' where "c0 = part_candidate s m (bySlug (liveParts (partsOfPlan s q))) p' (cd_held c0)"
      unfolding ready_offer_def by blast
    then have "cd_origin c0 = partOrigin m (pp_slug p')" by (metis part_candidate_fields(1))
    with o(2) have "m = n" using partOrigin_number by metis
    with q only have "q = pl" by blast
    have "cd_held (clear_hold s c0) = None" using taken_members [OF c0(3)] by simp
    then have "cd_held c0 \<notin> {Some HeldCapped, Some HeldCooldown, Some HeldUnapproved}"
      by (auto simp: clear_hold_def LIFTABLE_HOLDS_def)
    with q(3) \<open>m = n\<close> \<open>q = pl\<close> o(2) show ?thesis by (force simp: takes_place_def)
  qed
  then have "(\<lambda>p. partOrigin n (pp_slug p)) ` set ?new \<subseteq> (\<lambda>e. cd_origin (pe_candidate e)) ` set ?E" by blast
  then have "card ((\<lambda>p. partOrigin n (pp_slug p)) ` set ?new) \<le> card ((\<lambda>e. cd_origin (pe_candidate e)) ` set ?E)"
    by (intro card_mono) simp_all
  also have "\<dots> \<le> length ?E" by (metis card_image_le card_length finite_set le_trans)
  finally have "card ((\<lambda>p. partOrigin n (pp_slug p)) ` set ?new) \<le> length ?E" .
  moreover have "distinct (map (\<lambda>p. partOrigin n (pp_slug p)) ?new)"
  proof -
    have "distinct (map pp_slug ?new)" using slugs by (rule distinct_map_filter)
    then show ?thesis by (metis (no_types, lifting) comp_def distinct_map inj_on_subset map_map partOrigin_inj subset_UNIV map_eq_conv)
  qed
  ultimately have "length ?new \<le> length ?E"
    by (metis (no_types, lifting) distinct_card length_map list.set_map)
  with plan_entries_fit [of s pl n]
    length_filter_disj [of "part_active s n" "\<lambda>p. Some (partOrigin n (pp_slug p)) \<in> ?D" ?ps]
  show ?thesis by linarith
qed

section \<open>A pass on a concrete stage\<close>

definition ci_fix :: action where
  "ci_fix = (new_action DispatchCodeAgent)\<lparr>a_originRef := Some ''pr:12:ci'', a_branch := Some ''fix/login'',
     a_signalRefs := Some [''pr:12:ci''], a_rule := Some PrCiFailing\<rparr>"

definition api_agent :: action where
  "api_agent = (new_action DispatchCodeAgent)\<lparr>a_originRef := Some ''issue:7:part:api'', a_branch := Some ''issue/7/api'',
     a_base := Some ''main'', a_partId := Some ''api'', a_rule := Some RulePlanPart\<rparr>"

lemma ci_fix_fields:
  "a_originRef ci_fix = Some ''pr:12:ci''" "a_branch ci_fix = Some ''fix/login''" "a_rule ci_fix = Some PrCiFailing"
  "\<not> a_readOnly ci_fix"
  by (simp_all add: ci_fix_def new_action_def)

lemma part_stage_pass: "dispatches (dr_actions (decide part_stage)) = [ci_fix, api_agent]"
  by code_simp

theorem only_an_operator_lifts_a_hold_witness:
  "\<exists>c \<in> set (ss_candidates (run_pipeline part_stage)). cd_rule c = PrCiFailing \<and> cd_origin c = ''pr:12:ci''"
proof -
  have "ci_fix \<in> set (dispatches (dr_actions (decide part_stage)))" by (simp add: part_stage_pass)
  from only_an_operator_lifts_a_hold [OF this] obtain c where c: "c \<in> set (ss_candidates (run_pipeline part_stage))"
    "a_originRef ci_fix = Some (cd_origin c)" "a_rule ci_fix = Some (cd_rule c)" by blast
  then have "cd_rule c = PrCiFailing" "cd_origin c = ''pr:12:ci''" unfolding ci_fix_fields by simp_all
  with c(1) show ?thesis by blast
qed

theorem dispatched_part_is_released_and_ready_witness:
  "\<exists>pl n p. pl \<in> set (dx_plans (sx_ctx part_stage)) \<and> pl_status pl = Active \<and> p \<in> set (liveParts (partsOfPlan part_stage pl)) \<and>
     pp_status p = PartReady \<and> partOrigin n (pp_slug p) = ''issue:7:part:api''"
proof -
  have a: "api_agent \<in> set (dispatches (dr_actions (decide part_stage)))" "a_rule api_agent = Some RulePlanPart"
    by (simp_all add: part_stage_pass api_agent_def)
  from dispatched_part_is_released_and_ready [OF a] obtain pl n p where p: "pl \<in> set (dx_plans (sx_ctx part_stage))"
    "pl_status pl = Active" "p \<in> set (liveParts (partsOfPlan part_stage pl))" "pp_status p = PartReady"
    "a_originRef api_agent = Some (partOrigin n (pp_slug p))" by blast
  then have "partOrigin n (pp_slug p) = ''issue:7:part:api''" by (simp add: api_agent_def)
  with p(1-4) show ?thesis by (intro exI [of _ pl] exI [of _ n] exI [of _ p] conjI)
qed

theorem only_writing_rules_write_witness: "a_rule api_agent \<in> Some ` set writing_rules"
proof -
  have a: "api_agent \<in> set (dispatches (dr_actions (decide part_stage)))" "a_type api_agent = DispatchCodeAgent"
    "\<not> a_readOnly api_agent"
    by (simp_all add: part_stage_pass api_agent_def new_action_def)
  from only_writing_rules_write [OF a] show ?thesis by (simp add: writing_rules_def)
qed


theorem parts_stay_under_the_cap_witness:
  "int (length (filter (\<lambda>p. part_active part_stage 7 p \<or>
        Some (partOrigin 7 (pp_slug p)) \<in> set (part_dispatches (decide part_stage)))
      (liveParts (partsOfPlan part_stage (plan0 7 Active))))) \<le> 2"
proof -
  have p: "plan0 7 Active \<in> set (dx_plans (sx_ctx part_stage))"
    "\<forall>q \<in> set (dx_plans (sx_ctx part_stage)). plan_issue_number part_stage q = Some 7 \<longrightarrow> q = plan0 7 Active"
    by (simp_all add: part_stage_def)
  have n: "plan_issue_number part_stage (plan0 7 Active) = Some 7" by code_simp
  have d: "distinct (map pp_slug (liveParts (partsOfPlan part_stage (plan0 7 Active))))" by code_simp
  have "length (filter (part_active part_stage 7) (liveParts (partsOfPlan part_stage (plan0 7 Active)))) = 1" by code_simp
  moreover have "maxConcurrentPartsPerIssue (dp_planning (sx_opts part_stage)) = 2" by code_simp
  ultimately show ?thesis
    using parts_stay_under_the_cap [OF p(1) n p(2) d] by simp
qed

section \<open>The answer of a pass is well formed\<close>

definition well_typed_action :: "action \<Rightarrow> bool" where
  "well_typed_action a \<longleftrightarrow> schema_accepts a \<and>
     (if a_type a = DispatchCodeAgent then non_empty (a_branch a) else True) \<and>
     (if a_type a = DispatchCodeAgent \<or> a_type a = DispatchDeskAgent then a_originRef a \<noteq> None \<and> a_rule a \<noteq> None
      else True)"


end
