(* ===== verification/FleetStore.thy ===== *)
theory FleetStore
  imports Dispatch DispatchSamples
begin

text \<open>
  The tables the fleet lives in: tasks (\<^verbatim>\<open>src/src/store/tasks.ts\<close>), agents (\<^verbatim>\<open>agents.ts\<close>), jobs
  (\<^verbatim>\<open>jobs.ts\<close>), ejections (\<^verbatim>\<open>ejections.ts\<close>), escalations (\<^verbatim>\<open>escalations.ts\<close>) and decisions
  (\<^verbatim>\<open>decisions.ts\<close>), with what the manager of the agents holds in memory: its sessions, the markers of an
  ending and the parks. An \<^verbatim>\<open>UPDATE\<close> by id rewrites the rows of that id; where the source throws because the row
  is gone the table is left as it is, and \<open>FleetLaws\<close> shows the row is never gone. Ids drawn at random and
  the clock are arguments.
\<close>

section \<open>Rows\<close>

record fleet_agent = agent +
  fa_taskId :: string
  fa_cwd :: string
  fa_waitingReason :: "string option"
  fa_sessionId :: "string option"
  fa_startedAt :: int
  fa_endedAt :: "int option"
  fa_resumedAt :: "int option"
  fa_resumeAttempts :: nat

datatype job_status = JobQueued | JobDispatched | JobCancelled

record stored_job = job +
  sj_status :: job_status
  sj_taskId :: "string option"
  sj_createdAt :: int

datatype ejection_outcome = HandedBack | Requeued | DeliveredOutcome | Expired

record ejection =
  ej_id :: string
  ej_originRef :: string
  ej_branch :: "string option"
  ej_agentId :: string
  ej_taskId :: string
  ej_sessionId :: "string option"
  ej_reason :: string
  ej_ejectedAt :: int
  ej_lastSeenAt :: "int option"
  ej_lastNote :: "string option"
  ej_settledAt :: "int option"
  ej_outcome :: "ejection_outcome option"
  ej_settleNote :: "string option"

record fleet_escalation =
  fe_id :: string
  fe_agentId :: "string option"
  fe_status :: escalation_status

datatype terminal = TerminalDone | TerminalFailed | TerminalKilled

record stall_clock =
  sc_at :: int
  sc_grace :: int

text \<open>The fleet: its tables, then what the manager keeps in memory and loses with its process.\<close>

record fleet_tables =
  fl_tasks :: "task list"
  fl_agents :: "fleet_agent list"
  fl_jobs :: "stored_job list"
  fl_ejections :: "ejection list"
  fl_escalations :: "fleet_escalation list"
  fl_decisions :: "decision list"
  fl_released :: "string list"

record fleet = fleet_tables +
  fl_sessions :: "string list"
  fl_exited :: "string list"
  fl_terminals :: "(string, terminal) jsmap"
  fl_parked :: "string list"
  fl_limited :: "(string, int option) jsmap"
  fl_nudges :: "(string, nat) jsmap"
  fl_stalled :: "(string, stall_clock) jsmap"

definition map_delete :: "'k \<Rightarrow> ('k, 'v) jsmap \<Rightarrow> ('k, 'v) jsmap" where
  "map_delete k m = filter (\<lambda>e. fst e \<noteq> k) m"

lemma map_of_map_delete [simp]: "map_of (map_delete k m) j = (if j = k then None else map_of m j)"
  by (induction m) (auto simp: map_delete_def)

lemma keys_map_delete [simp]: "fst ` set (map_delete k m) = fst ` set m - {k}"
  by (force simp: map_delete_def)

lemma in_keys_map_put [simp]: "fst ` set (map_put k v m) = insert k (fst ` set m)"
proof -
  have "set (map fst (map_put k v m)) = insert k (set (map fst m))" by (auto simp: keys_map_put)
  then show ?thesis by simp
qed

section \<open>Tasks\<close>

definition createTask ::
  "int \<Rightarrow> string \<Rightarrow> task_kind \<Rightarrow> string option \<Rightarrow> string option \<Rightarrow> string option \<Rightarrow> string option \<Rightarrow> fleet \<Rightarrow> task \<times> fleet" where
  "createTask now i kind branch originRef originTitle profile fl =
     (let t = \<lparr>tk_id = i, tk_kind = kind, tk_branch = branch, tk_originRef = originRef, tk_originTitle = originTitle,
        tk_status = TQueued, tk_agentId = None, tk_profile = profile, tk_createdAt = now, tk_updatedAt = Instant now\<rparr>
      in (t, fl\<lparr>fl_tasks := fl_tasks fl @ [t]\<rparr>))"

definition getTask :: "fleet \<Rightarrow> string \<Rightarrow> task option" where
  "getTask fl i = find (\<lambda>t. tk_id t = i) (fl_tasks fl)"

definition updateTask :: "int \<Rightarrow> string \<Rightarrow> (task \<Rightarrow> task) \<Rightarrow> fleet \<Rightarrow> fleet" where
  "updateTask now i patch fl = fl\<lparr>fl_tasks :=
     update_where (\<lambda>t. tk_id t = i) (\<lambda>t. (patch t)\<lparr>tk_updatedAt := Instant now\<rparr>) (fl_tasks fl)\<rparr>"

definition task_to :: "int \<Rightarrow> string \<Rightarrow> task_status \<Rightarrow> fleet \<Rightarrow> fleet" where
  "task_to now i st = updateTask now i (\<lambda>t. t\<lparr>tk_status := st\<rparr>)"

definition listOutstandingTasks :: "fleet \<Rightarrow> task list" where
  "listOutstandingTasks fl = js_sort (by_key tk_createdAt) (filter isActiveTask (fl_tasks fl))"

definition findActiveTaskByOrigin :: "fleet \<Rightarrow> string \<Rightarrow> task option" where
  "findActiveTaskByOrigin fl originRef = find (\<lambda>t. tk_originRef t = Some originRef \<and> isActiveTask t) (fl_tasks fl)"

definition findActiveTaskByBranch :: "fleet \<Rightarrow> string \<Rightarrow> task option" where
  "findActiveTaskByBranch fl branch = find (\<lambda>t. tk_branch t = Some branch \<and> isActiveTask t) (fl_tasks fl)"

definition hasActiveTaskOnBranch :: "fleet \<Rightarrow> string \<Rightarrow> string \<Rightarrow> bool" where
  "hasActiveTaskOnBranch fl branch exceptTaskId \<longleftrightarrow>
     list_ex (\<lambda>t. tk_branch t = Some branch \<and> tk_id t \<noteq> exceptTaskId \<and> isActiveTask t) (fl_tasks fl)"

section \<open>Agents\<close>

definition LIVE :: "agent_status list" where "LIVE = [AStarting, ARunning, AWaiting]"

definition createAgent :: "int \<Rightarrow> string \<Rightarrow> string \<Rightarrow> string \<Rightarrow> string option \<Rightarrow> fleet \<Rightarrow> fleet_agent \<times> fleet" where
  "createAgent now i taskId cwd sessionId fl =
     (let a = \<lparr>ag_id = i, ag_status = AStarting, fa_taskId = taskId, fa_cwd = cwd, fa_waitingReason = None,
        fa_sessionId = sessionId, fa_startedAt = now, fa_endedAt = None, fa_resumedAt = None, fa_resumeAttempts = 0\<rparr>
      in (a, fl\<lparr>fl_agents := fl_agents fl @ [a]\<rparr>))"

definition updateAgent :: "string \<Rightarrow> (fleet_agent \<Rightarrow> fleet_agent) \<Rightarrow> fleet \<Rightarrow> fleet" where
  "updateAgent i patch fl = fl\<lparr>fl_agents := update_where (\<lambda>a. ag_id a = i) patch (fl_agents fl)\<rparr>"

definition getAgent :: "fleet \<Rightarrow> string \<Rightarrow> fleet_agent option" where
  "getAgent fl i = find (\<lambda>a. ag_id a = i) (fl_agents fl)"

definition listAgents :: "fleet \<Rightarrow> fleet_agent list" where
  "listAgents fl = js_sort (by_key (\<lambda>a. - fa_startedAt a)) (fl_agents fl)"

definition is_live :: "fleet_agent \<Rightarrow> bool" where
  "is_live a \<longleftrightarrow> ag_status a \<in> set LIVE"

definition countLiveAgents :: "fleet \<Rightarrow> nat" where
  "countLiveAgents fl = length (filter is_live (fl_agents fl))"

definition setAgentResumed :: "string \<Rightarrow> int option \<Rightarrow> fleet \<Rightarrow> fleet" where
  "setAgentResumed i at = updateAgent i (\<lambda>a. a\<lparr>fa_resumedAt := at\<rparr>)"

definition countAgentResumeAttempt :: "string \<Rightarrow> fleet \<Rightarrow> fleet" where
  "countAgentResumeAttempt i = updateAgent i (\<lambda>a. a\<lparr>fa_resumeAttempts := fa_resumeAttempts a + 1\<rparr>)"

section \<open>Jobs\<close>

definition createJob :: "int \<Rightarrow> string \<Rightarrow> task_kind \<Rightarrow> string option \<Rightarrow> string option \<Rightarrow> fleet \<Rightarrow> stored_job \<times> fleet" where
  "createJob now i kind branch originRef fl =
     (let j = \<lparr>jb_id = i, jb_kind = kind, jb_branch = branch, jb_originRef = originRef, sj_status = JobQueued,
        sj_taskId = None, sj_createdAt = now\<rparr>
      in (j, fl\<lparr>fl_jobs := fl_jobs fl @ [j]\<rparr>))"

definition getJob :: "fleet \<Rightarrow> string \<Rightarrow> stored_job option" where
  "getJob fl i = find (\<lambda>j. jb_id j = i) (fl_jobs fl)"

definition listQueuedJobs :: "fleet \<Rightarrow> stored_job list" where
  "listQueuedJobs fl = js_sort (by_key sj_createdAt) (filter (\<lambda>j. sj_status j = JobQueued) (fl_jobs fl))"

text \<open>\<^verbatim>\<open>STANDING_SQL\<close>: a job that redoes an origin, queued or with the task it became still active.\<close>

definition job_task_active :: "fleet \<Rightarrow> stored_job \<Rightarrow> bool" where
  "job_task_active fl j \<longleftrightarrow> list_ex (\<lambda>t. sj_taskId j = Some (tk_id t) \<and> isActiveTask t) (fl_tasks fl)"

definition standing_job :: "fleet \<Rightarrow> stored_job \<Rightarrow> bool" where
  "standing_job fl j \<longleftrightarrow> jb_originRef j \<noteq> None \<and> (sj_status j = JobQueued \<or> job_task_active fl j)"

definition listStandingJobs :: "fleet \<Rightarrow> stored_job list" where
  "listStandingJobs fl = filter (standing_job fl) (fl_jobs fl)"

definition findStandingJobByOrigin :: "fleet \<Rightarrow> string \<Rightarrow> stored_job option" where
  "findStandingJobByOrigin fl originRef = find (\<lambda>j. standing_job fl j \<and> jb_originRef j = Some originRef) (fl_jobs fl)"

text \<open>\<^verbatim>\<open>markJobDispatched\<close> throws when the job is gone: \<^term>\<open>None\<close>.\<close>

definition markJobDispatched :: "string \<Rightarrow> string \<Rightarrow> fleet \<Rightarrow> fleet option" where
  "markJobDispatched i taskId fl =
     (if getJob fl i = None then None
      else Some (fl\<lparr>fl_jobs := update_where (\<lambda>j. jb_id j = i)
             (\<lambda>j. j\<lparr>sj_status := JobDispatched, sj_taskId := Some taskId\<rparr>) (fl_jobs fl)\<rparr>))"

definition cancelJob :: "string \<Rightarrow> fleet \<Rightarrow> fleet" where
  "cancelJob i fl =
     (case getJob fl i of
        Some j \<Rightarrow>
          if sj_status j = JobQueued then
            fl\<lparr>fl_jobs := update_where (\<lambda>j. jb_id j = i) (\<lambda>j. j\<lparr>sj_status := JobCancelled\<rparr>) (fl_jobs fl)\<rparr>
          else fl
      | None \<Rightarrow> fl)"

section \<open>Ejections, escalations and decisions\<close>

definition recordEjection ::
  "int \<Rightarrow> string \<Rightarrow> string \<Rightarrow> string option \<Rightarrow> string \<Rightarrow> string \<Rightarrow> string option \<Rightarrow> string \<Rightarrow> fleet \<Rightarrow> ejection \<times> fleet" where
  "recordEjection now i originRef branch agentId taskId sessionId reason fl =
     (let e = \<lparr>ej_id = i, ej_originRef = originRef, ej_branch = branch, ej_agentId = agentId, ej_taskId = taskId,
        ej_sessionId = sessionId, ej_reason = reason, ej_ejectedAt = now, ej_lastSeenAt = None, ej_lastNote = None,
        ej_settledAt = None, ej_outcome = None, ej_settleNote = None\<rparr>
      in (e, fl\<lparr>fl_ejections := fl_ejections fl @ [e]\<rparr>))"

definition getEjection :: "fleet \<Rightarrow> string \<Rightarrow> ejection option" where
  "getEjection fl i = find (\<lambda>e. ej_id e = i) (fl_ejections fl)"

definition live_ejection :: "ejection \<Rightarrow> bool" where
  "live_ejection e \<longleftrightarrow> ej_settledAt e = None"

definition liveEjections :: "fleet \<Rightarrow> ejection list" where
  "liveEjections fl = js_sort (by_key ej_ejectedAt) (filter live_ejection (fl_ejections fl))"

definition liveEjectionForOrigin :: "fleet \<Rightarrow> string \<Rightarrow> ejection option" where
  "liveEjectionForOrigin fl originRef = find (\<lambda>e. ej_originRef e = originRef \<and> live_ejection e) (fl_ejections fl)"

definition ejectionOnBranch :: "fleet \<Rightarrow> string \<Rightarrow> ejection option" where
  "ejectionOnBranch fl branch = find (\<lambda>e. ej_branch e = Some branch \<and> live_ejection e) (fl_ejections fl)"

definition noteEjection :: "int \<Rightarrow> string \<Rightarrow> string option \<Rightarrow> fleet \<Rightarrow> fleet" where
  "noteEjection now i note fl = fl\<lparr>fl_ejections := update_where (\<lambda>e. ej_id e = i \<and> live_ejection e)
     (\<lambda>e. case note of None \<Rightarrow> e\<lparr>ej_lastSeenAt := Some now\<rparr>
            | Some n \<Rightarrow> e\<lparr>ej_lastSeenAt := Some now, ej_lastNote := Some n\<rparr>) (fl_ejections fl)\<rparr>"

definition settleEjection :: "int \<Rightarrow> string \<Rightarrow> ejection_outcome \<Rightarrow> string option \<Rightarrow> fleet \<Rightarrow> ejection option \<times> fleet" where
  "settleEjection now i outcome note fl =
     (if list_ex (\<lambda>e. ej_id e = i \<and> live_ejection e) (fl_ejections fl) then
        let fl' = fl\<lparr>fl_ejections := update_where (\<lambda>e. ej_id e = i \<and> live_ejection e)
              (\<lambda>e. e\<lparr>ej_settledAt := Some now, ej_outcome := Some outcome, ej_settleNote := note\<rparr>) (fl_ejections fl)\<rparr>
        in (getEjection fl' i, fl')
      else (None, fl))"

definition open_escalation :: "fleet_escalation \<Rightarrow> bool" where
  "open_escalation e \<longleftrightarrow> fe_status e = EscOpen"

definition has_open_escalation :: "fleet \<Rightarrow> string \<Rightarrow> bool" where
  "has_open_escalation fl agentId \<longleftrightarrow> list_ex (\<lambda>e. open_escalation e \<and> fe_agentId e = Some agentId) (fl_escalations fl)"

definition createEscalation :: "string \<Rightarrow> string option \<Rightarrow> fleet \<Rightarrow> fleet" where
  "createEscalation i agentId fl =
     fl\<lparr>fl_escalations := fl_escalations fl @ [\<lparr>fe_id = i, fe_agentId = agentId, fe_status = EscOpen\<rparr>]\<rparr>"

definition getEscalation :: "fleet \<Rightarrow> string \<Rightarrow> fleet_escalation option" where
  "getEscalation fl i = find (\<lambda>e. fe_id e = i) (fl_escalations fl)"

definition set_escalation :: "string \<Rightarrow> escalation_status \<Rightarrow> fleet \<Rightarrow> fleet" where
  "set_escalation i st fl =
     fl\<lparr>fl_escalations := update_where (\<lambda>e. fe_id e = i) (\<lambda>e. e\<lparr>fe_status := st\<rparr>) (fl_escalations fl)\<rparr>"

definition recordDecision :: "int \<Rightarrow> action \<Rightarrow> decision_outcome \<Rightarrow> fleet \<Rightarrow> fleet" where
  "recordDecision now a outcome fl =
     fl\<lparr>fl_decisions := fl_decisions fl @ [\<lparr>de_action = a, de_outcome = outcome, de_createdAt = Instant now\<rparr>]\<rparr>"

text \<open>\<^verbatim>\<open>workItemStateMovesWithin\<close>: the moves executed in the window, and whether the newest was held.\<close>

definition decided_since :: "int \<Rightarrow> decision \<Rightarrow> bool" where
  "decided_since since d = (case date_parse (de_createdAt d) of None \<Rightarrow> False | Some t \<Rightarrow> since \<le> t)"

definition workItemStateMovesWithin :: "fleet \<Rightarrow> int \<Rightarrow> nat \<Rightarrow> int \<Rightarrow> nat \<times> bool" where
  "workItemStateMovesWithin fl now number windowMs =
     (let rows = js_sort (by_key (\<lambda>d. - default_to 0 (date_parse (de_createdAt d))))
            (filter (\<lambda>d. decided_since (now - windowMs) d \<and> a_type (de_action d) = SetWorkItemState \<and>
               a_number (de_action d) = Some number) (fl_decisions fl))
      in (length (filter (\<lambda>d. de_outcome d = Executed) rows),
          case rows of [] \<Rightarrow> False | d # _ \<Rightarrow> de_outcome d = Skipped))"

end
