(* ===== verification/Session.thy ===== *)
theory Session
  imports Strings
begin

text \<open>
  One agent process seen through its stream of JSON lines: the sentinels an agent writes
  (\<^verbatim>\<open>src/src/agents/sentinels.ts\<close>) and the session around the child process
  (\<^verbatim>\<open>src/src/agents/streamJsonSession.ts\<close>). A session is a record, each method a function to the next
  record and the list of the events it emits; the events that only report (output, usage, limit
  readings) are left out. Reading a line as JSON is the parameter \<open>sp_parse\<close>. A callback that calls the
  session back does so after the method that emitted: every emission is the last thing its method does,
  the one of \<^verbatim>\<open>onExit\<close> excepted, whose listener does not touch the session.
\<close>

section \<open>Sentinels\<close>

fun index_of :: "string \<Rightarrow> string \<Rightarrow> nat option" where
  "index_of p [] = (if p = [] then Some 0 else None)"
| "index_of p (c # cs) = (if starts_with p (c # cs) then Some 0 else map_option Suc (index_of p cs))"

lemma index_of_bound: "index_of p s = Some i \<Longrightarrow> i + length p \<le> length s"
proof (induction s arbitrary: i)
  case (Cons c cs)
  show ?case
  proof (cases "starts_with p (c # cs)")
    case True
    then obtain r where "c # cs = p @ r" by (auto simp: starts_with_iff)
    then have "length p \<le> length (c # cs)" by simp
    with True Cons.prems show ?thesis by simp
  next
    case False
    with Cons show ?thesis by auto
  qed
qed (simp split: if_splits)

definition DONE_SENTINEL :: string where "DONE_SENTINEL = ''@@LUBBDUBB_DONE@@''"
definition WAIT_PREFIX :: string where "WAIT_PREFIX = ''@@LUBBDUBB_WAITING:''"
definition WAIT_SUFFIX :: string where "WAIT_SUFFIX = ''@@''"
definition FLAG_PREFIX :: string where "FLAG_PREFIX = ''@@LUBBDUBB_FLAG:''"
definition FLAG_SUFFIX :: string where "FLAG_SUFFIX = ''@@''"

lemmas sentinel_defs = DONE_SENTINEL_def WAIT_PREFIX_def WAIT_SUFFIX_def FLAG_PREFIX_def FLAG_SUFFIX_def

text \<open>\<^verbatim>\<open>text.split(t).join('')\<close>, for a text \<open>t\<close> that is not empty.\<close>

function remove_all :: "string \<Rightarrow> string \<Rightarrow> string" where
  "remove_all t s =
     (if t = [] then s
      else case index_of t s of
          None \<Rightarrow> s
        | Some a \<Rightarrow> take a s @ remove_all t (drop (a + length t) s))"
  by auto
termination
proof (relation "measure (\<lambda>(t, s). length s)")
  fix t s :: string and a
  assume "t \<noteq> []" and "index_of t s = Some a"
  then show "((t, drop (a + length t) s), t, s) \<in> measure (\<lambda>(t, s). length s)"
    using index_of_bound [of t s a] by (cases t) auto
qed simp

function stripDelimited :: "string \<Rightarrow> string \<Rightarrow> string \<Rightarrow> string" where
  "stripDelimited p q s =
     (if p = [] then s
      else case index_of p s of
          None \<Rightarrow> s
        | Some a \<Rightarrow>
            (case index_of q (drop (a + length p) s) of
               None \<Rightarrow> s
             | Some b \<Rightarrow> take a s @ stripDelimited p q (drop (a + length p + b + length q) s)))"
  by auto
termination
proof (relation "measure (\<lambda>(p, q, s). length s)")
  fix p q s :: string and a b
  assume "p \<noteq> []" and "index_of p s = Some a"
  then show "((p, q, drop (a + length p + b + length q) s), p, q, s) \<in> measure (\<lambda>(p, q, s). length s)"
    using index_of_bound [of p s a] by (cases p) auto
qed simp

definition stripSentinels :: "string \<Rightarrow> string" where
  "stripSentinels text =
     stripDelimited FLAG_PREFIX FLAG_SUFFIX (stripDelimited WAIT_PREFIX WAIT_SUFFIX (remove_all DONE_SENTINEL text))"

definition extractWaitingReason :: "string \<Rightarrow> string option" where
  "extractWaitingReason text =
     (case index_of WAIT_PREFIX text of
        None \<Rightarrow> None
      | Some a \<Rightarrow>
          let rest = drop (a + length WAIT_PREFIX) text in
          map_option (\<lambda>b. trim (take b rest)) (index_of WAIT_SUFFIX rest))"

text \<open>The payloads \<^verbatim>\<open>extractFlags\<close> parses, with the character before the text it reads on.\<close>

function flag_payloads :: "char option \<Rightarrow> string \<Rightarrow> string list" where
  "flag_payloads before text =
     (case index_of FLAG_PREFIX text of
        None \<Rightarrow> []
      | Some a \<Rightarrow>
          let prev = (if a = 0 then before else Some (text ! (a - 1))) in
          if prev \<noteq> None \<and> \<not> is_space (the prev) then flag_payloads (Some (text ! a)) (drop (a + 1) text)
          else let rest = drop (a + length FLAG_PREFIX) text in
            case index_of FLAG_SUFFIX rest of
              None \<Rightarrow> []
            | Some b \<Rightarrow> take b rest #
                flag_payloads (Some (last FLAG_SUFFIX)) (drop (a + length FLAG_PREFIX + b + length FLAG_SUFFIX) text))"
  by auto
termination
  by (relation "measure (\<lambda>(b, s). length s)") (auto simp: sentinel_defs dest: index_of_bound)

declare remove_all.simps [simp del] stripDelimited.simps [simp del] flag_payloads.simps [simp del]

definition contains :: "string \<Rightarrow> string \<Rightarrow> bool" where
  "contains text t \<longleftrightarrow> index_of t text \<noteq> None"

section \<open>The session\<close>

datatype session_status = SStarting | SRunning | SWaiting | SDone | SKilled | SFailed

record limit_park =
  lp_limitType :: "string option"
  lp_resetsAt :: "int option"
  lp_overage :: bool

record rate_limit_info =
  ri_status :: "string option"
  ri_resetsAt :: "int option"
  ri_rateLimitType :: "string option"
  ri_overageStatus :: "string option"
  ri_isUsingOverage :: "bool option"

definition rateLimitPark :: "rate_limit_info option \<Rightarrow> limit_park option" where
  "rateLimitPark info =
     (case info of
        None \<Rightarrow> None
      | Some i \<Rightarrow>
          let overage = (ri_isUsingOverage i = Some True \<and> ri_overageStatus i = Some ''rejected'') in
          if ri_status i \<noteq> Some ''rejected'' \<and> \<not> overage then None
          else Some \<lparr>lp_limitType = ri_rateLimitType i,
                 lp_resetsAt = map_option (\<lambda>t. t * 1000) (ri_resetsAt i), lp_overage = overage\<rparr>)"

text \<open>A line of the stream: an assistant's text and whether it used a tool, and the events the session acts on.\<close>

datatype stream_event =
    AssistantEvent string bool
  | UserEvent
  | RateLimitEvent "rate_limit_info option"
  | ResultEvent
  | OtherEvent

datatype emission =
    EmStatus session_status
  | EmFlag string
  | EmActivity
  | EmStalled string
  | EmWaiting string
  | EmLimited limit_park
  | EmExit int
  | EmDone
  | EmFailed
  | EmSilent

record session_spec =
  sp_parse :: "string \<Rightarrow> stream_event option"
  sp_silenceMs :: nat

record session =
  se_started :: bool
  se_status :: session_status
  se_stdoutBuf :: string
  se_turnText :: string
  se_pendingTurns :: nat
  se_limit :: "limit_park option"
  se_limitParked :: bool
  se_silenceTimer :: bool

definition new_session :: session where
  "new_session = \<lparr>se_started = False, se_status = SStarting, se_stdoutBuf = [], se_turnText = [], se_pendingTurns = 0,
     se_limit = None, se_limitParked = False, se_silenceTimer = False\<rparr>"

definition armSilence :: "session_spec \<Rightarrow> session \<Rightarrow> session" where
  "armSilence sp s = s\<lparr>se_silenceTimer := (0 < sp_silenceMs sp \<and> se_status s = SRunning)\<rparr>"

definition setStatus :: "session_spec \<Rightarrow> session_status \<Rightarrow> session \<Rightarrow> session \<times> emission list" where
  "setStatus sp st s =
     (if se_status s = st then (s, []) else (armSilence sp (s\<lparr>se_status := st\<rparr>), [EmStatus st]))"

definition and_then :: "('s \<Rightarrow> 's \<times> 'e list) \<Rightarrow> ('s \<Rightarrow> 's \<times> 'e list) \<Rightarrow> 's \<Rightarrow> 's \<times> 'e list" where
  "and_then f g s = (let (s1, e1) = f s; (s2, e2) = g s1 in (s2, e1 @ e2))"

definition emit :: "'e \<Rightarrow> 's \<Rightarrow> 's \<times> 'e list" where
  "emit e s = (s, [e])"

definition finish :: "session_spec \<Rightarrow> bool \<Rightarrow> session \<Rightarrow> session \<times> emission list" where
  "finish sp ok s =
     (if se_status s = SDone \<or> se_status s = SFailed then (s, [])
      else and_then (setStatus sp (if ok then SDone else SFailed)) (emit (if ok then EmDone else EmFailed)) s)"

definition stall :: "session_spec \<Rightarrow> string \<Rightarrow> session \<Rightarrow> session \<times> emission list" where
  "stall sp turnText s =
     (if se_status s = SWaiting \<or> se_status s = SDone then (s, [])
      else and_then (setStatus sp SWaiting) (emit (EmStalled (trim (stripSentinels turnText)))) s)"

definition setWaiting :: "session_spec \<Rightarrow> string \<Rightarrow> session \<Rightarrow> session \<times> emission list" where
  "setWaiting sp reason s =
     (if se_status s = SWaiting \<or> se_status s = SDone then (s, [])
      else and_then (setStatus sp SWaiting) (emit (EmWaiting reason)) s)"

definition parkOnLimit :: "session_spec \<Rightarrow> session \<Rightarrow> session \<times> emission list" where
  "parkOnLimit sp s =
     (if se_limitParked s \<or> se_status s = SDone \<or> se_status s = SKilled then (s, [])
      else and_then (setStatus sp SWaiting) (\<lambda>s. case se_limit s of Some p \<Rightarrow> (s, [EmLimited p]) | None \<Rightarrow> (s, []))
             (s\<lparr>se_limitParked := True\<rparr>))"

definition onAssistant :: "string \<Rightarrow> bool \<Rightarrow> session \<Rightarrow> session \<times> emission list" where
  "onAssistant raw tool s =
     (s\<lparr>se_turnText := se_turnText s @ raw\<rparr>,
      map EmFlag (flag_payloads None raw) @ (if tool then [EmActivity] else []))"

definition end_turn :: "session \<Rightarrow> session" where
  "end_turn s = s\<lparr>se_turnText := [], se_pendingTurns := se_pendingTurns s - 1\<rparr>"

definition onResult :: "session_spec \<Rightarrow> session \<Rightarrow> session \<times> emission list" where
  "onResult sp s =
     (let turnText = se_turnText s;
          s1 = end_turn s
      in if contains turnText DONE_SENTINEL then finish sp True s1
         else if 0 < se_pendingTurns s1 then (s1, [])
         else if se_limit s1 \<noteq> None then parkOnLimit sp s1
         else case extractWaitingReason turnText of
             Some reason \<Rightarrow> setWaiting sp reason s1
           | None \<Rightarrow> stall sp turnText s1)"

definition handleEvent :: "session_spec \<Rightarrow> string \<Rightarrow> session \<Rightarrow> session \<times> emission list" where
  "handleEvent sp line s =
     (case sp_parse sp line of
        Some (AssistantEvent raw tool) \<Rightarrow> onAssistant raw tool s
      | Some (RateLimitEvent info) \<Rightarrow> (s\<lparr>se_limit := rateLimitPark info\<rparr>, [])
      | Some ResultEvent \<Rightarrow> onResult sp s
      | _ \<Rightarrow> (s, []))"

definition newline :: char where "newline = CHR 0x0A"

fun handle_lines :: "session_spec \<Rightarrow> string list \<Rightarrow> session \<Rightarrow> session \<times> emission list" where
  "handle_lines sp [] s = (s, [])"
| "handle_lines sp (l # ls) s =
     (if trim l \<noteq> '''' then and_then (handleEvent sp l) (handle_lines sp ls) s else handle_lines sp ls s)"

definition onStdout :: "session_spec \<Rightarrow> string \<Rightarrow> session \<Rightarrow> session \<times> emission list" where
  "onStdout sp chunk s =
     (let pieces = split_on newline (se_stdoutBuf s @ chunk)
      in handle_lines sp (butlast pieces) ((armSilence sp s)\<lparr>se_stdoutBuf := last pieces\<rparr>))"

definition onExit :: "session_spec \<Rightarrow> int option \<Rightarrow> session \<Rightarrow> session \<times> emission list" where
  "onExit sp code =
     and_then (emit (EmExit (default_to 0 code)))
       (\<lambda>s. if se_status s = SKilled \<or> se_status s = SDone then (s, [])
            else if se_limit s \<noteq> None then parkOnLimit sp s
            else finish sp (code = Some 0) s)"

definition send :: "session_spec \<Rightarrow> session \<Rightarrow> session \<times> emission list" where
  "send sp s =
     and_then (\<lambda>s. if se_status s = SWaiting then setStatus sp SRunning s else (s, [])) (\<lambda>s. (armSilence sp s, []))
       (s\<lparr>se_pendingTurns := se_pendingTurns s + 1, se_limitParked := False\<rparr>)"

definition kill_session :: "session_spec \<Rightarrow> session \<Rightarrow> session \<times> emission list" where
  "kill_session sp s =
     (let s1 = s\<lparr>se_silenceTimer := False\<rparr> in
      if se_started s \<and> se_status s \<in> {SStarting, SRunning, SWaiting} then setStatus sp SKilled s1 else (s1, []))"

text \<open>What happens to a session: its methods are called, its child writes and exits, its timer fires.\<close>

datatype session_input = InStart | InSend | InKill | InStdout string | InExit "int option" | InSilence

fun session_step :: "session_spec \<Rightarrow> session_input \<Rightarrow> session \<Rightarrow> session \<times> emission list" where
  "session_step sp InStart s =
     (if se_started s then (s, []) else setStatus sp SRunning (s\<lparr>se_started := True\<rparr>))"
| "session_step sp InSend s = (if se_started s then send sp s else (s, []))"
| "session_step sp InKill s = kill_session sp s"
| "session_step sp (InStdout chunk) s = (if se_started s then onStdout sp chunk s else (s, []))"
| "session_step sp (InExit code) s = (if se_started s then onExit sp code s else (s, []))"
| "session_step sp InSilence s =
     (if se_silenceTimer s then (s\<lparr>se_silenceTimer := False\<rparr>, [EmSilent]) else (s, []))"

fun session_run :: "session_spec \<Rightarrow> session_input list \<Rightarrow> session \<Rightarrow> session \<times> emission list" where
  "session_run sp [] s = (s, [])"
| "session_run sp (i # is) s = and_then (session_step sp i) (session_run sp is) s"

section \<open>A line is handled as it is completed, however it was cut\<close>

lemma split_on_append:
  "split_on c (x @ y) = butlast (split_on c x) @ split_on c (last (split_on c x) @ y)"
proof (induction x)
  case (Cons a x)
  obtain w ws where w: "split_on c x = w # ws" by (metis list.exhaust split_on_nonempty)
  show ?case
  proof (cases ws)
    case Nil
    with w Cons show ?thesis by (cases "split_on c (x @ y)") auto
  next
    case (Cons v vs)
    then show ?thesis using w Cons.IH by (auto split: list.splits)
  qed
qed simp

lemma and_then_assoc: "and_then (and_then f g) h = and_then f (and_then g h)"
  by (auto simp: and_then_def fun_eq_iff split: prod.splits)

lemma and_then_nothing [simp]: "and_then f (\<lambda>s. (s, [])) = f"
  by (auto simp: and_then_def fun_eq_iff split: prod.splits)

lemma handle_lines_append: "handle_lines sp (ks @ ls) s = and_then (handle_lines sp ks) (handle_lines sp ls) s"
proof (induction ks arbitrary: s)
  case (Cons k ks)
  then have "handle_lines sp (ks @ ls) = and_then (handle_lines sp ks) (handle_lines sp ls)" by auto
  then show ?case by (auto simp: and_then_assoc)
qed (simp add: and_then_def)

text \<open>The buffer is not read while a line is handled, and the timer always reads as the status says.\<close>

definition buffer_blind :: "(session \<Rightarrow> session \<times> emission list) \<Rightarrow> bool" where
  "buffer_blind f \<longleftrightarrow> (\<forall>s b. f (s\<lparr>se_stdoutBuf := b\<rparr>) = apfst (\<lambda>t. t\<lparr>se_stdoutBuf := b\<rparr>) (f s))"

lemma armed_iff: "armSilence sp s = s \<longleftrightarrow> se_silenceTimer s = (0 < sp_silenceMs sp \<and> se_status s = SRunning)"
  by (cases s) (auto simp: armSilence_def)

definition keeps_armed :: "session_spec \<Rightarrow> (session \<Rightarrow> session \<times> emission list) \<Rightarrow> bool" where
  "keeps_armed sp f \<longleftrightarrow> (\<forall>s. armSilence sp s = s \<longrightarrow> armSilence sp (fst (f s)) = fst (f s))"

lemma buffer_blind_then [intro]: "buffer_blind f \<Longrightarrow> buffer_blind g \<Longrightarrow> buffer_blind (and_then f g)"
  by (auto simp: buffer_blind_def and_then_def split: prod.splits)

lemma keeps_armed_then [intro]: "keeps_armed sp f \<Longrightarrow> keeps_armed sp g \<Longrightarrow> keeps_armed sp (and_then f g)"
  by (auto simp: keeps_armed_def and_then_def split: prod.splits)

lemmas session_methods = finish_def stall_def setWaiting_def parkOnLimit_def onAssistant_def setStatus_def
  armSilence_def emit_def

lemma methods_blind:
  "buffer_blind (finish sp ok)" "buffer_blind (stall sp t)" "buffer_blind (setWaiting sp t)"
  "buffer_blind (parkOnLimit sp)" "buffer_blind (onAssistant raw tool)"
  by (auto simp: buffer_blind_def session_methods and_then_def split: option.splits)

lemma methods_armed:
  "keeps_armed sp (finish sp ok)" "keeps_armed sp (stall sp t)" "keeps_armed sp (setWaiting sp t)"
  "keeps_armed sp (parkOnLimit sp)" "keeps_armed sp (onAssistant raw tool)"
  unfolding keeps_armed_def armed_iff by (auto simp: session_methods and_then_def split: option.splits)

lemma end_turn_blind: "end_turn (s\<lparr>se_stdoutBuf := b\<rparr>) = (end_turn s)\<lparr>se_stdoutBuf := b\<rparr>"
  by (simp add: end_turn_def)

lemma onResult_blind: "buffer_blind (onResult sp)"
  using methods_blind [unfolded buffer_blind_def]
  by (simp add: buffer_blind_def onResult_def Let_def end_turn_blind split: option.split)

lemma onResult_armed: "keeps_armed sp (onResult sp)"
proof -
  have "armSilence sp (end_turn s) = end_turn s" if "armSilence sp s = s" for s
    using that by (simp add: armed_iff end_turn_def)
  with methods_armed show ?thesis
    by (auto simp: keeps_armed_def onResult_def Let_def split: option.splits)
qed

lemma handleEvent_blind: "buffer_blind (handleEvent sp l)"
  using methods_blind(5) onResult_blind
  by (auto simp: buffer_blind_def handleEvent_def split: option.splits stream_event.splits)

lemma handleEvent_armed: "keeps_armed sp (handleEvent sp l)"
  using methods_armed(5) onResult_armed
  by (auto simp: keeps_armed_def handleEvent_def armed_iff split: option.splits stream_event.splits)

lemma handle_lines_blind: "buffer_blind (handle_lines sp ls)"
proof (induction ls)
  case (Cons l ls)
  then have "buffer_blind (and_then (handleEvent sp l) (handle_lines sp ls))"
    using handleEvent_blind by blast
  with Cons show ?case by (simp add: buffer_blind_def)
qed (simp add: buffer_blind_def)

lemma handle_lines_armed: "keeps_armed sp (handle_lines sp ls)"
proof (induction ls)
  case (Cons l ls)
  then have "keeps_armed sp (and_then (handleEvent sp l) (handle_lines sp ls))"
    using handleEvent_armed by blast
  with Cons show ?case by (simp add: keeps_armed_def)
qed (simp add: keeps_armed_def)

lemma handle_lines_buf [simp]: "se_stdoutBuf (fst (handle_lines sp ls s)) = se_stdoutBuf s"
proof -
  have "handle_lines sp ls (s\<lparr>se_stdoutBuf := se_stdoutBuf s\<rparr>)
      = apfst (\<lambda>t. t\<lparr>se_stdoutBuf := se_stdoutBuf s\<rparr>) (handle_lines sp ls s)"
    using handle_lines_blind unfolding buffer_blind_def by blast
  then have "fst (handle_lines sp ls s) = (fst (handle_lines sp ls s))\<lparr>se_stdoutBuf := se_stdoutBuf s\<rparr>"
    by (metis fst_apfst session.surjective session.update_convs(3))
  then show ?thesis by (metis session.select_convs(3) session.surjective session.update_convs(3))
qed


section \<open>What a session says after it has said it is done\<close>

text \<open>The emissions the manager of the agents acts on; the others only report.\<close>

fun decides :: "emission \<Rightarrow> bool" where
  "decides (EmFlag _) = False"
| "decides EmActivity = False"
| "decides (EmExit _) = False"
| "decides _ = True"

definition session_ok :: "session \<Rightarrow> bool" where
  "session_ok s \<longleftrightarrow> se_started s \<and> (se_silenceTimer s \<longrightarrow> se_status s = SRunning)"

definition closes :: "session \<Rightarrow> emission list \<Rightarrow> bool" where
  "closes s es \<longleftrightarrow> (\<forall>pre post. es = pre @ EmDone # post \<longrightarrow> se_status s = SDone \<and> list_all (\<lambda>e. \<not> decides e) post)"

definition tame :: "(session \<Rightarrow> session \<times> emission list) \<Rightarrow> bool" where
  "tame f \<longleftrightarrow> (\<forall>s. session_ok s \<longrightarrow> session_ok (fst (f s)) \<and> closes (fst (f s)) (snd (f s)) \<and>
     (se_status s = SDone \<longrightarrow> se_status (fst (f s)) = SDone \<and> list_all (\<lambda>e. \<not> decides e) (snd (f s))))"

lemma closes_nothing: "EmDone \<notin> set es \<Longrightarrow> closes s es"
  by (auto simp: closes_def)

lemma closes_last: "EmDone \<notin> set es \<Longrightarrow> se_status s = SDone \<Longrightarrow> closes s (es @ [EmDone])"
  by (auto simp: closes_def append_eq_append_conv2 append_eq_Cons_conv Cons_eq_append_conv)

lemma tame_then [intro]:
  assumes f: "tame f" and g: "tame g"
  shows "tame (and_then f g)"
  unfolding tame_def
proof (intro allI impI)
  fix s assume ok: "session_ok s"
  obtain s1 e1 s2 e2 where 1: "f s = (s1, e1)" "g s1 = (s2, e2)" by fastforce
  have f': "session_ok s1" "closes s1 e1" "se_status s = SDone \<Longrightarrow> se_status s1 = SDone \<and> list_all (\<lambda>e. \<not> decides e) e1"
    using f ok 1 unfolding tame_def by force+
  have g': "session_ok s2" "closes s2 e2" "se_status s1 = SDone \<Longrightarrow> se_status s2 = SDone \<and> list_all (\<lambda>e. \<not> decides e) e2"
    using g f'(1) 1 unfolding tame_def by force+
  have "closes s2 (e1 @ e2)"
    unfolding closes_def
  proof (intro allI impI)
    fix pre post assume "e1 @ e2 = pre @ EmDone # post"
    then obtain us where "e1 = pre @ us \<and> us @ e2 = EmDone # post \<or> e1 @ us = pre \<and> e2 = us @ EmDone # post"
      by (auto simp: append_eq_append_conv2)
    then consider us where "e1 = pre @ EmDone # us" "post = us @ e2" | us where "pre = e1 @ us" "e2 = us @ EmDone # post"
      by (cases us) auto
    then show "se_status s2 = SDone \<and> list_all (\<lambda>e. \<not> decides e) post"
    proof cases
      case 1
      with f'(2) g'(3) show ?thesis by (auto simp: closes_def)
    next
      case 2
      with g'(2) show ?thesis by (auto simp: closes_def)
    qed
  qed
  with f' g' 1 show "session_ok (fst (and_then f g s)) \<and> closes (fst (and_then f g s)) (snd (and_then f g s)) \<and>
      (se_status s = SDone \<longrightarrow> se_status (fst (and_then f g s)) = SDone \<and> list_all (\<lambda>e. \<not> decides e) (snd (and_then f g s)))"
    by (auto simp: and_then_def)
qed

lemma flags_report: "list_all (\<lambda>e. \<not> decides e) (map EmFlag fs)"
  by (simp add: list.pred_set)

lemma tame_finish: "tame (finish sp ok)"
  by (auto simp: tame_def finish_def setStatus_def and_then_def emit_def armSilence_def session_ok_def closes_def
      Cons_eq_append_conv append_eq_Cons_conv)

lemma tame_event: "tame (handleEvent sp l)"
proof -
  have rest: "tame (stall sp t)" "tame (setWaiting sp r)" "tame (parkOnLimit sp)" for t r
    by (auto simp: tame_def session_methods and_then_def session_ok_def intro!: closes_nothing split: option.splits)
  have "tame (onResult sp)"
    unfolding tame_def
  proof (intro allI impI)
    fix s assume ok: "session_ok s"
    let ?s1 = "end_turn s"
    have ok1: "session_ok ?s1" "se_status ?s1 = se_status s" using ok by (simp_all add: session_ok_def end_turn_def)
    have idle: "tame (\<lambda>s. (s, []))" by (simp add: tame_def closes_nothing)
    have "\<exists>g. tame g \<and> onResult sp s = g ?s1"
      unfolding onResult_def Let_def using tame_finish rest idle
      by (cases "extractWaitingReason (se_turnText s)") fastforce+
    then show "session_ok (fst (onResult sp s)) \<and> closes (fst (onResult sp s)) (snd (onResult sp s)) \<and>
        (se_status s = SDone \<longrightarrow> se_status (fst (onResult sp s)) = SDone \<and> list_all (\<lambda>e. \<not> decides e) (snd (onResult sp s)))"
      using ok1 unfolding tame_def by metis
  qed
  moreover have "tame (onAssistant raw tool)" for raw tool
    by (auto simp: tame_def onAssistant_def session_ok_def flags_report intro!: closes_nothing)
  ultimately show ?thesis
    by (auto simp: handleEvent_def tame_def session_ok_def closes_nothing split: option.splits stream_event.splits)
qed

lemma tame_lines: "tame (handle_lines sp ls)"
proof (induction ls)
  case (Cons l ls)
  then have "tame (and_then (handleEvent sp l) (handle_lines sp ls))"
    using tame_event by blast
  with Cons show ?case by (simp add: tame_def)
qed (simp add: tame_def closes_nothing)

lemma tame_stdout: "tame (onStdout sp chunk)"
  using tame_lines by (auto simp: tame_def onStdout_def session_ok_def armSilence_def Let_def)

lemma tame_exit: "tame (onExit sp code)"
proof -
  have "tame (\<lambda>s. if se_status s = SKilled \<or> se_status s = SDone then (s, [])
      else if se_limit s \<noteq> None then parkOnLimit sp s else finish sp (code = Some 0) s)"
  proof -
    have "tame (parkOnLimit sp)"
      by (auto simp: tame_def session_methods and_then_def session_ok_def intro!: closes_nothing split: option.splits)
    with tame_finish show ?thesis by (simp add: tame_def closes_nothing)
  qed
  moreover have "tame (emit (EmExit c))" for c by (simp add: tame_def emit_def closes_nothing)
  ultimately show ?thesis unfolding onExit_def by blast
qed

lemma tame_step: "tame (session_step sp i)"
proof (cases i)
  case (InStdout c)
  then have "session_step sp i s = onStdout sp c s" if "session_ok s" for s using that by (simp add: session_ok_def)
  with tame_stdout show ?thesis unfolding tame_def by metis
next
  case (InExit c)
  then have "session_step sp i s = onExit sp c s" if "session_ok s" for s using that by (simp add: session_ok_def)
  with tame_exit show ?thesis unfolding tame_def by metis
qed (auto simp: tame_def session_ok_def send_def kill_session_def setStatus_def and_then_def armSilence_def Let_def
    intro!: closes_nothing)

lemma tame_run: "tame (session_run sp is)"
proof (induction "is")
  case (Cons i "is")
  with tame_step [of sp i] have "tame (and_then (session_step sp i) (session_run sp is))" by blast
  then show ?case by (simp add: tame_def)
qed (simp add: tame_def closes_nothing)

text \<open>
  C35. Done is final. Whatever is written to a session that was started, whatever its process writes
  and however it exits, once the session has said it is done it stays done and says nothing more that
  its manager acts on: no second ending, no question, no stall, no limit.
\<close>

theorem done_is_final:
  assumes "session_run sp (InStart # is) new_session = (s, pre @ EmDone # post)"
  shows "se_status s = SDone \<and> list_all (\<lambda>e. \<not> decides e) post"
proof -
  obtain s0 e0 where start: "session_step sp InStart new_session = (s0, e0)" by fastforce
  then have s0: "session_ok s0" and e0: "EmDone \<notin> set e0"
    by (auto simp: new_session_def setStatus_def armSilence_def session_ok_def)
  obtain s1 es where run: "session_run sp is s0 = (s1, es)" by fastforce
  with assms start have s: "s1 = s" and eq: "e0 @ es = pre @ EmDone # post" by (auto simp: and_then_def)
  from eq obtain us where "e0 = pre @ us \<and> us @ es = EmDone # post \<or> e0 @ us = pre \<and> es = us @ EmDone # post"
    by (auto simp: append_eq_append_conv2)
  with e0 have "\<exists>us. es = us @ EmDone # post" by (cases us) auto
  then obtain us where "es = us @ EmDone # post" by blast
  moreover have "closes s1 es" using tame_run [of sp "is"] s0 run unfolding tame_def by force
  ultimately show ?thesis using s by (simp add: closes_def)
qed

text \<open>A session over the lines of a small alphabet, for the concrete runs.\<close>

definition line_spec :: session_spec where
  "line_spec = \<lparr>sp_parse = (\<lambda>l. if l = ''done'' then Some (AssistantEvent DONE_SENTINEL False)
      else if l = ''result'' then Some ResultEvent else None), sp_silenceMs = 0\<rparr>"

theorem done_is_final_witness:
  "se_status (fst (session_run line_spec [InStart, InStdout (''done'' @ [newline] @ ''result'' @ [newline]),
       InStdout (''result'' @ [newline]), InExit (Some 1)] new_session)) = SDone"
proof -
  have run: "session_run line_spec [InStart, InStdout (''done'' @ [newline] @ ''result'' @ [newline]),
       InStdout (''result'' @ [newline]), InExit (Some 1)] new_session
    = (\<lparr>se_started = True, se_status = SDone, se_stdoutBuf = [], se_turnText = [], se_pendingTurns = 0,
        se_limit = None, se_limitParked = False, se_silenceTimer = False\<rparr>,
       [EmStatus SRunning, EmStatus SDone] @ EmDone # [EmExit 1])"
    by code_simp
  from done_is_final [OF run] run show ?thesis by simp
qed

text \<open>
  Killed is not final. A session that was killed while its process had a finished turn still to
  write puts itself back to waiting when that line arrives and says it stalled, or says it is done when
  the line closes the work; its process then exits and it says it failed. The guards of \<^verbatim>\<open>stall\<close>,
  \<^verbatim>\<open>setWaiting\<close> and \<^verbatim>\<open>finish\<close> do not name \<^verbatim>\<open>killed\<close>, where the one of \<^verbatim>\<open>parkOnLimit\<close> does.
\<close>

lemma killed_session_speaks_again:
  "snd (session_run line_spec [InStart, InKill, InStdout (''result'' @ [newline]), InExit None] new_session)
     = [EmStatus SRunning, EmStatus SKilled, EmStatus SWaiting, EmStalled '''', EmExit 0, EmStatus SFailed, EmFailed]
   \<and> snd (session_run line_spec [InStart, InKill, InStdout (''done'' @ [newline] @ ''result'' @ [newline])] new_session)
     = [EmStatus SRunning, EmStatus SKilled, EmStatus SDone, EmDone]"
  by (rule conjI; code_simp)

end
