(* ===== verification/Fleet.thy ===== *)
theory Fleet
  imports FleetStore Session
begin

text \<open>
  The manager of the agents (\<^verbatim>\<open>src/src/agents/agentManager.ts\<close>, \<^verbatim>\<open>agentParks.ts\<close>), the recovery of what a
  restart orphaned (\<^verbatim>\<open>crashRecovery.ts\<close>, \<^verbatim>\<open>recoveryDesk.ts\<close>) and the ejections an operator takes work off
  the fleet with (\<^verbatim>\<open>src/src/ejection/desk.ts\<close>, \<^verbatim>\<open>policy.ts\<close>), over the tables of \<open>FleetStore\<close>. One
  definition per method, with the listeners \<^verbatim>\<open>wireAgentEvents\<close> of \<^verbatim>\<open>src/src/system/system.ts\<close> attaches
  called where the method emits. Whether a process could be launched and whether a directory exists are
  arguments. Transcripts, credentials, spools and usage are left out: no decision reads them.
\<close>

record fleet_opts =
  fo_resumable :: bool
  fo_resumeAttempts :: nat
  fo_stallNudges :: nat
  fo_stallParkMs :: int
  fo_stallExtendMs :: int
  fo_silenceParkMs :: int
  fo_whitelisted :: "string \<Rightarrow> bool"
  fo_bootedAt :: int
  fo_ejectionEnabled :: bool
  fo_expiryHours :: int

text \<open>What came of opening and starting a session.\<close>

datatype launch = OpenFails | StartFails | Launched

section \<open>What the system does on an event of the manager\<close>

definition no_op_decision :: "int \<Rightarrow> decision_outcome \<Rightarrow> fleet \<Rightarrow> fleet" where
  "no_op_decision now outcome = recordDecision now (new_action NoOp) outcome"

definition on_waiting :: "string \<Rightarrow> string \<Rightarrow> fleet \<Rightarrow> fleet" where
  "on_waiting eid agentId fl =
     (if has_open_escalation fl agentId then fl else createEscalation eid (Some agentId) fl)"

definition dismissEscalationsForAgent :: "int \<Rightarrow> string \<Rightarrow> fleet \<Rightarrow> fleet" where
  "dismissEscalationsForAgent now agentId fl =
     foldl (\<lambda>f e. no_op_decision now Executed (set_escalation (fe_id e) EscDismissed f)) fl
       (filter (\<lambda>e. open_escalation e \<and> fe_agentId e = Some agentId) (fl_escalations fl))"

definition on_reaped :: "string \<Rightarrow> fleet \<Rightarrow> fleet" where
  "on_reaped taskId fl =
     (case Option.bind (getTask fl taskId) (\<lambda>t. truthy (tk_branch t)) of
        None \<Rightarrow> fl
      | Some branch \<Rightarrow>
          if hasActiveTaskOnBranch fl branch taskId then fl else fl\<lparr>fl_released := fl_released fl @ [branch]\<rparr>)"

section \<open>Parks\<close>

definition clear_park :: "string \<Rightarrow> fleet \<Rightarrow> fleet" where
  "clear_park a fl = fl\<lparr>fl_parked := removeAll a (fl_parked fl), fl_limited := map_delete a (fl_limited fl),
     fl_stalled := map_delete a (fl_stalled fl)\<rparr>"

definition unpark :: "string \<Rightarrow> fleet \<Rightarrow> fleet" where
  "unpark a fl = fl\<lparr>fl_parked := removeAll a (fl_parked fl), fl_limited := map_delete a (fl_limited fl)\<rparr>"

definition forget_park :: "string \<Rightarrow> fleet \<Rightarrow> fleet" where
  "forget_park a fl = (clear_park a fl)\<lparr>fl_nudges := map_delete a (fl_nudges fl)\<rparr>"

definition is_limited :: "fleet \<Rightarrow> string \<Rightarrow> bool" where
  "is_limited fl a \<longleftrightarrow> map_of (fl_limited fl) a \<noteq> None"

definition drop_session :: "string \<Rightarrow> fleet \<Rightarrow> fleet" where
  "drop_session a fl = fl\<lparr>fl_sessions := removeAll a (fl_sessions fl)\<rparr>"

definition add_session :: "string \<Rightarrow> fleet \<Rightarrow> fleet" where
  "add_session a fl = fl\<lparr>fl_sessions := set_add a (fl_sessions fl)\<rparr>"

definition set_parked :: "string \<Rightarrow> fleet \<Rightarrow> fleet" where
  "set_parked a fl = fl\<lparr>fl_parked := set_add a (fl_parked fl)\<rparr>"

definition set_limited :: "string \<Rightarrow> int option \<Rightarrow> fleet \<Rightarrow> fleet" where
  "set_limited a resetsAt fl = fl\<lparr>fl_limited := map_put a resetsAt (fl_limited fl)\<rparr>"

definition drop_stalled :: "string \<Rightarrow> fleet \<Rightarrow> fleet" where
  "drop_stalled a fl = fl\<lparr>fl_stalled := map_delete a (fl_stalled fl)\<rparr>"

definition drop_exited :: "string \<Rightarrow> fleet \<Rightarrow> fleet" where
  "drop_exited a fl = fl\<lparr>fl_exited := removeAll a (fl_exited fl)\<rparr>"

definition shedLimitedSession :: "string \<Rightarrow> fleet \<Rightarrow> fleet" where
  "shedLimitedSession a fl = drop_exited a (drop_session a fl)"

definition extendStallPark :: "fleet_opts \<Rightarrow> int \<Rightarrow> string \<Rightarrow> fleet \<Rightarrow> fleet" where
  "extendStallPark op now a fl =
     (case map_of (fl_stalled fl) a of
        None \<Rightarrow> fl
      | Some c \<Rightarrow> fl\<lparr>fl_stalled := map_put a (c\<lparr>sc_at := now + fo_stallExtendMs op\<rparr>) (fl_stalled fl)\<rparr>)"

definition armStallClock :: "string \<Rightarrow> int \<Rightarrow> int \<Rightarrow> int \<Rightarrow> fleet \<Rightarrow> fleet" where
  "armStallClock a window grace now fl =
     (if window \<le> 0 \<or> a \<notin> set (fl_parked fl) \<or> is_limited fl a then fl
      else fl\<lparr>fl_stalled := map_put a \<lparr>sc_at = now + window, sc_grace = (if 0 < grace then grace else window)\<rparr> (fl_stalled fl)\<rparr>)"

definition respond :: "string \<Rightarrow> fleet \<Rightarrow> fleet \<times> bool" where
  "respond a fl =
     (if a \<notin> set (fl_sessions fl) then (fl, False)
      else (updateAgent a (\<lambda>g. g\<lparr>ag_status := ARunning, fa_waitingReason := None\<rparr>) (setAgentResumed a None (clear_park a fl)), True))"

definition waiting_row :: "string option \<Rightarrow> fleet_agent \<Rightarrow> fleet_agent" where
  "waiting_row reason g = (case reason of None \<Rightarrow> g\<lparr>ag_status := AWaiting\<rparr>
     | Some r \<Rightarrow> g\<lparr>ag_status := AWaiting, fa_waitingReason := Some r\<rparr>)"

definition park_waiting :: "int \<Rightarrow> string \<Rightarrow> string \<Rightarrow> string option \<Rightarrow> fleet \<Rightarrow> fleet" where
  "park_waiting now a taskId reason fl =
     task_to now taskId TWaiting (updateAgent a (waiting_row reason) fl)"

definition handleWaiting :: "fleet_opts \<Rightarrow> int \<Rightarrow> string \<Rightarrow> string \<Rightarrow> string \<Rightarrow> string \<Rightarrow> fleet \<Rightarrow> fleet" where
  "handleWaiting op now eid a taskId reason fl =
     (if a \<in> set (fl_parked fl) then fl
      else if fo_whitelisted op reason then fst (respond a fl)
      else on_waiting eid a
             (park_waiting now a taskId (Some reason)
               (setAgentResumed a None (set_parked a fl))))"

text \<open>The words a stall is shown with; \<open>sent\<close> says whether the nudge could be written to the session.\<close>

definition handleStalled ::
  "fleet_opts \<Rightarrow> int \<Rightarrow> string \<Rightarrow> bool \<Rightarrow> string \<Rightarrow> string \<Rightarrow> string \<Rightarrow> fleet \<Rightarrow> fleet" where
  "handleStalled op now eid sent a taskId reason fl =
     (if a \<in> set (fl_parked fl) then fl
      else let spent = default_to 0 (map_of (fl_nudges fl) a);
               nudge = (spent < fo_stallNudges op \<and> a \<notin> set (fl_exited fl));
               fl1 = (if nudge then fl\<lparr>fl_nudges := map_put a (spent + 1) (fl_nudges fl)\<rparr> else fl)
        in if nudge \<and> sent then fl1
           else armStallClock a (fo_stallParkMs op) (fo_stallParkMs op) now (handleWaiting op now eid a taskId reason fl1))"

definition handleSilent :: "fleet_opts \<Rightarrow> int \<Rightarrow> string \<Rightarrow> string \<Rightarrow> string \<Rightarrow> string \<Rightarrow> fleet \<Rightarrow> fleet" where
  "handleSilent op now eid a taskId reason fl =
     (if a \<in> set (fl_parked fl) then fl
      else armStallClock a (fo_stallParkMs op) (fo_silenceParkMs op) now (handleWaiting op now eid a taskId reason fl))"

definition handleLimited :: "int \<Rightarrow> string \<Rightarrow> string \<Rightarrow> string \<Rightarrow> int option \<Rightarrow> fleet \<Rightarrow> fleet" where
  "handleLimited now a taskId reason resetsAt fl =
     (if is_limited fl a then fl
      else let asked = (a \<in> set (fl_parked fl));
               fl1 = drop_stalled a (set_parked a (set_limited a resetsAt fl));
               fl2 = park_waiting now a taskId (if asked then None else Some reason) (setAgentResumed a None fl1)
        in if a \<in> set (fl_exited fl2) then shedLimitedSession a fl2 else fl2)"

definition reinstateLimitPark :: "int \<Rightarrow> string \<Rightarrow> string \<Rightarrow> string \<Rightarrow> int option \<Rightarrow> fleet \<Rightarrow> fleet" where
  "reinstateLimitPark now a taskId reason resetsAt fl =
     park_waiting now a taskId (Some reason) (set_parked a (set_limited a resetsAt fl))"

definition noteResumed :: "int \<Rightarrow> string \<Rightarrow> fleet \<Rightarrow> fleet" where
  "noteResumed now a fl =
     (if a \<notin> set (fl_parked fl) then fl
      else setAgentResumed a (Some now)
        (case map_of (fl_stalled fl) a of
           None \<Rightarrow> fl
         | Some c \<Rightarrow> fl\<lparr>fl_stalled := map_put a (c\<lparr>sc_at := max (sc_at c) (now + sc_grace c)\<rparr>) (fl_stalled fl)\<rparr>))"

definition releasePark :: "string \<Rightarrow> fleet \<Rightarrow> fleet" where
  "releasePark a fl =
     setAgentResumed a None (drop_stalled a (fl\<lparr>fl_parked := removeAll a (fl_parked fl)\<rparr>))"

definition restoreWaiting :: "int \<Rightarrow> string \<Rightarrow> fleet_agent \<Rightarrow> string \<Rightarrow> fleet \<Rightarrow> fleet" where
  "restoreWaiting now eid ag taskId fl =
     on_waiting eid (ag_id ag)
       (park_waiting now (ag_id ag) taskId
          (Some (default_to ''Resumed agent is awaiting your input.'' (fa_waitingReason ag)))
          (set_parked (ag_id ag) fl))"

section \<open>The life of an agent\<close>

definition maybeReap :: "string \<Rightarrow> string \<Rightarrow> fleet \<Rightarrow> fleet" where
  "maybeReap a taskId fl =
     (if map_of (fl_terminals fl) a = None \<or> a \<notin> set (fl_exited fl) then fl
      else on_reaped taskId (fl\<lparr>fl_terminals := map_delete a (fl_terminals fl), fl_exited := removeAll a (fl_exited fl)\<rparr>))"

definition end_agent :: "int \<Rightarrow> string \<Rightarrow> agent_status \<Rightarrow> fleet \<Rightarrow> fleet" where
  "end_agent now a st = updateAgent a (\<lambda>g. g\<lparr>ag_status := st, fa_endedAt := Some now\<rparr>)"

definition handleTerminal :: "int \<Rightarrow> string \<Rightarrow> string \<Rightarrow> bool \<Rightarrow> fleet \<Rightarrow> fleet" where
  "handleTerminal now a taskId ok fl =
     (let fl1 = end_agent now a (if ok then ADone else AFailed) (forget_park a fl);
          fl2 = drop_session a (task_to now taskId (if ok then TDone else TFailed) fl1);
          fl3 = dismissEscalationsForAgent now a fl2
      in maybeReap a taskId
           (fl3\<lparr>fl_terminals := map_put a (if ok then TerminalDone else TerminalFailed) (fl_terminals fl3)\<rparr>))"

definition kill_agent :: "int \<Rightarrow> string \<Rightarrow> fleet \<Rightarrow> fleet \<times> bool" where
  "kill_agent now a fl =
     (let session = (a \<in> set (fl_sessions fl)) in
      if \<not> session \<and> \<not> is_limited fl a then (fl, False)
      else
        let row = getAgent fl a;
            fl1 = end_agent now a AKilled (clear_park a fl);
            fl2 = (case row of Some g \<Rightarrow> task_to now (fa_taskId g) TInterrupted fl1 | None \<Rightarrow> fl1);
            fl3 = (drop_session a fl2)\<lparr>fl_terminals := map_put a TerminalKilled (fl_terminals fl2)\<rparr>;
            fl4 = (if session then fl3 else fl3\<lparr>fl_exited := set_add a (fl_exited fl3)\<rparr>)
        in (case row of
              Some g \<Rightarrow> maybeReap a (fa_taskId g) (dismissEscalationsForAgent now a fl4)
            | None \<Rightarrow> fl4, True))"

definition complete_agent :: "int \<Rightarrow> string \<Rightarrow> fleet \<Rightarrow> fleet \<times> bool" where
  "complete_agent now a fl =
     (if a \<notin> set (fl_sessions fl) then (fl, False)
      else case getAgent fl a of
          None \<Rightarrow> (fl, False)
        | Some g \<Rightarrow> (no_op_decision now Executed (handleTerminal now a (fa_taskId g) True fl), True))"

definition failSpawn :: "int \<Rightarrow> string \<Rightarrow> string \<Rightarrow> fleet \<Rightarrow> fleet" where
  "failSpawn now a taskId fl = task_to now taskId TFailed (end_agent now a AFailed (drop_session a fl))"

text \<open>\<^verbatim>\<open>spawn\<close> throws when the session does not open or start; the agent it returns is named by its id.\<close>

definition spawn ::
  "fleet_opts \<Rightarrow> int \<Rightarrow> string \<Rightarrow> string \<Rightarrow> launch \<Rightarrow> string \<Rightarrow> string \<Rightarrow> string option \<Rightarrow> fleet \<Rightarrow> fleet \<times> bool" where
  "spawn op now agentId freshSession l taskId cwd resumeSessionId fl =
     (let inherited = (if fo_resumable op then resumeSessionId else None);
          sessionId = or_else inherited (if fo_resumable op then Some freshSession else None)
      in if l = OpenFails then (fl, False)
         else
           let fl1 = snd (createAgent now agentId taskId cwd sessionId fl);
               fl2 = updateTask now taskId (\<lambda>t. t\<lparr>tk_status := TRunning, tk_agentId := Some agentId\<rparr>) fl1;
               fl3 = add_session agentId fl2
           in if l = StartFails then (failSpawn now agentId taskId fl3, False) else (fl3, True))"

datatype resume_result = ResumeRefused | ResumeThrew | ResumedAgent

definition resume :: "fleet_opts \<Rightarrow> int \<Rightarrow> string \<Rightarrow> launch \<Rightarrow> fleet_agent \<Rightarrow> task \<Rightarrow> fleet \<Rightarrow> fleet \<times> resume_result" where
  "resume op now eid l ag t fl =
     (if \<not> fo_resumable op \<or> truthy (fa_sessionId ag) = None then (fl, ResumeRefused)
      else if ag_id ag \<in> set (fl_sessions fl) then (fl, ResumedAgent)
      else if l = OpenFails then (fl, ResumeThrew)
      else
        let wasWaiting = (ag_status ag = AWaiting \<or> fa_waitingReason ag \<noteq> None);
            fl1 = add_session (ag_id ag) fl;
            fl2 = task_to now (tk_id t) TRunning
                    (updateAgent (ag_id ag) (\<lambda>g. g\<lparr>ag_status := ARunning, fa_endedAt := None, fa_waitingReason := None\<rparr>) fl1)
        in if l = StartFails then
             (task_to now (tk_id t) (tk_status t)
                (updateAgent (ag_id ag) (\<lambda>g. g\<lparr>ag_status := ag_status ag, fa_endedAt := fa_endedAt ag,
                    fa_waitingReason := fa_waitingReason ag\<rparr>) (drop_session (ag_id ag) fl2)), ResumeThrew)
           else (if wasWaiting then restoreWaiting now eid ag (tk_id t) fl2 else fl2, ResumedAgent))"

text \<open>The task an agent's listeners were wired with, and the caller of a tool.\<close>

definition caller :: "fleet \<Rightarrow> string \<Rightarrow> (fleet_agent \<times> task) option" where
  "caller fl a = Option.bind (getAgent fl a) (\<lambda>g. map_option (Pair g) (getTask fl (fa_taskId g)))"

definition resumeParked :: "fleet_opts \<Rightarrow> int \<Rightarrow> string \<Rightarrow> string \<Rightarrow> launch \<Rightarrow> string \<Rightarrow> fleet \<Rightarrow> fleet \<times> bool" where
  "resumeParked op now eid reason l a fl =
     (case map_of (fl_limited fl) a of
        None \<Rightarrow> (fl, False)
      | Some resetsAt \<Rightarrow>
          (case caller fl a of
             None \<Rightarrow> (fl, False)
           | Some (g, t) \<Rightarrow>
               let session = (a \<in> set (fl_sessions fl)) in
               if \<not> session \<and> (\<not> fo_resumable op \<or> truthy (fa_sessionId g) = None) then (fl, False)
               else
                 let fl1 = task_to now (tk_id t) TRunning
                       (updateAgent a (\<lambda>h. h\<lparr>ag_status := ARunning, fa_waitingReason := None\<rparr>)
                         (setAgentResumed a None (clear_park a fl)))
                 in if session then (fl1, True)
                    else case getAgent fl1 a of
                        None \<Rightarrow> (reinstateLimitPark now a (tk_id t) reason resetsAt fl1, False)
                      | Some row \<Rightarrow>
                          (case resume op now eid l row t fl1 of
                             (fl2, ResumedAgent) \<Rightarrow> (fl2, True)
                           | (fl2, _) \<Rightarrow> (reinstateLimitPark now a (tk_id t) reason resetsAt fl2, False))))"

definition resumeExpiredParks :: "fleet_opts \<Rightarrow> int \<Rightarrow> string \<Rightarrow> string \<Rightarrow> (string \<Rightarrow> launch) \<Rightarrow> fleet \<Rightarrow> fleet" where
  "resumeExpiredParks op now eid reason launches fl =
     foldl (\<lambda>f (a, resetsAt). case resetsAt of
         Some t \<Rightarrow> if t \<le> now then fst (resumeParked op now (eid @ a) reason (launches a) a f) else f
       | None \<Rightarrow> f) fl (fl_limited fl)"

definition complete_expired :: "int \<Rightarrow> fleet \<Rightarrow> string \<times> stall_clock \<Rightarrow> fleet" where
  "complete_expired now f ac =
     (case ac of (a, c) \<Rightarrow>
        if now < sc_at c then f
        else if is_limited f a then drop_stalled a f
        else case complete_agent now a f of
            (g, True) \<Rightarrow> g
          | (g, False) \<Rightarrow> drop_stalled a g)"

definition completeExpiredStalls :: "int \<Rightarrow> fleet \<Rightarrow> fleet" where
  "completeExpiredStalls now fl = foldl (complete_expired now) fl (fl_stalled fl)"

text \<open>\<^verbatim>\<open>lift\<close>: the successor's task is written before the run is stopped, and carries its origin and branch.\<close>

definition lift ::
  "fleet_opts \<Rightarrow> int \<Rightarrow> string \<Rightarrow> string \<Rightarrow> string \<Rightarrow> launch \<Rightarrow> string \<Rightarrow> string \<Rightarrow> fleet \<Rightarrow> fleet \<times> bool" where
  "lift op now newTask newAgent freshSession l a profile fl =
     (if a \<notin> set (fl_sessions fl) then (fl, False)
      else case caller fl a of
          None \<Rightarrow> (fl, False)
        | Some (g, t) \<Rightarrow>
            if \<not> fo_resumable op \<or> truthy (fa_sessionId g) = None then (fl, False)
            else if tk_profile t = Some profile then (fl, False)
            else
              let fl1 = snd (createTask now newTask (tk_kind t) (tk_branch t) (tk_originRef t) (tk_originTitle t) (Some profile) fl);
                  fl2 = fst (kill_agent now a fl1)
              in case spawn op now newAgent freshSession l newTask (fa_cwd g) (fa_sessionId g) fl2 of
                   (fl3, True) \<Rightarrow> (no_op_decision now Executed fl3, True)
                 | (fl3, False) \<Rightarrow> (task_to now newTask TFailed fl3, False))"

definition interruptAll :: "int \<Rightarrow> fleet \<Rightarrow> fleet" where
  "interruptAll now fl =
     foldl (\<lambda>f a. unpark a (drop_exited a (drop_session a (end_agent now a AInterrupted f))))
       fl (fl_sessions fl)"

section \<open>What a session tells its manager\<close>

definition on_running :: "string \<Rightarrow> fleet \<Rightarrow> fleet" where
  "on_running a = updateAgent a (\<lambda>g. g\<lparr>ag_status := ARunning, fa_waitingReason := None\<rparr>)"

definition on_exit :: "string \<Rightarrow> string \<Rightarrow> fleet \<Rightarrow> fleet" where
  "on_exit a taskId fl =
     (let fl1 = fl\<lparr>fl_exited := set_add a (fl_exited fl)\<rparr>;
          fl2 = (if is_limited fl1 a then shedLimitedSession a fl1 else fl1)
      in maybeReap a taskId fl2)"

text \<open>\<^verbatim>\<open>autoResume\<close>: the attempts made, or \<^term>\<open>None\<close> when the agent was resumed. \<open>current\<close>: the session is still the agent's.\<close>

definition autoResume ::
  "fleet_opts \<Rightarrow> int \<Rightarrow> string \<Rightarrow> launch \<Rightarrow> bool \<Rightarrow> bool \<Rightarrow> string \<Rightarrow> task \<Rightarrow> fleet \<Rightarrow> fleet \<times> nat option" where
  "autoResume op now eid l cwdExists current a t fl =
     (if fo_resumeAttempts op = 0 \<or> \<not> fo_resumable op \<or> \<not> current then (fl, Some 0)
      else case getAgent fl a of
          None \<Rightarrow> (fl, Some 0)
        | Some g \<Rightarrow>
            if truthy (fa_sessionId g) = None \<or> \<not> cwdExists \<or> fo_resumeAttempts op \<le> fa_resumeAttempts g
            then (fl, Some (fa_resumeAttempts g))
            else
              let fl1 = countAgentResumeAttempt a fl;
                  fl2 = drop_exited a (drop_session a fl1)
              in case resume op now eid l (g\<lparr>fa_resumeAttempts := fa_resumeAttempts g + 1\<rparr>) t fl2 of
                   (fl3, ResumedAgent) \<Rightarrow> (fl3, None)
                 | (fl3, _) \<Rightarrow> (fl3, Some (fa_resumeAttempts g + 1)))"

definition on_failed :: "fleet_opts \<Rightarrow> int \<Rightarrow> string \<Rightarrow> launch \<Rightarrow> bool \<Rightarrow> bool \<Rightarrow> string \<Rightarrow> task \<Rightarrow> fleet \<Rightarrow> fleet" where
  "on_failed op now eid l cwdExists current a t fl =
     (case autoResume op now eid l cwdExists current a t fl of
        (fl1, None) \<Rightarrow> fl1
      | (fl1, Some _) \<Rightarrow> handleTerminal now a (tk_id t) False fl1)"

section \<open>Crash recovery\<close>

datatype recovery_verdict = Restore | Requeue | Remove

definition ORPHAN_STATUSES :: "agent_status list" where
  "ORPHAN_STATUSES = [AStarting, ARunning, AWaiting, AInterrupted, ACrashed]"

definition isRecoveryCandidate :: "fleet_agent \<Rightarrow> task option \<Rightarrow> bool" where
  "isRecoveryCandidate a t = (case t of None \<Rightarrow> False | Some t \<Rightarrow> ag_status a \<in> set ORPHAN_STATUSES \<and> isActiveTask t)"

definition isAgentlessCandidate :: "task \<Rightarrow> bool \<Rightarrow> int \<Rightarrow> bool" where
  "isAgentlessCandidate t hasAgent bootedAt \<longleftrightarrow> \<not> hasAgent \<and> isActiveTask t \<and> tk_createdAt t < bootedAt"

definition restorable :: "fleet_opts \<Rightarrow> (string \<Rightarrow> bool) \<Rightarrow> fleet_agent option \<Rightarrow> bool" where
  "restorable op exists a =
     (case a of None \<Rightarrow> False
      | Some a \<Rightarrow> fo_resumable op \<and> truthy (fa_sessionId a) \<noteq> None \<and> exists (fa_cwd a))"

datatype died = DiedCrashed | DiedInterrupted | NeverStarted

record orphan =
  or_taskId :: string
  or_agentId :: "string option"
  or_died :: died
  or_restorable :: bool

definition describeOrphan :: "fleet_agent option \<Rightarrow> task \<Rightarrow> bool \<Rightarrow> orphan" where
  "describeOrphan a t r =
     \<lparr>or_taskId = tk_id t, or_agentId = map_option ag_id a,
      or_died = (case a of None \<Rightarrow> NeverStarted
         | Some g \<Rightarrow> if ag_status g = AInterrupted then DiedInterrupted else DiedCrashed),
      or_restorable = r\<rparr>"

definition pending_orphans :: "fleet_opts \<Rightarrow> (string \<Rightarrow> bool) \<Rightarrow> fleet \<Rightarrow> orphan list" where
  "pending_orphans op exists fl =
     (let staffed = map fa_taskId (listAgents fl) in
      List.map_filter (\<lambda>g.
          case getTask fl (fa_taskId g) of
            Some t \<Rightarrow> if isRecoveryCandidate g (Some t) then Some (describeOrphan (Some g) t (restorable op exists (Some g))) else None
          | None \<Rightarrow> None)
        (filter (\<lambda>g. ag_status g = ACrashed \<or> ag_status g = AInterrupted) (listAgents fl))
      @ List.map_filter (\<lambda>t.
          if isAgentlessCandidate t (tk_id t \<in> set staffed) (fo_bootedAt op)
          then Some (describeOrphan None t False) else None)
        (listOutstandingTasks fl))"

definition stamp_crashed :: "int \<Rightarrow> fleet \<Rightarrow> fleet_agent \<Rightarrow> fleet_agent" where
  "stamp_crashed now fl g =
     (if isRecoveryCandidate g (getTask fl (fa_taskId g)) \<and> ag_status g \<noteq> ACrashed \<and> ag_status g \<noteq> AInterrupted
      then g\<lparr>ag_status := ACrashed, fa_endedAt := or_else (fa_endedAt g) (Some now)\<rparr> else g)"

definition detect :: "fleet_opts \<Rightarrow> (string \<Rightarrow> bool) \<Rightarrow> int \<Rightarrow> fleet \<Rightarrow> fleet" where
  "detect op exists now fl =
     (let fl1 = fl\<lparr>fl_agents := map (stamp_crashed now fl) (fl_agents fl)\<rparr>
      in if pending_orphans op exists fl1 \<noteq> [] then no_op_decision now Skipped fl1 else fl1)"

definition standDown :: "int \<Rightarrow> fleet_agent option \<Rightarrow> task \<Rightarrow> fleet \<Rightarrow> fleet" where
  "standDown now g t fl =
     task_to now (tk_id t) TInterrupted
       (case g of None \<Rightarrow> fl
        | Some g \<Rightarrow> dismissEscalationsForAgent now (ag_id g)
            (updateAgent (ag_id g) (\<lambda>h. h\<lparr>ag_status := AInterrupted, fa_endedAt := or_else (fa_endedAt g) (Some now)\<rparr>) fl))"

definition job_origin :: "string \<Rightarrow> string" where "job_origin i = ''job:'' @ i"

definition stillQueuedJobBehind :: "task \<Rightarrow> fleet \<Rightarrow> stored_job option" where
  "stillQueuedJobBehind t fl =
     (case tk_originRef t of
        None \<Rightarrow> None
      | Some o' \<Rightarrow>
          if starts_with ''job:'' o' \<and> drop 4 o' \<noteq> '''' then
            (case getJob fl (drop 4 o') of Some j \<Rightarrow> if sj_status j = JobQueued then Some j else None | None \<Rightarrow> None)
          else None)"

definition requeue_work :: "int \<Rightarrow> string \<Rightarrow> task \<Rightarrow> fleet \<Rightarrow> fleet" where
  "requeue_work now jobId t fl =
     no_op_decision now Executed
       (if stillQueuedJobBehind t fl \<noteq> None then fl
        else snd (createJob now jobId (tk_kind t) (tk_branch t) (tk_originRef t) fl))"

text \<open>\<^verbatim>\<open>decide\<close> answers an error, and changes nothing, when the task is not orphaned work.\<close>

definition decide_orphan ::
  "fleet_opts \<Rightarrow> (string \<Rightarrow> bool) \<Rightarrow> int \<Rightarrow> string \<Rightarrow> string \<Rightarrow> launch \<Rightarrow> string \<Rightarrow> recovery_verdict \<Rightarrow> fleet \<Rightarrow> fleet \<times> bool" where
  "decide_orphan op exists now eid jobId l taskId verdict fl =
     (case find (\<lambda>p. or_taskId p = taskId) (pending_orphans op exists fl) of
        None \<Rightarrow> (fl, False)
      | Some item \<Rightarrow>
          let g = Option.bind (or_agentId item) (getAgent fl) in
          (case getTask fl (or_taskId item) of
             None \<Rightarrow> (fl, False)
           | Some t \<Rightarrow>
               if or_agentId item \<noteq> None \<and> g = None then (fl, False)
               else case verdict of
                   Restore \<Rightarrow>
                     (case g of
                        None \<Rightarrow> (fl, False)
                      | Some ag \<Rightarrow>
                          if \<not> or_restorable item then (fl, False)
                          else case resume op now eid l ag t fl of
                              (fl1, ResumedAgent) \<Rightarrow> (no_op_decision now Executed fl1, True)
                            | (fl1, _) \<Rightarrow> (fl1, False))
                 | Remove \<Rightarrow> (no_op_decision now Executed (standDown now g t fl), True)
                 | Requeue \<Rightarrow> (requeue_work now jobId t (standDown now g t fl), True)))"

definition settleUpgrade :: "fleet_opts \<Rightarrow> (string \<Rightarrow> bool) \<Rightarrow> int \<Rightarrow> string \<Rightarrow> bool \<Rightarrow> (string \<Rightarrow> launch) \<Rightarrow> fleet \<Rightarrow> fleet" where
  "settleUpgrade op exists now eid applying launches fl =
     (if \<not> applying then fl
      else foldl (\<lambda>f item.
          if or_died item \<noteq> DiedInterrupted \<or> \<not> or_restorable item then f
          else fst (decide_orphan op exists now (eid @ or_taskId item) '''' (launches (or_taskId item)) (or_taskId item) Restore f))
        fl (pending_orphans op exists fl))"

text \<open>What a new process finds: the tables as the last one left them, and nothing in memory.\<close>

definition restart :: "fleet \<Rightarrow> fleet" where
  "restart fl = fl\<lparr>fl_sessions := [], fl_exited := [], fl_terminals := [], fl_parked := [], fl_limited := [],
     fl_nudges := [], fl_stalled := []\<rparr>"

section \<open>Ejections\<close>

definition expiresAt :: "fleet_opts \<Rightarrow> int \<Rightarrow> int option" where
  "expiresAt op ejectedAt = (if fo_expiryHours op \<le> 0 then None else Some (ejectedAt + fo_expiryHours op * 3600000))"

definition expired :: "fleet_opts \<Rightarrow> int \<Rightarrow> int \<Rightarrow> bool" where
  "expired op ejectedAt now \<longleftrightarrow> (case expiresAt op ejectedAt of None \<Rightarrow> False | Some t \<Rightarrow> t \<le> now)"

definition eject :: "fleet_opts \<Rightarrow> int \<Rightarrow> string \<Rightarrow> string \<Rightarrow> string \<Rightarrow> fleet \<Rightarrow> fleet \<times> bool" where
  "eject op now ejectionId a reason fl =
     (if \<not> fo_ejectionEnabled op \<or> trim reason = '''' then (fl, False)
      else case caller fl a of
          None \<Rightarrow> (fl, False)
        | Some (g, t) \<Rightarrow>
            (case tk_originRef t of
               None \<Rightarrow> (fl, False)
             | Some origin \<Rightarrow>
                 if liveEjectionForOrigin fl origin \<noteq> None then (fl, False)
                 else case kill_agent now a fl of
                     (fl1, False) \<Rightarrow> (fl1, False)
                   | (fl1, True) \<Rightarrow>
                       (no_op_decision now Executed
                          (snd (recordEjection now ejectionId origin (tk_branch t) (ag_id g) (tk_id t) (fa_sessionId g) (trim reason) fl1)),
                        True)))"

definition requeue_ejected :: "int \<Rightarrow> string \<Rightarrow> ejection \<Rightarrow> fleet \<Rightarrow> fleet" where
  "requeue_ejected now jobId e fl =
     (if getTask fl (ej_taskId e) = None then fl
      else snd (createJob now jobId CodeTask (ej_branch e) (Some (ej_originRef e)) fl))"

definition settle_ejection_desk ::
  "int \<Rightarrow> string \<Rightarrow> string \<Rightarrow> ejection_outcome \<Rightarrow> string \<Rightarrow> fleet \<Rightarrow> fleet \<times> bool" where
  "settle_ejection_desk now jobId i outcome note fl =
     (case getEjection fl i of
        None \<Rightarrow> (fl, False)
      | Some standing \<Rightarrow>
          if ej_settledAt standing \<noteq> None then (fl, False)
          else if outcome = Requeued \<and> trim note = '''' then (fl, False)
          else
            let fl1 = (if outcome = Requeued then requeue_ejected now jobId standing fl else fl)
            in case settleEjection now i outcome (if trim note = '''' then None else Some (trim note)) fl1 of
                 (None, fl2) \<Rightarrow> (fl2, False)
               | (Some _, fl2) \<Rightarrow> (no_op_decision now Executed fl2, True))"

definition sweepExpiries :: "fleet_opts \<Rightarrow> int \<Rightarrow> fleet \<Rightarrow> fleet" where
  "sweepExpiries op now fl =
     foldl (\<lambda>f e.
        if \<not> expired op (ej_ejectedAt e) now then f
        else case settleEjection now (ej_id e) Expired None f of
            (None, f1) \<Rightarrow> f1
          | (Some _, f1) \<Rightarrow> no_op_decision now Executed f1)
       fl (liveEjections fl)"

section \<open>The inbox\<close>

text \<open>\<^verbatim>\<open>answer\<close> and \<^verbatim>\<open>dismiss\<close> throw on an escalation that is gone or settled: nothing changes.\<close>

definition answer_escalation :: "string \<Rightarrow> fleet \<Rightarrow> fleet" where
  "answer_escalation i fl =
     (case getEscalation fl i of
        None \<Rightarrow> fl
      | Some e \<Rightarrow>
          if fe_status e \<noteq> EscOpen then fl
          else let fl1 = set_escalation i EscAnswered fl in
            case truthy (fe_agentId e) of None \<Rightarrow> fl1 | Some a \<Rightarrow> fst (respond a fl1))"

definition dismiss_escalation :: "int \<Rightarrow> string \<Rightarrow> fleet \<Rightarrow> fleet" where
  "dismiss_escalation now i fl =
     (case getEscalation fl i of
        None \<Rightarrow> fl
      | Some e \<Rightarrow>
          if fe_status e \<noteq> EscOpen then fl
          else let fl1 = set_escalation i EscDismissed fl;
                   fl2 = (case truthy (fe_agentId e) of None \<Rightarrow> fl1 | Some a \<Rightarrow> releasePark a fl1)
            in no_op_decision now Executed fl2)"

definition DEAD_AGENT_STATUSES :: "agent_status list" where
  "DEAD_AGENT_STATUSES = [ADone, AFailed, AKilled, AInterrupted]"

definition tidyDeadAgents :: "int \<Rightarrow> fleet \<Rightarrow> fleet" where
  "tidyDeadAgents now fl =
     foldl (\<lambda>f a. dismissEscalationsForAgent now a f) fl
       (uniq (filter (\<lambda>a. case getAgent fl a of None \<Rightarrow> False | Some g \<Rightarrow> ag_status g \<in> set DEAD_AGENT_STATUSES)
         (List.map_filter (\<lambda>e. if open_escalation e then truthy (fe_agentId e) else None) (rev (fl_escalations fl)))))"

end
