(* ===== verification/Executor.thy ===== *)
theory Executor
  imports Fleet
begin

text \<open>
  Carrying out a dispatch (\<^verbatim>\<open>src/src/executor/actionExecutor.ts\<close>, \<^verbatim>\<open>retryResume.ts\<close>,
  \<^verbatim>\<open>handoverResume.ts\<close>): the checks made again at the door, the conversation an agent inherits, the task
  and the agent written, and the rows a dispatch claims. What the outside answers (a worktree, a process, a provider) and the drawn ids come
  in an environment; the prompt an agent is given is left out.
\<close>

section \<open>The store an execution writes to\<close>

record stored_validation = local_validation + sv_taskId :: "string option"

record stored_remote = remote_run + rr_taskId :: "string option"

datatype risk_status = RiskPending | RiskDispatched | RiskDone

record risk_run =
  rk_id :: string
  rk_status :: risk_status
  rk_taskId :: "string option"

record stored_appraisal = appraisal + sa_agentId :: "string option"

record executor =
  xs_fleet :: fleet
  xs_plans :: plan_db
  xs_local :: "stored_validation list"
  xs_remote :: "stored_remote list"
  xs_risk :: "risk_run list"
  xs_appraisals :: "stored_appraisal list"
  xs_issues :: "issue list"

definition on_fleet :: "(fleet \<Rightarrow> fleet) \<Rightarrow> executor \<Rightarrow> executor" where
  "on_fleet f x = x\<lparr>xs_fleet := f (xs_fleet x)\<rparr>"

record dispatch_env =
  en_now :: int
  en_taskId :: string
  en_agentId :: string
  en_session :: string
  en_worktree :: "string option"
  en_scratch :: "string option"
  en_launch :: launch
  en_paused :: bool
  en_cap :: nat

record exec_opts =
  eo_fleet :: fleet_opts
  eo_models :: "agent_models option"
  eo_digest :: "string \<Rightarrow> string"

section \<open>The conversation an agent inherits\<close>

record retry_resume =
  rt_previous :: fleet_agent
  rt_priorAttempts :: nat

definition agentsOnOrigin :: "string option \<Rightarrow> fleet \<Rightarrow> fleet_agent list" where
  "agentsOnOrigin originRef fl =
     (case truthy originRef of
        None \<Rightarrow> []
      | Some o' \<Rightarrow> filter (\<lambda>a. Option.bind (getTask fl (fa_taskId a)) tk_originRef = Some o') (listAgents fl))"

definition retryResumeFor :: "string option \<Rightarrow> fleet \<Rightarrow> retry_resume option" where
  "retryResumeFor originRef fl =
     (case agentsOnOrigin originRef fl of
        [] \<Rightarrow> None
      | previous # rest \<Rightarrow>
          if ag_status previous \<noteq> ADone \<or> truthy (fa_sessionId previous) = None then None
          else if 1 < length (filter (\<lambda>a. fa_sessionId a = fa_sessionId previous) (previous # rest)) then None
          else Some \<lparr>rt_previous = previous, rt_priorAttempts = length (previous # rest)\<rparr>)"

definition handoverResumeFor :: "(string \<Rightarrow> string) \<Rightarrow> string option \<Rightarrow> executor \<Rightarrow> fleet_agent option" where
  "handoverResumeFor digest originRef x =
     (case Option.bind originRef handoverSource of
        None \<Rightarrow> None
      | Some (issueNumber, source) \<Rightarrow>
          if source \<noteq> AppraisalFam then None
          else if agentsOnOrigin originRef (xs_fleet x) \<noteq> [] then None
          else
            case find (\<lambda>a. ap_originRef a = issueOriginRef Root issueNumber None) (xs_appraisals x) of
              None \<Rightarrow> None
            | Some a \<Rightarrow>
                if ap_verdict a \<noteq> Workable then None
                else case (sa_agentId a, find (\<lambda>i. i_number i = issueNumber) (xs_issues x)) of
                    (Some agentId, Some i) \<Rightarrow>
                      if ap_goalRef a \<noteq> issue_goal digest i then None
                      else (case getAgent (xs_fleet x) agentId of
                          None \<Rightarrow> None
                        | Some p \<Rightarrow> if ag_status p = ADone \<and> truthy (fa_sessionId p) \<noteq> None then Some p else None)
                  | _ \<Rightarrow> None)"

text \<open>The directory (\<^term>\<open>None\<close>: it could not be prepared, which throws), and the session to inherit in it.\<close>

definition inheritedSession ::
  "exec_opts \<Rightarrow> dispatch_env \<Rightarrow> action \<Rightarrow> retry_resume option \<Rightarrow> executor \<Rightarrow> (string option \<times> string option) option" where
  "inheritedSession op en a retry x =
     (let code = (a_type a = DispatchCodeAgent);
          handover = (if code \<and> retry = None then handoverResumeFor (eo_digest op) (a_originRef a) x else None)
      in if code \<and> en_worktree en = None then None
         else
           let slot = (if code then en_worktree en else map_option (\<lambda>r. fa_cwd (rt_previous r)) retry)
           in Some (slot,
                case retry of
                  Some r \<Rightarrow> if slot = Some (fa_cwd (rt_previous r)) then fa_sessionId (rt_previous r) else None
                | None \<Rightarrow>
                    (case handover of
                       Some p \<Rightarrow> if slot = Some (fa_cwd p) then fa_sessionId p else None
                     | None \<Rightarrow> None)))"

section \<open>The door\<close>

datatype refusal = AlreadyInFlight | OperatorHolds | BranchEjected string | BranchHeld string | DispatchPaused | CapReached

definition branchRefusal :: "string option \<Rightarrow> fleet \<Rightarrow> refusal option" where
  "branchRefusal branch fl =
     (case branch of
        None \<Rightarrow> None
      | Some b \<Rightarrow>
          (case ejectionOnBranch fl b of
             Some e \<Rightarrow> Some (BranchEjected (ej_id e))
           | None \<Rightarrow> map_option (\<lambda>t. BranchHeld (tk_id t)) (findActiveTaskByBranch fl b)))"

definition admissionRefusal :: "dispatch_env \<Rightarrow> action \<Rightarrow> nat \<Rightarrow> fleet \<Rightarrow> refusal option" where
  "admissionRefusal en a liveCount fl =
     (let inFlight = (case truthy (a_originRef a) of None \<Rightarrow> False
             | Some o' \<Rightarrow> findActiveTaskByOrigin fl o' \<noteq> None \<or> findStandingJobByOrigin fl o' \<noteq> None);
          ejected = (case truthy (a_originRef a) of None \<Rightarrow> False | Some o' \<Rightarrow> liveEjectionForOrigin fl o' \<noteq> None)
      in if inFlight then Some AlreadyInFlight
         else if ejected then Some OperatorHolds
         else case (if a_type a = DispatchCodeAgent then branchRefusal (a_branch a) fl else None) of
             Some r \<Rightarrow> Some r
           | None \<Rightarrow>
               if en_paused en then Some DispatchPaused
               else if en_cap en \<le> liveCount then Some CapReached else None)"

fun refusal_outcome :: "refusal \<Rightarrow> decision_outcome" where
  "refusal_outcome AlreadyInFlight = Skipped"
| "refusal_outcome OperatorHolds = Skipped"
| "refusal_outcome (BranchEjected _) = Deferred"
| "refusal_outcome (BranchHeld _) = Deferred"
| "refusal_outcome DispatchPaused = Deferred"
| "refusal_outcome CapReached = Deferred"

section \<open>Dispatching an agent\<close>

definition recordDispatchTask :: "exec_opts \<Rightarrow> dispatch_env \<Rightarrow> action \<Rightarrow> executor \<Rightarrow> task \<times> executor" where
  "recordDispatchTask op en a x =
     (let code = (a_type a = DispatchCodeAgent);
          profile = map_option rp_name (resolveAgentProfile (eo_models op) (map_option rule_name (a_rule a)) (a_profile a));
          (t, fl) = createTask (en_now en) (en_taskId en) (if code then CodeTask else DeskTask)
                      (if code then a_branch a else None) (a_originRef a) None profile (xs_fleet x)
      in (t, x\<lparr>xs_fleet := fl\<rparr>))"

definition claim_risk :: "string \<Rightarrow> string \<Rightarrow> executor \<Rightarrow> executor" where
  "claim_risk i taskId x = x\<lparr>xs_risk := update_where (\<lambda>r. rk_id r = i \<and> rk_status r = RiskPending)
     (\<lambda>r. r\<lparr>rk_status := RiskDispatched, rk_taskId := Some taskId\<rparr>) (xs_risk x)\<rparr>"

definition markLocalValidationDispatched :: "string \<Rightarrow> string \<Rightarrow> executor \<Rightarrow> executor" where
  "markLocalValidationDispatched i taskId x = x\<lparr>xs_local :=
     update_where (\<lambda>v. lv_id v = i \<and> lv_status v = LvPending)
       (\<lambda>v. v\<lparr>lv_status := LvDispatched, sv_taskId := Some taskId\<rparr>) (xs_local x)\<rparr>"

definition markLocalValidationFix :: "string \<Rightarrow> string \<Rightarrow> executor \<Rightarrow> executor" where
  "markLocalValidationFix i taskId x = x\<lparr>xs_local :=
     update_where (\<lambda>v. lv_id v = i \<and> lv_fixTaskId v = None) (\<lambda>v. v\<lparr>lv_fixTaskId := Some taskId\<rparr>) (xs_local x)\<rparr>"

definition claimRemoteRun :: "string \<Rightarrow> string \<Rightarrow> executor \<Rightarrow> executor" where
  "claimRemoteRun i taskId x = x\<lparr>xs_remote := update_where (\<lambda>r. ru_runId r = i \<and> ru_status r = RemotePending)
     (\<lambda>r. r\<lparr>ru_status := RemoteDispatched, rr_taskId := Some taskId\<rparr>) (xs_remote x)\<rparr>"

definition mark_claims :: "dispatch_env \<Rightarrow> action \<Rightarrow> string \<Rightarrow> executor \<Rightarrow> executor" where
  "mark_claims en a taskId x =
     (if a_type a = DispatchDeskAgent then
        (case truthy (a_botPrRiskRun a) of None \<Rightarrow> x | Some i \<Rightarrow> claim_risk i taskId x)
      else
        let x1 = (case truthy (a_partId a) of None \<Rightarrow> x
              | Some i \<Rightarrow> x\<lparr>xs_plans := markPartDispatched (en_now en) i taskId (default_to '''' (a_branch a)) (xs_plans x)\<rparr>);
            x2 = (case a_localValidation a of
                None \<Rightarrow> x1
              | Some (i, AsFix) \<Rightarrow> markLocalValidationFix i taskId x1
              | Some (i, AsValidation) \<Rightarrow> markLocalValidationDispatched i taskId x1)
        in case a_remoteRun a of None \<Rightarrow> x2 | Some i \<Rightarrow> claimRemoteRun i taskId x2)"

text \<open>\<^term>\<open>None\<close>: the job is gone and \<^verbatim>\<open>markJobDispatched\<close> throws.\<close>

definition markDispatched :: "dispatch_env \<Rightarrow> action \<Rightarrow> string \<Rightarrow> executor \<Rightarrow> executor option" where
  "markDispatched en a taskId x =
     (case truthy (a_jobId a) of
        None \<Rightarrow> Some (mark_claims en a taskId x)
      | Some j \<Rightarrow>
          map_option (\<lambda>fl. mark_claims en a taskId (x\<lparr>xs_fleet := fl\<rparr>)) (markJobDispatched j taskId (xs_fleet x)))"

definition abandonUnstarted :: "dispatch_env \<Rightarrow> task \<Rightarrow> executor \<Rightarrow> executor" where
  "abandonUnstarted en t x =
     (let fl = xs_fleet x;
          fl1 = (case getTask fl (tk_id t) of
              Some c \<Rightarrow> if isActiveTask c then task_to (en_now en) (tk_id t) TInterrupted fl else fl
            | None \<Rightarrow> fl);
          fl2 = (case truthy (tk_branch t) of None \<Rightarrow> fl1 | Some b \<Rightarrow> fl1\<lparr>fl_released := fl_released fl1 @ [b]\<rparr>)
      in x\<lparr>xs_fleet := fl2\<rparr>)"

definition record_outcome :: "dispatch_env \<Rightarrow> action \<Rightarrow> decision_outcome \<Rightarrow> executor \<Rightarrow> executor" where
  "record_outcome en a outcome = on_fleet (recordDecision (en_now en) a outcome)"

definition failed_dispatch :: "dispatch_env \<Rightarrow> action \<Rightarrow> nat \<Rightarrow> task \<Rightarrow> executor \<Rightarrow> executor \<times> decision_outcome \<times> nat" where
  "failed_dispatch en a live t x = (record_outcome en a Rejected (abandonUnstarted en t x), Rejected, live)"

definition dispatchAgent ::
  "exec_opts \<Rightarrow> dispatch_env \<Rightarrow> action \<Rightarrow> nat \<Rightarrow> executor \<Rightarrow> executor \<times> decision_outcome \<times> nat" where
  "dispatchAgent op en a live x =
     (case admissionRefusal en a live (xs_fleet x) of
        Some r \<Rightarrow> (record_outcome en a (refusal_outcome r) x, refusal_outcome r, live)
      | None \<Rightarrow>
          let retry = retryResumeFor (a_originRef a) (xs_fleet x) in
          case inheritedSession op en a retry x of
            None \<Rightarrow> (let (t, x1) = recordDispatchTask op en a x in failed_dispatch en a live t x1)
          | Some (slot, inherit) \<Rightarrow>
              (let (t, x1) = recordDispatchTask op en a x in
               case or_else slot (en_scratch en) of
                 None \<Rightarrow> failed_dispatch en a live t x1
               | Some cwd \<Rightarrow>
                   (case spawn (eo_fleet op) (en_now en) (en_agentId en) (en_session en) (en_launch en) (tk_id t) cwd inherit (xs_fleet x1) of
                      (fl, False) \<Rightarrow> failed_dispatch en a live t (x1\<lparr>xs_fleet := fl\<rparr>)
                    | (fl, True) \<Rightarrow>
                        (case markDispatched en a (tk_id t) (x1\<lparr>xs_fleet := fl\<rparr>) of
                           None \<Rightarrow> failed_dispatch en a (live + 1) t (x1\<lparr>xs_fleet := fl\<rparr>)
                         | Some x2 \<Rightarrow> (record_outcome en a Executed x2, Executed, live + 1)))))"

end
