(* ===== verification/FleetLaws.thy ===== *)
theory FleetLaws
  imports Executor
begin

text \<open>
  What holds of the fleet over every sequence of operations: the rows agree with what the manager holds in
  memory, and no two holders (an active task, a job that redoes it, an ejection) share an origin or a
  branch. \<open>steady a i\<close> is the contract of the operations on one agent \<open>a\<close> and its task \<open>i\<close>; the invariant
  is proved for a steady change once and each operation shows it is one.
\<close>

section \<open>The invariant\<close>

definition active_in :: "fleet \<Rightarrow> string \<Rightarrow> bool" where
  "active_in fl i \<longleftrightarrow> list_ex (\<lambda>t. tk_id t = i \<and> isActiveTask t) (fl_tasks fl)"

definition live_in :: "fleet \<Rightarrow> string \<Rightarrow> bool" where
  "live_in fl a \<longleftrightarrow> list_ex (\<lambda>g. ag_id g = a \<and> is_live g) (fl_agents fl)"

definition works_on :: "fleet \<Rightarrow> string \<Rightarrow> string \<Rightarrow> bool" where
  "works_on fl a i \<longleftrightarrow> list_ex (\<lambda>g. ag_id g = a \<and> fa_taskId g = i) (fl_agents fl)"

definition held_agents :: "fleet \<Rightarrow> string set" where
  "held_agents fl = set (fl_sessions fl) \<union> fst ` set (fl_limited fl)"

definition staffed :: "fleet \<Rightarrow> string \<Rightarrow> bool" where
  "staffed fl a \<longleftrightarrow> live_in fl a \<and> list_ex (\<lambda>g. ag_id g = a \<and> active_in fl (fa_taskId g)) (fl_agents fl)"

text \<open>
  The rows: ids are unique, an agent has a task and a task one agent, a job names a task there is, and
  an agent with a session, or parked on a limit, is live on a task that is active.
\<close>

definition fleet_rows :: "fleet \<Rightarrow> bool" where
  "fleet_rows fl \<longleftrightarrow>
     distinct (map tk_id (fl_tasks fl)) \<and> distinct (map ag_id (fl_agents fl)) \<and> distinct (map jb_id (fl_jobs fl)) \<and>
     distinct (map fa_taskId (fl_agents fl)) \<and> fa_taskId ` set (fl_agents fl) \<subseteq> tk_id ` set (fl_tasks fl) \<and>
     {i. \<exists>j \<in> set (fl_jobs fl). sj_taskId j = Some i} \<subseteq> tk_id ` set (fl_tasks fl) \<and>
     (\<forall>a \<in> held_agents fl. staffed fl a)"

definition task_holds :: "string \<Rightarrow> task \<Rightarrow> bool" where
  "task_holds o' t \<longleftrightarrow> isActiveTask t \<and> tk_originRef t = Some o'"

definition job_holds :: "fleet \<Rightarrow> string \<Rightarrow> stored_job \<Rightarrow> bool" where
  "job_holds fl o' j \<longleftrightarrow> standing_job fl j \<and> jb_originRef j = Some o'"

definition ejection_holds :: "string \<Rightarrow> ejection \<Rightarrow> bool" where
  "ejection_holds o' e \<longleftrightarrow> live_ejection e \<and> ej_originRef e = o'"

definition origin_holders :: "fleet \<Rightarrow> string \<Rightarrow> nat" where
  "origin_holders fl o' =
     length (filter (task_holds o') (fl_tasks fl)) + length (filter (job_holds fl o') (fl_jobs fl))
     + length (filter (ejection_holds o') (fl_ejections fl))"

definition branch_holders :: "fleet \<Rightarrow> string \<Rightarrow> nat" where
  "branch_holders fl b =
     length (filter (\<lambda>t. isActiveTask t \<and> tk_branch t = Some b) (fl_tasks fl))
     + length (filter (\<lambda>e. live_ejection e \<and> ej_branch e = Some b) (fl_ejections fl))"

definition one_holder :: "fleet \<Rightarrow> bool" where
  "one_holder fl \<longleftrightarrow> (\<forall>o'. o' \<noteq> '''' \<longrightarrow> origin_holders fl o' \<le> 1) \<and> (\<forall>b. branch_holders fl b \<le> 1)"

definition calmer :: "fleet \<Rightarrow> fleet \<Rightarrow> bool" where
  "calmer fl fl' \<longleftrightarrow> (\<forall>o'. origin_holders fl' o' \<le> origin_holders fl o') \<and> (\<forall>b. branch_holders fl' b \<le> branch_holders fl b)"

lemma calmer_refl [simp]: "calmer fl fl"
  by (simp add: calmer_def)

lemma calmer_trans: "calmer a b \<Longrightarrow> calmer b c \<Longrightarrow> calmer a c"
  unfolding calmer_def by (meson order_trans)

lemma calmer_keeps: "one_holder fl \<Longrightarrow> calmer fl fl' \<Longrightarrow> one_holder fl'"
  unfolding one_holder_def calmer_def by (meson order_trans)

section \<open>Counting over an update\<close>

lemma count_update_le:
  "(\<And>r. r \<in> set rows \<Longrightarrow> sel r \<Longrightarrow> q (f r) \<Longrightarrow> p r) \<Longrightarrow> (\<And>r. r \<in> set rows \<Longrightarrow> \<not> sel r \<Longrightarrow> q r \<Longrightarrow> p r) \<Longrightarrow>
   length (filter q (update_where sel f rows)) \<le> length (filter p rows)"
  by (induction rows) (auto simp: update_where_def intro: le_SucI)

lemma count_le: "(\<And>r. r \<in> set rows \<Longrightarrow> q r \<Longrightarrow> p r) \<Longrightarrow> length (filter q rows) \<le> length (filter p rows)"
  by (induction rows) (auto simp: le_SucI)

lemma count_update_less:
  assumes "\<And>r. r \<in> set rows \<Longrightarrow> q (if sel r then f r else r) \<Longrightarrow> p r"
    and "x \<in> set rows" and "p x" and "\<not> q (if sel x then f x else x)"
  shows "Suc (length (filter q (update_where sel f rows))) \<le> length (filter p rows)"
  using assms
proof (induction rows)
  case (Cons r rows)
  have le: "length (filter q (update_where sel f rows)) \<le> length (filter p rows)"
    using Cons.prems(1) by (intro count_update_le) force+
  show ?case
  proof (cases "x = r")
    case True
    with Cons.prems(3,4) le show ?thesis by (auto simp: update_where_def)
  next
    case False
    then have "x \<in> set rows" using Cons.prems(2) by simp
    then have "Suc (length (filter q (update_where sel f rows))) \<le> length (filter p rows)"
      using Cons.IH Cons.prems(1,3,4) by (meson list.set_intros(2))
    with Cons.prems(1) [of r] show ?thesis by (simp add: update_where_def)
  qed
qed simp

lemma filter_all_le_1:
  "length (filter p rows) \<le> 1 \<Longrightarrow> x \<in> set rows \<Longrightarrow> p x \<Longrightarrow> y \<in> set rows \<Longrightarrow> p y \<Longrightarrow> x = y"
  by (induction rows) (auto split: if_splits simp: filter_empty_conv)

section \<open>A change of one agent and its task\<close>

definition task_patch :: "(task \<Rightarrow> task) \<Rightarrow> bool" where
  "task_patch f \<longleftrightarrow> (\<forall>t. tk_id (f t) = tk_id t \<and> tk_originRef (f t) = tk_originRef t \<and> tk_branch (f t) = tk_branch t)"

definition agent_patch :: "(fleet_agent \<Rightarrow> fleet_agent) \<Rightarrow> bool" where
  "agent_patch f \<longleftrightarrow> (\<forall>g. ag_id (f g) = ag_id g \<and> fa_taskId (f g) = fa_taskId g)"

definition steady :: "string \<Rightarrow> string \<Rightarrow> fleet \<Rightarrow> fleet \<Rightarrow> bool" where
  "steady a i fl fl' \<longleftrightarrow>
     fl_jobs fl' = fl_jobs fl \<and> fl_ejections fl' = fl_ejections fl \<and>
     (\<exists>f. task_patch f \<and> fl_tasks fl' = update_where (\<lambda>t. tk_id t = i) f (fl_tasks fl)) \<and>
     (\<exists>g. agent_patch g \<and> fl_agents fl' = update_where (\<lambda>h. ag_id h = a) g (fl_agents fl)) \<and>
     held_agents fl' \<subseteq> insert a (held_agents fl)"

lemma patch_id [simp]: "task_patch (\<lambda>t. t)" "agent_patch (\<lambda>g. g)"
  by (simp_all add: task_patch_def agent_patch_def)

lemma update_where_id [simp]: "update_where p (\<lambda>t. t) rows = rows"
  by (induction rows) (auto simp: update_where_def)

lemma update_where_comp:
  "(\<And>t. p (f t) = p t) \<Longrightarrow> update_where p g (update_where p f rows) = update_where p (\<lambda>t. g (f t)) rows"
  by (simp add: update_where_def)

lemma steadyI:
  "fl_jobs fl' = fl_jobs fl \<Longrightarrow> fl_ejections fl' = fl_ejections fl \<Longrightarrow> task_patch f \<Longrightarrow>
   fl_tasks fl' = update_where (\<lambda>t. tk_id t = i) f (fl_tasks fl) \<Longrightarrow> agent_patch g \<Longrightarrow>
   fl_agents fl' = update_where (\<lambda>h. ag_id h = a) g (fl_agents fl) \<Longrightarrow>
   held_agents fl' \<subseteq> insert a (held_agents fl) \<Longrightarrow> steady a i fl fl'"
  by (auto simp: steady_def)

text \<open>A change that leaves tasks, agents, jobs and ejections alone, and starts or limits no agent but \<open>a\<close>.\<close>

lemma steady_quiet:
  "fl_jobs fl' = fl_jobs fl \<Longrightarrow> fl_ejections fl' = fl_ejections fl \<Longrightarrow> fl_tasks fl' = fl_tasks fl \<Longrightarrow>
   fl_agents fl' = fl_agents fl \<Longrightarrow> held_agents fl' \<subseteq> insert a (held_agents fl) \<Longrightarrow> steady a i fl fl'"
  by (rule steadyI [of _ _ "\<lambda>t. t" _ "\<lambda>g. g"]) simp_all

lemma steady_refl [simp]: "steady a i fl fl"
  by (rule steady_quiet) auto

lemma steady_trans:
  assumes "steady a i fl fl1" and "steady a i fl1 fl2"
  shows "steady a i fl fl2"
proof -
  from assms(1) obtain f g where 1: "task_patch f" "agent_patch g"
    "fl_tasks fl1 = update_where (\<lambda>t. tk_id t = i) f (fl_tasks fl)"
    "fl_agents fl1 = update_where (\<lambda>h. ag_id h = a) g (fl_agents fl)"
    by (auto simp: steady_def)
  from assms(2) obtain f' g' where 2: "task_patch f'" "agent_patch g'"
    "fl_tasks fl2 = update_where (\<lambda>t. tk_id t = i) f' (fl_tasks fl1)"
    "fl_agents fl2 = update_where (\<lambda>h. ag_id h = a) g' (fl_agents fl1)"
    by (auto simp: steady_def)
  have "fl_tasks fl2 = update_where (\<lambda>t. tk_id t = i) (\<lambda>t. f' (f t)) (fl_tasks fl)"
    using 1 2 by (simp add: update_where_comp task_patch_def)
  moreover have "fl_agents fl2 = update_where (\<lambda>h. ag_id h = a) (\<lambda>h. g' (g h)) (fl_agents fl)"
    using 1 2 by (simp add: update_where_comp agent_patch_def)
  moreover have "task_patch (\<lambda>t. f' (f t))" "agent_patch (\<lambda>h. g' (g h))"
    using 1 2 by (simp_all add: task_patch_def agent_patch_def)
  ultimately show ?thesis using assms by (intro steadyI) (auto simp: steady_def)
qed

lemma steady_ids:
  assumes "steady a i fl fl'"
  shows "map tk_id (fl_tasks fl') = map tk_id (fl_tasks fl)"
    and "map ag_id (fl_agents fl') = map ag_id (fl_agents fl)"
    and "map fa_taskId (fl_agents fl') = map fa_taskId (fl_agents fl)"
  using assms by (auto simp: steady_def task_patch_def agent_patch_def update_where_def)

lemma steady_other_agent:
  assumes "steady a i fl fl'" and "h \<in> set (fl_agents fl)" and "ag_id h \<noteq> a"
  shows "h \<in> set (fl_agents fl')"
  using assms by (auto simp: steady_def in_update_where)

lemma steady_other_task:
  assumes "steady a i fl fl'" and "j \<noteq> i"
  shows "active_in fl' j \<longleftrightarrow> active_in fl j"
  using assms by (auto simp: steady_def active_in_def task_patch_def update_where_def list_ex_iff image_iff)

lemma active_in_iff: "active_in fl i \<longleftrightarrow> (\<exists>t \<in> set (fl_tasks fl). tk_id t = i \<and> isActiveTask t)"
  by (simp add: active_in_def list_ex_iff)

lemma live_in_iff: "live_in fl a \<longleftrightarrow> (\<exists>g \<in> set (fl_agents fl). ag_id g = a \<and> is_live g)"
  by (simp add: live_in_def list_ex_iff)

lemma works_on_iff: "works_on fl a i \<longleftrightarrow> (\<exists>g \<in> set (fl_agents fl). ag_id g = a \<and> fa_taskId g = i)"
  by (simp add: works_on_def list_ex_iff)

lemma works_on_pairs: "works_on fl b j \<longleftrightarrow> (b, j) \<in> set (map (\<lambda>g. (ag_id g, fa_taskId g)) (fl_agents fl))"
  by (induction "fl_agents fl") (auto simp: works_on_iff)

lemma steady_works_on:
  assumes "steady a i fl fl'"
  shows "works_on fl' b j = works_on fl b j"
proof -
  from assms obtain g where g: "agent_patch g" "fl_agents fl' = update_where (\<lambda>h. ag_id h = a) g (fl_agents fl)"
    by (auto simp: steady_def)
  have "map (\<lambda>g. (ag_id g, fa_taskId g)) (fl_agents fl') = map (\<lambda>g. (ag_id g, fa_taskId g)) (fl_agents fl)"
    unfolding g(2) using g(1) by (intro update_where_keeps) (simp add: agent_patch_def)
  then show ?thesis by (simp only: works_on_pairs)
qed

lemma staffed_iff: "staffed fl a \<longleftrightarrow> live_in fl a \<and> (\<exists>i. works_on fl a i \<and> active_in fl i)"
  by (auto simp: staffed_def works_on_iff list_ex_iff)

lemma steady_rows:
  assumes ok: "fleet_rows fl" and st: "steady a i fl fl'" and on: "works_on fl a i"
    and held: "a \<in> held_agents fl' \<Longrightarrow> live_in fl' a \<and> active_in fl' i"
  shows "fleet_rows fl'"
proof -
  note ids = steady_ids [OF st]
  have unique: "distinct (map fa_taskId (fl_agents fl))" using ok by (simp add: fleet_rows_def)
  have tks: "tk_id ` set (fl_tasks fl') = tk_id ` set (fl_tasks fl)" using ids(1) by (metis set_map)
  have ags: "fa_taskId ` set (fl_agents fl') = fa_taskId ` set (fl_agents fl)" using ids(3) by (metis set_map)
  have "staffed fl' b" if b: "b \<in> held_agents fl'" for b
  proof (cases "b = a")
    case True
    with b held on steady_works_on [OF st] show ?thesis by (auto simp: staffed_iff)
  next
    case False
    with b st have "b \<in> held_agents fl" by (auto simp: steady_def)
    with ok have "staffed fl b" by (simp add: fleet_rows_def)
    then obtain h j g where h: "h \<in> set (fl_agents fl)" "ag_id h = b" "is_live h"
      and g: "g \<in> set (fl_agents fl)" "ag_id g = b" "fa_taskId g = j" "active_in fl j"
      by (auto simp: staffed_iff works_on_iff live_in_iff)
    from on obtain k where k: "k \<in> set (fl_agents fl)" "ag_id k = a" "fa_taskId k = i" by (auto simp: works_on_iff)
    have "j \<noteq> i"
    proof
      assume "j = i"
      with g k have "g = k" using distinct_key_eq [OF unique g(1) k(1)] by simp
      with g k False show False by simp
    qed
    with steady_other_task [OF st] g have "active_in fl' j" by simp
    moreover have "works_on fl' b j" using g steady_works_on [OF st] by (auto simp: works_on_iff)
    moreover have "live_in fl' b" using h False steady_other_agent [OF st, of h] by (auto simp: live_in_iff)
    ultimately show ?thesis by (auto simp: staffed_iff)
  qed
  with ok ids tks ags st show ?thesis by (simp add: fleet_rows_def steady_def)
qed

lemma steady_calmer:
  assumes ok: "fleet_rows fl" and st: "steady a i fl fl'" and act: "active_in fl' i \<Longrightarrow> active_in fl i"
  shows "calmer fl fl'"
proof -
  from st obtain f where f: "task_patch f" "fl_tasks fl' = update_where (\<lambda>t. tk_id t = i) f (fl_tasks fl)"
    and same: "fl_jobs fl' = fl_jobs fl" "fl_ejections fl' = fl_ejections fl"
    by (auto simp: steady_def)
  have was: "isActiveTask t" if t: "t \<in> set (fl_tasks fl)" "tk_id t = i" "isActiveTask (f t)" for t
  proof -
    have "f t \<in> set (fl_tasks fl')" using t f(2) by (auto simp: in_update_where)
    then have "active_in fl' i" using t f(1) by (auto simp: active_in_iff task_patch_def)
    then obtain u where "u \<in> set (fl_tasks fl)" "tk_id u = i" "isActiveTask u" using act by (auto simp: active_in_iff)
    moreover have "distinct (map tk_id (fl_tasks fl))" using ok by (simp add: fleet_rows_def)
    ultimately show ?thesis using t distinct_key_eq [of tk_id "fl_tasks fl" u t] by simp
  qed
  have active: "active_in fl j" if "active_in fl' j" for j
    using that act steady_other_task [OF st, of j] by (cases "j = i") auto
  have standing: "standing_job fl j" if "standing_job fl' j" for j
  proof -
    have "job_task_active fl j" if "job_task_active fl' j"
    proof -
      from that obtain k where "sj_taskId j = Some k" "active_in fl' k"
        by (auto simp: job_task_active_def active_in_def list_ex_iff)
      with active have "sj_taskId j = Some k" "active_in fl k" by simp_all
      then show ?thesis by (auto simp: job_task_active_def active_in_def list_ex_iff)
    qed
    with that show ?thesis by (auto simp: standing_job_def)
  qed
  have "length (filter (task_holds o') (fl_tasks fl')) \<le> length (filter (task_holds o') (fl_tasks fl))" for o'
    unfolding f(2) using f(1) was by (intro count_update_le) (auto simp: task_holds_def task_patch_def)
  moreover have "length (filter (job_holds fl' o') (fl_jobs fl)) \<le> length (filter (job_holds fl o') (fl_jobs fl))" for o'
    using standing by (intro count_le) (auto simp: job_holds_def)
  moreover have "length (filter (\<lambda>t. isActiveTask t \<and> tk_branch t = Some b) (fl_tasks fl'))
      \<le> length (filter (\<lambda>t. isActiveTask t \<and> tk_branch t = Some b) (fl_tasks fl))" for b
    unfolding f(2) using f(1) was by (intro count_update_le) (auto simp: task_patch_def)
  ultimately show ?thesis
    unfolding calmer_def origin_holders_def branch_holders_def same by (meson add_le_mono order_refl)
qed

definition fleet_ok :: "fleet \<Rightarrow> bool" where
  "fleet_ok fl \<longleftrightarrow> fleet_rows fl \<and> one_holder fl"

section \<open>What the operations are made of\<close>

named_theorems fleet_simps "what the pieces of an operation do to the fields the invariant reads"
named_theorems steady_intros "the pieces of an operation on one agent are steady"

lemmas fleet_pieces = task_to_def updateTask_def updateAgent_def setAgentResumed_def countAgentResumeAttempt_def
  clear_park_def unpark_def forget_park_def drop_session_def shedLimitedSession_def add_session_def set_parked_def
  set_limited_def drop_stalled_def drop_exited_def

lemma no_op_fields [fleet_simps]:
  "fl_tasks (no_op_decision now d fl) = fl_tasks fl" "fl_agents (no_op_decision now d fl) = fl_agents fl"
  "fl_jobs (no_op_decision now d fl) = fl_jobs fl" "fl_ejections (no_op_decision now d fl) = fl_ejections fl"
  "fl_sessions (no_op_decision now d fl) = fl_sessions fl" "fl_limited (no_op_decision now d fl) = fl_limited fl"
  by (simp_all add: no_op_decision_def recordDecision_def)

lemma dismiss_fields [fleet_simps]:
  "fl_tasks (dismissEscalationsForAgent now a fl) = fl_tasks fl"
  "fl_agents (dismissEscalationsForAgent now a fl) = fl_agents fl"
  "fl_jobs (dismissEscalationsForAgent now a fl) = fl_jobs fl"
  "fl_ejections (dismissEscalationsForAgent now a fl) = fl_ejections fl"
  "fl_sessions (dismissEscalationsForAgent now a fl) = fl_sessions fl"
  "fl_limited (dismissEscalationsForAgent now a fl) = fl_limited fl"
proof -
  have step: "k (foldl (\<lambda>f e. no_op_decision now Executed (set_escalation (fe_id e) EscDismissed f)) fl es) = k fl"
    if "\<And>f i. k (set_escalation i EscDismissed f) = k f" "\<And>f. k (no_op_decision now Executed f) = k f"
    for es and k :: "fleet \<Rightarrow> 'x"
    using that by (induction es arbitrary: fl) auto
  show
    "fl_tasks (dismissEscalationsForAgent now a fl) = fl_tasks fl"
    "fl_agents (dismissEscalationsForAgent now a fl) = fl_agents fl"
    "fl_jobs (dismissEscalationsForAgent now a fl) = fl_jobs fl"
    "fl_ejections (dismissEscalationsForAgent now a fl) = fl_ejections fl"
    "fl_sessions (dismissEscalationsForAgent now a fl) = fl_sessions fl"
    "fl_limited (dismissEscalationsForAgent now a fl) = fl_limited fl"
    unfolding dismissEscalationsForAgent_def
    by (rule step; simp add: set_escalation_def fleet_simps)+
qed

lemma on_waiting_fields [fleet_simps]:
  "fl_tasks (on_waiting eid a fl) = fl_tasks fl" "fl_agents (on_waiting eid a fl) = fl_agents fl"
  "fl_jobs (on_waiting eid a fl) = fl_jobs fl" "fl_ejections (on_waiting eid a fl) = fl_ejections fl"
  "fl_sessions (on_waiting eid a fl) = fl_sessions fl" "fl_limited (on_waiting eid a fl) = fl_limited fl"
  by (simp_all add: on_waiting_def createEscalation_def)

lemma maybeReap_fields [fleet_simps]:
  "fl_tasks (maybeReap a i fl) = fl_tasks fl" "fl_agents (maybeReap a i fl) = fl_agents fl"
  "fl_jobs (maybeReap a i fl) = fl_jobs fl" "fl_ejections (maybeReap a i fl) = fl_ejections fl"
  "fl_sessions (maybeReap a i fl) = fl_sessions fl" "fl_limited (maybeReap a i fl) = fl_limited fl"
  by (simp_all add: maybeReap_def on_reaped_def split: option.split)

lemma armStallClock_fields [fleet_simps]:
  "fl_tasks (armStallClock a w gr now fl) = fl_tasks fl" "fl_agents (armStallClock a w gr now fl) = fl_agents fl"
  "fl_jobs (armStallClock a w gr now fl) = fl_jobs fl" "fl_ejections (armStallClock a w gr now fl) = fl_ejections fl"
  "fl_sessions (armStallClock a w gr now fl) = fl_sessions fl" "fl_limited (armStallClock a w gr now fl) = fl_limited fl"
  by (simp_all add: armStallClock_def)

text \<open>Two fleets that agree on the fields the invariant reads.\<close>

definition same_core :: "fleet \<Rightarrow> fleet \<Rightarrow> bool" where
  "same_core fl fl' \<longleftrightarrow> fl_tasks fl' = fl_tasks fl \<and> fl_agents fl' = fl_agents fl \<and> fl_jobs fl' = fl_jobs fl \<and>
     fl_ejections fl' = fl_ejections fl \<and> fl_sessions fl' = fl_sessions fl \<and> fl_limited fl' = fl_limited fl"

lemma same_core_steady: "steady a i fl x \<Longrightarrow> same_core x y \<Longrightarrow> steady a i fl y"
  by (auto simp: steady_def same_core_def held_agents_def)

lemma same_core_in:
  assumes "same_core x y"
  shows "active_in y i = active_in x i" and "live_in y a = live_in x a" and "held_agents y = held_agents x"
    and "works_on y a i = works_on x a i" and "staffed y a = staffed x a"
  using assms by (auto simp: same_core_def active_in_def live_in_def held_agents_def works_on_def staffed_def)

lemma same_core_rows: "same_core x y \<Longrightarrow> fleet_rows y = fleet_rows x"
  using same_core_in [of x y] by (simp add: fleet_rows_def same_core_def)

lemma same_core_ok:
  assumes "same_core x y"
  shows "fleet_ok y = fleet_ok x"
proof -
  have "job_holds y = job_holds x"
    using assms by (intro ext) (simp add: job_holds_def standing_job_def job_task_active_def same_core_def)
  with assms same_core_in [OF assms] show ?thesis
    by (simp add: fleet_ok_def fleet_rows_def one_holder_def origin_holders_def branch_holders_def same_core_def)
qed

lemma core_pieces:
  "same_core fl (no_op_decision now d fl)" "same_core fl (dismissEscalationsForAgent now a fl)"
  "same_core fl (on_waiting eid a fl)" "same_core fl (maybeReap a i fl)" "same_core fl (armStallClock a w gr now fl)"
  "same_core fl (fl\<lparr>fl_parked := ps\<rparr>)" "same_core fl (fl\<lparr>fl_stalled := cs\<rparr>)" "same_core fl (fl\<lparr>fl_nudges := ns\<rparr>)"
  "same_core fl (fl\<lparr>fl_exited := xs\<rparr>)" "same_core fl (fl\<lparr>fl_terminals := ts\<rparr>)" "same_core fl (set_escalation e st fl)"
  "same_core fl (fl\<lparr>fl_released := bs\<rparr>)" "same_core fl (recordDecision now act d fl)"
  "same_core fl (set_parked a fl)" "same_core fl (drop_stalled a fl)" "same_core fl (drop_exited a fl)"
  by (simp_all add: same_core_def fleet_simps set_escalation_def recordDecision_def set_parked_def drop_stalled_def
      drop_exited_def)

lemmas core_in [simp] = core_pieces [THEN same_core_in(1)] core_pieces [THEN same_core_in(2)]
  core_pieces [THEN same_core_in(3)] core_pieces [THEN same_core_in(4)] core_pieces [THEN same_core_in(5)]

lemmas core_ok [simp] = core_pieces [THEN same_core_ok]

lemma steady_task [steady_intros]: "steady a i fl x \<Longrightarrow> steady a i fl (task_to now i st x)"
  by (rule steady_trans, assumption)
     (rule steadyI [of _ _ "\<lambda>t. t\<lparr>tk_status := st, tk_updatedAt := Instant now\<rparr>" _ "\<lambda>g. g"];
      simp add: fleet_pieces task_patch_def held_agents_def subset_insertI)

lemma steady_update_task [steady_intros]:
  "task_patch f \<Longrightarrow> steady a i fl x \<Longrightarrow> steady a i fl (updateTask now i f x)"
  by (rule steady_trans, assumption)
     (rule steadyI [of _ _ "\<lambda>t. (f t)\<lparr>tk_updatedAt := Instant now\<rparr>" _ "\<lambda>g. g"];
      simp add: fleet_pieces task_patch_def held_agents_def subset_insertI)

lemma steady_agent [steady_intros]: "agent_patch f \<Longrightarrow> steady a i fl x \<Longrightarrow> steady a i fl (updateAgent a f x)"
  by (rule steady_trans, assumption)
     (rule steadyI [of _ _ "\<lambda>t. t" _ f]; simp add: fleet_pieces held_agents_def subset_insertI)

lemma agent_patches [simp]:
  "agent_patch (\<lambda>g. g\<lparr>ag_status := st\<rparr>)" "agent_patch (\<lambda>g. g\<lparr>ag_status := st, fa_endedAt := e\<rparr>)"
  "agent_patch (\<lambda>g. g\<lparr>ag_status := st, fa_waitingReason := w\<rparr>)"
  "agent_patch (\<lambda>g. g\<lparr>ag_status := st, fa_waitingReason := w, fa_endedAt := e\<rparr>)"
  "agent_patch (\<lambda>g. g\<lparr>fa_resumedAt := r\<rparr>)" "agent_patch (\<lambda>g. g\<lparr>fa_resumeAttempts := k g\<rparr>)"
  "agent_patch (waiting_row wr)"
  by (auto simp: agent_patch_def waiting_row_def split: option.split)

lemma waiting_row [simp]: "ag_id (waiting_row r g) = ag_id g" "ag_status (waiting_row r g) = AWaiting"
  by (auto simp: waiting_row_def split: option.split)

lemma steady_resumed [steady_intros]: "steady a i fl x \<Longrightarrow> steady a i fl (setAgentResumed a r x)"
  by (simp add: setAgentResumed_def steady_agent)

lemma steady_counted [steady_intros]: "steady a i fl x \<Longrightarrow> steady a i fl (countAgentResumeAttempt a x)"
  by (simp add: countAgentResumeAttempt_def steady_agent)

lemma steady_memory [steady_intros]:
  "steady a i fl x \<Longrightarrow> steady a i fl (clear_park a x)" "steady a i fl x \<Longrightarrow> steady a i fl (unpark a x)"
  "steady a i fl x \<Longrightarrow> steady a i fl (forget_park a x)" "steady a i fl x \<Longrightarrow> steady a i fl (drop_session a x)"
  "steady a i fl x \<Longrightarrow> steady a i fl (shedLimitedSession a x)" "steady a i fl x \<Longrightarrow> steady a i fl (add_session a x)"
  "steady a i fl x \<Longrightarrow> steady a i fl (set_limited a l x)"
  by (erule steady_trans, rule steady_quiet; force simp: fleet_pieces held_agents_def)+

lemmas steady_core [steady_intros] = core_pieces [THEN same_core_steady [rotated]]

lemma held_pieces [simp]:
  "held_agents (task_to now i st fl) = held_agents fl" "held_agents (updateTask now i f fl) = held_agents fl"
  "held_agents (updateAgent a f' fl) = held_agents fl" "held_agents (setAgentResumed a r fl) = held_agents fl"
  "held_agents (countAgentResumeAttempt a fl) = held_agents fl"
  by (simp_all add: fleet_pieces held_agents_def)

lemma dropped_not_held [simp]:
  "a \<notin> held_agents (drop_session a (clear_park a fl))" "a \<notin> set (fl_sessions (drop_session a fl))"
  by (simp_all add: fleet_pieces held_agents_def)

lemma active_pieces [simp]:
  "active_in (updateAgent a f fl) i = active_in fl i" "active_in (setAgentResumed a r fl) i = active_in fl i"
  "active_in (countAgentResumeAttempt a fl) i = active_in fl i" "active_in (clear_park a fl) i = active_in fl i"
  "active_in (unpark a fl) i = active_in fl i" "active_in (forget_park a fl) i = active_in fl i"
  "active_in (drop_session a fl) i = active_in fl i" "active_in (shedLimitedSession a fl) i = active_in fl i"
  "active_in (add_session a fl) i = active_in fl i" "active_in (set_limited a l fl) i = active_in fl i"
  by (simp_all add: fleet_pieces active_in_def)

lemma live_pieces [simp]:
  "live_in (task_to now i st fl) a = live_in fl a" "live_in (updateTask now i f fl) a = live_in fl a"
  "live_in (clear_park b fl) a = live_in fl a" "live_in (unpark b fl) a = live_in fl a"
  "live_in (forget_park b fl) a = live_in fl a" "live_in (drop_session b fl) a = live_in fl a"
  "live_in (shedLimitedSession b fl) a = live_in fl a" "live_in (add_session b fl) a = live_in fl a"
  "live_in (set_limited b l fl) a = live_in fl a"
  by (simp_all add: fleet_pieces live_in_def)

lemma update_where_keys [simp]: "(\<And>r. k (f r) = k r) \<Longrightarrow> k ` set (update_where p f rows) = k ` set rows"
  by (metis set_map update_where_keeps)

definition has_task :: "fleet \<Rightarrow> string \<Rightarrow> bool" where
  "has_task fl i \<longleftrightarrow> i \<in> tk_id ` set (fl_tasks fl)"

definition status_active :: "task_status \<Rightarrow> bool" where
  "status_active st \<longleftrightarrow> st \<in> {TQueued, TRunning, TWaiting}"

lemma status_actives [simp]:
  "status_active TQueued" "status_active TRunning" "status_active TWaiting" "\<not> status_active TDone"
  "\<not> status_active TInterrupted" "\<not> status_active TFailed"
  by (simp_all add: status_active_def)

lemma isActive_status: "isActiveTask t = status_active (tk_status t)"
  by (simp add: isActiveTask_def status_active_def)

lemma ex_update_where: "(\<exists>x \<in> set (update_where p f rows). q x) \<longleftrightarrow> (\<exists>r \<in> set rows. q (if p r then f r else r))"
  unfolding update_where_def by (induction rows) simp_all

lemma active_task_to [simp]: "active_in (task_to now i st fl) i \<longleftrightarrow> status_active st \<and> has_task fl i"
proof -
  have "active_in (task_to now i st fl) i \<longleftrightarrow> (\<exists>t \<in> set (fl_tasks fl). tk_id t = i \<and> status_active st)"
    unfolding active_in_iff fleet_pieces by (simp add: ex_update_where isActive_status) metis
  then show ?thesis by (auto simp: has_task_def)
qed

lemma has_task_pieces [simp]:
  "has_task (task_to now i st fl) j = has_task fl j" "has_task (updateAgent a f fl) j = has_task fl j"
  "has_task (setAgentResumed a r fl) j = has_task fl j" "has_task (countAgentResumeAttempt a fl) j = has_task fl j"
  "has_task (clear_park a fl) j = has_task fl j" "has_task (forget_park a fl) j = has_task fl j"
  "has_task (drop_session a fl) j = has_task fl j" "has_task (add_session a fl) j = has_task fl j"
  "has_task (set_limited a l fl) j = has_task fl j" "has_task (set_parked a fl) j = has_task fl j"
  "has_task (drop_stalled a fl) j = has_task fl j" "has_task (drop_exited a fl) j = has_task fl j"
  by (simp_all add: fleet_pieces has_task_def)

lemma has_agent_row: "works_on fl a i \<Longrightarrow> fleet_rows fl \<Longrightarrow> has_task fl i"
  unfolding works_on_iff fleet_rows_def has_task_def by blast

definition has_agent :: "fleet \<Rightarrow> string \<Rightarrow> bool" where
  "has_agent fl a \<longleftrightarrow> a \<in> ag_id ` set (fl_agents fl)"

text \<open>A patch that sets the status makes the agent live or not, whatever it was.\<close>

lemma live_update [simp]:
  assumes "\<And>g. ag_id (f g) = ag_id g" and "\<And>g. ag_status (f g) = st"
  shows "live_in (updateAgent a f fl) a \<longleftrightarrow> st \<in> set LIVE \<and> has_agent fl a"
proof -
  have "live_in (updateAgent a f fl) a \<longleftrightarrow> (\<exists>g \<in> set (fl_agents fl). ag_id g = a \<and> st \<in> set LIVE)"
    unfolding live_in_iff fleet_pieces using assms by (simp add: ex_update_where is_live_def) metis
  then show ?thesis by (auto simp: has_agent_def)
qed

lemma live_resumed [simp]: "live_in (setAgentResumed b r fl) a = live_in fl a"
    "live_in (countAgentResumeAttempt b fl) a = live_in fl a"
proof -
  have "live_in (updateAgent b f fl) a = live_in fl a"
    if "\<And>g. ag_id (f g) = ag_id g \<and> ag_status (f g) = ag_status g" for f
  proof -
    have "ag_id (if c then f g else g) = ag_id g \<and> is_live (if c then f g else g) = is_live g" for c g
      using that by (simp add: is_live_def)
    then show ?thesis unfolding live_in_iff updateAgent_def by (simp add: ex_update_where)
  qed
  then show "live_in (setAgentResumed b r fl) a = live_in fl a" "live_in (countAgentResumeAttempt b fl) a = live_in fl a"
    by (simp_all add: setAgentResumed_def countAgentResumeAttempt_def)
qed

lemma has_agent_pieces [simp]:
  "has_agent (task_to now i st fl) j = has_agent fl j" "has_agent (setAgentResumed a r fl) j = has_agent fl j"
  "has_agent (countAgentResumeAttempt a fl) j = has_agent fl j"
  "has_agent (clear_park a fl) j = has_agent fl j" "has_agent (forget_park a fl) j = has_agent fl j"
  "has_agent (drop_session a fl) j = has_agent fl j" "has_agent (add_session a fl) j = has_agent fl j"
  "has_agent (set_limited a l fl) j = has_agent fl j" "has_agent (set_parked a fl) j = has_agent fl j"
  "has_agent (drop_stalled a fl) j = has_agent fl j" "has_agent (drop_exited a fl) j = has_agent fl j"
  by (simp_all add: fleet_pieces has_agent_def)

lemma works_on_has_agent: "works_on fl a i \<Longrightarrow> has_agent fl a"
  by (auto simp: works_on_iff has_agent_def)

lemma staffed_on: "fleet_rows fl \<Longrightarrow> staffed fl a \<Longrightarrow> works_on fl a i \<Longrightarrow> live_in fl a \<and> active_in fl i"
proof -
  assume ok: "fleet_rows fl" and st: "staffed fl a" and on: "works_on fl a i"
  from st obtain j where live: "live_in fl a" and j: "works_on fl a j" "active_in fl j" by (auto simp: staffed_iff)
  from j(1) on obtain g h where "g \<in> set (fl_agents fl)" "ag_id g = a" "fa_taskId g = j"
    "h \<in> set (fl_agents fl)" "ag_id h = a" "fa_taskId h = i" by (auto simp: works_on_iff)
  moreover have "distinct (map ag_id (fl_agents fl))" using ok by (simp add: fleet_rows_def)
  ultimately have "j = i" using distinct_key_eq [of ag_id "fl_agents fl" g h] by simp
  with live j show ?thesis by simp
qed

lemma held_staffed: "fleet_rows fl \<Longrightarrow> a \<in> held_agents fl \<Longrightarrow> works_on fl a i \<Longrightarrow> live_in fl a \<and> active_in fl i"
  using staffed_on [of fl a i] unfolding fleet_rows_def by blast

section \<open>The operations on one agent\<close>

text \<open>An agent \<open>a\<close> on its task \<open>i\<close>, in a fleet whose rows agree.\<close>

definition at_work :: "fleet \<Rightarrow> string \<Rightarrow> string \<Rightarrow> bool" where
  "at_work fl a i \<longleftrightarrow> fleet_rows fl \<and> works_on fl a i"

text \<open>A steady change that leaves the invariant: the agent, if still held, is live on a task that is and was active.\<close>

definition sound :: "string \<Rightarrow> string \<Rightarrow> fleet \<Rightarrow> fleet \<Rightarrow> bool" where
  "sound a i fl fl' \<longleftrightarrow> steady a i fl fl' \<and> (a \<in> held_agents fl' \<longrightarrow> live_in fl' a \<and> active_in fl' i) \<and>
     (active_in fl' i \<longrightarrow> active_in fl i)"

lemma soundI [intro]:
  "steady a i fl fl' \<Longrightarrow> (a \<in> held_agents fl' \<Longrightarrow> live_in fl' a \<and> active_in fl' i) \<Longrightarrow>
   (active_in fl' i \<Longrightarrow> active_in fl i) \<Longrightarrow> sound a i fl fl'"
  by (simp add: sound_def)

lemma steady_at: "steady a i fl fl' \<Longrightarrow> at_work fl a i \<Longrightarrow> works_on fl' a i"
  by (simp add: at_work_def steady_works_on)

lemma sound_at_work: "at_work fl a i \<Longrightarrow> sound a i fl fl' \<Longrightarrow> at_work fl' a i"
  using steady_rows [of fl a i fl'] steady_at [of a i fl fl'] by (auto simp: at_work_def sound_def)

lemma sound_calmer: "at_work fl a i \<Longrightarrow> sound a i fl fl' \<Longrightarrow> calmer fl fl'"
  using steady_calmer [of fl a i fl'] by (auto simp: at_work_def sound_def)

lemma sound_ok: "fleet_ok fl \<Longrightarrow> works_on fl a i \<Longrightarrow> sound a i fl fl' \<Longrightarrow> fleet_ok fl'"
  using sound_at_work [of fl a i fl'] sound_calmer [of fl a i fl'] calmer_keeps
  by (auto simp: fleet_ok_def at_work_def)

lemma sound_refl: "at_work fl a i \<Longrightarrow> sound a i fl fl"
  using held_staffed [of fl a i] by (auto simp: at_work_def sound_def)

lemma sound_trans: "sound a i fl x \<Longrightarrow> sound a i x y \<Longrightarrow> sound a i fl y"
  by (auto simp: sound_def intro: steady_trans)

lemma sound_core: "sound a i fl x \<Longrightarrow> same_core x y \<Longrightarrow> sound a i fl y"
  by (auto simp: sound_def same_core_in intro: same_core_steady)

lemmas sound_pieces = core_pieces [THEN sound_core [rotated]]

lemma at_work_facts:
  assumes "at_work fl a i"
  shows "has_task fl i" "has_agent fl a"
  using assms has_agent_row [of fl a i] works_on_has_agent [of fl a i] by (auto simp: at_work_def)

lemma at_work_held: "at_work fl a i \<Longrightarrow> a \<in> held_agents fl \<Longrightarrow> live_in fl a \<and> active_in fl i"
  using held_staffed [of fl a i] by (simp add: at_work_def)

lemma in_held: "a \<in> set (fl_sessions fl) \<Longrightarrow> a \<in> held_agents fl" "is_limited fl a \<Longrightarrow> a \<in> held_agents fl"
  by (auto simp: held_agents_def is_limited_def map_of_eq_None_iff)

lemma live_statuses [simp]: "ARunning \<in> set LIVE" "AWaiting \<in> set LIVE" "AStarting \<in> set LIVE"
    "ADone \<notin> set LIVE" "AFailed \<notin> set LIVE" "AKilled \<notin> set LIVE" "AInterrupted \<notin> set LIVE" "ACrashed \<notin> set LIVE"
  by (simp_all add: LIVE_def)

lemma sound_respond: "at_work fl a i \<Longrightarrow> sound a i fl (fst (respond a fl))"
  using at_work_held [of fl a i] at_work_facts [of fl a i] in_held(1) [of a fl] sound_refl [of fl a i]
  by (auto simp: respond_def intro!: steady_intros)

lemma sound_park:
  "at_work fl a i \<Longrightarrow> active_in fl i \<Longrightarrow> sound a i fl (park_waiting now a i r fl)"
  using at_work_facts [of fl a i]
  by (auto simp: park_waiting_def intro!: steady_intros)

lemma at_core: "same_core fl x \<Longrightarrow> at_work fl a i \<Longrightarrow> at_work x a i"
  by (simp add: at_work_def same_core_rows same_core_in)

lemma sound_resumed_at: "at_work fl a i \<Longrightarrow> sound a i fl (setAgentResumed a r fl)"
  using at_work_held [of fl a i] by (auto intro!: steady_intros)

lemma sound_handleWaiting:
  assumes at: "at_work fl a i" and active: "active_in fl i"
  shows "sound a i fl (handleWaiting op now eid a i reason fl)"
proof -
  let ?x = "set_parked a fl"
  let ?y = "setAgentResumed a None ?x"
  have x: "at_work ?x a i" using at by (rule at_core [rotated]) (rule core_pieces)
  have "sound a i fl ?x" using sound_refl [OF at] by (rule sound_pieces)
  moreover have "sound a i ?x ?y" using x by (rule sound_resumed_at)
  moreover have "sound a i ?y (park_waiting now a i (Some reason) ?y)"
    using sound_at_work [OF x sound_resumed_at [OF x]] active by (intro sound_park) simp_all
  ultimately have "sound a i fl (park_waiting now a i (Some reason) ?y)" by (blast intro: sound_trans)
  then show ?thesis
    using sound_refl [OF at] sound_respond [OF at] by (auto simp: handleWaiting_def intro: sound_pieces)
qed

lemma sound_handleStalled:
  assumes at: "at_work fl a i" and active: "active_in fl i"
  shows "sound a i fl (handleStalled op now eid sent a i reason fl)"
proof -
  have "sound a i fl (handleWaiting op now eid a i reason (fl\<lparr>fl_nudges := ns\<rparr>))" for ns
  proof -
    have "at_work (fl\<lparr>fl_nudges := ns\<rparr>) a i" using at by (rule at_core [rotated]) (rule core_pieces)
    then have "sound a i (fl\<lparr>fl_nudges := ns\<rparr>) (handleWaiting op now eid a i reason (fl\<lparr>fl_nudges := ns\<rparr>))"
      using active by (intro sound_handleWaiting) simp_all
    with sound_pieces(8) [OF sound_refl [OF at]] show ?thesis by (rule sound_trans)
  qed
  then show ?thesis
    using sound_refl [OF at] sound_handleWaiting [OF at active]
    by (auto simp: handleStalled_def Let_def intro: sound_pieces)
qed

lemma sound_handleSilent:
  "at_work fl a i \<Longrightarrow> active_in fl i \<Longrightarrow> sound a i fl (handleSilent op now eid a i reason fl)"
  using sound_refl sound_handleWaiting by (auto simp: handleSilent_def intro: sound_pieces)

lemma sound_shed: "at_work fl a i \<Longrightarrow> active_in fl i \<Longrightarrow> live_in fl a \<Longrightarrow> sound a i fl (shedLimitedSession a fl)"
  by (auto intro!: steady_intros)

lemma sound_handleLimited:
  assumes at: "at_work fl a i" and active: "active_in fl i"
  shows "sound a i fl (handleLimited now a i reason resetsAt fl)"
proof -
  note facts = at_work_facts [OF at]
  show ?thesis
    using sound_refl [OF at] facts active
    by (auto simp: handleLimited_def park_waiting_def Let_def intro!: steady_intros)
qed

lemma sound_reinstate:
  "at_work fl a i \<Longrightarrow> active_in fl i \<Longrightarrow> sound a i fl (reinstateLimitPark now a i reason resetsAt fl)"
  using at_work_facts [of fl a i]
  by (auto simp: reinstateLimitPark_def park_waiting_def intro!: steady_intros)

lemma sound_noteResumed: "at_work fl a i \<Longrightarrow> sound a i fl (noteResumed now a fl)"
  using at_work_held [of fl a i] sound_refl [of fl a i]
  by (auto simp: noteResumed_def intro!: steady_intros split: option.split)

lemma sound_releasePark: "at_work fl a i \<Longrightarrow> sound a i fl (releasePark a fl)"
  using at_work_held [of fl a i] by (auto simp: releasePark_def intro!: steady_intros)

end
