(* ===== verification/FleetRuns.thy ===== *)
theory FleetRuns
  imports FleetLaws
begin

text \<open>
  The fleet as it runs: every operation of the manager, of crash recovery and of the ejection desk keeps the
  invariant of \<open>FleetLaws\<close>, so it holds after any sequence of them from a boot.
\<close>

section \<open>The end of an agent\<close>

lemma held_ended:
  "a \<notin> held_agents (drop_session a (task_to now i st (end_agent now a s (clear_park a fl))))"
  "a \<notin> held_agents (drop_session a (task_to now i st (end_agent now a s (forget_park a fl))))"
  by (simp_all add: fleet_pieces end_agent_def held_agents_def)

lemma steady_end [steady_intros]: "steady a i fl x \<Longrightarrow> steady a i fl (end_agent now a st x)"
  by (simp add: end_agent_def steady_agent)

lemma end_pieces [simp]:
  "active_in (end_agent now a st fl) i = active_in fl i" "has_task (end_agent now a st fl) i = has_task fl i"
  by (simp_all add: end_agent_def)

lemma sound_end:
  assumes "\<not> status_active st" and "steady a i fl x"
  shows "sound a i fl (drop_session a (task_to now i st (end_agent now a s (clear_park a x))))"
    and "sound a i fl (drop_session a (task_to now i st (end_agent now a s (forget_park a x))))"
  using assms by (auto simp: held_ended intro!: steady_intros)

lemma sound_handleTerminal: "steady a i fl x \<Longrightarrow> sound a i fl (handleTerminal now a i ok x)"
  using sound_end(2) [of TDone a i fl x now ADone] sound_end(2) [of TFailed a i fl x now AFailed]
  by (auto simp: handleTerminal_def Let_def intro: sound_pieces)

lemma getAgent_works_on: "getAgent fl a = Some g \<Longrightarrow> works_on fl a (fa_taskId g)"
  by (auto simp: getAgent_def works_on_iff find_Some_iff intro: nth_mem)

lemma works_on_unique: "fleet_rows fl \<Longrightarrow> works_on fl a i \<Longrightarrow> works_on fl a j \<Longrightarrow> i = j"
proof -
  assume ok: "fleet_rows fl" and "works_on fl a i" "works_on fl a j"
  then obtain g h where "g \<in> set (fl_agents fl)" "h \<in> set (fl_agents fl)" "ag_id g = ag_id h" "fa_taskId g = i" "fa_taskId h = j"
    by (auto simp: works_on_iff)
  moreover have "distinct (map ag_id (fl_agents fl))" using ok by (simp add: fleet_rows_def)
  ultimately show ?thesis using distinct_key_eq [of ag_id "fl_agents fl" g h] by simp
qed

lemma works_on_getAgent: "at_work fl a i \<Longrightarrow> \<exists>g. getAgent fl a = Some g \<and> fa_taskId g = i \<and> ag_id g = a"
proof -
  assume at: "at_work fl a i"
  then have "\<exists>g. getAgent fl a = Some g"
    by (auto simp: at_work_def works_on_iff getAgent_def find_None_iff simp flip: not_None_eq)
  then obtain g where g: "getAgent fl a = Some g" ..
  moreover have "fa_taskId g = i"
    using getAgent_works_on [OF g] at works_on_unique by (auto simp: at_work_def)
  moreover have "ag_id g = a" using g by (auto simp: getAgent_def find_Some_iff)
  ultimately show ?thesis by blast
qed

lemma sound_kill: "at_work fl a i \<Longrightarrow> sound a i fl (fst (kill_agent now a fl))"
  using works_on_getAgent [of fl a i] sound_refl [of fl a i] sound_end(1) [of TInterrupted a i fl fl now AKilled]
  by (auto simp: kill_agent_def Let_def intro!: sound_pieces)

lemma sound_complete: "at_work fl a i \<Longrightarrow> sound a i fl (fst (complete_agent now a fl))"
  using works_on_getAgent [of fl a i] sound_refl [of fl a i] sound_handleTerminal [of a i fl fl now True]
  by (auto simp: complete_agent_def intro!: sound_pieces)

lemma failSpawn_pieces [simp]:
  "a \<in> held_agents (failSpawn now a i fl) \<longleftrightarrow> a \<in> fst ` set (fl_limited fl)"
  "\<not> active_in (failSpawn now a i fl) i"
  by (auto simp: failSpawn_def held_agents_def fleet_pieces end_agent_def active_in_iff isActive_status ex_update_where)

lemma steady_failSpawn [steady_intros]: "steady a i fl x \<Longrightarrow> steady a i fl (failSpawn now a i x)"
  by (simp add: failSpawn_def steady_intros)

section \<open>An agent taken up again\<close>

lemma held_added [simp]: "held_agents (add_session a fl) = insert a (held_agents fl)"
  by (auto simp: add_session_def held_agents_def)

lemma steady_restoreWaiting [steady_intros]:
  "ag_id ag = a \<Longrightarrow> steady a i fl x \<Longrightarrow> steady a i fl (restoreWaiting now eid ag i x)"
  by (auto simp: restoreWaiting_def park_waiting_def intro!: steady_intros)

lemma restoreWaiting_pieces [simp]:
  "active_in (restoreWaiting now eid ag i fl) i = has_task fl i"
  "live_in (restoreWaiting now eid ag i fl) (ag_id ag) = has_agent fl (ag_id ag)"
  by (simp_all add: restoreWaiting_def park_waiting_def)

lemma has_agent_updated [simp]: "agent_patch f \<Longrightarrow> has_agent (updateAgent b f fl) a = has_agent fl a"
  by (simp add: has_agent_def updateAgent_def agent_patch_def)

lemma patch_revived [simp]:
  "agent_patch (\<lambda>g. g\<lparr>ag_status := s, fa_endedAt := e, fa_waitingReason := w\<rparr>)"
  by (simp add: agent_patch_def)

lemma resume_steady: "steady (ag_id ag) (tk_id t) fl (fst (resume op now eid l ag t fl))"
  by (auto simp: resume_def Let_def intro!: steady_intros)

lemma resume_done:
  assumes "resume op now eid l ag t fl = (fl', ResumedAgent)" and "has_task fl (tk_id t)" and "has_agent fl (ag_id ag)"
    and "ag_id ag \<notin> set (fl_sessions fl)"
  shows "live_in fl' (ag_id ag)" and "active_in fl' (tk_id t)"
  using assms by (auto simp: resume_def Let_def split: if_splits)

lemma resume_failed:
  assumes "resume op now eid l ag t fl = (fl', r)" and "r \<noteq> ResumedAgent" and "ag_id ag \<notin> set (fl_sessions fl)"
  shows "ag_id ag \<notin> set (fl_sessions fl')" and "fl_limited fl' = fl_limited fl"
    and "active_in fl' (tk_id t) \<longrightarrow> active_in fl (tk_id t) \<or> isActiveTask t"
  using assms
proof -
  show "ag_id ag \<notin> set (fl_sessions fl')" "fl_limited fl' = fl_limited fl"
    using assms by (auto simp: resume_def Let_def fleet_pieces split: if_splits)
  show "active_in fl' (tk_id t) \<longrightarrow> active_in fl (tk_id t) \<or> isActiveTask t"
    using assms by (auto simp: resume_def Let_def isActive_status split: if_splits)
qed

lemma getTask_id: "getTask fl i = Some t \<Longrightarrow> tk_id t = i \<and> t \<in> set (fl_tasks fl)"
  by (auto simp: getTask_def find_Some_iff intro: nth_mem)

lemma getAgent_id: "getAgent fl a = Some g \<Longrightarrow> ag_id g = a"
  by (auto simp: getAgent_def find_Some_iff)

lemma caller_at_work:
  "at_work fl a i \<Longrightarrow> caller fl a = Some (g, t) \<Longrightarrow> ag_id g = a \<and> fa_taskId g = i \<and> tk_id t = i"
  using works_on_getAgent [of fl a i] by (auto simp: caller_def bind_eq_Some_conv dest: getTask_id)

lemma steady_set_limited_parked [steady_intros]:
  "steady a i fl x \<Longrightarrow> steady a i fl (reinstateLimitPark now a i reason r x)"
  by (auto simp: reinstateLimitPark_def park_waiting_def intro!: steady_intros)

lemma reinstate_pieces [simp]:
  "active_in (reinstateLimitPark now a i reason r fl) i = has_task fl i"
  "live_in (reinstateLimitPark now a i reason r fl) a = has_agent fl a"
  by (simp_all add: reinstateLimitPark_def park_waiting_def)

lemma steady_has: "steady a i fl x \<Longrightarrow> has_task x j = has_task fl j" "steady a i fl x \<Longrightarrow> has_agent x b = has_agent fl b"
  using steady_ids [of a i fl x] by (metis has_task_def set_map, metis has_agent_def set_map)

text \<open>Whatever a steady change did, it is sound once the agent is live on an active task that was active before.\<close>

lemma sound_live: "steady a i fl x \<Longrightarrow> live_in x a \<Longrightarrow> active_in x i \<Longrightarrow> active_in fl i \<Longrightarrow> sound a i fl x"
  by blast

lemma sound_resumeParked:
  assumes at: "at_work fl a i"
  shows "sound a i fl (fst (resumeParked op now eid reason l a fl))"
proof (cases "\<exists>r g t. map_of (fl_limited fl) a = Some r \<and> caller fl a = Some (g, t)")
  case False
  then have "fst (resumeParked op now eid reason l a fl) = fl" by (auto simp: resumeParked_def split: option.split)
  with sound_refl [OF at] show ?thesis by simp
next
  case True
  then obtain r g t where r: "map_of (fl_limited fl) a = Some r" and c: "caller fl a = Some (g, t)" by blast
  note t = caller_at_work [OF at c]
  have was: "active_in fl i" using at_work_held [OF at] in_held(2) [of fl a] r by (simp add: is_limited_def)
  note facts = at_work_facts [OF at]
  define fl1 where "fl1 = task_to now i TRunning
      (updateAgent a (\<lambda>h. h\<lparr>ag_status := ARunning, fa_waitingReason := None\<rparr>) (setAgentResumed a None (clear_park a fl)))"
  have 1: "steady a i fl fl1" by (auto simp: fl1_def intro!: steady_intros)
  have same: "fl_sessions fl1 = fl_sessions fl" by (simp add: fl1_def fleet_pieces)
  have live: "live_in fl1 a" "active_in fl1 i" using facts by (simp_all add: fl1_def)
  have put_back: "sound a i fl (reinstateLimitPark now a i reason r x)" if "steady a i fl x" for x
    using that facts was steady_has [OF that] by (intro sound_live) (simp_all add: steady_set_limited_parked)
  have again: "sound a i fl (case resume op now eid l row t fl1 of (fl2, ResumedAgent) \<Rightarrow> fl2
      | (fl2, _) \<Rightarrow> reinstateLimitPark now a i reason r fl2)"
    if row: "getAgent fl1 a = Some row" and no: "a \<notin> set (fl_sessions fl1)" for row
  proof (cases "resume op now eid l row t fl1")
    case (Pair fl2 res)
    have id: "ag_id row = a" using row by (rule getAgent_id)
    have 2: "steady a i fl fl2" using resume_steady [of row t fl1 op now eid l] Pair id t steady_trans [OF 1] by auto
    show ?thesis
    proof (cases "res = ResumedAgent")
      case True
      with Pair resume_done [of op now eid l row t fl1 fl2] id t no facts steady_has [OF 1] 2 was show ?thesis
        by (auto intro: sound_live)
    next
      case False
      with Pair put_back [OF 2] show ?thesis by (cases res) auto
    qed
  qed
  show ?thesis
    using sound_live [OF 1 live was] put_back [OF 1] again r c t same sound_refl [OF at]
    by (auto simp: resumeParked_def fl1_def [symmetric] Let_def
        split: option.split prod.split resume_result.split)
qed

lemma sound_on_running: "at_work fl a i \<Longrightarrow> sound a i fl (on_running a fl)"
  using at_work_held [of fl a i] at_work_facts [of fl a i] by (auto simp: on_running_def intro!: steady_intros)

lemma sound_on_exit:
  assumes at: "at_work fl a i"
  shows "sound a i fl (on_exit a i fl)"
proof -
  let ?x = "fl\<lparr>fl_exited := set_add a (fl_exited fl)\<rparr>"
  have x: "sound a i fl ?x" using sound_refl [OF at] by (rule sound_pieces)
  have "sound a i fl (shedLimitedSession a ?x)" if "is_limited ?x a"
    using sound_trans [OF x sound_shed] sound_at_work [OF at x] that at_work_held [OF at] in_held(2) [of fl a]
    by (simp add: is_limited_def)
  with x show ?thesis by (auto simp: on_exit_def Let_def intro!: sound_pieces)
qed

text \<open>A failure: the session is taken up again while attempts are left, or the agent is over.\<close>

lemma autoResume_steady:
  assumes i: "tk_id t = i"
  shows "steady a i fl (fst (autoResume op now eid l exists current a t fl))"
proof -
  let ?x = "drop_exited a (drop_session a (countAgentResumeAttempt a fl))"
  have x: "steady a i fl ?x" by (auto intro!: steady_intros)
  have again: "steady a i fl (fst (resume op now eid l (g\<lparr>fa_resumeAttempts := n\<rparr>) t ?x))" if "getAgent fl a = Some g" for g n
    using resume_steady [of "g\<lparr>fa_resumeAttempts := n\<rparr>" t ?x op now eid l] getAgent_id [OF that] i
    by (intro steady_trans [OF x]) simp
  show ?thesis
  proof (cases "getAgent fl a")
    case (Some g)
    with again [of g "fa_resumeAttempts g + 1"] show ?thesis
      by (cases "resume op now eid l (g\<lparr>fa_resumeAttempts := fa_resumeAttempts g + 1\<rparr>) t ?x")
         (auto simp: autoResume_def Let_def split: resume_result.split)
  qed (simp add: autoResume_def)
qed

lemma autoResume_done:
  assumes "autoResume op now eid l exists current a t fl = (fl', None)" and "has_task fl (tk_id t)" and "has_agent fl a"
  shows "current \<and> live_in fl' a \<and> active_in fl' (tk_id t)"
proof -
  let ?x = "drop_exited a (drop_session a (countAgentResumeAttempt a fl))"
  obtain g where g: "current" "getAgent fl a = Some g"
      "resume op now eid l (g\<lparr>fa_resumeAttempts := fa_resumeAttempts g + 1\<rparr>) t ?x = (fl', ResumedAgent)"
    using assms(1) by (auto simp: autoResume_def Let_def split: if_splits option.splits prod.splits resume_result.splits)
  have "a \<notin> set (fl_sessions ?x)" by (simp add: drop_exited_def)
  with resume_done [OF g(3)] getAgent_id [OF g(2)] g(1) assms(2,3) show ?thesis by simp
qed

lemma sound_on_failed:
  assumes at: "at_work fl a i" and i: "tk_id t = i" and cur: "current \<Longrightarrow> active_in fl i"
  shows "sound a i fl (on_failed op now eid l exists current a t fl)"
proof (cases "autoResume op now eid l exists current a t fl")
  case (Pair fl1 res)
  have 1: "steady a i fl fl1" using autoResume_steady [OF i, of a fl op now eid l exists current] Pair by simp
  show ?thesis
  proof (cases res)
    case None
    with Pair autoResume_done [of op now eid l "exists" current a t fl fl1] at_work_facts [OF at] i cur 1 show ?thesis
      by (auto simp: on_failed_def intro: sound_live)
  next
    case (Some n)
    with Pair sound_handleTerminal [OF 1] i show ?thesis by (simp add: on_failed_def)
  qed
qed

section \<open>A restart and what it finds\<close>

lemma restart_held [simp]: "held_agents (restart fl) = {}"
  by (simp add: restart_def held_agents_def)

lemma fleet_ok_unheld:
  assumes "fleet_ok fl" and "fl_tasks x = fl_tasks fl" and "fl_jobs x = fl_jobs fl" and "fl_ejections x = fl_ejections fl"
    and "map ag_id (fl_agents x) = map ag_id (fl_agents fl)" and "map fa_taskId (fl_agents x) = map fa_taskId (fl_agents fl)"
    and "\<And>a. a \<in> held_agents x \<Longrightarrow> staffed x a"
  shows "fleet_ok x"
proof -
  have "job_holds x = job_holds fl"
    using assms by (intro ext) (simp add: job_holds_def standing_job_def job_task_active_def)
  moreover have "fa_taskId ` set (fl_agents x) = fa_taskId ` set (fl_agents fl)" using assms(6) by (metis set_map)
  ultimately show ?thesis
    using assms by (simp add: fleet_ok_def fleet_rows_def one_holder_def origin_holders_def branch_holders_def)
qed

lemma ok_restart: "fleet_ok fl \<Longrightarrow> fleet_ok (restart fl)"
  by (rule fleet_ok_unheld) (auto simp: restart_def held_agents_def)

lemma stamp_crashed_keys [simp]: "ag_id (stamp_crashed now fl g) = ag_id g" "fa_taskId (stamp_crashed now fl g) = fa_taskId g"
  by (simp_all add: stamp_crashed_def)

lemma ok_detect: "fleet_ok fl \<Longrightarrow> held_agents fl = {} \<Longrightarrow> fleet_ok (detect op exists now fl)"
proof -
  assume ok: "fleet_ok fl" and none: "held_agents fl = {}"
  then have "fleet_ok (fl\<lparr>fl_agents := map (stamp_crashed now fl) (fl_agents fl)\<rparr>)"
    by (rule_tac fleet_ok_unheld) (auto simp: held_agents_def comp_def)
  then show ?thesis by (simp add: detect_def Let_def no_op_decision_def)
qed

lemma sound_interrupt:
  "at_work fl a i \<Longrightarrow> sound a i fl (unpark a (drop_exited a (drop_session a (end_agent now a AInterrupted fl))))"
proof -
  have "a \<notin> held_agents (unpark a (drop_exited a (drop_session a x)))" for x
    by (simp add: held_agents_def fleet_pieces)
  then show "at_work fl a i \<Longrightarrow> ?thesis" by (auto intro!: steady_intros)
qed

section \<open>Operations that find the agent themselves\<close>

lemma held_works:
  assumes "fleet_ok fl" and "a \<in> held_agents fl"
  obtains i where "at_work fl a i" and "active_in fl i" and "live_in fl a"
proof -
  have "staffed fl a" using assms by (simp add: fleet_ok_def fleet_rows_def)
  with that assms show thesis by (auto simp: staffed_iff at_work_def fleet_ok_def)
qed

text \<open>An operation that leaves the fleet alone unless the agent is held, and is sound on one that is at work.\<close>

lemma ok_if_held:
  assumes ok: "fleet_ok fl" and out: "a \<notin> held_agents fl \<Longrightarrow> x = fl"
    and "in": "\<And>i. at_work fl a i \<Longrightarrow> sound a i fl x"
  shows "fleet_ok x"
proof (cases "a \<in> held_agents fl")
  case True
  with ok obtain i where "at_work fl a i" by (rule held_works)
  with ok "in" show ?thesis by (auto simp: at_work_def intro: sound_ok)
qed (use ok out in simp)

lemma not_held: "a \<notin> held_agents fl \<Longrightarrow> a \<notin> set (fl_sessions fl) \<and> \<not> is_limited fl a \<and> map_of (fl_limited fl) a = None"
  using in_held(1) [of a fl] in_held(2) [of fl a]
  by (cases "map_of (fl_limited fl) a") (auto simp: is_limited_def)

lemma idle:
  assumes "a \<notin> held_agents fl"
  shows "fst (respond a fl) = fl" "fst (kill_agent now a fl) = fl" "fst (complete_agent now a fl) = fl"
    and "fst (resumeParked op now eid reason l a fl) = fl"
  using not_held [OF assms] by (simp_all add: respond_def kill_agent_def complete_agent_def resumeParked_def)

lemma ok_respond: "fleet_ok fl \<Longrightarrow> fleet_ok (fst (respond a fl))"
  by (rule ok_if_held [OF _ idle(1) sound_respond])

lemma ok_kill: "fleet_ok fl \<Longrightarrow> fleet_ok (fst (kill_agent now a fl))"
  by (rule ok_if_held [OF _ idle(2) sound_kill])

lemma ok_complete: "fleet_ok fl \<Longrightarrow> fleet_ok (fst (complete_agent now a fl))"
  by (rule ok_if_held [OF _ idle(3) sound_complete])

lemma ok_resumeParked: "fleet_ok fl \<Longrightarrow> fleet_ok (fst (resumeParked op now eid reason l a fl))"
  by (rule ok_if_held [OF _ idle(4) sound_resumeParked])

lemma ok_releasePark: "fleet_ok fl \<Longrightarrow> works_on fl a i \<Longrightarrow> fleet_ok (releasePark a fl)"
  using sound_releasePark [of fl a i] sound_ok [of fl a i] by (simp add: at_work_def fleet_ok_def)

lemma ok_resumeExpiredParks: "fleet_ok fl \<Longrightarrow> fleet_ok (resumeExpiredParks op now eid reason launches fl)"
  unfolding resumeExpiredParks_def by (rule foldl_invariant) (auto intro: ok_resumeParked split: option.split)

lemma ok_completeExpiredStalls: "fleet_ok fl \<Longrightarrow> fleet_ok (completeExpiredStalls now fl)"
proof -
  have "fleet_ok (complete_expired now f (a, c))" if "fleet_ok f" for f a c
    using ok_complete [OF that, of now a] that
    by (cases "complete_agent now a f") (auto simp: complete_expired_def split: bool.split)
  then show "fleet_ok fl \<Longrightarrow> ?thesis"
    unfolding completeExpiredStalls_def by (intro foldl_invariant [where I = fleet_ok]) auto
qed

lemma ok_interruptAll: "fleet_ok fl \<Longrightarrow> fleet_ok (interruptAll now fl)"
proof -
  let ?P = "\<lambda>f. fleet_ok f \<and> (\<forall>a \<in> set (fl_sessions fl). \<exists>i. works_on f a i)"
  assume ok: "fleet_ok fl"
  have "?P fl"
  proof (intro conjI ok ballI)
    fix a assume "a \<in> set (fl_sessions fl)"
    with ok in_held(1) obtain i where "at_work fl a i" by (metis held_works)
    then show "\<exists>i. works_on fl a i" by (auto simp: at_work_def)
  qed
  moreover have "?P (unpark a (drop_exited a (drop_session a (end_agent now a AInterrupted f))))"
    if f: "?P f" and a: "a \<in> set (fl_sessions fl)" for f a
  proof -
    from f a obtain i where i: "works_on f a i" by blast
    with f sound_interrupt [of f a i now] have s: "sound a i f (unpark a (drop_exited a (drop_session a (end_agent now a AInterrupted f))))"
      by (simp add: at_work_def fleet_ok_def)
    with f i sound_ok steady_works_on show ?thesis by (metis sound_def)
  qed
  ultimately have "?P (interruptAll now fl)" unfolding interruptAll_def by (rule foldl_invariant)
  then show ?thesis ..
qed

section \<open>A holder given up and a holder taken\<close>

text \<open>What ending an active task gives back: its origin and its branch are each held once less.\<close>

lemma job_holds_mono:
  assumes "\<And>i. active_in fl' i \<Longrightarrow> active_in fl i" and "job_holds fl' o' j"
  shows "job_holds fl o' j"
proof -
  have "job_task_active fl j" if "job_task_active fl' j"
  proof -
    from that obtain k where k: "sj_taskId j = Some k" "active_in fl' k"
      by (auto simp: job_task_active_def active_in_def list_ex_iff)
    from assms(1) [OF k(2)] k(1) show ?thesis by (auto simp: job_task_active_def active_in_def list_ex_iff)
  qed
  with assms(2) show ?thesis by (auto simp: job_holds_def standing_job_def)
qed

lemma ended_gives_back:
  assumes rows: "fleet_rows fl" and st: "steady a i fl fl'" and t: "t \<in> set (fl_tasks fl)" "tk_id t = i" "isActiveTask t"
    and over: "\<not> active_in fl' i"
  shows "tk_originRef t = Some o' \<Longrightarrow> Suc (origin_holders fl' o') \<le> origin_holders fl o'"
    and "tk_branch t = Some b \<Longrightarrow> Suc (branch_holders fl' b) \<le> branch_holders fl b"
proof -
  from st obtain f where f: "task_patch f" "fl_tasks fl' = update_where (\<lambda>t. tk_id t = i) f (fl_tasks fl)"
    and same: "fl_jobs fl' = fl_jobs fl" "fl_ejections fl' = fl_ejections fl"
    by (auto simp: steady_def)
  have off: "\<not> isActiveTask (f u)" if "u \<in> set (fl_tasks fl)" "tk_id u = i" for u
  proof
    assume "isActiveTask (f u)"
    with that f have "active_in fl' i" unfolding active_in_iff f(2) ex_update_where by (auto simp: task_patch_def)
    with over show False ..
  qed
  have less: "Suc (length (filter q (fl_tasks fl'))) \<le> length (filter q (fl_tasks fl))"
    if "q t" "\<And>u. q u \<Longrightarrow> isActiveTask u" for q
    unfolding f(2) using t off that by (intro count_update_less [where x = t]) (auto split: if_splits)
  have "active_in fl k" if "active_in fl' k" for k
    using that over steady_other_task [OF st, of k] by (cases "k = i") auto
  then have jobs: "length (filter (job_holds fl' o') (fl_jobs fl)) \<le> length (filter (job_holds fl o') (fl_jobs fl))"
    by (intro count_le) (rule job_holds_mono)
  show "Suc (origin_holders fl' o') \<le> origin_holders fl o'" if "tk_originRef t = Some o'"
    using less [of "task_holds o'"] jobs that t by (simp add: origin_holders_def same task_holds_def)
  show "Suc (branch_holders fl' b) \<le> branch_holders fl b" if "tk_branch t = Some b"
    using less [of "\<lambda>t. isActiveTask t \<and> tk_branch t = Some b"] that t by (simp add: branch_holders_def same)
qed

definition names :: "string option \<Rightarrow> string \<Rightarrow> nat" where
  "names r x = (if r = Some x then 1 else 0)"

lemma createJob_holders [simp]:
  "origin_holders (snd (createJob now j kind branch originRef fl)) o' = origin_holders fl o' + names originRef o'"
  "branch_holders (snd (createJob now j kind branch originRef fl)) b = branch_holders fl b"
proof -
  have same: "job_holds (fl\<lparr>fl_jobs := js\<rparr>) o' = job_holds fl o'" for js
    by (intro ext) (simp add: job_holds_def standing_job_def job_task_active_def)
  have new: "job_holds fl o' \<lparr>jb_id = j, jb_kind = kind, jb_branch = branch, jb_originRef = originRef, sj_status = JobQueued,
      sj_taskId = None, sj_createdAt = now\<rparr> \<longleftrightarrow> originRef = Some o'"
    by (auto simp: job_holds_def standing_job_def)
  show "origin_holders (snd (createJob now j kind branch originRef fl)) o' = origin_holders fl o' + names originRef o'"
    by (simp add: origin_holders_def createJob_def Let_def names_def same new)
  show "branch_holders (snd (createJob now j kind branch originRef fl)) b = branch_holders fl b"
    by (simp add: branch_holders_def createJob_def Let_def)
qed

lemma createJob_rows:
  "fleet_rows fl \<Longrightarrow> getJob fl j = None \<Longrightarrow> fleet_rows (snd (createJob now j kind branch originRef fl))"
  by (simp add: createJob_def Let_def fleet_rows_def getJob_def find_None_iff held_agents_def staffed_def live_in_def
      active_in_def) auto

lemma createTask_holders:
  assumes "fleet_rows fl" and "\<not> has_task fl i"
  shows "origin_holders (snd (createTask now i kind branch originRef title profile fl)) o' = origin_holders fl o' + names originRef o'"
    and "branch_holders (snd (createTask now i kind branch originRef title profile fl)) b = branch_holders fl b + names branch b"
proof -
  let ?x = "snd (createTask now i kind branch originRef title profile fl)"
  have free: "sj_taskId j \<noteq> Some i" if "j \<in> set (fl_jobs fl)" for j
    using assms that by (auto simp: fleet_rows_def has_task_def)
  have jobs: "filter (job_holds ?x o') (fl_jobs fl) = filter (job_holds fl o') (fl_jobs fl)"
    using free
    by (intro filter_cong) (simp_all add: job_holds_def standing_job_def job_task_active_def createTask_def Let_def)
  have t: "isActiveTask \<lparr>tk_id = i, tk_kind = kind, tk_branch = branch, tk_originRef = originRef, tk_originTitle = title,
        tk_status = TQueued, tk_agentId = None, tk_profile = profile, tk_createdAt = now, tk_updatedAt = Instant now\<rparr>"
    by (simp add: isActiveTask_def)
  show "origin_holders ?x o' = origin_holders fl o' + names originRef o'"
    using jobs t by (simp add: origin_holders_def createTask_def Let_def names_def task_holds_def)
  show "branch_holders ?x b = branch_holders fl b + names branch b"
    using t by (simp add: branch_holders_def createTask_def Let_def names_def)
qed

lemma createTask_rows:
  "fleet_rows fl \<Longrightarrow> \<not> has_task fl i \<Longrightarrow> fleet_rows (snd (createTask now i kind branch originRef title profile fl))"
  by (simp add: createTask_def Let_def fleet_rows_def has_task_def held_agents_def staffed_def live_in_def active_in_def
      list_ex_iff) blast

section \<open>Orphaned work\<close>

lemma live_pending: "g \<in> set (fl_agents fl) \<Longrightarrow> fleet_rows fl \<Longrightarrow> \<not> is_live g \<Longrightarrow> ag_id g \<notin> held_agents fl"
proof
  assume g: "g \<in> set (fl_agents fl)" and rows: "fleet_rows fl" and "\<not> is_live g" and "ag_id g \<in> held_agents fl"
  then obtain h where "h \<in> set (fl_agents fl)" "ag_id h = ag_id g" "is_live h"
    by (auto simp: fleet_rows_def staffed_iff live_in_iff)
  moreover have "distinct (map ag_id (fl_agents fl))" using rows by (simp add: fleet_rows_def)
  ultimately show False using distinct_key_eq [of ag_id "fl_agents fl" h g] g \<open>\<not> is_live g\<close> by simp
qed

lemma rows_task_to:
  assumes rows: "fleet_rows fl" and free: "\<And>b. b \<in> held_agents fl \<Longrightarrow> \<not> works_on fl b i"
  shows "fleet_rows (task_to now i st fl)"
proof -
  let ?x = "task_to now i st fl"
  have st: "steady b i fl ?x" for b by (auto intro!: steady_intros)
  have "staffed ?x b" if b: "b \<in> held_agents fl" for b
  proof -
    from rows b obtain j where j: "live_in fl b" "works_on fl b j" "active_in fl j"
      by (auto simp: fleet_rows_def staffed_iff)
    with free [OF b] have "j \<noteq> i" by auto
    with j steady_other_task [OF st] steady_works_on [OF st] show ?thesis by (auto simp: staffed_iff)
  qed
  then have "\<forall>b \<in> held_agents ?x. staffed ?x b" by simp
  moreover have "map tk_id (fl_tasks ?x) = map tk_id (fl_tasks fl)" "fl_agents ?x = fl_agents fl" "fl_jobs ?x = fl_jobs fl"
    using steady_ids(1) [OF st] by (simp_all add: fleet_pieces)
  moreover have "tk_id ` set (fl_tasks ?x) = tk_id ` set (fl_tasks fl)" using calculation(2) by (metis set_map)
  ultimately show ?thesis using rows by (simp add: fleet_rows_def)
qed

lemma find_by_key: "distinct (map k xs) \<Longrightarrow> x \<in> set xs \<Longrightarrow> find (\<lambda>y. k y = k x) xs = Some x"
  by (induction xs) auto

text \<open>What is pending: an agent that crashed or was interrupted on active work, or active work nobody is on.\<close>

lemma pending_orphan:
  assumes "fleet_rows fl" and "item \<in> set (pending_orphans op exists fl)"
  obtains (staffed) g t where "or_agentId item = Some (ag_id g)" "getAgent fl (ag_id g) = Some g"
      "getTask fl (or_taskId item) = Some t" "isActiveTask t" "works_on fl (ag_id g) (or_taskId item)" "ag_id g \<notin> held_agents fl"
  | (unstaffed) t where "or_agentId item = None" "getTask fl (or_taskId item) = Some t" "isActiveTask t"
      "\<And>b. \<not> works_on fl b (or_taskId item)"
proof -
  have uniq: "distinct (map tk_id (fl_tasks fl))" "distinct (map ag_id (fl_agents fl))" using assms(1) by (simp_all add: fleet_rows_def)
  from assms(2) consider
      (a) g t where "g \<in> set (fl_agents fl)" "ag_status g = ACrashed \<or> ag_status g = AInterrupted"
        "getTask fl (fa_taskId g) = Some t" "isActiveTask t" "item = describeOrphan (Some g) t (restorable op exists (Some g))"
    | (b) t where "t \<in> set (fl_tasks fl)" "isActiveTask t" "tk_id t \<notin> fa_taskId ` set (fl_agents fl)"
        "item = describeOrphan None t False"
    by (auto simp: pending_orphans_def Let_def List.map_filter_def isRecoveryCandidate_def isAgentlessCandidate_def
        listAgents_def listOutstandingTasks_def set_js_sort split: option.splits if_splits)
  then show thesis
  proof cases
    case a
    then have "tk_id t = fa_taskId g" by (auto dest: getTask_id)
    moreover have "\<not> is_live g" using a(2) by (auto simp: is_live_def)
    ultimately show thesis
      using a live_pending [OF a(1) assms(1)] find_by_key [OF uniq(2) a(1)]
      by (intro staffed [of g t]) (auto simp: describeOrphan_def getAgent_def works_on_iff)
  next
    case b
    then show thesis
      using find_by_key [OF uniq(1) b(1)]
      by (intro unstaffed [of t]) (force simp: describeOrphan_def getTask_def works_on_iff)+
  qed
qed

lemma standDown_facts:
  assumes rows: "fleet_rows fl" and t: "tk_id t = i"
    and free: "\<And>b. b \<in> held_agents fl \<Longrightarrow> \<not> works_on fl b i"
    and g: "\<And>h. g = Some h \<Longrightarrow> works_on fl (ag_id h) i"
  shows "fleet_rows (standDown now g t fl)" and "\<not> active_in (standDown now g t fl) i"
    and "\<exists>a. steady a i fl (standDown now g t fl)" and "fl_jobs (standDown now g t fl) = fl_jobs fl"
proof -
  define x where "x = (case g of None \<Rightarrow> fl
      | Some g \<Rightarrow> dismissEscalationsForAgent now (ag_id g)
          (updateAgent (ag_id g) (\<lambda>h. h\<lparr>ag_status := AInterrupted, fa_endedAt := or_else (fa_endedAt g) (Some now)\<rparr>) fl))"
  define a where "a = (case g of None \<Rightarrow> '''' | Some h \<Rightarrow> ag_id h)"
  have s: "steady a i fl x"
    by (auto simp: x_def a_def intro!: steady_intros split: option.split)
  have h: "held_agents x = held_agents fl" by (auto simp: x_def split: option.split)
  have "fleet_rows x"
  proof (cases g)
    case None
    with rows show ?thesis by (simp add: x_def)
  next
    case (Some k)
    with g free have "works_on fl a i" "a \<notin> held_agents x" using h by (auto simp: a_def)
    with steady_rows [OF rows s] show ?thesis by blast
  qed
  moreover have "\<not> works_on x b i" if "b \<in> held_agents x" for b
    using that free h steady_works_on [OF s] by simp
  ultimately show "fleet_rows (standDown now g t fl)"
    unfolding standDown_def x_def [symmetric] t by (rule rows_task_to)
  show "\<not> active_in (standDown now g t fl) i"
    unfolding standDown_def x_def [symmetric] t by simp
  show "\<exists>a. steady a i fl (standDown now g t fl)"
    unfolding standDown_def x_def [symmetric] t using s by (blast intro: steady_task)
  show "fl_jobs (standDown now g t fl) = fl_jobs fl"
    by (simp add: standDown_def fleet_pieces fleet_simps split: option.split)
qed

text \<open>One holder is given back before one is taken: nothing is held more than before.\<close>

lemma calmer_by_trade:
  assumes "\<And>o'. origin_holders fl1 o' + names r o' \<le> origin_holders fl o'"
    and "\<And>b. branch_holders fl1 b + names c b \<le> branch_holders fl b"
    and "\<And>o'. origin_holders fl2 o' \<le> origin_holders fl1 o' + names r o'"
    and "\<And>b. branch_holders fl2 b \<le> branch_holders fl1 b + names c b"
  shows "calmer fl fl2"
  unfolding calmer_def using assms by (meson order_trans)

lemma give_back:
  assumes "fleet_rows fl" and "steady a i fl fl'" and "t \<in> set (fl_tasks fl)" "tk_id t = i" "isActiveTask t"
    and "\<not> active_in fl' i"
  shows "origin_holders fl' o' + names (tk_originRef t) o' \<le> origin_holders fl o'"
    and "branch_holders fl' b + names (tk_branch t) b \<le> branch_holders fl b"
  using ended_gives_back(1) [OF assms, of o'] ended_gives_back(2) [OF assms, of b] steady_calmer [OF assms(1,2)] assms(6)
  by (auto simp: names_def calmer_def)

lemma ok_requeue:
  assumes ok: "fleet_ok fl" and t: "getTask fl i = Some t" "isActiveTask t"
    and free: "\<And>b. b \<in> held_agents fl \<Longrightarrow> \<not> works_on fl b i"
    and g: "\<And>h. g = Some h \<Longrightarrow> works_on fl (ag_id h) i"
    and fresh: "getJob fl jobId = None"
  shows "fleet_ok (requeue_work now jobId t (standDown now g t fl))"
proof -
  let ?x = "standDown now g t fl"
  note t' = getTask_id [OF t(1)]
  have rows: "fleet_rows fl" using ok by (simp add: fleet_ok_def)
  note facts = standDown_facts [OF rows conjunct1 [OF t'] free g, where now = now]
  obtain a where a: "steady a i fl ?x" using facts(3) by blast
  note gb = give_back [OF rows a conjunct2 [OF t'] conjunct1 [OF t'] t(2) facts(2)]
  have x: "fleet_ok ?x"
    using facts(1) steady_calmer [OF rows a] facts(2) calmer_keeps [of fl ?x] ok by (auto simp: fleet_ok_def)
  have "fleet_ok (snd (createJob now jobId (tk_kind t) (tk_branch t) (tk_originRef t) ?x))"
  proof -
    have "getJob ?x jobId = None" using fresh facts(4) by (simp add: getJob_def)
    with facts(1) have "fleet_rows (snd (createJob now jobId (tk_kind t) (tk_branch t) (tk_originRef t) ?x))"
      by (rule createJob_rows)
    moreover have "calmer fl (snd (createJob now jobId (tk_kind t) (tk_branch t) (tk_originRef t) ?x))"
      by (rule calmer_by_trade [OF gb]) simp_all
    ultimately show ?thesis using ok calmer_keeps by (auto simp: fleet_ok_def)
  qed
  with x show ?thesis by (simp add: requeue_work_def)
qed

lemma ok_decide:
  assumes ok: "fleet_ok fl" and fresh: "getJob fl jobId = None \<or> verdict \<noteq> Requeue"
  shows "fleet_ok (fst (decide_orphan op exists now eid jobId l taskId verdict fl))"
proof (cases "find (\<lambda>p. or_taskId p = taskId) (pending_orphans op exists fl)")
  case None
  with ok show ?thesis by (simp add: decide_orphan_def)
next
  case (Some item)
  have rows: "fleet_rows fl" using ok by (simp add: fleet_ok_def)
  have item: "item \<in> set (pending_orphans op exists fl)" using Some by (auto simp: find_Some_iff intro: nth_mem)
  define g where "g = Option.bind (or_agentId item) (getAgent fl)"
  from rows item obtain t where t: "getTask fl (or_taskId item) = Some t" "isActiveTask t"
      and free: "\<And>b. b \<in> held_agents fl \<Longrightarrow> \<not> works_on fl b (or_taskId item)"
      and on: "\<And>h. g = Some h \<Longrightarrow> works_on fl (ag_id h) (or_taskId item) \<and> ag_id h \<notin> held_agents fl"
  proof (cases rule: pending_orphan)
    case (staffed h t)
    moreover have "\<not> works_on fl b (or_taskId item)" if "b \<in> held_agents fl" for b
    proof
      assume "works_on fl b (or_taskId item)"
      with staffed(5) obtain x y where "x \<in> set (fl_agents fl)" "y \<in> set (fl_agents fl)" "fa_taskId x = fa_taskId y"
          "ag_id x = b" "ag_id y = ag_id h" by (auto simp: works_on_iff)
      moreover have "distinct (map fa_taskId (fl_agents fl))" using rows by (simp add: fleet_rows_def)
      ultimately have "b = ag_id h" using distinct_key_eq [of fa_taskId "fl_agents fl" x y] by simp
      with that staffed(6) show False by simp
    qed
    ultimately show ?thesis using that by (simp add: g_def)
  next
    case (unstaffed t)
    then show ?thesis using that by (simp add: g_def)
  qed
  note t' = getTask_id [OF t(1)]
  note facts = standDown_facts [OF rows conjunct1 [OF t'] free conjunct1 [OF on], where now = now]
  obtain a where a: "steady a (or_taskId item) fl (standDown now g t fl)" using facts(3) by blast
  have down: "fleet_ok (standDown now g t fl)"
    using facts(1,2) steady_calmer [OF rows a] calmer_keeps ok by (auto simp: fleet_ok_def)
  have back_up: "fleet_ok (fst (resume op now eid l h t fl))" if h: "g = Some h" for h
  proof (cases "resume op now eid l h t fl")
    case (Pair x r)
    have at: "at_work fl (ag_id h) (or_taskId item)" using on [OF h] rows by (simp add: at_work_def)
    have s: "steady (ag_id h) (or_taskId item) fl x"
      using resume_steady [of h t fl op now eid l] Pair t' by simp
    have was: "active_in fl (or_taskId item)" using t t' by (auto simp: active_in_iff)
    note out = not_held [OF conjunct2 [OF on [OF h]]]
    have "sound (ag_id h) (or_taskId item) fl x"
    proof (cases "r = ResumedAgent")
      case True
      with resume_done [of op now eid l h t fl x] Pair at_work_facts [OF at] t' out s was show ?thesis
        by (auto intro: sound_live)
    next
      case False
      with resume_failed [of op now eid l h t fl x r] Pair out was have "ag_id h \<notin> held_agents x"
        by (auto simp: held_agents_def map_of_eq_None_iff)
      with s was show ?thesis by auto
    qed
    with Pair ok at show ?thesis by (auto simp: at_work_def intro: sound_ok)
  qed
  have "fleet_ok (requeue_work now jobId t (standDown now g t fl))" if "verdict = Requeue"
    using ok_requeue [OF ok t free conjunct1 [OF on], where jobId = jobId and now = now] fresh that by simp
  with down back_up t ok show ?thesis
    by (auto simp: decide_orphan_def Some g_def [symmetric] split: recovery_verdict.split option.split prod.split
        resume_result.split)
qed

lemma ok_settleUpgrade: "fleet_ok fl \<Longrightarrow> fleet_ok (settleUpgrade op exists now eid applying launches fl)"
  unfolding settleUpgrade_def by (auto intro!: foldl_invariant [where I = fleet_ok] ok_decide)

section \<open>Ejections and jobs\<close>

lemma kill_over:
  assumes at: "at_work fl a i" and held: "a \<in> held_agents fl"
  shows "\<not> active_in (fst (kill_agent now a fl)) i" and "snd (kill_agent now a fl)"
proof -
  have "a \<in> set (fl_sessions fl) \<or> is_limited fl a"
    using held by (auto simp: held_agents_def is_limited_def map_of_eq_None_iff)
  with works_on_getAgent [OF at] show "\<not> active_in (fst (kill_agent now a fl)) i" "snd (kill_agent now a fl)"
    by (auto simp: kill_agent_def Let_def)
qed

lemma active_row:
  assumes "fleet_rows fl" and "active_in fl i" and "t \<in> set (fl_tasks fl)" and "tk_id t = i"
  shows "isActiveTask t"
proof -
  from assms(2) obtain u where "u \<in> set (fl_tasks fl)" "tk_id u = i" "isActiveTask u" by (auto simp: active_in_iff)
  moreover have "distinct (map tk_id (fl_tasks fl))" using assms(1) by (simp add: fleet_rows_def)
  ultimately show ?thesis using distinct_key_eq [of tk_id "fl_tasks fl" u t] assms(3,4) by simp
qed

lemma recordEjection_holders [simp]:
  "origin_holders (snd (recordEjection now i r c a t s why fl)) o' = origin_holders fl o' + names (Some r) o'"
  "branch_holders (snd (recordEjection now i r c a t s why fl)) b = branch_holders fl b + names c b"
proof -
  have same: "job_holds (fl\<lparr>fl_ejections := es\<rparr>) o' = job_holds fl o'" for es
    by (intro ext) (simp add: job_holds_def standing_job_def job_task_active_def)
  show "origin_holders (snd (recordEjection now i r c a t s why fl)) o' = origin_holders fl o' + names (Some r) o'"
    by (simp add: origin_holders_def recordEjection_def Let_def names_def same) (simp add: ejection_holds_def live_ejection_def)
  show "branch_holders (snd (recordEjection now i r c a t s why fl)) b = branch_holders fl b + names c b"
    by (simp add: branch_holders_def recordEjection_def Let_def names_def live_ejection_def)
qed

lemma rows_ejections [simp]: "fleet_rows (fl\<lparr>fl_ejections := es\<rparr>) = fleet_rows fl"
  by (simp add: fleet_rows_def staffed_def live_in_def active_in_def held_agents_def)

lemma ok_eject: "fleet_ok fl \<Longrightarrow> fleet_ok (fst (eject op now ejectionId a reason fl))"
proof -
  assume ok: "fleet_ok fl"
  show ?thesis
  proof (cases "a \<in> held_agents fl")
    case False
    with idle(2) [OF False, of now] ok show ?thesis
      by (auto simp: eject_def not_held kill_agent_def split: option.split)
  next
    case True
    with ok obtain i where at: "at_work fl a i" and act: "active_in fl i" by (rule held_works)
    have rows: "fleet_rows fl" using ok by (simp add: fleet_ok_def)
    let ?k = "fst (kill_agent now a fl)"
    note s = sound_kill [OF at, of now]
    have out: "fleet_ok (snd (recordEjection now e r (tk_branch t) x y z w ?k))"
      if c: "caller fl a = Some (g, t)" and r: "tk_originRef t = Some r" for e r x y z w g t
    proof -
      have t: "t \<in> set (fl_tasks fl)" "tk_id t = i" "isActiveTask t"
      proof -
        show mem: "t \<in> set (fl_tasks fl)" using c by (auto simp: caller_def bind_eq_Some_conv dest: getTask_id)
        show id: "tk_id t = i" using caller_at_work [OF at c] by simp
        show "isActiveTask t" using rows act mem id by (rule active_row)
      qed
      have sd: "steady a i fl ?k" using s by (simp add: sound_def)
      note gb = give_back [OF rows sd t kill_over(1) [OF at True]]
      have "calmer fl (snd (recordEjection now e r (tk_branch t) x y z w ?k))"
        using gb r by (intro calmer_by_trade [where ?fl1.0 = ?k and r = "Some r" and c = "tk_branch t"]) simp_all
      moreover have "fleet_rows (snd (recordEjection now e r (tk_branch t) x y z w ?k))"
        using sound_at_work [OF at s] by (simp add: recordEjection_def Let_def at_work_def)
      ultimately show ?thesis using ok calmer_keeps by (auto simp: fleet_ok_def)
    qed
    obtain x r where k: "kill_agent now a fl = (x, r)" by (cases "kill_agent now a fl")
    have x: "fleet_ok x" using ok_kill [OF ok, of now a] k by simp
    show ?thesis
    proof (cases "caller fl a")
      case (Some gt)
      obtain g t where gt: "gt = (g, t)" by (cases gt)
      show ?thesis
        using ok x out [of g t] Some gt k by (cases r) (auto simp: eject_def split: option.split)
    qed (use ok in \<open>simp add: eject_def\<close>)
  qed
qed

lemma rows_jobs_ejections: "fleet_rows (fl\<lparr>fl_ejections := es\<rparr>) = fleet_rows fl" by simp

lemma settle_gives_back:
  assumes e: "e \<in> set (fl_ejections fl)" "ej_id e = i" "live_ejection e"
  shows "origin_holders (snd (settleEjection now i out note fl)) o' + names (Some (ej_originRef e)) o' \<le> origin_holders fl o'"
    and "branch_holders (snd (settleEjection now i out note fl)) b \<le> branch_holders fl b"
proof -
  let ?f = "\<lambda>e. e\<lparr>ej_settledAt := Some now, ej_outcome := Some out, ej_settleNote := note\<rparr>"
  let ?es = "update_where (\<lambda>e. ej_id e = i \<and> live_ejection e) ?f (fl_ejections fl)"
  have x: "snd (settleEjection now i out note fl) = fl\<lparr>fl_ejections := ?es\<rparr>"
    using e by (auto simp: settleEjection_def Let_def list_ex_iff)
  have same: "job_holds (fl\<lparr>fl_ejections := es\<rparr>) o' = job_holds fl o'" for es
    by (intro ext) (simp add: job_holds_def standing_job_def job_task_active_def)
  have "length (filter (ejection_holds o') ?es) \<le> length (filter (ejection_holds o') (fl_ejections fl))"
    by (intro count_update_le) (auto simp: ejection_holds_def live_ejection_def)
  moreover have "Suc (length (filter (ejection_holds o') ?es)) \<le> length (filter (ejection_holds o') (fl_ejections fl))"
    if "ej_originRef e = o'"
    using e that by (intro count_update_less [where x = e]) (auto simp: ejection_holds_def live_ejection_def split: if_splits)
  ultimately show "origin_holders (snd (settleEjection now i out note fl)) o' + names (Some (ej_originRef e)) o' \<le> origin_holders fl o'"
    unfolding x by (auto simp: origin_holders_def same names_def)
  have "length (filter (\<lambda>e. live_ejection e \<and> ej_branch e = Some b) ?es)
      \<le> length (filter (\<lambda>e. live_ejection e \<and> ej_branch e = Some b) (fl_ejections fl))"
    by (intro count_update_le) (auto simp: live_ejection_def)
  then show "branch_holders (snd (settleEjection now i out note fl)) b \<le> branch_holders fl b"
    unfolding x by (simp add: branch_holders_def)
qed

lemma settle_calmer: "calmer fl (snd (settleEjection now i out note fl))"
proof (cases "list_ex (\<lambda>e. ej_id e = i \<and> live_ejection e) (fl_ejections fl)")
  case True
  then obtain e where "e \<in> set (fl_ejections fl)" "ej_id e = i" "live_ejection e" by (auto simp: list_ex_iff)
  from settle_gives_back [OF this] show ?thesis unfolding calmer_def by (meson add_leE)
qed (simp add: settleEjection_def)

lemma settle_rows [simp]: "fleet_rows (snd (settleEjection now i out note fl)) = fleet_rows fl"
  by (simp add: settleEjection_def Let_def)

lemma ok_settle: "fleet_ok fl \<Longrightarrow> fleet_ok (snd (settleEjection now i out note fl))"
  using settle_calmer calmer_keeps by (auto simp: fleet_ok_def)

lemma ok_sweepExpiries: "fleet_ok fl \<Longrightarrow> fleet_ok (sweepExpiries op now fl)"
  unfolding sweepExpiries_def
proof (rule foldl_invariant [where I = fleet_ok])
  fix f e assume f: "fleet_ok f"
  have res: "fleet_ok (case r of (None, x) \<Rightarrow> x | (Some _, x) \<Rightarrow> no_op_decision now Executed x)"
    if "fleet_ok (snd r)" for r :: "ejection option \<times> fleet"
    using that by (cases r) (auto split: option.split)
  show "fleet_ok (if \<not> expired op (ej_ejectedAt e) now then f
      else case settleEjection now (ej_id e) Expired None f of
        (None, f1) \<Rightarrow> f1 | (Some a, f1) \<Rightarrow> no_op_decision now Executed f1)"
    using f res [OF ok_settle [OF f]] by simp
qed

lemma ok_settle_desk:
  assumes ok: "fleet_ok fl" and fresh: "getJob fl jobId = None"
  shows "fleet_ok (fst (settle_ejection_desk now jobId i out note fl))"
proof (cases "getEjection fl i")
  case None
  with ok show ?thesis by (simp add: settle_ejection_desk_def)
next
  case (Some e)
  then have e: "e \<in> set (fl_ejections fl)" "ej_id e = i" by (auto simp: getEjection_def find_Some_iff intro: nth_mem)
  let ?s = "\<lambda>fl. snd (settleEjection now i out (if trim note = '''' then None else Some (trim note)) fl)"
  let ?j = "snd (createJob now jobId CodeTask (ej_branch e) (Some (ej_originRef e)) fl)"
  have again: "fleet_ok (?s ?j)" if live: "ej_settledAt e = None"
  proof -
    have "e \<in> set (fl_ejections ?j)" "live_ejection e" using e live by (simp_all add: createJob_def Let_def live_ejection_def)
    note gb = settle_gives_back [OF this(1) e(2) this(2), of now out "if trim note = '''' then None else Some (trim note)"]
    have "origin_holders (?s ?j) o' \<le> origin_holders fl o'" for o' using gb(1) [of o'] by simp
    moreover have "branch_holders (?s ?j) b \<le> branch_holders fl b" for b using gb(2) [of b] by simp
    ultimately have "calmer fl (?s ?j)" by (simp add: calmer_def)
    with ok createJob_rows [OF _ fresh] calmer_keeps show ?thesis by (auto simp: fleet_ok_def)
  qed
  have plain: "fleet_ok (?s fl)" using ok by (rule ok_settle)
  have res: "fleet_ok (fst (case r of (None, x) \<Rightarrow> (x, False) | (Some _, x) \<Rightarrow> (no_op_decision now Executed x, True)))"
    if "fleet_ok (snd r)" for r :: "ejection option \<times> fleet"
    using that by (cases r) (auto split: option.split)
  show ?thesis
    using ok again plain Some by (auto simp: settle_ejection_desk_def requeue_ejected_def Let_def intro!: res)
qed

lemma jobs_patched:
  assumes ok: "fleet_ok fl" and keys: "\<And>j. jb_id (f j) = jb_id j" "\<And>j. jb_originRef (f j) = jb_originRef j"
    and tasks: "\<And>j. sj_taskId (f j) = sj_taskId j \<or> (\<exists>i. sj_taskId (f j) = Some i \<and> has_task fl i)"
    and stand: "\<And>j. j \<in> set (fl_jobs fl) \<Longrightarrow> p j \<Longrightarrow> standing_job fl (f j) \<Longrightarrow> standing_job fl j"
  shows "fleet_ok (fl\<lparr>fl_jobs := update_where p f (fl_jobs fl)\<rparr>)"
proof -
  let ?js = "update_where p f (fl_jobs fl)" and ?x = "fl\<lparr>fl_jobs := update_where p f (fl_jobs fl)\<rparr>"
  have same: "job_holds ?x o' = job_holds fl o'" for o'
    by (intro ext) (simp add: job_holds_def standing_job_def job_task_active_def)
  have "length (filter (job_holds fl o') ?js) \<le> length (filter (job_holds fl o') (fl_jobs fl))" for o'
    using stand keys(2) by (intro count_update_le) (auto simp: job_holds_def)
  then have "calmer fl ?x" by (simp add: calmer_def origin_holders_def branch_holders_def same)
  moreover have "map jb_id ?js = map jb_id (fl_jobs fl)" using keys(1) by (intro update_where_keeps)
  moreover have "{i. \<exists>j \<in> set ?js. sj_taskId j = Some i} \<subseteq> tk_id ` set (fl_tasks fl)"
  proof
    fix i assume "i \<in> {i. \<exists>j \<in> set ?js. sj_taskId j = Some i}"
    then obtain k where k: "k \<in> set (fl_jobs fl)" "sj_taskId (if p k then f k else k) = Some i" by (auto simp: ex_update_where)
    have "sj_taskId k = Some i \<or> has_task fl i" using tasks [of k] k(2) by (auto split: if_splits)
    with k(1) ok show "i \<in> tk_id ` set (fl_tasks fl)" by (auto simp: fleet_ok_def fleet_rows_def has_task_def)
  qed
  ultimately show ?thesis
    using ok calmer_keeps [of fl ?x]
    by (simp add: fleet_ok_def fleet_rows_def staffed_def live_in_def active_in_def held_agents_def)
qed

lemma ok_cancelJob: "fleet_ok fl \<Longrightarrow> fleet_ok (cancelJob i fl)"
proof -
  assume ok: "fleet_ok fl"
  have "fleet_ok (fl\<lparr>fl_jobs := update_where (\<lambda>j. jb_id j = i) (\<lambda>j. j\<lparr>sj_status := JobCancelled\<rparr>) (fl_jobs fl)\<rparr>)"
    using ok by (rule jobs_patched) (auto simp: standing_job_def job_task_active_def)
  with ok show ?thesis by (auto simp: cancelJob_def split: option.split)
qed

end
