(* ===== verification/FleetTrace.thy ===== *)
theory FleetTrace
  imports FleetRuns
begin

text \<open>
  The fleet over time: an agent put on work, a run lifted to another profile and a dispatch keep the
  invariant too; then the steps of the fleet as a relation, its reachable states, and what holds in all of
  them.
\<close>

section \<open>An agent put on work\<close>

lemma createAgent_facts:
  assumes rows: "fleet_rows fl" and new: "\<not> has_agent fl b" and task: "has_task fl i"
    and free: "\<And>c. \<not> works_on fl c i" and x_def: "x = snd (createAgent now b i cwd s fl)"
  shows "at_work x b i" and "calmer fl x" and "active_in x j = active_in fl j" and "held_agents x = held_agents fl"
    and "fl_jobs x = fl_jobs fl"
proof -
  show "active_in x j = active_in fl j" "held_agents x = held_agents fl" "fl_jobs x = fl_jobs fl"
    by (simp_all add: x_def createAgent_def Let_def active_in_def held_agents_def)
  have "job_holds x = job_holds fl"
    by (intro ext) (simp add: x_def createAgent_def Let_def job_holds_def standing_job_def job_task_active_def)
  then show "calmer fl x"
    by (simp add: x_def createAgent_def Let_def calmer_def origin_holders_def branch_holders_def)
  have "staffed x c" if "c \<in> held_agents fl" for c
  proof -
    have "staffed fl c" using rows that by (simp add: fleet_rows_def)
    then show ?thesis by (auto simp: x_def createAgent_def Let_def staffed_def live_in_def active_in_def)
  qed
  moreover have "held_agents x = held_agents fl" by (simp add: x_def createAgent_def Let_def held_agents_def)
  ultimately have "fleet_rows x"
    using rows new task free
    by (simp add: x_def createAgent_def Let_def fleet_rows_def has_agent_def has_task_def works_on_iff) blast
  moreover have "works_on x b i" by (simp add: x_def createAgent_def Let_def works_on_def)
  ultimately show "at_work x b i" by (simp add: at_work_def)
qed

lemma active_updateTask:
  "(\<And>t. tk_id (f t) = tk_id t) \<Longrightarrow> (\<And>t. isActiveTask (f t)) \<Longrightarrow> active_in (updateTask now i f fl) i \<longleftrightarrow> has_task fl i"
  unfolding active_in_iff has_task_def updateTask_def by (auto simp: ex_update_where isActive_status)

lemma spawn_facts:
  assumes rows: "fleet_rows fl" and new: "\<not> has_agent fl b" and act: "active_in fl i"
    and free: "\<And>c. \<not> works_on fl c i" and sp: "spawn op now b fresh l i cwd s fl = (x, r)"
  shows "fleet_rows x" and "calmer fl x" and "r \<Longrightarrow> active_in x i" and "fl_jobs x = fl_jobs fl"
    and "\<not> r \<Longrightarrow> c \<in> held_agents x \<Longrightarrow> \<not> works_on x c i" and "has_task x i"
proof -
  have task: "has_task fl i" using act by (auto simp: active_in_iff has_task_def)
  define sess where "sess = or_else (if fo_resumable op then s else None) (if fo_resumable op then Some fresh else None)"
  define y where "y = snd (createAgent now b i cwd sess fl)"
  define z where "z = add_session b (updateTask now i (\<lambda>t. t\<lparr>tk_status := TRunning, tk_agentId := Some b\<rparr>) y)"
  note y = createAgent_facts [OF rows new task free y_def]
  have st: "steady b i y z"
    unfolding z_def by (intro steady_intros steady_refl) (simp add: task_patch_def)
  have zact: "active_in z i"
  proof -
    have "has_task y i" using task by (simp add: y_def createAgent_def Let_def has_task_def)
    then show ?thesis by (simp add: z_def active_updateTask isActive_status)
  qed
  have zlive: "live_in z b"
  proof -
    have "live_in y b" by (simp add: y_def createAgent_def Let_def live_in_def is_live_def)
    then show ?thesis by (simp add: z_def)
  qed
  have "sound b i y z" using st zlive zact act y(3) [of i] by (intro sound_live) simp_all
  then have z: "at_work z b i" "calmer y z" using y(1) sound_at_work sound_calmer by blast+
  have nolimit: "b \<notin> fst ` set (fl_limited z)"
  proof
    assume "b \<in> fst ` set (fl_limited z)"
    then have "b \<in> held_agents fl"
      by (auto simp: held_agents_def z_def y_def createAgent_def Let_def fleet_pieces)
    then have "has_agent fl b" using rows by (auto simp: fleet_rows_def staffed_iff works_on_has_agent)
    with new show False ..
  qed
  define w where "w = failSpawn now b i z"
  have ws: "sound b i z w" using nolimit by (auto simp: w_def intro!: steady_intros)
  then have w: "at_work w b i" "calmer z w" using z(1) sound_at_work sound_calmer by blast+
  from sp consider (o) "x = fl" "\<not> r" | (s) "x = w" "\<not> r" | (l) "x = z" "r"
    by (auto simp: spawn_def Let_def sess_def [symmetric] y_def [symmetric] z_def [symmetric] w_def [symmetric]
        split: if_splits)
  note c = this
  have fz: "calmer fl z" and fw: "calmer fl w" using y(2) z(2) w(2) by (blast intro: calmer_trans)+
  have jz: "fl_jobs z = fl_jobs fl" "fl_jobs w = fl_jobs fl"
    using st ws y(5) by (simp_all add: steady_def sound_def)
  show "fleet_rows x" using c rows z(1) w(1) by cases (simp_all add: at_work_def)
  show "calmer fl x" using c fz fw by cases simp_all
  show "active_in x i" if r using c that zact by cases simp_all
  show "fl_jobs x = fl_jobs fl" using c jz by cases simp_all
  show "has_task x i"
    using c task at_work_facts(1) [OF z(1)] at_work_facts(1) [OF w(1)] by cases simp_all
  show "\<not> works_on x c i" if "\<not> r" "c \<in> held_agents x" for c
    using c that free
  proof cases
    case s
    show ?thesis
    proof
      assume on: "works_on x c i"
      have "at_work w c i" using on s w(1) by (simp add: at_work_def)
      then have "active_in w i" using at_work_held that(2) s by blast
      then show False by (simp add: w_def)
    qed
  qed simp_all
qed

lemma ok_calmer: "fleet_ok fl \<Longrightarrow> fleet_rows x \<Longrightarrow> calmer fl x \<Longrightarrow> fleet_ok x"
  using calmer_keeps [of fl x] by (simp add: fleet_ok_def)

lemma failed_task_facts:
  assumes rows: "fleet_rows x" and free: "\<And>c. c \<in> held_agents x \<Longrightarrow> \<not> works_on x c i" and st: "\<not> status_active st"
  shows "fleet_rows (task_to now i st x)" and "calmer x (task_to now i st x)"
proof -
  show "fleet_rows (task_to now i st x)" using rows free by (rule rows_task_to)
  have "steady a i x (task_to now i st x)" for a by (auto intro!: steady_intros)
  then show "calmer x (task_to now i st x)" using rows st by (intro steady_calmer [OF rows]) auto
qed

lemma createTask_facts:
  assumes rows: "fleet_rows fl" and new: "\<not> has_task fl i" and x: "x = snd (createTask now i kind branch originRef title profile fl)"
  shows "active_in x i" and "works_on x b j = works_on fl b j" and "held_agents x = held_agents fl"
    and "fl_jobs x = fl_jobs fl" and "has_agent x b = has_agent fl b" and "\<not> works_on fl c i"
    and "set (fl_tasks fl) \<subseteq> set (fl_tasks x)"
proof -
  show "\<not> works_on fl c i" using has_agent_row [OF _ rows] new by blast
qed (auto simp: x createTask_def Let_def active_in_def isActiveTask_def works_on_def held_agents_def has_agent_def)

lemma ok_lift:
  assumes ok: "fleet_ok fl" and newt: "\<not> has_task fl newTask" and newa: "\<not> has_agent fl newAgent"
  shows "fleet_ok (fst (lift op now newTask newAgent fresh l a profile fl))"
proof (cases "a \<in> set (fl_sessions fl) \<and> (\<exists>g t. caller fl a = Some (g, t))")
  case False
  then have "fst (lift op now newTask newAgent fresh l a profile fl) = fl"
    by (cases "caller fl a") (auto simp: lift_def)
  with ok show ?thesis by simp
next
  case True
  then obtain g t where c: "caller fl a = Some (g, t)" and s: "a \<in> set (fl_sessions fl)" by blast
  have held: "a \<in> held_agents fl" using s by (rule in_held)
  obtain i where at: "at_work fl a i" and act: "active_in fl i" using ok held by (rule held_works)
  have rows: "fleet_rows fl" using at by (simp add: at_work_def)
  note t = caller_at_work [OF at c]
  have tin: "t \<in> set (fl_tasks fl)" using c by (auto simp: caller_def bind_eq_Some_conv dest: getTask_id)
  have tact: "isActiveTask t" using rows act tin t by (intro active_row) auto
  define fl1 where "fl1 = snd (createTask now newTask (tk_kind t) (tk_branch t) (tk_originRef t) (tk_originTitle t) (Some profile) fl)"
  define fl2 where "fl2 = fst (kill_agent now a fl1)"
  note f1 = createTask_facts [OF rows newt fl1_def]
  have r1: "fleet_rows fl1" unfolding fl1_def using rows newt by (rule createTask_rows)
  have at1: "at_work fl1 a i" using at f1(2) r1 by (simp add: at_work_def)
  have k: "sound a i fl1 fl2" unfolding fl2_def using at1 by (rule sound_kill)
  then have st: "steady a i fl1 fl2" by (simp add: sound_def)
  have over: "\<not> active_in fl2 i" unfolding fl2_def using at1 held f1(3) by (intro kill_over) auto
  have tin1: "t \<in> set (fl_tasks fl1)" using tin f1(7) by blast
  note gb = give_back [OF r1 st tin1 conjunct2 [OF conjunct2 [OF t]] tact over]
  have calm: "calmer fl fl2"
    unfolding calmer_def
  proof (intro conjI allI)
    fix o' show "origin_holders fl2 o' \<le> origin_holders fl o'"
      using gb(1) [of o'] createTask_holders(1) [OF rows newt] by (simp add: fl1_def)
  next
    fix b show "branch_holders fl2 b \<le> branch_holders fl b"
      using gb(2) [of b] createTask_holders(2) [OF rows newt] by (simp add: fl1_def)
  qed
  have ne: "newTask \<noteq> i" using at_work_facts(1) [OF at] newt by auto
  have r2: "fleet_rows fl2" using sound_at_work [OF at1 k] by (simp add: at_work_def)
  have act2: "active_in fl2 newTask" using steady_other_task [OF st ne] f1(1) by simp
  have free2: "\<not> works_on fl2 d newTask" for d using steady_works_on [OF st] f1(2,6) by simp
  have na2: "\<not> has_agent fl2 newAgent" using steady_has(2) [OF st] f1(5) newa by simp
  obtain x r where sp: "spawn op now newAgent fresh l newTask (fa_cwd g) (fa_sessionId g) fl2 = (x, r)" by fastforce
  note f3 = spawn_facts [OF r2 na2 act2 free2 sp]
  have x: "fleet_ok x" using ok f3(1) calmer_trans [OF calm f3(2)] by (rule ok_calmer)
  have "fleet_ok (task_to now newTask TFailed x)" if "\<not> r"
    using failed_task_facts [OF f3(1) f3(5) [OF that], of TFailed now] by (intro ok_calmer [OF x]) simp_all
  with x ok sp show ?thesis
    by (cases r) (simp_all add: lift_def c Let_def fl1_def [symmetric] fl2_def [symmetric])
qed

section \<open>A dispatch\<close>

lemma mark_claims_fleet [simp]: "xs_fleet (mark_claims en a i x) = xs_fleet x"
  by (simp add: mark_claims_def Let_def claim_risk_def markLocalValidationFix_def markLocalValidationDispatched_def
      claimRemoteRun_def split: option.split local_role.split)

lemma admitted_free:
  assumes "admissionRefusal en a live fl = None"
  shows "truthy (a_originRef a) = Some o' \<Longrightarrow> origin_holders fl o' = 0"
    and "a_type a = DispatchCodeAgent \<Longrightarrow> a_branch a = Some b \<Longrightarrow> branch_holders fl b = 0"
    and "live < en_cap en"
proof -
  show "live < en_cap en"
    using assms by (auto simp: admissionRefusal_def Let_def split: if_splits option.splits)
  show "origin_holders fl o' = 0" if "truthy (a_originRef a) = Some o'"
    using assms that
    by (auto simp: admissionRefusal_def Let_def origin_holders_def findActiveTaskByOrigin_def findStandingJobByOrigin_def
        liveEjectionForOrigin_def find_None_iff task_holds_def job_holds_def ejection_holds_def filter_empty_conv
        split: if_splits)
  show "branch_holders fl b = 0" if "a_type a = DispatchCodeAgent" "a_branch a = Some b"
    using assms that
    by (auto simp: admissionRefusal_def Let_def branch_holders_def branchRefusal_def ejectionOnBranch_def
        findActiveTaskByBranch_def find_None_iff filter_empty_conv split: if_splits option.splits)
qed

lemma abandon_fleet:
  "same_core (case getTask (xs_fleet x) (tk_id t) of
       Some c \<Rightarrow> if isActiveTask c then task_to (en_now en) (tk_id t) TInterrupted (xs_fleet x) else xs_fleet x
     | None \<Rightarrow> xs_fleet x) (xs_fleet (abandonUnstarted en t x))"
  by (simp add: abandonUnstarted_def Let_def same_core_def split: option.split)

lemma ok_abandon:
  assumes ok: "fleet_ok (xs_fleet x)" and free: "\<And>c. c \<in> held_agents (xs_fleet x) \<Longrightarrow> \<not> works_on (xs_fleet x) c (tk_id t)"
  shows "fleet_ok (xs_fleet (abandonUnstarted en t x))"
proof -
  have rows: "fleet_rows (xs_fleet x)" using ok by (simp add: fleet_ok_def)
  have "fleet_ok (task_to (en_now en) (tk_id t) TInterrupted (xs_fleet x))"
    using failed_task_facts [OF rows free, of TInterrupted] by (intro ok_calmer [OF ok]) simp_all
  with ok show ?thesis
    unfolding same_core_ok [OF abandon_fleet [where x = x and t = t and en = en]] by (simp split: option.split)
qed

lemma record_outcome_ok [simp]: "fleet_ok (xs_fleet (record_outcome en a d x)) = fleet_ok (xs_fleet x)"
  by (simp add: record_outcome_def on_fleet_def)

lemma ok_failed_dispatch:
  assumes "fleet_ok (xs_fleet x)" and "\<And>c. c \<in> held_agents (xs_fleet x) \<Longrightarrow> \<not> works_on (xs_fleet x) c (tk_id t)"
  shows "fleet_ok (xs_fleet (fst (failed_dispatch en a live t x)))"
  using assms by (simp add: failed_dispatch_def ok_abandon)

definition job_is_queued :: "action \<Rightarrow> fleet \<Rightarrow> bool" where
  "job_is_queued a fl =
     (case truthy (a_jobId a) of None \<Rightarrow> True
      | Some j \<Rightarrow> (case getJob fl j of None \<Rightarrow> False | Some job \<Rightarrow> sj_status job = JobQueued))"

lemma ok_markDispatched:
  assumes ok: "fleet_ok (xs_fleet x)" and q: "job_is_queued a (xs_fleet x)" and task: "has_task (xs_fleet x) i"
  shows "\<exists>y. markDispatched en a i x = Some y \<and> fleet_ok (xs_fleet y)"
proof (cases "truthy (a_jobId a)")
  case None
  with ok show ?thesis by (simp add: markDispatched_def)
next
  case (Some j)
  with q obtain job where job: "getJob (xs_fleet x) j = Some job" "sj_status job = JobQueued"
    by (auto simp: job_is_queued_def split: option.splits)
  have queued: "sj_status k = JobQueued" if "k \<in> set (fl_jobs (xs_fleet x))" "jb_id k = j" for k
  proof -
    have "job \<in> set (fl_jobs (xs_fleet x))" "jb_id job = j"
      using job(1) by (auto simp: getJob_def find_Some_iff intro: nth_mem)
    moreover have "distinct (map jb_id (fl_jobs (xs_fleet x)))" using ok by (simp add: fleet_ok_def fleet_rows_def)
    ultimately show ?thesis using distinct_key_eq [of jb_id "fl_jobs (xs_fleet x)" job k] that job(2) by simp
  qed
  have "fleet_ok ((xs_fleet x)\<lparr>fl_jobs := update_where (\<lambda>k. jb_id k = j)
      (\<lambda>k. k\<lparr>sj_status := JobDispatched, sj_taskId := Some i\<rparr>) (fl_jobs (xs_fleet x))\<rparr>)"
    using ok by (rule jobs_patched) (use task queued in \<open>auto simp: standing_job_def\<close>)
  with Some job show ?thesis by (simp add: markDispatched_def markJobDispatched_def)
qed

lemma ok_dispatch:
  assumes ok: "fleet_ok (xs_fleet x)" and newt: "\<not> has_task (xs_fleet x) (en_taskId en)"
    and newa: "\<not> has_agent (xs_fleet x) (en_agentId en)" and q: "job_is_queued a (xs_fleet x)"
  shows "fleet_ok (xs_fleet (fst (dispatchAgent op en a live x)))"
proof (cases "admissionRefusal en a live (xs_fleet x)")
  case (Some r)
  with ok show ?thesis by (simp add: dispatchAgent_def)
next
  case None
  have rows: "fleet_rows (xs_fleet x)" using ok by (simp add: fleet_ok_def)
  obtain t x1 where rec: "recordDispatchTask op en a x = (t, x1)" by fastforce
  let ?b = "if a_type a = DispatchCodeAgent then a_branch a else None"
  obtain kind profile where x1: "xs_fleet x1 = snd (createTask (en_now en) (en_taskId en) kind ?b (a_originRef a) None profile (xs_fleet x))"
      and t: "tk_id t = en_taskId en"
    using rec by (force simp: recordDispatchTask_def Let_def createTask_def split: prod.splits)
  note f = createTask_facts [OF rows newt x1]
  have r1: "fleet_rows (xs_fleet x1)" unfolding x1 using rows newt by (rule createTask_rows)
  have "one_holder (xs_fleet x1)"
    unfolding one_holder_def
  proof (intro conjI allI impI)
    fix o' :: string assume "o' \<noteq> ''''"
    then show "origin_holders (xs_fleet x1) o' \<le> 1"
      using ok admitted_free(1) [OF None, of o'] createTask_holders(1) [OF rows newt]
      by (auto simp: x1 names_def fleet_ok_def one_holder_def truthy_def)
  next
    fix b
    show "branch_holders (xs_fleet x1) b \<le> 1"
      using ok admitted_free(2) [OF None, of b] createTask_holders(2) [OF rows newt]
      by (auto simp: x1 names_def fleet_ok_def one_holder_def)
  qed
  with r1 have ok1: "fleet_ok (xs_fleet x1)" by (simp add: fleet_ok_def)
  have free1: "\<not> works_on (xs_fleet x1) c (en_taskId en)" for c using f(2,6) by simp
  have failed1: "fleet_ok (xs_fleet (fst (failed_dispatch en a n t x1)))" for n
    using ok1 free1 t by (intro ok_failed_dispatch) simp_all
  have started: "fleet_ok (xs_fleet (fst (case spawn (eo_fleet op) (en_now en) (en_agentId en) (en_session en) (en_launch en) (tk_id t) cwd inherit (xs_fleet x1) of
        (fl, False) \<Rightarrow> failed_dispatch en a live t (x1\<lparr>xs_fleet := fl\<rparr>)
      | (fl, True) \<Rightarrow> (case markDispatched en a (tk_id t) (x1\<lparr>xs_fleet := fl\<rparr>) of
            None \<Rightarrow> failed_dispatch en a (live + 1) t (x1\<lparr>xs_fleet := fl\<rparr>)
          | Some x2 \<Rightarrow> (record_outcome en a Executed x2, Executed, live + 1)))))" for cwd inherit
  proof -
    obtain y r where sp: "spawn (eo_fleet op) (en_now en) (en_agentId en) (en_session en) (en_launch en) (en_taskId en) cwd inherit (xs_fleet x1) = (y, r)"
      by fastforce
    have na: "\<not> has_agent (xs_fleet x1) (en_agentId en)" using newa f(5) by simp
    note s = spawn_facts [OF r1 na f(1) free1 sp]
    have y: "fleet_ok y" using ok1 s(1,2) by (rule ok_calmer)
    have same: "getJob y = getJob (xs_fleet x)" using s(4) f(4) by (intro ext) (simp add: getJob_def)
    have "job_is_queued a y" using q unfolding job_is_queued_def same .
    with y s(6) obtain z where "markDispatched en a (en_taskId en) (x1\<lparr>xs_fleet := y\<rparr>) = Some z" "fleet_ok (xs_fleet z)"
      using ok_markDispatched [of "x1\<lparr>xs_fleet := y\<rparr>" a "en_taskId en" en] by auto
    moreover have "fleet_ok (xs_fleet (fst (failed_dispatch en a live t (x1\<lparr>xs_fleet := y\<rparr>))))" if "\<not> r"
      using y s(5) that t by (intro ok_failed_dispatch) simp_all
    ultimately show ?thesis using sp t by (cases r) simp_all
  qed
  show ?thesis
    using failed1 started rec None by (simp add: dispatchAgent_def Let_def split: option.split prod.split)
qed

section \<open>The acts that change the fleet\<close>

text \<open>
  What a session tells the manager. A failure names whether its process could be launched again and
  whether its directory still stands.
\<close>

datatype session_event =
    OnRunning | OnActivity | OnWaiting string string | OnStalled string bool string | OnSilent string string
  | OnLimited string "int option" | OnExit | OnDone | OnFailed string launch bool

fun on_session :: "fleet_opts \<Rightarrow> int \<Rightarrow> string \<Rightarrow> task \<Rightarrow> session_event \<Rightarrow> fleet \<Rightarrow> fleet" where
  "on_session op now a t OnRunning fl = on_running a fl"
| "on_session op now a t OnActivity fl = noteResumed now a fl"
| "on_session op now a t (OnWaiting eid reason) fl = handleWaiting op now eid a (tk_id t) reason fl"
| "on_session op now a t (OnStalled eid sent reason) fl = handleStalled op now eid sent a (tk_id t) reason fl"
| "on_session op now a t (OnSilent eid reason) fl = handleSilent op now eid a (tk_id t) reason fl"
| "on_session op now a t (OnLimited reason resetsAt) fl = handleLimited now a (tk_id t) reason resetsAt fl"
| "on_session op now a t OnExit fl = on_exit a (tk_id t) fl"
| "on_session op now a t OnDone fl = handleTerminal now a (tk_id t) True fl"
| "on_session op now a t (OnFailed eid l exists) fl = on_failed op now eid l exists (a \<in> set (fl_sessions fl)) a t fl"

text \<open>What the operator does, what the desks of a pulse do, and a boot.\<close>

datatype fleet_act =
    Respond string | Kill string | Complete string | ExtendPark string | AnswerAsk string | DismissAsk string
  | ResumePark string string launch string
  | LiftTo string string string launch string string
  | EjectRun string string string
  | SettleEjection string string ejection_outcome string
  | DecideOrphan "string \<Rightarrow> bool" string string launch string recovery_verdict
  | FileJob string task_kind "string option" | CancelQueued string
  | SweepParks string string "string \<Rightarrow> launch" | SweepStalls | SweepEjections | SweepDeadAgents
  | Shutdown | Boot "string \<Rightarrow> bool" | SettleBoot "string \<Rightarrow> bool" string bool "string \<Rightarrow> launch"

fun act_on :: "fleet_opts \<Rightarrow> int \<Rightarrow> fleet_act \<Rightarrow> fleet \<Rightarrow> fleet" where
  "act_on op now (Respond a) fl = fst (respond a fl)"
| "act_on op now (Kill a) fl = fst (kill_agent now a fl)"
| "act_on op now (Complete a) fl = fst (complete_agent now a fl)"
| "act_on op now (ExtendPark a) fl = extendStallPark op now a fl"
| "act_on op now (AnswerAsk i) fl = answer_escalation i fl"
| "act_on op now (DismissAsk i) fl = dismiss_escalation now i fl"
| "act_on op now (ResumePark eid reason l a) fl = fst (resumeParked op now eid reason l a fl)"
| "act_on op now (LiftTo newTask newAgent fresh l a profile) fl = fst (lift op now newTask newAgent fresh l a profile fl)"
| "act_on op now (EjectRun i a reason) fl = fst (eject op now i a reason fl)"
| "act_on op now (SettleEjection jobId i out note) fl = fst (settle_ejection_desk now jobId i out note fl)"
| "act_on op now (DecideOrphan exists eid jobId l taskId verdict) fl = fst (decide_orphan op exists now eid jobId l taskId verdict fl)"
| "act_on op now (FileJob i kind branch) fl = snd (createJob now i kind branch None fl)"
| "act_on op now (CancelQueued i) fl = cancelJob i fl"
| "act_on op now (SweepParks eid reason launches) fl = resumeExpiredParks op now eid reason launches fl"
| "act_on op now SweepStalls fl = completeExpiredStalls now fl"
| "act_on op now SweepEjections fl = sweepExpiries op now fl"
| "act_on op now SweepDeadAgents fl = tidyDeadAgents now fl"
| "act_on op now Shutdown fl = interruptAll now fl"
| "act_on op now (Boot exists) fl = detect op exists now (restart fl)"
| "act_on op now (SettleBoot exists eid applying launches) fl = settleUpgrade op exists now eid applying launches fl"

text \<open>The ids an act draws at random are new.\<close>

fun draws_fresh :: "fleet_act \<Rightarrow> fleet \<Rightarrow> bool" where
  "draws_fresh (LiftTo newTask newAgent _ _ _ _) fl \<longleftrightarrow> \<not> has_task fl newTask \<and> \<not> has_agent fl newAgent"
| "draws_fresh (SettleEjection jobId _ _ _) fl \<longleftrightarrow> getJob fl jobId = None"
| "draws_fresh (DecideOrphan _ _ jobId _ _ _) fl \<longleftrightarrow> getJob fl jobId = None"
| "draws_fresh (FileJob i _ _) fl \<longleftrightarrow> getJob fl i = None"
| "draws_fresh _ fl \<longleftrightarrow> True"

lemma ok_release_any: "fleet_ok fl \<Longrightarrow> fleet_ok (releasePark a fl)"
proof (cases "has_agent fl a")
  case True
  then obtain i where "works_on fl a i" by (auto simp: has_agent_def works_on_iff)
  then show "fleet_ok fl \<Longrightarrow> ?thesis" by (simp add: ok_releasePark)
next
  case False
  then have "update_where (\<lambda>g. ag_id g = a) f (fl_agents fl) = fl_agents fl" for f :: "fleet_agent \<Rightarrow> fleet_agent"
    unfolding update_where_def by (intro map_idI) (auto simp: has_agent_def)
  then have "same_core fl (releasePark a fl)" by (simp add: releasePark_def fleet_pieces same_core_def)
  then show "fleet_ok fl \<Longrightarrow> ?thesis" by (simp add: same_core_ok)
qed

lemma ok_session:
  assumes ok: "fleet_ok fl" and on: "works_on fl a (tk_id t)" and src: "a \<in> set (fl_sessions fl) \<or> e = OnExit"
  shows "fleet_ok (on_session op now a t e fl)"
proof -
  have at: "at_work fl a (tk_id t)" using ok on by (simp add: at_work_def fleet_ok_def)
  have act: "active_in fl (tk_id t)" if "e \<noteq> OnExit" using at_work_held [OF at] in_held(1) src that by blast
  have "sound a (tk_id t) fl (on_session op now a t e fl)"
    using at act
    by (cases e) (simp_all add: sound_on_running sound_noteResumed sound_handleWaiting sound_handleStalled sound_handleSilent
        sound_handleLimited sound_on_exit sound_handleTerminal sound_on_failed)
  with ok on show ?thesis by (rule sound_ok)
qed

lemma ok_act: "fleet_ok fl \<Longrightarrow> draws_fresh d fl \<Longrightarrow> fleet_ok (act_on op now d fl)"
proof (induction op now d fl rule: act_on.induct)
  case (4 op now a fl)
  then show ?case by (simp add: extendStallPark_def split: option.split)
next
  case (5 op now i fl)
  then show ?case by (auto simp: answer_escalation_def Let_def ok_respond split: option.split)
next
  case (6 op now i fl)
  then show ?case by (auto simp: dismiss_escalation_def Let_def ok_release_any split: option.split)
next
  case (12 op now i kind branch fl)
  then show ?case
    using createJob_rows [of fl i now kind branch None] ok_calmer [of fl "snd (createJob now i kind branch None fl)"]
    by (auto simp: fleet_ok_def calmer_def names_def)
next
  case (17 op now fl)
  then show ?case unfolding act_on.simps tidyDeadAgents_def by (intro foldl_invariant [where I = fleet_ok]) simp_all
qed (simp_all add: ok_respond ok_kill ok_complete ok_resumeParked ok_lift ok_eject ok_settle_desk ok_decide ok_cancelJob
    ok_resumeExpiredParks ok_completeExpiredStalls ok_sweepExpiries ok_interruptAll ok_detect ok_restart ok_settleUpgrade)

section \<open>The fleet over time\<close>

definition empty_fleet :: fleet where
  "empty_fleet = \<lparr>fl_tasks = [], fl_agents = [], fl_jobs = [], fl_ejections = [], fl_escalations = [], fl_decisions = [],
     fl_released = [], fl_sessions = [], fl_exited = [], fl_terminals = [], fl_parked = [], fl_limited = [],
     fl_nudges = [], fl_stalled = []\<rparr>"

text \<open>
  A step: a session tells the manager something (only the session the manager still has for the agent does,
  the end of its process apart), somebody acts, or an action is dispatched. A dispatch of a job is of a job
  still queued, which is what the rule for jobs offers.
\<close>

inductive fleet_step :: "exec_opts \<Rightarrow> executor \<Rightarrow> executor \<Rightarrow> bool" for op where
  step_session:
    "works_on (xs_fleet x) a (tk_id t) \<Longrightarrow> a \<in> set (fl_sessions (xs_fleet x)) \<or> e = OnExit \<Longrightarrow>
     fleet_step op x (on_fleet (on_session (eo_fleet op) now a t e) x)"
| step_act: "draws_fresh d (xs_fleet x) \<Longrightarrow> fleet_step op x (on_fleet (act_on (eo_fleet op) now d) x)"
| step_dispatch:
    "\<not> has_task (xs_fleet x) (en_taskId en) \<Longrightarrow> \<not> has_agent (xs_fleet x) (en_agentId en) \<Longrightarrow>
     job_is_queued a (xs_fleet x) \<Longrightarrow> fleet_step op x (fst (dispatchAgent op en a live x))"

inductive fleet_reached :: "exec_opts \<Rightarrow> executor \<Rightarrow> bool" for op where
  reached_empty: "xs_fleet x = empty_fleet \<Longrightarrow> fleet_reached op x"
| reached_step: "fleet_reached op x \<Longrightarrow> fleet_step op x y \<Longrightarrow> fleet_reached op y"

lemma empty_ok: "fleet_ok empty_fleet"
  by (simp add: empty_fleet_def fleet_ok_def fleet_rows_def one_holder_def origin_holders_def branch_holders_def held_agents_def)

lemma step_ok: "fleet_step op x y \<Longrightarrow> fleet_ok (xs_fleet x) \<Longrightarrow> fleet_ok (xs_fleet y)"
  by (induction rule: fleet_step.induct) (simp_all add: on_fleet_def ok_session ok_act ok_dispatch)

lemma reached_ok: "fleet_reached op x \<Longrightarrow> fleet_ok (xs_fleet x)"
  by (induction rule: fleet_reached.induct) (auto simp: empty_ok intro: step_ok)

lemma two_rows_count: "x \<in> set rows \<Longrightarrow> y \<in> set rows \<Longrightarrow> x \<noteq> y \<Longrightarrow> p x \<Longrightarrow> p y \<Longrightarrow> 1 < length (filter p rows)"
  using filter_all_le_1 [of p rows x y] by linarith

lemma session_task:
  assumes ok: "fleet_ok fl" and c: "caller fl a = Some (g, t)" and s: "a \<in> set (fl_sessions fl)"
  shows "t \<in> set (fl_tasks fl)" and "isActiveTask t" and "works_on fl a (tk_id t)" and "is_live g"
proof -
  have held: "a \<in> held_agents fl" using s by (rule in_held)
  obtain i where at: "at_work fl a i" and act: "active_in fl i" and live: "live_in fl a" using ok held by (rule held_works)
  have rows: "fleet_rows fl" using at by (simp add: at_work_def)
  show tin: "t \<in> set (fl_tasks fl)" using c by (auto simp: caller_def bind_eq_Some_conv dest: getTask_id)
  note f = caller_at_work [OF at c]
  show "isActiveTask t" using rows act tin f by (intro active_row) auto
  show "works_on fl a (tk_id t)" using at f by (simp add: at_work_def)
  have "getAgent fl a = Some g" using c by (auto simp: caller_def bind_eq_Some_conv)
  then have g: "g \<in> set (fl_agents fl)" "ag_id g = a" by (auto simp: getAgent_def find_Some_iff intro: nth_mem)
  from live obtain h where "h \<in> set (fl_agents fl)" "ag_id h = a" "is_live h" by (auto simp: live_in_iff)
  moreover have "distinct (map ag_id (fl_agents fl))" using rows by (simp add: fleet_rows_def)
  ultimately show "is_live g" using distinct_key_eq [of ag_id "fl_agents fl" h g] g by simp
qed

lemma tasks_apart:
  assumes ok: "fleet_ok fl" and a: "caller fl a = Some (g, t)" "a \<in> set (fl_sessions fl)"
    and b: "caller fl b = Some (h, u)" "b \<in> set (fl_sessions fl)" and "a \<noteq> b"
  shows "t \<noteq> u"
proof
  assume "t = u"
  with session_task(3) [OF ok a] session_task(3) [OF ok b] obtain k l where "k \<in> set (fl_agents fl)" "l \<in> set (fl_agents fl)"
      "ag_id k = a" "ag_id l = b" "fa_taskId k = fa_taskId l" by (auto simp: works_on_iff)
  moreover have "distinct (map fa_taskId (fl_agents fl))" using ok by (simp add: fleet_ok_def fleet_rows_def)
  ultimately show False using distinct_key_eq [of fa_taskId "fl_agents fl" k l] \<open>a \<noteq> b\<close> by simp
qed


definition opts1 :: exec_opts where
  "opts1 = \<lparr>eo_fleet = \<lparr>fo_resumable = True, fo_resumeAttempts = 1, fo_stallNudges = 1, fo_stallParkMs = 60000,
      fo_stallExtendMs = 60000, fo_silenceParkMs = 0, fo_whitelisted = (\<lambda>_. False), fo_bootedAt = 0,
      fo_ejectionEnabled = True, fo_expiryHours = 0\<rparr>, eo_models = None, eo_digest = id\<rparr>"

definition env1 :: "int \<Rightarrow> string \<Rightarrow> string \<Rightarrow> dispatch_env" where
  "env1 now i a = \<lparr>en_now = now, en_taskId = i, en_agentId = a, en_session = a, en_worktree = Some (''/w/'' @ i),
     en_scratch = Some (''/s/'' @ i), en_launch = Launched, en_paused = False, en_cap = 2\<rparr>"

definition idle_executor :: executor where
  "idle_executor = \<lparr>xs_fleet = empty_fleet, xs_plans = \<lparr>db_plans = [], db_parts = [], db_atoms = [], db_revisions = [], db_amendments = [],
     db_asks = []\<rparr>, xs_local = [], xs_remote = [], xs_risk = [], xs_appraisals = [], xs_issues = []\<rparr>"

definition code_on :: "string \<Rightarrow> string \<Rightarrow> action" where
  "code_on origin branch = (new_action DispatchCodeAgent)\<lparr>a_originRef := Some origin, a_branch := Some branch\<rparr>"

definition staffed_twice :: executor where
  "staffed_twice =
     fst (dispatchAgent opts1 (env1 1 ''t2'' ''a2'') (code_on ''issue:8:plan'' ''issue/8'') 1
       (fst (dispatchAgent opts1 (env1 0 ''t1'' ''a1'') (code_on ''issue:7:plan'' ''issue/7'') 0 idle_executor)))"

lemma staffed_twice_reached: "fleet_reached opts1 staffed_twice"
  unfolding staffed_twice_def
proof (intro reached_step [OF _ step_dispatch] reached_empty)
  show "xs_fleet idle_executor = empty_fleet" by (simp add: idle_executor_def)
qed code_simp+




section \<open>The cap\<close>

text \<open>The dispatches of a pass, carried out one after the other with one count of the live agents.\<close>

fun dispatch_actions :: "exec_opts \<Rightarrow> (dispatch_env \<times> action) list \<Rightarrow> nat \<Rightarrow> executor \<Rightarrow> executor \<times> nat" where
  "dispatch_actions op [] live x = (x, live)"
| "dispatch_actions op ((en, a) # rest) live x =
     (case dispatchAgent op en a live x of (x', _, live') \<Rightarrow> dispatch_actions op rest live' x')"

definition agent_ids :: "fleet \<Rightarrow> string set" where
  "agent_ids fl = ag_id ` set (fl_agents fl)"

lemma apart_grows: "e \<notin> I \<Longrightarrow> I \<inter> A = {} \<Longrightarrow> B \<subseteq> insert e A \<Longrightarrow> I \<inter> B = {}"
  by blast

lemma count_pieces [simp]:
  "countLiveAgents (task_to now i st fl) = countLiveAgents fl" "countLiveAgents (updateTask now i f fl) = countLiveAgents fl"
  "countLiveAgents (add_session b fl) = countLiveAgents fl" "countLiveAgents (drop_session b fl) = countLiveAgents fl"
  "agent_ids (task_to now i st fl) = agent_ids fl" "agent_ids (updateTask now i f fl) = agent_ids fl"
  "agent_ids (add_session b fl) = agent_ids fl" "agent_ids (drop_session b fl) = agent_ids fl"
  by (simp_all add: fleet_pieces countLiveAgents_def agent_ids_def)

lemma count_new:
  "countLiveAgents (snd (createAgent now b i cwd s fl)) = Suc (countLiveAgents fl)"
  "agent_ids (snd (createAgent now b i cwd s fl)) = insert b (agent_ids fl)"
  by (simp_all add: createAgent_def Let_def countLiveAgents_def is_live_def agent_ids_def)

lemma count_failed:
  assumes "b \<notin> agent_ids fl"
  shows "countLiveAgents (failSpawn now b i (add_session b (updateTask now i f (snd (createAgent now b i cwd s fl))))) = countLiveAgents fl"
    and "agent_ids (failSpawn now b i (add_session b (updateTask now i f (snd (createAgent now b i cwd s fl))))) = insert b (agent_ids fl)"
proof -
  have other: "update_where (\<lambda>g. ag_id g = b) h (fl_agents fl) = fl_agents fl" for h :: "fleet_agent \<Rightarrow> fleet_agent"
    unfolding update_where_def using assms by (intro map_idI) (auto simp: agent_ids_def)
  have split: "update_where p h (xs @ ys) = update_where p h xs @ update_where p h ys" for p h and xs ys :: "fleet_agent list"
    by (simp add: update_where_def)
  show "countLiveAgents (failSpawn now b i (add_session b (updateTask now i f (snd (createAgent now b i cwd s fl))))) = countLiveAgents fl"
      "agent_ids (failSpawn now b i (add_session b (updateTask now i f (snd (createAgent now b i cwd s fl))))) = insert b (agent_ids fl)"
    by (simp_all add: failSpawn_def end_agent_def fleet_pieces createAgent_def Let_def countLiveAgents_def agent_ids_def
        split other) (simp_all add: update_where_def is_live_def)
qed

lemma spawn_count:
  assumes "b \<notin> agent_ids fl" and "spawn op now b fresh l i cwd s fl = (x, r)"
  shows "countLiveAgents x = countLiveAgents fl + (if r then 1 else 0) \<and> agent_ids x \<subseteq> insert b (agent_ids fl)"
  using assms count_failed [OF assms(1)]
  by (auto simp: spawn_def Let_def count_new split: if_splits)

lemma count_same_core: "same_core x y \<Longrightarrow> countLiveAgents y = countLiveAgents x \<and> agent_ids y = agent_ids x"
  by (simp add: same_core_def countLiveAgents_def agent_ids_def)

lemma failed_dispatch_count:
  "failed_dispatch en a live t x = (y, out, n) \<Longrightarrow>
   n = live \<and> out = Rejected \<and> countLiveAgents (xs_fleet y) = countLiveAgents (xs_fleet x) \<and> agent_ids (xs_fleet y) = agent_ids (xs_fleet x)"
  by (auto simp: failed_dispatch_def record_outcome_def on_fleet_def recordDecision_def abandonUnstarted_def Let_def
      countLiveAgents_def agent_ids_def task_to_def updateTask_def split: option.splits if_splits)

lemma markDispatched_count:
  "markDispatched en a i x = Some y \<Longrightarrow>
   countLiveAgents (xs_fleet y) = countLiveAgents (xs_fleet x) \<and> agent_ids (xs_fleet y) = agent_ids (xs_fleet x)"
  by (auto simp: markDispatched_def markJobDispatched_def countLiveAgents_def agent_ids_def split: option.splits if_splits)

lemma record_outcome_count [simp]:
  "countLiveAgents (xs_fleet (record_outcome en a d x)) = countLiveAgents (xs_fleet x)"
  "agent_ids (xs_fleet (record_outcome en a d x)) = agent_ids (xs_fleet x)"
  by (simp_all add: record_outcome_def on_fleet_def recordDecision_def countLiveAgents_def agent_ids_def)

lemma dispatch_count:
  assumes new: "en_agentId en \<notin> agent_ids (xs_fleet x)" and live: "live = countLiveAgents (xs_fleet x)"
    and d: "dispatchAgent op en a live x = (y, out, n)"
  shows "n = countLiveAgents (xs_fleet y) \<and> n \<le> max live (en_cap en) \<and> agent_ids (xs_fleet y) \<subseteq> insert (en_agentId en) (agent_ids (xs_fleet x))"
proof (cases "admissionRefusal en a live (xs_fleet x)")
  case (Some r)
  with d live show ?thesis by (auto simp: dispatchAgent_def)
next
  case None
  obtain t x1 where rec: "recordDispatchTask op en a x = (t, x1)" by fastforce
  have x1: "countLiveAgents (xs_fleet x1) = live" "agent_ids (xs_fleet x1) = agent_ids (xs_fleet x)"
    using rec live by (auto simp: recordDispatchTask_def Let_def createTask_def countLiveAgents_def agent_ids_def split: prod.splits)
  have room: "live < en_cap en" using None by (rule admitted_free)
  note d' = d [unfolded dispatchAgent_def None option.case Let_def rec prod.case]
  show ?thesis
  proof (cases "inheritedSession op en a (retryResumeFor (a_originRef a) (xs_fleet x)) x")
    case None
    with d' failed_dispatch_count [of en a live t x1 y out n] x1 room show ?thesis by auto
  next
    case (Some si)
    obtain slot inherit where si: "si = (slot, inherit)" by (cases si)
    show ?thesis
    proof (cases "or_else slot (en_scratch en)")
      case None
      with Some si d' failed_dispatch_count [of en a live t x1 y out n] x1 room show ?thesis by auto
    next
      case (Some cwd)
      obtain z r where sp: "spawn (eo_fleet op) (en_now en) (en_agentId en) (en_session en) (en_launch en) (tk_id t) cwd inherit (xs_fleet x1) = (z, r)"
        by fastforce
      have c: "countLiveAgents z = live + (if r then 1 else 0)" "agent_ids z \<subseteq> insert (en_agentId en) (agent_ids (xs_fleet x))"
        using spawn_count [OF _ sp] new x1 by auto
      note d'' = d' [unfolded \<open>inheritedSession op en a (retryResumeFor (a_originRef a) (xs_fleet x)) x = Some si\<close> si
          option.case prod.case Some sp]
      show ?thesis
      proof (cases r)
        case False
        with d'' failed_dispatch_count [of en a live t "x1\<lparr>xs_fleet := z\<rparr>" y out n] c room show ?thesis by auto
      next
        case True
        show ?thesis
        proof (cases "markDispatched en a (tk_id t) (x1\<lparr>xs_fleet := z\<rparr>)")
          case None
          with d'' True failed_dispatch_count [of en a "live + 1" t "x1\<lparr>xs_fleet := z\<rparr>" y out n] c room show ?thesis by auto
        next
          case (Some x2)
          with d'' True markDispatched_count [OF Some] c room show ?thesis by auto
        qed
      qed
    qed
  qed
qed

text \<open>
  C39. A pass that dispatches never takes the fleet above the cap: the count it carries is the number of live
  agents after every dispatch, whatever was refused, failed to launch or was abandoned, and it never exceeds
  the cap, unless the fleet was above it before the pass, when nothing is added.
\<close>

theorem dispatches_respect_the_cap:
  assumes "distinct (map (en_agentId \<circ> fst) as)" and "en_agentId ` fst ` set as \<inter> agent_ids (xs_fleet x) = {}"
    and "en_cap ` fst ` set as \<subseteq> {cap}"
    and "dispatch_actions op as (countLiveAgents (xs_fleet x)) x = (y, n)"
  shows "n = countLiveAgents (xs_fleet y) \<and> n \<le> max cap (countLiveAgents (xs_fleet x))"
  using assms
proof (induction as arbitrary: x)
  case (Cons ea as)
  obtain en a where ea: "ea = (en, a)" by (cases ea)
  obtain z out m where d: "dispatchAgent op en a (countLiveAgents (xs_fleet x)) x = (z, out, m)"
    by (cases "dispatchAgent op en a (countLiveAgents (xs_fleet x)) x") auto
  have "en_agentId en \<notin> agent_ids (xs_fleet x)" using Cons.prems(2) by (auto simp: ea)
  note c = dispatch_count [OF this refl d]
  have "n = countLiveAgents (xs_fleet y) \<and> n \<le> max cap (countLiveAgents (xs_fleet z))"
  proof (rule Cons.IH)
    show "distinct (map (en_agentId \<circ> fst) as)" using Cons.prems(1) by (simp add: comp_def)
    have out: "en_agentId en \<notin> en_agentId ` fst ` set as"
      using Cons.prems(1) by (simp add: ea comp_def image_image)
    have old: "en_agentId ` fst ` set as \<inter> agent_ids (xs_fleet x) = {}" using Cons.prems(2) by (simp add: ea)
    show "en_agentId ` fst ` set as \<inter> agent_ids (xs_fleet z) = {}"
      using out old conjunct2 [OF conjunct2 [OF c]] by (rule apart_grows)
    show "en_cap ` fst ` set as \<subseteq> {cap}" using Cons.prems(3) by auto
    show "dispatch_actions op as (countLiveAgents (xs_fleet z)) z = (y, n)" using Cons.prems(4) c by (simp add: ea d)
  qed
  with c Cons.prems(3) show ?case by (auto simp: ea)
qed simp

definition two_for_one :: "(dispatch_env \<times> action) list" where
  "two_for_one = [((env1 0 ''t1'' ''a1'')\<lparr>en_cap := 1\<rparr>, code_on ''issue:7:plan'' ''issue/7''),
     ((env1 1 ''t2'' ''a2'')\<lparr>en_cap := 1\<rparr>, code_on ''issue:8:plan'' ''issue/8'')]"

theorem dispatches_respect_the_cap_witness:
  "countLiveAgents (xs_fleet (fst (dispatch_actions opts1 two_for_one 0 idle_executor))) \<le> 1 \<and>
   snd (dispatch_actions opts1 two_for_one 0 idle_executor) = 1"
proof -
  have zero: "countLiveAgents (xs_fleet idle_executor) = 0" "agent_ids (xs_fleet idle_executor) = {}"
    by (simp_all add: idle_executor_def empty_fleet_def countLiveAgents_def agent_ids_def)
  have one: "snd (dispatch_actions opts1 two_for_one 0 idle_executor) = 1" by code_simp
  obtain y n where yn: "dispatch_actions opts1 two_for_one 0 idle_executor = (y, n)" by fastforce
  have "n = countLiveAgents (xs_fleet y) \<and> n \<le> max 1 (countLiveAgents (xs_fleet idle_executor))"
    by (rule dispatches_respect_the_cap [of two_for_one]) (use zero yn in \<open>simp_all add: two_for_one_def env1_def\<close>)
  with one yn show ?thesis by simp
qed

section \<open>Work that is redone, redone again\<close>

text \<open>
  A retrospective is dispatched, dies with the process and is requeued as a job, which is dispatched as a
  run of its own.
\<close>

definition died_once :: "executor \<Rightarrow> executor" where
  "died_once x = on_fleet (\<lambda>fl. act_on (eo_fleet opts1) 9 (Boot (\<lambda>_. True)) (act_on (eo_fleet opts1) 8 Shutdown fl)) x"

definition requeued :: "string \<Rightarrow> string \<Rightarrow> executor \<Rightarrow> executor" where
  "requeued jobId taskId = on_fleet (act_on (eo_fleet opts1) 10 (DecideOrphan (\<lambda>_. True) ''e'' jobId Launched taskId Requeue))"

definition retro_requeued :: executor where
  "retro_requeued = requeued ''j1'' ''t1''
     (died_once (fst (dispatchAgent opts1 (env1 0 ''t1'' ''a1'') (code_on ''issue:7:retro'' ''issue/7'') 0 idle_executor)))"

definition retro_redone :: executor where
  "retro_redone = fst (dispatchAgent opts1 (env1 11 ''t2'' ''a2'')
     ((code_on (job_origin ''j1'') ''issue/7'')\<lparr>a_jobId := Some ''j1''\<rparr>) 0 retro_requeued)"



section \<open>A late word from a killed run\<close>

definition asking_spec :: session_spec where
  "asking_spec = \<lparr>sp_parse = (\<lambda>l. if l = ''ask'' then Some (AssistantEvent (WAIT_PREFIX @ ''which?'' @ WAIT_SUFFIX) False)
      else if l = ''result'' then Some ResultEvent else None), sp_silenceMs = 0\<rparr>"

definition killed_run :: executor where
  "killed_run = on_fleet (act_on (eo_fleet opts1) 2 (Kill ''a1''))
     (fst (dispatchAgent opts1 (env1 0 ''t1'' ''a1'') (code_on ''issue:7:plan'' ''issue/7'') 0 idle_executor))"

definition run_again :: executor where
  "run_again = fst (dispatchAgent opts1 (env1 3 ''t2'' ''a2'') (code_on ''issue:7:plan'' ''issue/7'') 0 killed_run)"


end
