(* ===== verification/Stacks.thy ===== *)
theory Stacks
  imports PrHealth Samples
begin

text \<open>
  Stacked pull requests (\<^verbatim>\<open>src/src/stacks/stack.ts\<close>): the chains of open pull requests in which each is
  based on the one below. Landing one on an operator's word (\<^verbatim>\<open>landing.ts\<close>): which stacks are offered, when
  a landing has landed and when it stops; the table of landings (\<^verbatim>\<open>src/src/store/landings.ts\<close>). The theory
  shows that the walk that finds the stacks ends and that every stack is a maximal such chain; what holds of
  the landings over time is in \<^verbatim>\<open>OutboundTrace\<close>.
\<close>

section \<open>Building the stacks\<close>

record stack_rung =
  sr_prNumber :: nat
  sr_title :: string
  sr_branch :: string
  sr_base :: string
  sr_position :: nat
  sr_partSlug :: "string option"

record stack =
  sk_ref :: string
  sk_issueNumber :: "nat option"
  sk_issueTitle :: "string option"
  sk_planId :: "string option"
  sk_rungs :: "stack_rung list"

definition stack_base :: "pull_request list \<Rightarrow> string \<Rightarrow> pull_request \<Rightarrow> pull_request option" where
  "stack_base live defaultBranch pr =
     (case pr_base pr of
        None \<Rightarrow> None
      | Some b \<Rightarrow>
          if b = defaultBranch then None
          else case map_of (index_by pr_branch live) b of
              None \<Rightarrow> None
            | Some base \<Rightarrow> if pr_number base \<noteq> pr_number pr then Some base else None)"

definition childrenOf :: "pull_request list \<Rightarrow> pull_request \<Rightarrow> pull_request list" where
  "childrenOf live pr = filter (\<lambda>p. pr_base p = Some (pr_branch pr)) live"

text \<open>Every step down the walk passes a live pull request it had not seen, so it ends.\<close>

function stack_walk :: "pull_request list \<Rightarrow> pull_request list \<Rightarrow> nat list \<Rightarrow> pull_request \<Rightarrow> pull_request list list" where
  "stack_walk live path seen current =
     (let onward = filter (\<lambda>p. pr_number p \<notin> set seen) (childrenOf live current) in
      if onward = [] then [path]
      else concat (map (\<lambda>child. stack_walk live (path @ [child]) (seen @ [pr_number child]) child) onward))"
  by pat_completeness auto
termination
proof (relation "measure (\<lambda>(live, path, seen, current). length (filter (\<lambda>p. pr_number p \<notin> set seen) live))")
  fix live path seen current child and onward
  assume n: "onward = filter (\<lambda>p. pr_number p \<notin> set seen) (childrenOf live current)" and c: "child \<in> set onward"
  have "length (filter (\<lambda>p. pr_number p \<notin> set (seen @ [pr_number child])) live)
      = length (filter (\<lambda>p. pr_number p \<noteq> pr_number child) (filter (\<lambda>p. pr_number p \<notin> set seen) live))"
    by (auto intro!: arg_cong [of _ _ length] filter_cong)
  also have "\<dots> < length (filter (\<lambda>p. pr_number p \<notin> set seen) live)"
    by (rule length_filter_less [of child]) (use c n in \<open>auto simp: childrenOf_def\<close>)
  finally show "((live, path @ [child], seen @ [pr_number child], child), (live, path, seen, current)) \<in>
    measure (\<lambda>(live, path, seen, current). length (filter (\<lambda>p. pr_number p \<notin> set seen) live))"
    by simp
qed simp

declare stack_walk.simps [simp del]

definition pathsFrom :: "pull_request list \<Rightarrow> pull_request \<Rightarrow> pull_request list list" where
  "pathsFrom live bottom = stack_walk live [bottom] [pr_number bottom] bottom"

definition forks :: "pull_request list \<Rightarrow> pull_request \<Rightarrow> bool" where
  "forks live bottom \<longleftrightarrow> 1 < length (filter (\<lambda>p. 2 \<le> length p) (pathsFrom live bottom))"

definition stackRef :: "pull_request list \<Rightarrow> bool \<Rightarrow> string" where
  "stackRef prs forked =
     (let bottom = (case prs of [] \<Rightarrow> 0 | p # _ \<Rightarrow> pr_number p);
          leaf = (case rev prs of [] \<Rightarrow> 0 | p # _ \<Rightarrow> pr_number p)
      in if forked then ''stack:'' @ show_nat bottom @ '':'' @ show_nat leaf else ''stack:'' @ show_nat bottom)"

definition part_by_pr :: "plan_part list \<Rightarrow> nat \<Rightarrow> plan_part option" where
  "part_by_pr parts n = find (\<lambda>p. pp_prNumber p = Some n) (rev parts)"

definition stack_rungs :: "plan_part list \<Rightarrow> pull_request list \<Rightarrow> stack_rung list" where
  "stack_rungs parts prs =
     map (\<lambda>(pr, i). \<lparr>sr_prNumber = pr_number pr, sr_title = pr_title pr, sr_branch = pr_branch pr,
         sr_base = default_to '''' (pr_base pr), sr_position = i + 1,
         sr_partSlug = map_option pp_slug (part_by_pr parts (pr_number pr))\<rparr>)
       (zip prs [0..<length prs])"

definition assemble :: "pull_request list \<Rightarrow> plan list \<Rightarrow> plan_part list \<Rightarrow> bool \<Rightarrow> stack" where
  "assemble prs plans parts forked =
     (let planIds = uniq (List.map_filter (\<lambda>pr. map_option pp_planId (part_by_pr parts (pr_number pr))) prs);
          planId = (case planIds of [i] \<Rightarrow> Some i | _ \<Rightarrow> None);
          pl = Option.bind planId (\<lambda>i. find (\<lambda>p. pl_id p = i) plans)
      in \<lparr>sk_ref = stackRef prs forked,
          sk_issueNumber = Option.bind pl (\<lambda>p. issueOriginNumber Root (pl_originRef p)),
          sk_issueTitle = map_option pl_title pl, sk_planId = planId, sk_rungs = stack_rungs parts prs\<rparr>)"

definition bottom_rung :: "stack \<Rightarrow> nat" where
  "bottom_rung s = (case sk_rungs s of [] \<Rightarrow> 0 | r # _ \<Rightarrow> sr_prNumber r)"

definition leaf_rung :: "stack \<Rightarrow> nat" where
  "leaf_rung s = (case rev (sk_rungs s) of [] \<Rightarrow> 0 | r # _ \<Rightarrow> sr_prNumber r)"

definition stack_order :: "stack \<Rightarrow> stack \<Rightarrow> int" where
  "stack_order a b = (let d = int (bottom_rung a) - int (bottom_rung b) in
     if d \<noteq> 0 then d else int (leaf_rung a) - int (leaf_rung b))"

definition buildStacks :: "pull_request list \<Rightarrow> plan list \<Rightarrow> plan_part list \<Rightarrow> string \<Rightarrow> stack list" where
  "buildStacks openPrs plans parts defaultBranch =
     (let live = filter (\<lambda>p. \<not> pr_merged p) openPrs;
          bottoms = filter (\<lambda>p. stack_base live defaultBranch p = None) live
      in js_sort stack_order
           (concat (map (\<lambda>b. map (\<lambda>path. assemble path plans parts (forks live b))
              (filter (\<lambda>path. 2 \<le> length path) (pathsFrom live b))) bottoms)))"

section \<open>May a stack land\<close>

datatype rung_block =
    RungCiFailing nat | RungChecksUnreported nat | RungNotApproved nat | RungApprovalWithdrawn nat
  | RungUnresolved nat nat | RungConflicts nat | RungMergeBlocked nat | RungNoMergeableState nat

definition unresolved_count :: "pull_request \<Rightarrow> nat" where
  "unresolved_count pr = length (filter (\<lambda>c. \<not> pc_handled c) (pr_comments pr))"

definition rung_conflicts :: "pull_request \<Rightarrow> bool" where
  "rung_conflicts pr \<longleftrightarrow> pr_mergeable pr = Some False \<or> pr_mergeableState pr = Some Dirty"

definition rungVerdict :: "pull_request \<Rightarrow> rung_block option" where
  "rungVerdict pr =
     (if pr_ciStatus pr = CiFailing then Some (RungCiFailing (pr_number pr))
      else if pr_ciStatus pr \<noteq> CiPassing then Some (RungChecksUnreported (pr_number pr))
      else if pr_approved pr \<noteq> Some True then Some (RungNotApproved (pr_number pr))
      else if 0 < unresolved_count pr then Some (RungUnresolved (pr_number pr) (unresolved_count pr))
      else if rung_conflicts pr then Some (RungConflicts (pr_number pr))
      else if pr_mergeableState pr = Some MergeBlocked then Some (RungMergeBlocked (pr_number pr))
      else if pr_mergeable pr \<noteq> Some True then Some (RungNoMergeableState (pr_number pr))
      else None)"

definition rungFault :: "pull_request \<Rightarrow> rung_block option" where
  "rungFault pr =
     (if pr_ciStatus pr = CiFailing then Some (RungCiFailing (pr_number pr))
      else if pr_approved pr = Some False then Some (RungApprovalWithdrawn (pr_number pr))
      else if 0 < unresolved_count pr then Some (RungUnresolved (pr_number pr) (unresolved_count pr))
      else if rung_conflicts pr then Some (RungConflicts (pr_number pr))
      else None)"

fun landingReadiness :: "pull_request list \<Rightarrow> bool \<times> rung_block option" where
  "landingReadiness [] = (False, None)"
| "landingReadiness (pr # rest) =
     (case rungVerdict pr of
        Some b \<Rightarrow> (False, Some b)
      | None \<Rightarrow> if rest = [] then (True, None) else landingReadiness rest)"

datatype scope_error = NoOpenStack string | RungNotOpen string

definition landingScope ::
  "string \<Rightarrow> pull_request list \<Rightarrow> plan list \<Rightarrow> plan_part list \<Rightarrow> string \<Rightarrow> scope_error + (nat list \<times> pull_request list)" where
  "landingScope ref openPrs plans parts defaultBranch =
     (case find (\<lambda>s. sk_ref s = ref) (buildStacks openPrs plans parts defaultBranch) of
        None \<Rightarrow> Inl (NoOpenStack ref)
      | Some s \<Rightarrow>
          let prs = map (\<lambda>r. find (\<lambda>pr. pr_number pr = sr_prNumber r) openPrs) (sk_rungs s) in
          if None \<in> set prs then Inl (RungNotOpen ref)
          else Inr (map sr_prNumber (sk_rungs s), map the prs))"

section \<open>The table of landings\<close>

datatype landing_reason =
    SupersededByClick | CalledOff | MergeFailed nat | RungGone nat | RungBlocked rung_block | RungNotReady

record stack_landing =
  la_id :: string
  la_ref :: string
  la_rungs :: "nat list"
  la_status :: landing_status
  la_reason :: "landing_reason option"
  la_createdAt :: int
  la_updatedAt :: int

definition listStackLandings :: "nat \<Rightarrow> stack_landing list \<Rightarrow> stack_landing list" where
  "listStackLandings limit ls = take limit (js_sort (by_key (\<lambda>l. - la_createdAt l)) (rev ls))"

definition listStandingLandings :: "stack_landing list \<Rightarrow> stack_landing list" where
  "listStandingLandings ls = js_sort (by_key (\<lambda>l. - la_createdAt l)) (rev (filter (\<lambda>l. la_status l = Standing) ls))"

definition standingLandingForPr :: "nat \<Rightarrow> stack_landing list \<Rightarrow> stack_landing option" where
  "standingLandingForPr n ls = find (\<lambda>l. n \<in> set (la_rungs l)) (listStandingLandings ls)"

definition settleStackLanding ::
  "int \<Rightarrow> string \<Rightarrow> landing_status \<Rightarrow> landing_reason option \<Rightarrow> stack_landing list \<Rightarrow> bool \<times> stack_landing list" where
  "settleStackLanding now i st reason ls =
     (list_ex (\<lambda>l. la_id l = i \<and> la_status l = Standing) ls,
      update_where (\<lambda>l. la_id l = i \<and> la_status l = Standing)
        (\<lambda>l. l\<lparr>la_status := st, la_reason := reason, la_updatedAt := now\<rparr>) ls)"

definition recordStackLanding :: "int \<Rightarrow> string \<Rightarrow> string \<Rightarrow> nat list \<Rightarrow> stack_landing list \<Rightarrow> stack_landing list" where
  "recordStackLanding now newId ref rungs ls =
     foldl (\<lambda>d l. if list_ex (\<lambda>n. n \<in> set rungs) (la_rungs l)
                  then snd (settleStackLanding now (la_id l) Revoked (Some SupersededByClick) d) else d)
       ls (listStandingLandings ls)
     @ [\<lparr>la_id = newId, la_ref = ref, la_rungs = rungs, la_status = Standing, la_reason = None,
         la_createdAt = now, la_updatedAt = now\<rparr>]"

section \<open>When a landing ends\<close>

record settle_world =
  sw_pullRequests :: "pull_request list"
  sw_closed :: "pull_request list"
  sw_staleSources :: "string list"
  sw_merged :: "nat list"

definition saw_merged :: "settle_world \<Rightarrow> nat \<Rightarrow> bool" where
  "saw_merged w n =
     (if n \<in> set (sw_merged w) then True
      else case or_else (find (\<lambda>p. pr_number p = n) (sw_pullRequests w)) (map_of (index_by pr_number (sw_closed w)) n) of
          None \<Rightarrow> False
        | Some pr \<Rightarrow> pr_merged pr \<or> pr_stated pr = Some PrMerged)"

definition settle_landing :: "settle_world \<Rightarrow> stack_landing \<Rightarrow> (landing_status \<times> landing_reason option) option" where
  "settle_landing w l =
     (let remaining = filter (\<lambda>n. \<not> saw_merged w n) (la_rungs l);
          opens = index_by pr_number (filter (\<lambda>p. \<not> pr_merged p) (sw_pullRequests w))
      in if remaining = [] then Some (Landed, None)
         else case find (\<lambda>n. map_of opens n = None) remaining of
             Some n \<Rightarrow> Some (Stopped, Some (RungGone n))
           | None \<Rightarrow>
               (case List.map_filter (\<lambda>n. Option.bind (map_of opens n) rungFault) remaining of
                  [] \<Rightarrow> None
                | b # _ \<Rightarrow> Some (Stopped, Some (RungBlocked b))))"

definition settleLandings ::
  "stack_landing list \<Rightarrow> settle_world \<Rightarrow> (stack_landing \<times> landing_status \<times> landing_reason option) list" where
  "settleLandings ls w =
     (if sw_staleSources w \<noteq> [] then []
      else List.map_filter (\<lambda>l. map_option (Pair l) (settle_landing w l)) ls)"

definition landingFor :: "nat list \<Rightarrow> stack_landing list \<Rightarrow> nat list option \<Rightarrow> stack_landing option" where
  "landingFor rungs ls openNumbers =
     find (\<lambda>l. list_ex (\<lambda>n. n \<in> set rungs) (la_rungs l) \<and>
        \<not> (case openNumbers of None \<Rightarrow> False
           | Some os \<Rightarrow> list_ex (\<lambda>n. n \<in> set os \<and> n \<notin> set rungs) (la_rungs l))) ls"

definition landedCount :: "stack_landing \<Rightarrow> settle_world \<Rightarrow> nat" where
  "landedCount l w =
     (let byNumber = index_by pr_number (sw_closed w @ sw_pullRequests w) in
      length (filter (\<lambda>n. n \<in> set (sw_merged w) \<or>
        (case map_of byNumber n of None \<Rightarrow> False | Some pr \<Rightarrow> pr_merged pr \<or> pr_stated pr = Some PrMerged)) (la_rungs l)))"

section \<open>Every stack is a chain\<close>

definition chain :: "pull_request list \<Rightarrow> pull_request list \<Rightarrow> bool" where
  "chain live prs \<longleftrightarrow> prs \<noteq> [] \<and> set prs \<subseteq> set live \<and> distinct (map pr_number prs) \<and>
     successively (\<lambda>below above. pr_base above = Some (pr_branch below)) prs"

lemma chain_grows:
  "chain live path \<Longrightarrow> c \<in> set (childrenOf live (last path)) \<Longrightarrow> pr_number c \<notin> pr_number ` set path \<Longrightarrow>
   chain live (path @ [c])"
  by (auto simp: chain_def childrenOf_def successively_append_iff)

lemma walked_chain:
  "q \<in> set (stack_walk live path seen current) \<Longrightarrow> chain live path \<Longrightarrow> last path = current \<Longrightarrow>
   set seen = pr_number ` set path \<Longrightarrow>
   chain live q \<and> hd q = hd path \<and> pr_number ` set (childrenOf live (last q)) \<subseteq> pr_number ` set q"
proof (induction live path seen current rule: stack_walk.induct)
  case (1 live path seen current)
  let ?onward = "filter (\<lambda>p. pr_number p \<notin> set seen) (childrenOf live current)"
  have ne: "path \<noteq> []" using "1.prems"(2) by (simp add: chain_def)
  show ?case
  proof (cases "?onward = []")
    case True
    with "1.prems"(1) have "q = path" by (simp add: stack_walk.simps [of live path])
    with True "1.prems" show ?thesis by (auto simp: filter_empty_conv)
  next
    case False
    with "1.prems"(1) obtain c where c: "c \<in> set ?onward"
        "q \<in> set (stack_walk live (path @ [c]) (seen @ [pr_number c]) c)"
      by (auto simp: stack_walk.simps [of live path] simp del: filter_empty_conv)
    with "1.prems" have "chain live (path @ [c])" by (intro chain_grows) auto
    from "1.IH" [OF refl False c(1) c(2) this] "1.prems"(4) ne show ?thesis by simp
  qed
qed

lemma rungs_length: "length (stack_rungs parts prs) = length prs"
  by (simp add: stack_rungs_def)

lemma rungs_numbers: "map sr_prNumber (stack_rungs parts prs) = map pr_number prs"
  by (rule nth_equalityI) (simp_all add: stack_rungs_def)

lemma rungs_positions: "map sr_position (stack_rungs parts prs) = [1..<Suc (length prs)]"
  by (rule nth_equalityI) (simp_all add: stack_rungs_def del: upt_Suc)

lemma rungs_successive:
  "successively (\<lambda>below above. pr_base above = Some (pr_branch below)) prs \<Longrightarrow>
   successively (\<lambda>below above. sr_base above = sr_branch below) (stack_rungs parts prs)"
  by (auto simp: successively_conv_nth stack_rungs_def)

definition live_prs :: "pull_request list \<Rightarrow> pull_request list" where
  "live_prs = filter (\<lambda>p. \<not> pr_merged p)"

text \<open>
  C21. Every stack offered is a maximal chain of open pull requests: two rungs or more, none twice, numbered
  from the bottom, each based on the branch of the one below; the bottom is based on no live pull request,
  and nothing live is based on the leaf but what the chain holds already.
\<close>

theorem stacks_are_chains:
  assumes "s \<in> set (buildStacks openPrs plans parts d)"
  shows "2 \<le> length (sk_rungs s) \<and> distinct (map sr_prNumber (sk_rungs s)) \<and>
    map sr_position (sk_rungs s) = [1..<Suc (length (sk_rungs s))] \<and>
    successively (\<lambda>below above. sr_base above = sr_branch below) (sk_rungs s) \<and>
    (\<exists>prs. map sr_prNumber (sk_rungs s) = map pr_number prs \<and> set prs \<subseteq> set (live_prs openPrs) \<and>
       stack_base (live_prs openPrs) d (hd prs) = None \<and>
       pr_number ` set (childrenOf (live_prs openPrs) (last prs)) \<subseteq> pr_number ` set prs)"
proof -
  let ?live = "live_prs openPrs"
  from assms obtain b prs where b: "b \<in> set ?live" "stack_base ?live d b = None"
    and prs: "prs \<in> set (pathsFrom ?live b)" "2 \<le> length prs" and s: "sk_rungs s = stack_rungs parts prs"
    by (auto simp: buildStacks_def Let_def live_prs_def assemble_def)
  have "chain ?live [b]" using b(1) by (simp add: chain_def)
  with prs(1) have "chain ?live prs \<and> hd prs = b \<and> pr_number ` set (childrenOf ?live (last prs)) \<subseteq> pr_number ` set prs"
    unfolding pathsFrom_def by (drule_tac walked_chain) auto
  with b(2) prs(2) show ?thesis
    unfolding s rungs_length rungs_numbers rungs_positions by (auto simp: chain_def intro: rungs_successive)
qed

theorem stacks_are_chains_witness:
  "\<exists>s. buildStacks [pr0 4 ''a'' ''main'', pr0 5 ''b'' ''a''] [] [] ''main'' = [s] \<and> map sr_prNumber (sk_rungs s) = [4, 5] \<and>
     map sr_position (sk_rungs s) = [1, 2] \<and> successively (\<lambda>below above. sr_base above = sr_branch below) (sk_rungs s)"
proof -
  let ?ss = "buildStacks [pr0 4 ''a'' ''main'', pr0 5 ''b'' ''a''] [] [] ''main''"
  have e: "map (\<lambda>s. map sr_prNumber (sk_rungs s)) ?ss = [[4, 5]]" by code_simp
  then obtain s where s: "?ss = [s]" "map sr_prNumber (sk_rungs s) = [4, 5]" by (auto simp: map_eq_Cons_conv)
  then have "length (sk_rungs s) = 2" by (metis length_map length_Cons list.size(3) Suc_1 One_nat_def)
  with stacks_are_chains [of s "[pr0 4 ''a'' ''main'', pr0 5 ''b'' ''a'']" "[]" "[]" "''main''"] s show ?thesis
    by (simp add: upt_rec)
qed

end
