(* ===== verification/Outbound.thy ===== *)
theory Outbound
  imports Executor Stacks
begin

text \<open>
  Acts put to the operator and acts performed outside. The table of proposals
  (\<^verbatim>\<open>src/src/store/escalations.ts\<close>), asking (\<^verbatim>\<open>src/src/executor/proposalActs.ts\<close>, \<^verbatim>\<open>authorize\<close> of
  \<^verbatim>\<open>actionExecutor.ts\<close>), answering (\<^verbatim>\<open>src/src/proposals/proposalDesk.ts\<close>), running what was authorised
  (\<^verbatim>\<open>authorizedActs.ts\<close>), the desk of the landings (\<^verbatim>\<open>src/src/stacks/landingDesk.ts\<close>), the acts a provider
  performs itself (\<^verbatim>\<open>providerActs.ts\<close>), and one pass of the executor over a list of actions. Every call
  that leaves the harness is appended to the state; what it answers, the clock and the drawn ids come in
  an environment. Prompts and details written for people are left out.
\<close>

section \<open>The state\<close>

record caveat =
  cv_id :: string
  cv_label :: string

text \<open>An action with the fields an act proposed from it is read back from.\<close>

record x_action = action +
  xa_cause :: "string option"
  xa_summary :: "string option"
  xa_partSlug :: "string option"
  xa_method :: "string option"
  xa_draft :: "string option"
  xa_commentId :: "string option"
  xa_resolve :: bool
  xa_caveats :: "(string option \<times> string option) list"

record stored_proposal = proposal +
  sp_action :: x_action
  sp_escalationId :: "string option"
  sp_createdAt :: int

datatype provider_call =
    CallUpdateBranch nat string
  | CallRequeue nat string
  | CallSetState nat string
  | CallResolveThread nat string

record sent_act =
  sn_proposal :: string
  sn_act :: proposed_act
  sn_at :: int

record caveat_answer =
  ca_planId :: string
  ca_caveatId :: string
  ca_label :: string
  ca_answer :: string

record outbox =
  ob_exec :: executor
  ob_proposals :: "stored_proposal list"
  ob_landings :: "stack_landing list"
  ob_sets :: "plan_record list"
  ob_checks :: "validation_check list"
  ob_shortfalls :: "shortfall list"
  ob_conclusions :: "conclusion list"
  ob_answers :: "caveat_answer list"
  ob_replies :: "(nat \<times> string \<times> string) list"
  ob_reopened :: "(nat \<times> string) list"
  ob_published :: "(nat, string) jsmap"
  ob_mergeAsks :: "(string \<times> nat) list"
  ob_sent :: "sent_act list"
  ob_calls :: "provider_call list"

record out_env =
  oe_now :: int
  oe_propId :: string
  oe_escId :: string
  oe_failEscId :: string
  oe_stopEsc :: "string \<Rightarrow> string"
  oe_events :: "world_event list"
  oe_autoSend :: bool
  oe_mergeOk :: bool
  oe_reply :: "(string option \<times> string option) option"
  oe_canResolve :: bool
  oe_branchOk :: "bool option"
  oe_requeueOk :: "string \<Rightarrow> bool option"
  oe_stateOk :: bool
  oe_fresh :: fresh_ids
  oe_describe :: "doc_issue list \<Rightarrow> string"
  oe_iso :: "int \<Rightarrow> string"

definition on_exec :: "(executor \<Rightarrow> executor) \<Rightarrow> outbox \<Rightarrow> outbox" where
  "on_exec f ob = ob\<lparr>ob_exec := f (ob_exec ob)\<rparr>"

definition on_plans :: "plan_db \<Rightarrow> outbox \<Rightarrow> outbox" where
  "on_plans db = on_exec (\<lambda>x. x\<lparr>xs_plans := db\<rparr>)"

definition open_ask :: "string \<Rightarrow> outbox \<Rightarrow> outbox" where
  "open_ask i = on_exec (on_fleet (createEscalation i None))"

definition audit :: "int \<Rightarrow> x_action \<Rightarrow> decision_outcome \<Rightarrow> outbox \<Rightarrow> outbox" where
  "audit now x outcome = on_exec (on_fleet (recordDecision now (action.truncate x) outcome))"

section \<open>The table of proposals\<close>

definition createProposal ::
  "out_env \<Rightarrow> proposal_kind \<Rightarrow> string \<Rightarrow> x_action \<Rightarrow> string option \<Rightarrow> outbox \<Rightarrow> stored_proposal \<times> outbox" where
  "createProposal oe kind ref x escId ob =
     (let p = \<lparr>pn_id = oe_propId oe, pn_kind = kind, pn_ref = ref, pn_status = ProposalPending, pn_note = None,
        pn_decidedBy = None, pn_decidedAt = None, sp_action = x, sp_escalationId = escId, sp_createdAt = oe_now oe\<rparr>
      in (p, ob\<lparr>ob_proposals := ob_proposals ob @ [p]\<rparr>))"

definition getProposal :: "outbox \<Rightarrow> string \<Rightarrow> stored_proposal option" where
  "getProposal ob i = find (\<lambda>p. pn_id p = i) (ob_proposals ob)"

definition pending_row :: "string \<Rightarrow> stored_proposal \<Rightarrow> bool" where
  "pending_row i p \<longleftrightarrow> pn_id p = i \<and> pn_status p = ProposalPending"

text \<open>Both updates carry the guard that the row is still pending; \<^term>\<open>None\<close>: no row changed.\<close>

definition decideProposal ::
  "int \<Rightarrow> string \<Rightarrow> proposal_status \<Rightarrow> string option \<Rightarrow> decider \<Rightarrow> outbox \<Rightarrow> stored_proposal option \<times> outbox" where
  "decideProposal now i st note by ob =
     (if \<not> list_ex (pending_row i) (ob_proposals ob) then (None, ob)
      else let ob' = ob\<lparr>ob_proposals := update_where (pending_row i)
              (\<lambda>p. p\<lparr>pn_status := st, pn_note := note, pn_decidedBy := Some by, pn_decidedAt := Some now\<rparr>) (ob_proposals ob)\<rparr>
        in (getProposal ob' i, ob'))"

definition withdrawProposal :: "int \<Rightarrow> string \<Rightarrow> string \<Rightarrow> outbox \<Rightarrow> bool \<times> outbox" where
  "withdrawProposal now i note ob =
     (list_ex (pending_row i) (ob_proposals ob),
      ob\<lparr>ob_proposals := update_where (pending_row i)
         (\<lambda>p. p\<lparr>pn_status := ProposalWithdrawn, pn_note := Some note, pn_decidedAt := Some now\<rparr>) (ob_proposals ob)\<rparr>)"

definition listProposals :: "outbox \<Rightarrow> proposal list" where
  "listProposals ob = map proposal.truncate (js_sort (by_key (\<lambda>p. - sp_createdAt p)) (rev (ob_proposals ob)))"

definition rejectionSignals :: "world_event list \<Rightarrow> proposal list \<Rightarrow> world_event list" where
  "rejectionSignals events proposals = fetched (rejectionSignalQuery proposals) events"

section \<open>Reading an act back\<close>

definition stored_act :: "x_action \<Rightarrow> act_fields" where
  "stored_act x =
     \<lparr>af_prNumber = (if a_type x = MergePr \<or> a_type x = ReplyOnPr then a_number x else None),
      af_planId = a_planId x, af_originRef = a_originRef x,
      af_issueNumber = (if a_type x = ProposeValidationPlan \<or> a_type x = ProposeShortfall then a_number x else None),
      af_amendmentId = a_amendmentId x, af_cause = xa_cause x, af_summary = xa_summary x,
      af_partSlug = xa_partSlug x, af_method = xa_method x, af_draft = xa_draft x, af_commentId = xa_commentId x,
      af_resolve = xa_resolve x\<rparr>"

definition read_act :: "stored_proposal \<Rightarrow> act_error + proposed_act" where
  "read_act p = readProposedAct (pn_kind p) (stored_act (sp_action p))"

section \<open>Caveats\<close>

definition proposedCaveats :: "stored_proposal \<Rightarrow> caveat list" where
  "proposedCaveats p =
     List.map_filter (\<lambda>(i, l). case (truthy i, truthy l) of
        (Some i, Some l) \<Rightarrow> Some \<lparr>cv_id = i, cv_label = l\<rparr> | _ \<Rightarrow> None) (xa_caveats (sp_action p))"

definition unacknowledgedCaveats :: "caveat list \<Rightarrow> string list \<Rightarrow> caveat list" where
  "unacknowledgedCaveats caveats acknowledged = filter (\<lambda>c. cv_id c \<notin> set acknowledged) caveats"

definition answeredCaveats :: "caveat list \<Rightarrow> (string \<times> string) list \<Rightarrow> (string \<times> string \<times> string) list" where
  "answeredCaveats caveats answers =
     List.map_filter (\<lambda>(i, answer). case map_of (index_by cv_id caveats) i of
        None \<Rightarrow> None
      | Some c \<Rightarrow> if trim answer = '''' then None else Some (cv_id c, cv_label c, trim answer)) answers"

definition recordPlanCaveatAnswers :: "string \<Rightarrow> (string \<times> string \<times> string) list \<Rightarrow> outbox \<Rightarrow> outbox" where
  "recordPlanCaveatAnswers planId kept ob =
     ob\<lparr>ob_answers := ob_answers ob @
       map (\<lambda>(i, l, w). \<lparr>ca_planId = planId, ca_caveatId = i, ca_label = l, ca_answer = w\<rparr>) kept\<rparr>"

section \<open>Landings on the desk\<close>

definition land :: "int \<Rightarrow> string \<Rightarrow> string \<Rightarrow> nat list \<Rightarrow> outbox \<Rightarrow> outbox" where
  "land now newId ref rungs ob = ob\<lparr>ob_landings := recordStackLanding now newId ref rungs (ob_landings ob)\<rparr>"

definition revoke_landing :: "int \<Rightarrow> nat \<Rightarrow> outbox \<Rightarrow> outbox" where
  "revoke_landing now n ob =
     (case standingLandingForPr n (ob_landings ob) of
        None \<Rightarrow> ob
      | Some l \<Rightarrow> ob\<lparr>ob_landings := snd (settleStackLanding now (la_id l) Revoked (Some CalledOff) (ob_landings ob))\<rparr>)"

definition stop_landing :: "out_env \<Rightarrow> stack_landing \<Rightarrow> landing_reason \<Rightarrow> outbox \<Rightarrow> outbox" where
  "stop_landing oe l reason ob =
     (case settleStackLanding (oe_now oe) (la_id l) Stopped (Some reason) (ob_landings ob) of
        (False, _) \<Rightarrow> ob
      | (True, ls) \<Rightarrow> open_ask (oe_stopEsc oe (la_id l)) (ob\<lparr>ob_landings := ls\<rparr>))"

definition stopForFailedMerge :: "out_env \<Rightarrow> nat \<Rightarrow> outbox \<Rightarrow> outbox" where
  "stopForFailedMerge oe n ob =
     (case standingLandingForPr n (ob_landings ob) of
        None \<Rightarrow> ob | Some l \<Rightarrow> stop_landing oe l (MergeFailed n) ob)"

definition settle_one :: "out_env \<Rightarrow> outbox \<Rightarrow> stack_landing \<times> landing_status \<times> landing_reason option \<Rightarrow> outbox" where
  "settle_one oe ob e =
     (case e of (l, st, reason) \<Rightarrow>
        if st = Landed then ob\<lparr>ob_landings := snd (settleStackLanding (oe_now oe) (la_id l) Landed None (ob_landings ob))\<rparr>
        else stop_landing oe l (default_to RungNotReady reason) ob)"

definition settle_landings :: "out_env \<Rightarrow> settle_world \<Rightarrow> outbox \<Rightarrow> outbox" where
  "settle_landings oe w ob =
     foldl (settle_one oe) ob (settleLandings (listStandingLandings (ob_landings ob)) w)"

section \<open>The set of checks\<close>

definition getValidationPlanRecord :: "outbox \<Rightarrow> string \<Rightarrow> plan_record option" where
  "getValidationPlanRecord ob originRef = find (\<lambda>r. vr_originRef r = originRef) (ob_sets ob)"

definition releaseValidationPlan :: "int \<Rightarrow> string \<Rightarrow> outbox \<Rightarrow> plan_record option \<times> outbox" where
  "releaseValidationPlan now originRef ob =
     (case getValidationPlanRecord ob originRef of
        None \<Rightarrow> (None, ob)
      | Some r \<Rightarrow>
          if vr_authoredAt r = None then (None, ob)
          else if vr_releasedAt r \<noteq> None then (Some r, ob)
          else let ob' = ob\<lparr>ob_sets := update_where (\<lambda>r. vr_originRef r = originRef) (\<lambda>r. r\<lparr>vr_releasedAt := Some now\<rparr>) (ob_sets ob)\<rparr>
            in (getValidationPlanRecord ob' originRef, ob'))"

definition withdrawValidationAuthoring :: "string \<Rightarrow> outbox \<Rightarrow> outbox" where
  "withdrawValidationAuthoring originRef ob =
     (case getValidationPlanRecord ob originRef of
        None \<Rightarrow> ob
      | Some r \<Rightarrow>
          if vr_authoredAt r = None then ob
          else ob\<lparr>ob_sets := update_where (\<lambda>r. vr_originRef r = originRef)
                 (\<lambda>r. r\<lparr>vr_authoredAt := None, vr_releasedAt := None\<rparr>) (ob_sets ob)\<rparr>)"

definition listValidationChecks :: "outbox \<Rightarrow> string \<Rightarrow> validation_check list" where
  "listValidationChecks ob originRef =
     js_sort (cmp_or (by_key (\<lambda>c. int (vc_seq c))) (\<lambda>a b. cmp_string (vc_letter a) (vc_letter b)))
       (filter (\<lambda>c. vc_originRef c = originRef) (ob_checks ob))"

record decline_resolution =
  dr_resolved :: "(validation_check \<times> string) list"
  dr_unknown :: "string list"
  dr_whole :: bool

definition decline_step ::
  "validation_check list \<Rightarrow> (validation_check \<times> string) list \<times> string list \<Rightarrow> string \<times> string
     \<Rightarrow> (validation_check \<times> string) list \<times> string list" where
  "decline_step live s d =
     (case s of (named, unknown) \<Rightarrow>
        case map_of (index_by vc_letter live) (fst d) of
          None \<Rightarrow> (named, unknown @ [fst d])
        | Some c \<Rightarrow>
            if vc_id c \<in> set (map (\<lambda>e. vc_id (fst e)) named) then (named, unknown)
            else (named @ [(c, snd d)], unknown))"

definition resolveDeclines :: "validation_check list \<Rightarrow> (string \<times> string) list \<Rightarrow> decline_resolution" where
  "resolveDeclines checks declines =
     (let live = liveChecks checks; (named, unknown) = foldl (decline_step live) ([], []) declines
      in \<lparr>dr_resolved = named, dr_unknown = unknown, dr_whole = (live \<noteq> [] \<and> length named = length live)\<rparr>)"

text \<open>\<^verbatim>\<open>recordValidationResult\<close> as a decline calls it: by the operator, with a note, without a capture or a date.\<close>

definition declined_check :: "int \<Rightarrow> string \<Rightarrow> validation_check \<Rightarrow> validation_check" where
  "declined_check now reason c = c\<lparr>vc_state := DeclinedCheck, vc_resultNote := Some reason,
     vc_resultBy := Some ResultOperator, vc_resultAt := Some (Instant now), vc_deferUntil := None, vc_revision := None,
     vc_amendedAt := None, vc_amendNote := None, vc_handbackNote := None, vc_claimedBy := None, vc_claimedAt := None,
     vc_updatedAt := now\<rparr>"

definition applyDeclines :: "int \<Rightarrow> string \<Rightarrow> (validation_check \<times> string) list \<Rightarrow> outbox \<Rightarrow> outbox" where
  "applyDeclines now originRef named ob =
     ob\<lparr>ob_checks := foldl (\<lambda>cs (c, reason). update_where (\<lambda>d. vc_originRef d = originRef \<and> vc_id d = vc_id c)
          (declined_check now reason) cs) (ob_checks ob) named\<rparr>"

text \<open>The em dash of the note, one code unit, by its Windows-1252 code.\<close>

definition wholeSetNote :: "(validation_check \<times> string) list \<Rightarrow> string option \<Rightarrow> string" where
  "wholeSetNote named note =
     join_with [CHR 0x0A]
       ((case truthy (map_option trim note) of None \<Rightarrow> [] | Some s \<Rightarrow> [s]) @ [''Every check in the set was declined:''] @
        map (\<lambda>(c, reason). vc_letter c @ ''. '' @ vc_title c @ '' '' @ [CHR 0x97] @ '' '' @ reason) named)"

section \<open>Running what was authorised\<close>

definition set_published :: "nat \<Rightarrow> string \<Rightarrow> outbox \<Rightarrow> outbox" where
  "set_published n thread ob = ob\<lparr>ob_published := map_put n thread (ob_published ob)\<rparr>"

definition recordReplySent :: "nat \<Rightarrow> string \<Rightarrow> string option \<Rightarrow> outbox \<Rightarrow> outbox" where
  "recordReplySent n thread commentRef ob =
     (case truthy commentRef of
        None \<Rightarrow> ob
      | Some c \<Rightarrow> ob\<lparr>ob_replies := set_add (n, thread, c) (ob_replies ob)\<rparr>)"

definition recordReviewPublished :: "nat \<Rightarrow> string option \<Rightarrow> string option \<Rightarrow> string option \<Rightarrow> outbox \<Rightarrow> outbox" where
  "recordReviewPublished n commentId originRef threadRef ob =
     (case (commentId, truthy threadRef) of
        (None, Some t) \<Rightarrow> if originRef = Some (reviewOrigin n) then set_published n t ob else ob
      | _ \<Rightarrow> ob)"

definition resolveAnswered :: "out_env \<Rightarrow> nat \<Rightarrow> string option \<Rightarrow> bool \<Rightarrow> outbox \<Rightarrow> outbox" where
  "resolveAnswered oe n commentId resolve ob =
     (case commentId of
        None \<Rightarrow> ob
      | Some c \<Rightarrow> if resolve \<and> oe_canResolve oe then ob\<lparr>ob_calls := ob_calls ob @ [CallResolveThread n c]\<rparr> else ob)"

definition escalateFailedSend :: "out_env \<Rightarrow> nat option \<Rightarrow> outbox \<Rightarrow> decision_outcome \<times> outbox" where
  "escalateFailedSend oe merge ob =
     (Rejected,
      case merge of
        None \<Rightarrow> open_ask (oe_failEscId oe) ob
      | Some n \<Rightarrow>
          let ob1 = open_ask (oe_failEscId oe) (stopForFailedMerge oe n ob)
          in ob1\<lparr>ob_mergeAsks := ob_mergeAsks ob1 @ [(oe_failEscId oe, n)]\<rparr>)"

definition note_sent :: "out_env \<Rightarrow> stored_proposal \<Rightarrow> proposed_act \<Rightarrow> outbox \<Rightarrow> outbox" where
  "note_sent oe p act ob = ob\<lparr>ob_sent := ob_sent ob @ [\<lparr>sn_proposal = pn_id p, sn_act = act, sn_at = oe_now oe\<rparr>]\<rparr>"

fun sendAuthorized :: "out_env \<Rightarrow> proposed_act \<Rightarrow> stored_proposal \<Rightarrow> outbox \<Rightarrow> decision_outcome \<times> outbox" where
  "sendAuthorized oe (ActMerge n m) p ob =
     (let ob1 = note_sent oe p (ActMerge n m) ob in
      if oe_mergeOk oe then (Executed, ob1) else escalateFailedSend oe (Some n) ob1)"
| "sendAuthorized oe (ActReply n commentId body resolve originRef) p ob =
     (let ob1 = note_sent oe p (ActReply n commentId body resolve originRef) ob in
      case oe_reply oe of
        None \<Rightarrow> escalateFailedSend oe None ob1
      | Some (commentRef, threadRef) \<Rightarrow>
          let ob2 = (case commentId of
                None \<Rightarrow> ob1
              | Some c \<Rightarrow> recordReplySent n c commentRef (ob1\<lparr>ob_reopened := removeAll (n, c) (ob_reopened ob1)\<rparr>))
          in (Executed, resolveAnswered oe n commentId resolve (recordReviewPublished n commentId originRef threadRef ob2)))"
| "sendAuthorized oe _ p ob = (Rejected, ob)"

definition done_or_skipped :: "bool \<Rightarrow> decision_outcome" where
  "done_or_skipped ok = (if ok then Executed else Skipped)"

fun amended :: "amendment_result \<Rightarrow> bool" where
  "amended (AmendmentApplied _ _ _) = True"
| "amended _ = False"

fun settleAuthorized ::
  "out_env \<Rightarrow> proposed_act \<Rightarrow> (string \<times> string) list \<Rightarrow> outbox \<Rightarrow> decision_outcome \<times> outbox" where
  "settleAuthorized oe (ActPlan planId originRef) declined ob =
     (case releasePlan (oe_now oe) planId (xs_plans (ob_exec ob)) of
        (r, db) \<Rightarrow> (done_or_skipped (settled_ok r), on_plans db ob))"
| "settleAuthorized oe (ActValidationPlan originRef n) declined ob =
     (case releaseValidationPlan (oe_now oe) originRef ob of
        (None, ob1) \<Rightarrow> (Skipped, ob1)
      | (Some r, ob1) \<Rightarrow>
          if vr_releasedAt r = None then (Skipped, ob1)
          else (Executed, applyDeclines (oe_now oe) originRef
                 (dr_resolved (resolveDeclines (listValidationChecks ob1 originRef) declined)) ob1))"
| "settleAuthorized oe (ActAmendment amendmentId planId originRef) declined ob =
     (case applyPlanAmendment (oe_describe oe) (oe_now oe) (oe_fresh oe) amendmentId (xs_plans (ob_exec ob)) of
        (r, db) \<Rightarrow> (done_or_skipped (amended r), on_plans db ob))"
| "settleAuthorized oe (ActShortfall planId originRef part summary) declined ob =
     (case actOnShortfall (oe_now oe) planId (part = FellShortPlan)
             (case part of FellShortPlan \<Rightarrow> None | FellShortPart slug \<Rightarrow> Some slug) summary (xs_plans (ob_exec ob)) of
        (r, db) \<Rightarrow> (done_or_skipped (settled_ok r),
           let ob1 = on_plans db ob in
           if settled_ok r then ob1\<lparr>ob_shortfalls := filter (\<lambda>s. sf_originRef s \<noteq> originRef) (ob_shortfalls ob1)\<rparr> else ob1))"
| "settleAuthorized oe _ declined ob = (Rejected, ob)"

fun sends_out :: "proposed_act \<Rightarrow> bool" where
  "sends_out (ActMerge _ _) = True"
| "sends_out (ActReply _ _ _ _ _) = True"
| "sends_out _ = False"

definition runAuthorized ::
  "out_env \<Rightarrow> stored_proposal \<Rightarrow> (string \<times> string) list \<Rightarrow> outbox \<Rightarrow> decision_outcome \<times> outbox" where
  "runAuthorized oe p declined ob =
     (case read_act p of
        Inl _ \<Rightarrow> (Rejected, audit (oe_now oe) (sp_action p) Rejected ob)
      | Inr act \<Rightarrow>
          (case (if sends_out act then sendAuthorized oe act p ob else settleAuthorized oe act declined ob) of
             (outcome, ob') \<Rightarrow> (outcome, audit (oe_now oe) (sp_action p) outcome ob')))"

section \<open>Asking\<close>

text \<open>An ask raised and a proposal tied to it; an act a proposal already stands for is skipped.\<close>

definition ask_operator :: "out_env \<Rightarrow> proposal_kind \<Rightarrow> string \<Rightarrow> x_action \<Rightarrow> outbox \<Rightarrow> outbox" where
  "ask_operator oe kind ref x ob = snd (createProposal oe kind ref x (Some (oe_escId oe)) (open_ask (oe_escId oe) ob))"

definition proposePlan :: "out_env \<Rightarrow> x_action \<Rightarrow> outbox \<Rightarrow> decision_outcome \<times> outbox" where
  "proposePlan oe x ob =
     (let ref = planProposalRef (default_to '''' (a_originRef x)) in
      if planProposalHold ref (listProposals ob) \<noteq> None then (Skipped, ob)
      else (Executed, ask_operator oe PlanAct ref x ob))"

definition proposeValidationPlan :: "out_env \<Rightarrow> x_action \<Rightarrow> outbox \<Rightarrow> decision_outcome \<times> outbox" where
  "proposeValidationPlan oe x ob =
     (let ref = validationPlanProposalRef (default_to 0 (a_number x)) in
      if validationPlanProposalHold ref (listProposals ob) \<noteq> None then (Skipped, ob)
      else (Executed, ask_operator oe ValidationPlanAct ref x ob))"

definition proposeAmendmentAct :: "out_env \<Rightarrow> x_action \<Rightarrow> outbox \<Rightarrow> decision_outcome \<times> outbox" where
  "proposeAmendmentAct oe x ob =
     (let amendmentId = default_to '''' (a_amendmentId x); ref = planAmendmentProposalRef amendmentId in
      if planAmendmentHold ref (listProposals ob) \<noteq> None then (Skipped, ob)
      else case getPlanAmendment (xs_plans (ob_exec ob)) amendmentId of
          None \<Rightarrow> (Skipped, ob)
        | Some a \<Rightarrow> if am_status a \<noteq> AmPending then (Skipped, ob)
            else (Executed, ask_operator oe PlanAmendmentAct ref x ob))"

definition act_held :: "out_env \<Rightarrow> proposal_kind \<Rightarrow> string \<Rightarrow> outbox \<Rightarrow> proposal_hold option" where
  "act_held oe kind ref ob =
     proposalHold kind ref (listProposals ob) (rejectionSignals (oe_events oe) (listProposals ob)) (oe_now oe)"

definition proposeShortfall :: "out_env \<Rightarrow> x_action \<Rightarrow> outbox \<Rightarrow> decision_outcome \<times> outbox" where
  "proposeShortfall oe x ob =
     (let ref = shortfallRef (default_to 0 (a_number x)) in
      if act_held oe ShortfallAct ref ob \<noteq> None then (Skipped, ob)
      else (Executed, ask_operator oe ShortfallAct ref x ob))"

definition proposeOutbound :: "out_env \<Rightarrow> x_action \<Rightarrow> proposal_kind \<Rightarrow> string \<Rightarrow> outbox \<Rightarrow> decision_outcome \<times> outbox" where
  "proposeOutbound oe x kind ref ob =
     (let ob1 = ask_operator oe kind ref x ob in
      (Executed, if a_type x = MergePr
                 then ob1\<lparr>ob_mergeAsks := ob_mergeAsks ob1 @ [(oe_escId oe, default_to 0 (a_number x))]\<rparr> else ob1))"

text \<open>The answer says whether the run has put the decision on record itself.\<close>

definition landing_note :: "out_env \<Rightarrow> stack_landing \<Rightarrow> string" where
  "landing_note oe l = ''you authorized landing '' @ la_ref l @ '' ('' @ show_nat (length (la_rungs l)) @
     '' pull requests) on '' @ oe_iso oe (la_createdAt l)"

definition AUTO_SEND_NOTE :: string where
  "AUTO_SEND_NOTE = ''you set \"sendPrRepliesWithoutApproval\", which sends a drafted reply without asking''"

definition authorize :: "out_env \<Rightarrow> x_action \<Rightarrow> outbox \<Rightarrow> decision_outcome \<times> bool \<times> outbox" where
  "authorize oe x ob =
     (let merge = (a_type x = MergePr); n = default_to 0 (a_number x);
          kind = (if merge then MergeAct else ReplyDraft);
          ref = (if merge then mergeProposalRef n else replyProposalRef n (xa_commentId x))
      in if act_held oe kind ref ob \<noteq> None then (Skipped, False, ob)
         else
           let landing = (if merge then standingLandingForPr n (ob_landings ob) else None);
               autoSend = (\<not> merge \<and> oe_autoSend oe)
           in if landing \<noteq> None \<or> autoSend then
                let (p, ob1) = createProposal oe kind ref x None ob;
                    (dec, ob2) = decideProposal (oe_now oe) (pn_id p) ProposalAccepted
                       (Some (case landing of Some l \<Rightarrow> landing_note oe l | None \<Rightarrow> AUTO_SEND_NOTE))
                       (if landing \<noteq> None then ByStackLanding else ByAutoSend) ob1;
                    (outcome, ob3) = runAuthorized oe (default_to p dec) [] ob2
                in (outcome, True, ob3)
              else let (outcome, ob1) = proposeOutbound oe x kind ref ob in (outcome, False, ob1))"

definition sendOutbound :: "out_env \<Rightarrow> x_action \<Rightarrow> outbox \<Rightarrow> decision_outcome \<times> outbox" where
  "sendOutbound oe x ob =
     (case authorize oe x ob of (outcome, recorded, ob1) \<Rightarrow>
        (outcome, if recorded then ob1 else audit (oe_now oe) x outcome ob1))"

text \<open>A reply an agent hands to the harness takes the same route as one a rule drafts.\<close>

definition reply_action :: "nat \<Rightarrow> string option \<Rightarrow> string \<Rightarrow> bool \<Rightarrow> string \<Rightarrow> x_action" where
  "reply_action n commentId draft resolve originRef =
     action.extend ((new_action ReplyOnPr)\<lparr>a_number := Some n, a_originRef := Some originRef\<rparr>)
       (x_action.fields None None None None (Some draft) commentId resolve [])"

definition proposeReply ::
  "out_env \<Rightarrow> nat \<Rightarrow> string option \<Rightarrow> string \<Rightarrow> bool \<Rightarrow> string \<Rightarrow> outbox \<Rightarrow> decision_outcome \<times> outbox" where
  "proposeReply oe n commentId draft resolve originRef ob =
     sendOutbound oe (reply_action n commentId draft resolve originRef) ob"

section \<open>Answering\<close>

datatype answer = NothingPending | StillUnacknowledged "caveat list" | Performed bool | SetAside

definition closeEscalation :: "stored_proposal \<Rightarrow> outbox \<Rightarrow> outbox" where
  "closeEscalation p ob =
     (case truthy (sp_escalationId p) of None \<Rightarrow> ob | Some i \<Rightarrow> on_exec (on_fleet (answer_escalation i)) ob)"

definition settlePlan :: "int \<Rightarrow> stored_proposal \<Rightarrow> outbox \<Rightarrow> outbox" where
  "settlePlan now p ob =
     (case (pn_kind p, read_act p) of
        (ValidationPlanAct, Inr (ActValidationPlan originRef n)) \<Rightarrow> withdrawValidationAuthoring originRef ob
      | (PlanAmendmentAct, Inr (ActAmendment amendmentId planId originRef)) \<Rightarrow>
          on_plans (snd (declinePlanAmendment now amendmentId (pn_note p) (xs_plans (ob_exec ob)))) ob
      | (PlanAct, Inr (ActPlan planId originRef)) \<Rightarrow>
          on_plans (snd (refusePlan now planId (pn_note p) (xs_plans (ob_exec ob)))) ob
      | _ \<Rightarrow> ob)"

definition reject_proposal :: "int \<Rightarrow> string \<Rightarrow> string option \<Rightarrow> outbox \<Rightarrow> answer \<times> outbox" where
  "reject_proposal now i note ob =
     (case decideProposal now i ProposalRejected (truthy (map_option trim note)) ByHuman ob of
        (None, ob1) \<Rightarrow> (NothingPending, ob1)
      | (Some p, ob1) \<Rightarrow>
          (SetAside, audit now (sp_action p) Skipped (settlePlan now p (closeEscalation p ob1))))"

definition declinedWholeSet ::
  "stored_proposal option \<Rightarrow> (string \<times> string) list \<Rightarrow> string option \<Rightarrow> outbox \<Rightarrow> string option" where
  "declinedWholeSet standing declined note ob =
     (case standing of
        None \<Rightarrow> None
      | Some p \<Rightarrow>
          if declined = [] \<or> pn_status p \<noteq> ProposalPending \<or> pn_kind p \<noteq> ValidationPlanAct then None
          else case read_act p of
              Inr (ActValidationPlan originRef n) \<Rightarrow>
                (let r = resolveDeclines (listValidationChecks ob originRef) declined in
                 if dr_whole r then Some (wholeSetNote (dr_resolved r) note) else None)
            | _ \<Rightarrow> None)"

definition recordAnswers :: "stored_proposal \<Rightarrow> caveat list \<Rightarrow> (string \<times> string) list \<Rightarrow> outbox \<Rightarrow> outbox" where
  "recordAnswers p raised answers ob =
     (case read_act p of
        Inr (ActPlan planId originRef) \<Rightarrow> recordPlanCaveatAnswers planId (answeredCaveats raised answers) ob
      | _ \<Rightarrow> ob)"

definition accept_proposal ::
  "out_env \<Rightarrow> string \<Rightarrow> string option \<Rightarrow> string list \<Rightarrow> (string \<times> string) list \<Rightarrow> (string \<times> string) list
     \<Rightarrow> outbox \<Rightarrow> answer \<times> outbox" where
  "accept_proposal oe i note acknowledged answers declined ob =
     (let standing = getProposal ob i;
          raised = (case standing of None \<Rightarrow> [] | Some p \<Rightarrow> proposedCaveats p);
          left = (case standing of None \<Rightarrow> [] | Some p \<Rightarrow>
              if pn_status p = ProposalPending then unacknowledgedCaveats raised acknowledged else [])
      in if left \<noteq> [] then (StillUnacknowledged left, ob)
         else case declinedWholeSet standing declined note ob of
             Some words \<Rightarrow> reject_proposal (oe_now oe) i (Some words) ob
           | None \<Rightarrow>
               (case decideProposal (oe_now oe) i ProposalAccepted (truthy (map_option trim note)) ByHuman ob of
                  (None, ob1) \<Rightarrow> (NothingPending, ob1)
                | (Some p, ob1) \<Rightarrow>
                    (case runAuthorized oe p declined (closeEscalation p (recordAnswers p raised answers ob1)) of
                       (outcome, ob2) \<Rightarrow> (Performed (outcome = Executed), ob2))))"

text \<open>
  Backing out of a plan: put on hold, or closed for good. The watch tag, the comment and the close on the
  tracker are calls outside and are left out.
\<close>

definition recordIssueConclusion :: "conclusion \<Rightarrow> outbox \<Rightarrow> outbox" where
  "recordIssueConclusion c ob = ob\<lparr>ob_conclusions :=
     (if list_ex (\<lambda>d. cn_originRef d = cn_originRef c) (ob_conclusions ob)
      then update_where (\<lambda>d. cn_originRef d = cn_originRef c) (\<lambda>_. c) (ob_conclusions ob)
      else ob_conclusions ob @ [c])\<rparr>"

definition backOutOfPlan :: "int \<Rightarrow> string \<Rightarrow> string \<Rightarrow> bool \<Rightarrow> string option \<Rightarrow> outbox \<Rightarrow> outbox" where
  "backOutOfPlan now planId originRef close note ob =
     (case issueSubtreeNumber originRef of
        None \<Rightarrow> ob
      | Some n \<Rightarrow>
          let db = xs_plans (ob_exec ob) in
          if close then recordIssueConclusion \<lparr>cn_originRef = issueConclusionOrigin n, cn_verdict = VerdictDone,
               cn_note = default_to ''An operator closed this ticket from the plan approval card.'' note,
               cn_by = ConcludedByOperator, cn_updatedAt = now\<rparr> (on_plans (snd (declinePlan now planId note db)) ob)
          else on_plans (snd (refusePlan now planId note db)) ob)"

definition back_out :: "int \<Rightarrow> string \<Rightarrow> bool \<Rightarrow> string option \<Rightarrow> outbox \<Rightarrow> answer \<times> outbox" where
  "back_out now i close note ob =
     (case getProposal ob i of
        None \<Rightarrow> (NothingPending, ob)
      | Some p \<Rightarrow>
          if pn_status p \<noteq> ProposalPending \<or> pn_kind p \<noteq> PlanAct then (NothingPending, ob)
          else case decideProposal now i ProposalRejected (truthy (map_option trim note)) ByHuman ob of
              (None, ob1) \<Rightarrow> (NothingPending, ob1)
            | (Some q, ob1) \<Rightarrow>
                let ob2 = closeEscalation q ob1;
                    ob3 = (case read_act q of
                        Inr (ActPlan planId originRef) \<Rightarrow> backOutOfPlan now planId originRef close (pn_note q) ob2
                      | _ \<Rightarrow> ob2)
                in (SetAside, audit now (sp_action q) Skipped ob3))"

section \<open>Asks a pull request has settled by itself\<close>

record merge_ask =
  mk_prNumber :: nat
  mk_merged :: bool
  mk_proposals :: "string list"
  mk_escalations :: "string list"

definition merge_verdict :: "merge_ask \<Rightarrow> string" where
  "merge_verdict k = ''PR #'' @ show_nat (mk_prNumber k) @
     (if mk_merged k then '' merged; there is nothing left to approve.''
      else '' was closed without merging; there is nothing left to approve.'')"

definition pendingMergeFor :: "proposal \<Rightarrow> nat option" where
  "pendingMergeFor p =
     (if pn_kind p \<noteq> MergeAct \<or> pn_status p \<noteq> ProposalPending then None else reviewTargetPr (Some (pn_ref p)) ''merge'')"

definition claim_ask ::
  "(nat, bool) jsmap \<Rightarrow> nat option \<Rightarrow> (merge_ask \<Rightarrow> merge_ask) \<Rightarrow> (nat, merge_ask) jsmap \<Rightarrow> (nat, merge_ask) jsmap" where
  "claim_ask settled n f asks =
     (case n of
        None \<Rightarrow> asks
      | Some n \<Rightarrow>
          (case map_of settled n of
             None \<Rightarrow> asks
           | Some merged \<Rightarrow>
               map_put n (f (default_to \<lparr>mk_prNumber = n, mk_merged = merged, mk_proposals = [], mk_escalations = []\<rparr>
                 (map_of asks n))) asks))"

definition settledMergeAsks ::
  "proposal list \<Rightarrow> (string \<times> nat option) list \<Rightarrow> (nat, bool) jsmap \<Rightarrow> merge_ask list" where
  "settledMergeAsks proposals openAsks settled =
     (let a1 = foldl (\<lambda>m p. claim_ask settled (pendingMergeFor p)
                (\<lambda>k. k\<lparr>mk_proposals := mk_proposals k @ [pn_id p]\<rparr>) m) [] proposals;
          a2 = foldl (\<lambda>m (i, n). claim_ask settled n (\<lambda>k. k\<lparr>mk_escalations := mk_escalations k @ [i]\<rparr>) m) a1 openAsks
      in js_sort (by_key (\<lambda>k. int (mk_prNumber k))) (map snd a2))"

definition withdraw_ask :: "int \<Rightarrow> string \<Rightarrow> outbox \<Rightarrow> string \<Rightarrow> outbox" where
  "withdraw_ask now verdict ob i =
     (case withdrawProposal now i verdict ob of
        (False, ob1) \<Rightarrow> ob1
      | (True, ob1) \<Rightarrow> on_exec (on_fleet (no_op_decision now Executed)) ob1)"

definition settle_ask :: "int \<Rightarrow> outbox \<Rightarrow> merge_ask \<Rightarrow> outbox" where
  "settle_ask now ob k =
     foldl (\<lambda>d i. on_exec (on_fleet (set_escalation i EscAnswered)) d)
       (foldl (withdraw_ask now (merge_verdict k)) ob (mk_proposals k)) (mk_escalations k)"

definition open_merge_asks :: "outbox \<Rightarrow> (string \<times> nat option) list" where
  "open_merge_asks ob = map (\<lambda>e. (fe_id e, map_of (ob_mergeAsks ob) (fe_id e)))
     (rev (filter open_escalation (fl_escalations (xs_fleet (ob_exec ob)))))"

definition tidySettledMerges :: "int \<Rightarrow> (nat, bool) jsmap \<Rightarrow> outbox \<Rightarrow> outbox" where
  "tidySettledMerges now settled ob =
     foldl (settle_ask now) ob (settledMergeAsks (listProposals ob) (open_merge_asks ob) settled)"

section \<open>Acts a provider performs itself\<close>

definition call_out :: "provider_call list \<Rightarrow> outbox \<Rightarrow> outbox" where
  "call_out cs ob = ob\<lparr>ob_calls := ob_calls ob @ cs\<rparr>"

definition updatePrBranch :: "out_env \<Rightarrow> x_action \<Rightarrow> outbox \<Rightarrow> decision_outcome \<times> outbox" where
  "updatePrBranch oe x ob =
     (let fl = xs_fleet (ob_exec ob); branch = default_to '''' (a_branch x) in
      if ejectionOnBranch fl branch \<noteq> None then (Deferred, ob)
      else if findActiveTaskByBranch fl branch \<noteq> None then (Deferred, ob)
      else (case oe_branchOk oe of None \<Rightarrow> Rejected | Some False \<Rightarrow> Skipped | Some True \<Rightarrow> Executed,
            call_out [CallUpdateBranch (default_to 0 (a_number x)) (default_to '''' (a_base x))] ob))"

text \<open>The checks asked for until one throws, and the ones the provider did not requeue.\<close>

fun requeue_all :: "(string \<Rightarrow> bool option) \<Rightarrow> (string \<times> string) list \<Rightarrow> string list \<times> string list option" where
  "requeue_all ok [] = ([], Some [])"
| "requeue_all ok ((name, ref) # rest) =
     (case ok name of
        None \<Rightarrow> ([name], None)
      | Some done \<Rightarrow>
          (case requeue_all ok rest of
             (asked, left) \<Rightarrow> (name # asked, map_option (\<lambda>u. if done then u else name # u) left)))"

definition requeueCiCheck :: "out_env \<Rightarrow> x_action \<Rightarrow> outbox \<Rightarrow> decision_outcome \<times> outbox" where
  "requeueCiCheck oe x ob =
     (case requeue_all (oe_requeueOk oe) (a_checks x) of
        (asked, left) \<Rightarrow>
          (case left of None \<Rightarrow> Rejected | Some [] \<Rightarrow> Executed | Some _ \<Rightarrow> Skipped,
           call_out (map (CallRequeue (default_to 0 (a_number x))) asked) ob))"

definition THRASH_WINDOW_MS :: int where "THRASH_WINDOW_MS = 60 * 60 * 1000"

definition WORK_ITEM_THRASH_LIMIT :: nat where "WORK_ITEM_THRASH_LIMIT = 6"

definition workItemThrash :: "int \<Rightarrow> nat \<Rightarrow> fleet \<Rightarrow> (nat \<times> bool) option" where
  "workItemThrash now n fl =
     (let r = workItemStateMovesWithin fl now n THRASH_WINDOW_MS in
      if fst r < WORK_ITEM_THRASH_LIMIT then None else Some r)"

definition setWorkItemState :: "out_env \<Rightarrow> x_action \<Rightarrow> outbox \<Rightarrow> decision_outcome \<times> outbox" where
  "setWorkItemState oe x ob =
     (let n = default_to 0 (a_number x) in
      if workItemThrash (oe_now oe) n (xs_fleet (ob_exec ob)) \<noteq> None then (Skipped, ob)
      else (if oe_stateOk oe then Executed else Rejected,
            call_out [CallSetState n (default_to '''' (a_state x))] ob))"

section \<open>A pass of the executor\<close>

definition escalate_act :: "out_env \<Rightarrow> x_action \<Rightarrow> outbox \<Rightarrow> decision_outcome \<times> outbox" where
  "escalate_act oe x ob = (Executed, on_exec (on_fleet (createEscalation (oe_escId oe) (a_agentId x))) ob)"

definition respondToAgent :: "x_action \<Rightarrow> outbox \<Rightarrow> decision_outcome \<times> outbox" where
  "respondToAgent x ob =
     (case respond (default_to '''' (a_agentId x)) (xs_fleet (ob_exec ob)) of
        (fl, ok) \<Rightarrow> (done_or_skipped ok, on_exec (on_fleet (\<lambda>_. fl)) ob))"

definition perform_act :: "out_env \<Rightarrow> x_action \<Rightarrow> outbox \<Rightarrow> decision_outcome \<times> outbox" where
  "perform_act oe x ob =
     (case a_type x of
        EscalateToHuman \<Rightarrow> escalate_act oe x ob
      | RespondToAgent \<Rightarrow> respondToAgent x ob
      | ProposePlan \<Rightarrow> proposePlan oe x ob
      | ProposeValidationPlan \<Rightarrow> proposeValidationPlan oe x ob
      | ProposePlanAmendment \<Rightarrow> proposeAmendmentAct oe x ob
      | ProposeShortfall \<Rightarrow> proposeShortfall oe x ob
      | UpdatePrBranch \<Rightarrow> updatePrBranch oe x ob
      | RequeueCiCheck \<Rightarrow> requeueCiCheck oe x ob
      | SetWorkItemState \<Rightarrow> setWorkItemState oe x ob
      | _ \<Rightarrow> (Executed, ob))"

definition is_dispatch :: "x_action \<Rightarrow> bool" where
  "is_dispatch x \<longleftrightarrow> a_type x = DispatchCodeAgent \<or> a_type x = DispatchDeskAgent"

definition is_outbound :: "x_action \<Rightarrow> bool" where
  "is_outbound x \<longleftrightarrow> a_type x = ReplyOnPr \<or> a_type x = MergePr"

definition perform ::
  "exec_opts \<Rightarrow> out_env \<Rightarrow> dispatch_env \<Rightarrow> x_action \<Rightarrow> nat \<Rightarrow> outbox \<Rightarrow> outbox \<times> decision_outcome \<times> nat" where
  "perform op oe en x live ob =
     (if is_dispatch x then
        (case dispatchAgent op (en\<lparr>en_now := oe_now oe\<rparr>) (action.truncate x) live (ob_exec ob) of
           (xs, outcome, live') \<Rightarrow> (ob\<lparr>ob_exec := xs\<rparr>, outcome, live'))
      else if is_outbound x then (case sendOutbound oe x ob of (outcome, ob1) \<Rightarrow> (ob1, outcome, live))
      else (case perform_act oe x ob of (outcome, ob1) \<Rightarrow> (audit (oe_now oe) x outcome ob1, outcome, live)))"

fun perform_all ::
  "exec_opts \<Rightarrow> (out_env \<times> dispatch_env \<times> x_action) list \<Rightarrow> nat \<Rightarrow> outbox \<Rightarrow> outbox \<times> decision_outcome list" where
  "perform_all op [] live ob = (ob, [])"
| "perform_all op ((oe, en, x) # rest) live ob =
     (case perform op oe en x live ob of (ob1, outcome, live1) \<Rightarrow>
        (case perform_all op rest live1 ob1 of (ob2, outcomes) \<Rightarrow> (ob2, outcome # outcomes)))"

text \<open>The malformed answers of the pass first, each put on record; then its actions in order.\<close>

definition execute_pass ::
  "exec_opts \<Rightarrow> int \<Rightarrow> nat \<Rightarrow> (out_env \<times> dispatch_env \<times> x_action) list \<Rightarrow> outbox \<Rightarrow> outbox \<times> decision_outcome list" where
  "execute_pass op now malformed actions ob =
     (let ob1 = foldl (\<lambda>d _. on_exec (on_fleet (no_op_decision now Rejected)) d) ob [0..<malformed];
          (ob2, outcomes) = perform_all op actions (countLiveAgents (xs_fleet (ob_exec ob1))) ob1
      in (ob2, replicate malformed Rejected @ outcomes))"

end
