(* ===== verification/OutboundLaws.thy ===== *)
theory OutboundLaws
  imports Outbound
begin

text \<open>
  What holds of the acts the harness performs outside, in every state its desk and its executor reach: no
  merge and no reply without an authority that stood when it went out, each proposal sent at most once,
  one question at a time about one act and answers that are final, a pause between two sends of the same
  act, landings that share no pull request, and work items that are not thrashed.
\<close>

section \<open>The tables an operation leaves alone\<close>

definition core :: "outbox \<Rightarrow> stored_proposal list \<times> stack_landing list \<times> sent_act list" where
  "core ob = (ob_proposals ob, ob_landings ob, ob_sent ob)"

named_theorems core_simps "an operation leaves proposals, landings and sends alone"

lemma core_exec [core_simps]: "core (on_exec f ob) = core ob"
  by (simp add: core_def on_exec_def)

lemma core_by_exec [core_simps]:
  "core (on_plans db ob) = core ob" "core (open_ask i ob) = core ob" "core (audit now x out ob) = core ob"
  by (simp_all add: on_plans_def open_ask_def audit_def core_exec)

lemma core_desks [core_simps]:
  "core (recordPlanCaveatAnswers planId kept ob) = core ob"
  "core (withdrawValidationAuthoring ref ob) = core ob"
  "core (snd (releaseValidationPlan now ref ob)) = core ob"
  "core (applyDeclines now ref named ob) = core ob"
  "core (recordIssueConclusion c ob) = core ob"
  "core (recordReplySent n thread commentRef ob) = core ob"
  "core (recordReviewPublished n comment o' threadRef ob) = core ob"
  "core (resolveAnswered oe n comment res ob) = core ob"
  "core (call_out cs ob) = core ob"
  by (simp_all add: core_def recordPlanCaveatAnswers_def withdrawValidationAuthoring_def releaseValidationPlan_def
      applyDeclines_def recordIssueConclusion_def recordReplySent_def recordReviewPublished_def set_published_def
      resolveAnswered_def call_out_def Let_def split: option.splits)

lemma core_closeEscalation [core_simps]: "core (closeEscalation p ob) = core ob"
  by (simp add: closeEscalation_def core_simps split: option.splits)

lemma core_settlePlan [core_simps]: "core (settlePlan now p ob) = core ob"
  by (simp add: settlePlan_def core_simps split: proposal_kind.splits sum.splits proposed_act.splits)

lemma core_backOut [core_simps]: "core (backOutOfPlan now planId ref cl note ob) = core ob"
  by (simp add: backOutOfPlan_def Let_def core_simps split: option.splits)

lemma core_recordAnswers [core_simps]: "core (recordAnswers p raised ans ob) = core ob"
  by (simp add: recordAnswers_def core_simps split: sum.splits proposed_act.splits)

lemma core_settleAuthorized [core_simps]: "core (snd (settleAuthorized oe act declined ob)) = core ob"
proof (cases act)
  case (ActValidationPlan ref n)
  have "core ob1 = core ob" if "releaseValidationPlan (oe_now oe) ref ob = (r, ob1)" for r ob1
    using core_desks(3) [of "oe_now oe" ref ob] that by simp
  then show ?thesis
    unfolding ActValidationPlan by (auto simp: core_simps split: prod.splits option.splits)
qed (auto simp: core_def on_plans_def on_exec_def Let_def split: prod.splits)

section \<open>Questions and answers\<close>

definition same_subject :: "stored_proposal \<Rightarrow> stored_proposal \<Rightarrow> bool" where
  "same_subject p q \<longleftrightarrow> pn_kind p = pn_kind q \<and> pn_ref p = pn_ref q"

definition paused_kind :: "proposal_kind \<Rightarrow> bool" where
  "paused_kind k \<longleftrightarrow> k = MergeAct \<or> k = ReplyDraft"

definition row_order :: "stored_proposal \<Rightarrow> stored_proposal \<Rightarrow> bool" where
  "row_order p q \<longleftrightarrow> sp_createdAt p \<le> sp_createdAt q \<and>
     (same_subject p q \<longrightarrow> pn_status p \<noteq> ProposalPending \<and>
        (paused_kind (pn_kind p) \<and> pn_status p = ProposalAccepted \<longrightarrow>
           default_to 0 (pn_decidedAt p) + SETTLE_WINDOW_MS \<le> sp_createdAt q))"

definition decided_in_time :: "int \<Rightarrow> stored_proposal \<Rightarrow> bool" where
  "decided_in_time t p \<longleftrightarrow> sp_createdAt p \<le> t \<and>
     (pn_status p = ProposalAccepted \<longrightarrow> (\<exists>at. pn_decidedAt p = Some at \<and> sp_createdAt p \<le> at \<and> at \<le> t))"

text \<open>
  A row says what its act is about: the reference it is asked under is the reference of its act. A move of a
  work item is never asked for.
\<close>

fun act_ref :: "proposed_act \<Rightarrow> (proposal_kind \<times> string) option" where
  "act_ref (ActMerge n m) = Some (MergeAct, mergeProposalRef n)"
| "act_ref (ActReply n c b r o') = Some (ReplyDraft, replyProposalRef n c)"
| "act_ref _ = None"

definition rightly_named :: "stored_proposal \<Rightarrow> bool" where
  "rightly_named p \<longleftrightarrow> a_type (sp_action p) \<noteq> SetWorkItemState \<and> (case read_act p of Inl _ \<Rightarrow> True
     | Inr act \<Rightarrow> (case act_ref act of None \<Rightarrow> True | Some r \<Rightarrow> r = (pn_kind p, pn_ref p)))"

definition rows_ok :: "int \<Rightarrow> stored_proposal list \<Rightarrow> bool" where
  "rows_ok t ps \<longleftrightarrow> distinct (map pn_id ps) \<and> sorted_wrt row_order ps \<and>
     (\<forall>p \<in> set ps. decided_in_time t p \<and> rightly_named p)"

lemma rows_later: "rows_ok t ps \<Longrightarrow> t \<le> now \<Longrightarrow> rows_ok now ps"
  by (fastforce simp: rows_ok_def decided_in_time_def)

text \<open>A row answered: everything but the status, the note, the decider and the time stays.\<close>

definition answered_as :: "int \<Rightarrow> stored_proposal \<Rightarrow> stored_proposal \<Rightarrow> bool" where
  "answered_as now p q \<longleftrightarrow> pn_id q = pn_id p \<and> pn_kind q = pn_kind p \<and> pn_ref q = pn_ref p \<and>
     sp_action q = sp_action p \<and> sp_createdAt q = sp_createdAt p \<and> pn_status q \<noteq> ProposalPending \<and>
     pn_decidedAt q = Some now"

lemma answered_row:
  assumes "answered_as now p q"
  shows "read_act q = read_act p" "rightly_named q = rightly_named p"
  using assms by (simp_all add: answered_as_def read_act_def rightly_named_def cong: sum.case_cong option.case_cong)

lemma order_answered:
  assumes o: "row_order p q" and p: "p' = p \<or> (pn_status p = ProposalPending \<and> answered_as now p p')"
    and q: "q' = q \<or> (pn_status q = ProposalPending \<and> answered_as now q q')"
  shows "row_order p' q'"
proof -
  have "sp_createdAt p' = sp_createdAt p" "sp_createdAt q' = sp_createdAt q" and s: "same_subject p' q' = same_subject p q"
    using p q by (elim disjE; simp add: answered_as_def same_subject_def)+
  moreover have "p' = p" if "same_subject p q" using o p that by (auto simp: row_order_def)
  ultimately show ?thesis using o by (auto simp: row_order_def)
qed

lemma sorted_map_mono: "sorted_wrt P xs \<Longrightarrow> (\<And>x y. P x y \<Longrightarrow> P (g x) (g y)) \<Longrightarrow> sorted_wrt P (map g xs)"
  by (induction xs) auto

lemma map_key_same: "(\<And>x. key (g x) = key x) \<Longrightarrow> map key (map g xs) = map key xs"
  by (induction xs) auto

lemma rows_answered:
  assumes ok: "rows_ok t ps" and now: "t \<le> now" and f: "\<And>p. answered_as now p (f p)"
  shows "rows_ok now (update_where (pending_row i) f ps)"
proof -
  let ?g = "\<lambda>p. if pending_row i p then f p else p"
  have g: "?g p = p \<or> (pn_status p = ProposalPending \<and> answered_as now p (?g p))" for p
    using f by (auto simp: pending_row_def)
  have ids: "pn_id (?g p) = pn_id p" for p using f [of p] by (auto simp: answered_as_def)
  from ids have "map pn_id (map ?g ps) = map pn_id ps" by (rule map_key_same)
  then have "distinct (map pn_id (map ?g ps))" using ok unfolding rows_ok_def by metis
  moreover have "row_order (?g p) (?g q)" if "row_order p q" for p q using that g g by (rule order_answered)
  with ok have "sorted_wrt row_order (map ?g ps)"
    unfolding rows_ok_def by (blast intro: sorted_map_mono)
  moreover have row: "decided_in_time now (?g p) \<and> rightly_named (?g p)" if "p \<in> set ps" for p
  proof -
    have p: "decided_in_time t p" "rightly_named p" using ok that by (auto simp: rows_ok_def)
    show ?thesis
    proof (cases "pending_row i p")
      case True
      with f [of p] p now show ?thesis by (auto simp: decided_in_time_def answered_row(2) answered_as_def)
    next
      case False
      with p now show ?thesis by (auto simp: decided_in_time_def)
    qed
  qed
  then have "\<forall>q \<in> set (map ?g ps). decided_in_time now q \<and> rightly_named q" unfolding set_map by blast
  ultimately show ?thesis unfolding rows_ok_def update_where_def by blast
qed

lemma rows_created:
  assumes ok: "rows_ok t ps" and now: "t \<le> now" and new: "pn_id q \<notin> pn_id ` set ps"
    and q: "sp_createdAt q = now" "pn_status q = ProposalPending" "rightly_named q"
    and free: "\<And>p. p \<in> set ps \<Longrightarrow> same_subject p q \<Longrightarrow> pn_status p \<noteq> ProposalPending \<and>
      (paused_kind (pn_kind p) \<and> pn_status p = ProposalAccepted \<longrightarrow> default_to 0 (pn_decidedAt p) + SETTLE_WINDOW_MS \<le> now)"
  shows "rows_ok now (ps @ [q])"
proof -
  have "row_order p q" if "p \<in> set ps" for p
    using that ok now q free [OF that] by (fastforce simp: row_order_def rows_ok_def decided_in_time_def)
  moreover note rows_later [OF ok now]
  ultimately show ?thesis using new q by (auto simp: rows_ok_def sorted_wrt_append decided_in_time_def)
qed

section \<open>Landings\<close>

definition apart_standing :: "stack_landing \<Rightarrow> stack_landing \<Rightarrow> bool" where
  "apart_standing l m \<longleftrightarrow>
     (la_status l = Standing \<and> la_status m = Standing \<longrightarrow> set (la_rungs l) \<inter> set (la_rungs m) = {})"

definition landings_ok :: "int \<Rightarrow> stack_landing list \<Rightarrow> bool" where
  "landings_ok t ls \<longleftrightarrow> distinct (map la_id ls) \<and> sorted_wrt apart_standing ls \<and> (\<forall>l \<in> set ls. la_createdAt l \<le> t)"

text \<open>What time does to the table: a standing row may have been settled, every other stays.\<close>

definition moved :: "int \<Rightarrow> stack_landing \<Rightarrow> stack_landing \<Rightarrow> bool" where
  "moved now l m \<longleftrightarrow> m = l \<or> (la_status l = Standing \<and> la_id m = la_id l \<and> la_rungs m = la_rungs l \<and>
     la_createdAt m = la_createdAt l \<and> la_status m \<noteq> Standing \<and> la_updatedAt m = now)"

lemma moved_same: "moved now l m \<Longrightarrow> la_id m = la_id l \<and> la_rungs m = la_rungs l \<and> la_createdAt m = la_createdAt l"
  by (auto simp: moved_def)

lemma apart_moved: "apart_standing l m \<Longrightarrow> moved now l l' \<Longrightarrow> moved now m m' \<Longrightarrow> apart_standing l' m'"
  by (auto simp: apart_standing_def moved_def)

lemma landings_moved:
  assumes ok: "landings_ok t ls" and now: "t \<le> now" and g: "\<And>l. moved now l (g l)"
  shows "landings_ok now (map g ls)"
proof -
  have "la_id (g l) = la_id l" and created: "la_createdAt (g l) = la_createdAt l" for l
    using moved_same [OF g] by auto
  then have "map la_id (map g ls) = map la_id ls" by (intro map_key_same)
  then have "distinct (map la_id (map g ls))" using ok unfolding landings_ok_def by metis
  moreover have "sorted_wrt apart_standing (map g ls)"
    using ok unfolding landings_ok_def by (blast intro: sorted_map_mono apart_moved g)
  moreover have "\<forall>m \<in> set (map g ls). la_createdAt m \<le> now"
    using ok now created by (fastforce simp: landings_ok_def)
  ultimately show ?thesis unfolding landings_ok_def by blast
qed

definition settled_row ::
  "int \<Rightarrow> string \<Rightarrow> landing_status \<Rightarrow> landing_reason option \<Rightarrow> stack_landing \<Rightarrow> stack_landing" where
  "settled_row now i st reason l = (if la_id l = i \<and> la_status l = Standing
     then l\<lparr>la_status := st, la_reason := reason, la_updatedAt := now\<rparr> else l)"

lemma settled_as_rows: "snd (settleStackLanding now i st reason ls) = map (settled_row now i st reason) ls"
  by (simp add: settleStackLanding_def update_where_def settled_row_def)

lemma settled_moved: "st \<noteq> Standing \<Longrightarrow> moved now l (settled_row now i st reason l)"
  by (auto simp: moved_def settled_row_def)

text \<open>A click supersedes every standing landing it shares a pull request with.\<close>

definition superseded_row :: "int \<Rightarrow> string set \<Rightarrow> stack_landing \<Rightarrow> stack_landing" where
  "superseded_row now ids l = (if la_id l \<in> ids \<and> la_status l = Standing
     then l\<lparr>la_status := Revoked, la_reason := Some SupersededByClick, la_updatedAt := now\<rparr> else l)"

lemma superseded_fold:
  "foldl (\<lambda>d l. if list_ex (\<lambda>n. n \<in> set rungs) (la_rungs l)
        then snd (settleStackLanding now (la_id l) Revoked (Some SupersededByClick) d) else d) ls xs
   = map (superseded_row now (la_id ` {x \<in> set xs. list_ex (\<lambda>n. n \<in> set rungs) (la_rungs x)})) ls"
proof (induction xs rule: rev_induct)
  case Nil
  then show ?case by (simp add: superseded_row_def)
next
  case (snoc x xs)
  have "settled_row now (la_id x) Revoked (Some SupersededByClick) (superseded_row now I l) = superseded_row now (insert (la_id x) I) l"
    for I l by (auto simp: settled_row_def superseded_row_def)
  moreover have "la_id ` {y \<in> set (xs @ [x]). list_ex (\<lambda>n. n \<in> set rungs) (la_rungs y)} =
      (if list_ex (\<lambda>n. n \<in> set rungs) (la_rungs x) then insert (la_id x) else id)
        (la_id ` {y \<in> set xs. list_ex (\<lambda>n. n \<in> set rungs) (la_rungs y)})"
    by auto
  ultimately show ?case using snoc by (simp add: settled_as_rows comp_def)
qed

lemma superseded_moved: "moved now l (superseded_row now ids l)"
  by (simp add: moved_def superseded_row_def)

lemma apart_superseded:
  "(la_status l = Standing \<Longrightarrow> set (la_rungs l) \<inter> set (la_rungs m) \<noteq> {} \<Longrightarrow> la_id l \<in> ids) \<Longrightarrow>
   apart_standing (superseded_row now ids l) m"
  by (auto simp: superseded_row_def apart_standing_def)

lemma landings_snoc:
  assumes "landings_ok now ls" and "\<forall>m \<in> set ls. apart_standing m l" and "la_id l \<notin> la_id ` set ls" and "la_createdAt l \<le> now"
  shows "landings_ok now (ls @ [l])"
  using assms by (auto simp: landings_ok_def sorted_wrt_append)

lemma landings_recorded:
  assumes ok: "landings_ok t ls" and now: "t \<le> now" and new: "i \<notin> la_id ` set ls"
  shows "landings_ok now (recordStackLanding now i ref rungs ls)"
proof -
  let ?ids = "la_id ` {x \<in> set (listStandingLandings ls). list_ex (\<lambda>n. n \<in> set rungs) (la_rungs x)}"
  let ?new = "\<lparr>la_id = i, la_ref = ref, la_rungs = rungs, la_status = Standing, la_reason = None,
         la_createdAt = now, la_updatedAt = now\<rparr>"
  have rows: "recordStackLanding now i ref rungs ls = map (superseded_row now ?ids) ls @ [?new]"
    by (simp only: recordStackLanding_def superseded_fold)
  have old: "landings_ok now (map (superseded_row now ?ids) ls)" using ok now superseded_moved by (rule landings_moved)
  have "apart_standing (superseded_row now ?ids l) ?new" if l: "l \<in> set ls" for l
  proof (rule apart_superseded)
    show "la_id l \<in> ?ids" if "la_status l = Standing" "set (la_rungs l) \<inter> set (la_rungs ?new) \<noteq> {}"
      using that l by (auto simp: listStandingLandings_def list_ex_iff)
  qed
  then have apart: "\<forall>m \<in> set (map (superseded_row now ?ids) ls). apart_standing m ?new" unfolding set_map by blast
  have "la_id (superseded_row now ?ids l) = la_id l" for l by (simp add: superseded_row_def)
  then have "map la_id (map (superseded_row now ?ids) ls) = map la_id ls" by (intro map_key_same)
  then have ids: "la_id ` set (map (superseded_row now ?ids) ls) = la_id ` set ls" unfolding set_map [symmetric] by metis
  show ?thesis
    unfolding rows
  proof (rule landings_snoc [OF old apart])
    show "la_id ?new \<notin> la_id ` set (map (superseded_row now ?ids) ls)"
      using new by (simp only: ids stack_landing.select_convs not_False_eq_True)
    show "la_createdAt ?new \<le> now" by simp
  qed
qed

section \<open>Sends and their authority\<close>

definition stood_at :: "int \<Rightarrow> nat \<Rightarrow> stack_landing \<Rightarrow> bool" where
  "stood_at at n l \<longleftrightarrow> n \<in> set (la_rungs l) \<and> la_createdAt l \<le> at \<and> (la_status l = Standing \<or> at \<le> la_updatedAt l)"

definition has_authority :: "stack_landing list \<Rightarrow> stored_proposal \<Rightarrow> bool" where
  "has_authority ls p \<longleftrightarrow>
     (case pn_decidedBy p of
        None \<Rightarrow> False
      | Some ByHuman \<Rightarrow> True
      | Some ByAutoSend \<Rightarrow> pn_kind p = ReplyDraft
      | Some ByStackLanding \<Rightarrow> pn_kind p = MergeAct \<and>
          (\<exists>n at. pn_ref p = mergeProposalRef n \<and> pn_decidedAt p = Some at \<and> (\<exists>l \<in> set ls. stood_at at n l)))"

definition sent_ok :: "int \<Rightarrow> stored_proposal list \<Rightarrow> stack_landing list \<Rightarrow> sent_act \<Rightarrow> bool" where
  "sent_ok t ps ls s \<longleftrightarrow> sn_at s \<le> t \<and> sends_out (sn_act s) \<and>
     (\<exists>p \<in> set ps. pn_id p = sn_proposal s \<and> pn_status p = ProposalAccepted \<and> pn_decidedAt p = Some (sn_at s) \<and>
        read_act p = Inr (sn_act s) \<and> has_authority ls p)"

definition sends_ok :: "int \<Rightarrow> stored_proposal list \<Rightarrow> stack_landing list \<Rightarrow> sent_act list \<Rightarrow> bool" where
  "sends_ok t ps ls ss \<longleftrightarrow> distinct (map sn_proposal ss) \<and> (\<forall>s \<in> set ss. sent_ok t ps ls s)"

definition settled_rows_stay :: "stored_proposal list \<Rightarrow> stored_proposal list \<Rightarrow> bool" where
  "settled_rows_stay ps ps' \<longleftrightarrow> (\<forall>p \<in> set ps. pn_status p \<noteq> ProposalPending \<longrightarrow> p \<in> set ps')"

definition landings_stay :: "int \<Rightarrow> stack_landing list \<Rightarrow> stack_landing list \<Rightarrow> bool" where
  "landings_stay now ls ls' \<longleftrightarrow> (\<forall>l \<in> set ls. \<exists>m \<in> set ls'. moved now l m)"

lemma authority_stays:
  assumes a: "has_authority ls p" and at: "pn_decidedAt p = Some at" "at \<le> now" and ls: "landings_stay now ls ls'"
  shows "has_authority ls' p"
proof -
  have "\<exists>m \<in> set ls'. stood_at at n m" if l: "l \<in> set ls" and s: "stood_at at n l" for l n
  proof -
    from ls l obtain m where m: "m \<in> set ls'" "moved now l m" by (auto simp: landings_stay_def)
    with s at(2) have "stood_at at n m" by (auto simp: stood_at_def moved_def)
    with m show ?thesis by blast
  qed
  with a at(1) show ?thesis by (auto simp: has_authority_def split: option.splits decider.splits)
qed

lemma sends_stay:
  assumes ok: "sends_ok t ps ls ss" and now: "t \<le> now" and ps: "settled_rows_stay ps ps'" and ls: "landings_stay now ls ls'"
  shows "sends_ok now ps' ls' ss"
proof -
  have "sent_ok now ps' ls' s" if "s \<in> set ss" for s
  proof -
    from ok that obtain p where p: "p \<in> set ps" "pn_id p = sn_proposal s" "pn_status p = ProposalAccepted"
        "pn_decidedAt p = Some (sn_at s)" "read_act p = Inr (sn_act s)" "has_authority ls p"
      and s: "sn_at s \<le> t" "sends_out (sn_act s)"
      by (auto simp: sends_ok_def sent_ok_def)
    have "sn_at s \<le> now" using s now by simp
    with p ls have "has_authority ls' p" by (blast intro: authority_stays)
    moreover have "p \<in> set ps'" using ps p by (auto simp: settled_rows_stay_def)
    ultimately show ?thesis using p s \<open>sn_at s \<le> now\<close> unfolding sent_ok_def by blast
  qed
  with ok show ?thesis by (simp add: sends_ok_def)
qed

lemma landings_stay_map: "(\<And>l. moved now l (g l)) \<Longrightarrow> landings_stay now ls (map g ls @ extra)"
  by (auto simp: landings_stay_def)

lemma landings_stay_refl: "landings_stay now ls ls"
  by (auto simp: landings_stay_def moved_def)

lemma rows_stay_answered: "settled_rows_stay ps (update_where (pending_row i) f ps)"
  by (force simp: settled_rows_stay_def update_where_def pending_row_def)

section \<open>The invariant and the operations on the tables\<close>

text \<open>\<open>F\<close> are rows that were answered before: they are still there, as they were.\<close>

definition ok :: "stored_proposal set \<Rightarrow> int \<Rightarrow> outbox \<Rightarrow> bool" where
  "ok F t ob \<longleftrightarrow> (case core ob of (ps, ls, ss) \<Rightarrow> rows_ok t ps \<and> landings_ok t ls \<and> sends_ok t ps ls ss \<and>
     (\<forall>p \<in> F. pn_status p \<noteq> ProposalPending \<and> p \<in> set ps))"

lemma ok_core: "core a = core b \<Longrightarrow> ok F t a = ok F t b"
  by (simp add: ok_def)

lemma ok_parts: "ok F t ob \<longleftrightarrow> rows_ok t (ob_proposals ob) \<and> landings_ok t (ob_landings ob) \<and>
    sends_ok t (ob_proposals ob) (ob_landings ob) (ob_sent ob) \<and>
    (\<forall>p \<in> F. pn_status p \<noteq> ProposalPending \<and> p \<in> set (ob_proposals ob))"
  by (simp add: ok_def core_def)

lemma landings_later: "landings_ok t ls \<Longrightarrow> t \<le> now \<Longrightarrow> landings_ok now ls"
  by (fastforce simp: landings_ok_def)

lemma settled_rows_stay_refl: "settled_rows_stay ps ps"
  by (simp add: settled_rows_stay_def)

lemma ok_later: "ok F t ob \<Longrightarrow> t \<le> now \<Longrightarrow> ok F now ob"
  by (auto simp: ok_parts intro: rows_later landings_later sends_stay settled_rows_stay_refl landings_stay_refl)

lemma ok_landings:
  assumes "ok F t ob" and "t \<le> now" and "landings_ok now ls" and "landings_stay now (ob_landings ob) ls"
  shows "ok F now (ob\<lparr>ob_landings := ls\<rparr>)"
  using assms by (auto simp: ok_parts intro: rows_later sends_stay settled_rows_stay_refl)

lemma ok_settle_landing:
  assumes "ok F t ob" and "t \<le> now" and "st \<noteq> Standing"
  shows "ok F now (ob\<lparr>ob_landings := snd (settleStackLanding now i st reason (ob_landings ob))\<rparr>)"
proof (rule ok_landings [OF assms(1,2)])
  have "landings_ok t (ob_landings ob)" using assms(1) by (simp add: ok_parts)
  then show "landings_ok now (snd (settleStackLanding now i st reason (ob_landings ob)))"
    unfolding settled_as_rows using assms(2) settled_moved [OF assms(3)] by (rule landings_moved)
  show "landings_stay now (ob_landings ob) (snd (settleStackLanding now i st reason (ob_landings ob)))"
    unfolding settled_as_rows using landings_stay_map [of now "settled_row now i st reason" _ "[]"] settled_moved [OF assms(3)] by simp
qed

lemma ok_land:
  assumes "ok F t ob" and "t \<le> now" and "i \<notin> la_id ` set (ob_landings ob)"
  shows "ok F now (land now i ref rungs ob)"
  unfolding land_def
proof (rule ok_landings [OF assms(1,2)])
  show "landings_ok now (recordStackLanding now i ref rungs (ob_landings ob))"
    using assms by (intro landings_recorded) (simp_all add: ok_parts)
  show "landings_stay now (ob_landings ob) (recordStackLanding now i ref rungs (ob_landings ob))"
    unfolding recordStackLanding_def superseded_fold by (rule landings_stay_map) (rule superseded_moved)
qed

lemma ok_rows_answered:
  assumes "ok F t ob" and "t \<le> now" and "\<And>p. answered_as now p (f p)"
  shows "ok F now (ob\<lparr>ob_proposals := update_where (pending_row i) f (ob_proposals ob)\<rparr>)"
proof -
  have "\<forall>p \<in> F. p \<in> set (update_where (pending_row i) f (ob_proposals ob))"
    using assms(1) rows_stay_answered [of "ob_proposals ob" i f] by (auto simp: ok_parts settled_rows_stay_def)
  with assms show ?thesis
    by (auto simp: ok_parts intro: rows_answered landings_later sends_stay rows_stay_answered landings_stay_refl)
qed

lemma ok_withdraw: "ok F t ob \<Longrightarrow> t \<le> now \<Longrightarrow> ok F now (snd (withdrawProposal now i note ob))"
  by (simp add: withdrawProposal_def) (rule ok_rows_answered, auto simp: answered_as_def)

text \<open>A proposal just accepted, not yet run.\<close>

definition runnable :: "int \<Rightarrow> stored_proposal \<Rightarrow> outbox \<Rightarrow> bool" where
  "runnable now p ob \<longleftrightarrow> p \<in> set (ob_proposals ob) \<and> pn_status p = ProposalAccepted \<and> pn_decidedAt p = Some now \<and>
     pn_id p \<notin> sn_proposal ` set (ob_sent ob) \<and> has_authority (ob_landings ob) p"

lemma runnable_core: "core a = core b \<Longrightarrow> runnable now p a = runnable now p b"
  by (simp add: runnable_def core_def)

lemma ok_note_sent:
  assumes ok: "ok F now ob" and p: "runnable now p ob" and act: "read_act p = Inr act" "sends_out act" and oe: "oe_now oe = now"
  shows "ok F now (note_sent oe p act ob)"
proof -
  have "sent_ok now (ob_proposals ob) (ob_landings ob) \<lparr>sn_proposal = pn_id p, sn_act = act, sn_at = now\<rparr>"
    using p act by (auto simp: sent_ok_def runnable_def)
  with ok p oe show ?thesis by (auto simp: ok_parts note_sent_def sends_ok_def runnable_def)
qed

lemma pending_unsent:
  assumes ok: "ok F t ob" and p: "p \<in> set (ob_proposals ob)" "pn_status p = ProposalPending"
  shows "pn_id p \<notin> sn_proposal ` set (ob_sent ob)"
proof
  assume "pn_id p \<in> sn_proposal ` set (ob_sent ob)"
  then obtain s where "s \<in> set (ob_sent ob)" "sn_proposal s = pn_id p" by auto
  with ok obtain q where q: "q \<in> set (ob_proposals ob)" "pn_id q = pn_id p" "pn_status q = ProposalAccepted"
    by (auto simp: ok_parts sends_ok_def sent_ok_def)
  have "distinct (map pn_id (ob_proposals ob))" using ok by (simp add: ok_parts rows_ok_def)
  with q p have "q = p" by (auto simp: distinct_map inj_on_def)
  with q p show False by simp
qed

lemma decided_row:
  assumes ok: "ok F t ob" and d: "decideProposal now i st note by ob = (Some p, ob')"
  shows "p \<in> set (ob_proposals ob')" and "pn_id p = i" and "pn_status p = st" and "pn_decidedAt p = Some now"
    and "pn_decidedBy p = Some by" and "pn_note p = note"
    and "\<exists>q. q \<in> set (ob_proposals ob) \<and> pn_id q = i \<and> pn_status q = ProposalPending \<and>
      p = q\<lparr>pn_status := st, pn_note := note, pn_decidedBy := Some by, pn_decidedAt := Some now\<rparr>"
    and "ob' = ob\<lparr>ob_proposals := ob_proposals ob'\<rparr>"
proof -
  let ?f = "\<lambda>p. p\<lparr>pn_status := st, pn_note := note, pn_decidedBy := Some by, pn_decidedAt := Some now\<rparr>"
  have ob': "ob' = ob\<lparr>ob_proposals := update_where (pending_row i) ?f (ob_proposals ob)\<rparr>"
    and g: "getProposal ob' i = Some p" and ex: "list_ex (pending_row i) (ob_proposals ob)"
    using d by (auto simp: decideProposal_def Let_def split: if_splits)
  from ex obtain q where q: "q \<in> set (ob_proposals ob)" "pending_row i q" by (auto simp: list_ex_iff)
  from g have p: "p \<in> set (ob_proposals ob')" "pn_id p = i" by (auto simp: getProposal_def find_Some_iff intro: nth_mem)
  then obtain r where r: "r \<in> set (ob_proposals ob)" "p = (if pending_row i r then ?f r else r)"
    by (auto simp: ob' update_where_def)
  with p have "pn_id r = i" by (auto split: if_splits)
  moreover have "distinct (map pn_id (ob_proposals ob))" using ok by (simp add: ok_parts rows_ok_def)
  ultimately have "r = q" using q r by (auto simp: distinct_map inj_on_def pending_row_def)
  with q r have p_eq: "p = ?f q" by simp
  show "p \<in> set (ob_proposals ob')" "pn_id p = i" by (fact p)+
  show "pn_status p = st" "pn_decidedAt p = Some now" "pn_decidedBy p = Some by" "pn_note p = note"
    by (simp_all add: p_eq)
  show "\<exists>q. q \<in> set (ob_proposals ob) \<and> pn_id q = i \<and> pn_status q = ProposalPending \<and> p = ?f q"
    using q p_eq by (auto simp: pending_row_def)
  show "ob' = ob\<lparr>ob_proposals := ob_proposals ob'\<rparr>" by (simp add: ob')
qed

lemma ok_answer_given: "ok F t ob \<Longrightarrow> t \<le> now \<Longrightarrow> st \<noteq> ProposalPending \<Longrightarrow> ok F now (snd (decideProposal now i st note by ob))"
  using ok_rows_answered [of F t ob now "\<lambda>p. p\<lparr>pn_status := st, pn_note := note, pn_decidedBy := Some by, pn_decidedAt := Some now\<rparr>" i]
  by (simp add: decideProposal_def Let_def answered_as_def ok_later)

section \<open>What may be asked\<close>

lemma find_map: "find P (map f xs) = map_option f (find (P \<circ> f) xs)"
  by (induction xs) auto

lemma find_own_key: "distinct (map key xs) \<Longrightarrow> x \<in> set xs \<Longrightarrow> find (\<lambda>y. key y = key x) xs = Some x"
  by (induction xs) (auto simp: image_iff)

lemma listed_rows:
  assumes "rows_ok t (ob_proposals ob)"
  shows "listProposals ob = map proposal.truncate (rev (ob_proposals ob))"
proof -
  have "sorted_wrt (\<lambda>p q. sp_createdAt p \<le> sp_createdAt q) (ob_proposals ob)"
    using assms unfolding rows_ok_def
    by (elim conjE) (rule sorted_wrt_mono_rel [rotated], assumption, simp add: row_order_def)
  then have "sorted_wrt (\<lambda>p q. by_key (\<lambda>p. - sp_createdAt p) p q \<le> 0) (rev (ob_proposals ob))"
    by (simp add: sorted_wrt_rev by_key_def)
  then show ?thesis by (simp add: listProposals_def key_cmp.js_sort_sorted_id)
qed

lemma truncated [simp]:
  "pn_id (proposal.truncate p) = pn_id p" "pn_kind (proposal.truncate p) = pn_kind p"
  "pn_ref (proposal.truncate p) = pn_ref p" "pn_status (proposal.truncate p) = pn_status p"
  "pn_note (proposal.truncate p) = pn_note p" "pn_decidedBy (proposal.truncate p) = pn_decidedBy p"
  "pn_decidedAt (proposal.truncate p) = pn_decidedAt p"
  by (cases p; simp add: proposal.truncate_def)+

text \<open>Nothing stands in the way of asking about a subject.\<close>

definition free_to_ask :: "int \<Rightarrow> proposal_kind \<Rightarrow> string \<Rightarrow> outbox \<Rightarrow> bool" where
  "free_to_ask now kind ref ob \<longleftrightarrow> (\<forall>p \<in> set (ob_proposals ob). pn_kind p = kind \<and> pn_ref p = ref \<longrightarrow>
     pn_status p \<noteq> ProposalPending \<and>
     (paused_kind kind \<and> pn_status p = ProposalAccepted \<longrightarrow> default_to 0 (pn_decidedAt p) + SETTLE_WINDOW_MS \<le> now))"

lemma last_match_rules:
  "sorted_wrt R ps \<Longrightarrow> find Q (rev ps) = Some r \<Longrightarrow> p \<in> set ps \<Longrightarrow> Q p \<Longrightarrow> p = r \<or> R p r"
proof (induction ps rule: rev_induct)
  case (snoc x ps)
  show ?case
  proof (cases "Q x")
    case True
    with snoc.prems show ?thesis by (auto simp: sorted_wrt_append)
  next
    case False
    with snoc show ?thesis by (auto simp: sorted_wrt_append)
  qed
qed simp

lemma held_free:
  assumes ok: "ok F t ob" and now: "t \<le> now" "oe_now oe = now" and h: "act_held oe kind ref ob = None"
  shows "free_to_ask now kind ref ob"
  unfolding free_to_ask_def
proof (intro ballI impI)
  fix p assume p: "p \<in> set (ob_proposals ob)" and s: "pn_kind p = kind \<and> pn_ref p = ref"
  let ?Q = "\<lambda>p. pn_kind p = kind \<and> pn_ref p = ref"
  have rows: "rows_ok t (ob_proposals ob)" using ok by (simp add: ok_parts)
  have stand: "standing_proposal kind ref (listProposals ob) = map_option proposal.truncate (find ?Q (rev (ob_proposals ob)))"
    by (simp add: standing_proposal_def listed_rows [OF rows] find_map comp_def)
  from p s have "find ?Q (rev (ob_proposals ob)) \<noteq> None" by (auto simp: find_None_iff')
  then obtain r where r: "find ?Q (rev (ob_proposals ob)) = Some r" by auto
  have rin: "r \<in> set (ob_proposals ob)" "?Q r" using find_Some_iff' [OF r] by simp_all
  have hold: "pn_status r \<noteq> ProposalPending \<and>
      (pn_status r = ProposalAccepted \<longrightarrow> default_to 0 (pn_decidedAt r) + SETTLE_WINDOW_MS \<le> now)"
  proof -
    have "decided_in_time t r" using rows rin by (auto simp: rows_ok_def)
    with h now(2) show ?thesis
      by (auto simp: act_held_def proposalHold_def stand r decided_in_time_def split: proposal_status.splits if_splits option.splits)
  qed
  have "p = r \<or> row_order p r"
    using rows r p s by (intro last_match_rules [where ps = "ob_proposals ob" and Q = ?Q]) (auto simp: rows_ok_def)
  moreover have "sp_createdAt r \<le> now" using rows rin now(1) by (auto simp: rows_ok_def decided_in_time_def)
  ultimately show "pn_status p \<noteq> ProposalPending \<and>
     (paused_kind kind \<and> pn_status p = ProposalAccepted \<longrightarrow> default_to 0 (pn_decidedAt p) + SETTLE_WINDOW_MS \<le> now)"
    using hold s rin(2) by (auto simp: row_order_def same_subject_def)
qed

lemma no_pending_free:
  assumes "\<And>p. p \<in> set (listProposals ob) \<Longrightarrow> pn_kind p = kind \<Longrightarrow> pn_ref p = ref \<Longrightarrow> pn_status p \<noteq> ProposalPending"
    and "\<not> paused_kind kind"
  shows "free_to_ask now kind ref ob"
proof -
  have "proposal.truncate p \<in> set (listProposals ob)" if "p \<in> set (ob_proposals ob)" for p
    using that by (simp add: listProposals_def)
  with assms show ?thesis unfolding free_to_ask_def by (metis truncated(2,3,4))
qed

lemma free_core: "core a = core b \<Longrightarrow> free_to_ask now kind ref a = free_to_ask now kind ref b"
  by (simp add: free_to_ask_def core_def)

section \<open>Asking\<close>

definition well_asked :: "proposal_kind \<Rightarrow> string \<Rightarrow> x_action \<Rightarrow> bool" where
  "well_asked kind ref x \<longleftrightarrow> a_type x \<noteq> SetWorkItemState \<and> (case readProposedAct kind (stored_act x) of Inl _ \<Rightarrow> True
     | Inr act \<Rightarrow> (case act_ref act of None \<Rightarrow> True | Some r \<Rightarrow> r = (kind, ref)))"

lemma asked_to_plan:
  assumes "kind \<noteq> MergeAct" and "kind \<noteq> ReplyDraft" and "a_type x \<noteq> SetWorkItemState"
  shows "well_asked kind ref x"
  using assms
  by (cases kind) (auto simp: well_asked_def readProposedAct_def readPlanAct_def readValidationPlanAct_def
      readAmendmentAct_def readShortfallAct_def split: sum.splits option.splits if_splits)

lemma asked_to_merge: "a_type x = MergePr \<Longrightarrow> well_asked MergeAct (mergeProposalRef (default_to 0 (a_number x))) x"
  by (auto simp: well_asked_def readProposedAct_def readMergeAct_def stored_act_def split: sum.splits option.splits if_splits)

lemma asked_to_reply:
  "a_type x = ReplyOnPr \<Longrightarrow> well_asked ReplyDraft (replyProposalRef (default_to 0 (a_number x)) (xa_commentId x)) x"
  by (auto simp: well_asked_def readProposedAct_def readReplyAct_def stored_act_def split: sum.splits option.splits if_splits)

lemma ok_created:
  assumes "ok F t ob" and now: "t \<le> now" "oe_now oe = now" and "oe_propId oe \<notin> pn_id ` set (ob_proposals ob)"
    and "free_to_ask now kind ref ob" and "well_asked kind ref x"
  shows "ok F now (snd (createProposal oe kind ref x escId ob))"
proof -
  let ?p = "fst (createProposal oe kind ref x escId ob)"
  have ob': "snd (createProposal oe kind ref x escId ob) = ob\<lparr>ob_proposals := ob_proposals ob @ [?p]\<rparr>"
    by (simp add: createProposal_def Let_def)
  have p: "pn_id ?p = oe_propId oe" "pn_kind ?p = kind" "pn_ref ?p = ref" "pn_status ?p = ProposalPending"
      "sp_createdAt ?p = now" "sp_action ?p = x"
    using now by (simp_all add: createProposal_def Let_def)
  have "rightly_named ?p" using assms(6) p by (simp add: rightly_named_def well_asked_def read_act_def cong: sum.case_cong option.case_cong)
  then have "rows_ok now (ob_proposals ob @ [?p])"
    using assms p by (intro rows_created) (auto simp: ok_parts free_to_ask_def same_subject_def)
  moreover have "settled_rows_stay (ob_proposals ob) (ob_proposals ob @ [?p])" by (simp add: settled_rows_stay_def)
  ultimately show ?thesis unfolding ob'
    using assms(1) now(1) by (auto simp: ok_parts intro: landings_later sends_stay landings_stay_refl)
qed

lemma ok_ask:
  assumes "ok F t ob" and "t \<le> now" and "oe_now oe = now" and "oe_propId oe \<notin> pn_id ` set (ob_proposals ob)"
    and "free_to_ask now kind ref ob" and "well_asked kind ref x"
  shows "ok F now (ask_operator oe kind ref x ob)"
  unfolding ask_operator_def
proof (rule ok_created)
  have c: "core (open_ask (oe_escId oe) ob) = core ob" by (simp add: core_simps)
  show "ok F t (open_ask (oe_escId oe) ob)" using ok_core [OF c] assms(1) by simp
  show "oe_propId oe \<notin> pn_id ` set (ob_proposals (open_ask (oe_escId oe) ob))" using c assms(4) by (simp add: core_def)
  show "free_to_ask now kind ref (open_ask (oe_escId oe) ob)" using free_core [OF c] assms(5) by simp
qed (use assms in simp_all)

section \<open>Running and answering\<close>

lemma ok_stop:
  assumes "ok F t ob" and "t \<le> now" and "oe_now oe = now"
  shows "ok F now (stop_landing oe l reason ob)"
proof (cases "fst (settleStackLanding now (la_id l) Stopped (Some reason) (ob_landings ob))")
  case True
  let ?ob = "ob\<lparr>ob_landings := snd (settleStackLanding now (la_id l) Stopped (Some reason) (ob_landings ob))\<rparr>"
  have "stop_landing oe l reason ob = open_ask (oe_stopEsc oe (la_id l)) ?ob"
    using True assms(3) by (auto simp: stop_landing_def split: prod.splits)
  moreover have "ok F now ?ob" using assms by (intro ok_settle_landing) simp_all
  ultimately show ?thesis using ok_core [of "open_ask (oe_stopEsc oe (la_id l)) ?ob" ?ob] by (simp add: core_simps)
next
  case False
  then have "stop_landing oe l reason ob = ob"
    using assms(3) by (auto simp: stop_landing_def split: prod.splits bool.splits)
  with assms show ?thesis by (auto intro: ok_later)
qed

lemma ok_stopForFailedMerge: "ok F t ob \<Longrightarrow> t \<le> now \<Longrightarrow> oe_now oe = now \<Longrightarrow> ok F now (stopForFailedMerge oe n ob)"
  by (auto simp: stopForFailedMerge_def intro: ok_stop ok_later split: option.splits)

lemma core_mergeAsks [core_simps]: "core (ob\<lparr>ob_mergeAsks := x\<rparr>) = core ob"
  by (simp add: core_def)

lemma core_reopened [core_simps]: "core (ob\<lparr>ob_reopened := x\<rparr>) = core ob"
  by (simp add: core_def)

lemma ok_escalateFailedSend:
  assumes "ok F now ob" and "oe_now oe = now"
  shows "ok F now (snd (escalateFailedSend oe m ob))"
proof (cases m)
  case None
  then show ?thesis using assms by (simp add: escalateFailedSend_def ok_core [OF core_by_exec(2)])
next
  case (Some n)
  note stopped = ok_stopForFailedMerge [OF assms(1) order_refl assms(2), of n]
  then show ?thesis by (simp add: Some escalateFailedSend_def Let_def ok_core [OF core_mergeAsks] ok_core [OF core_by_exec(2)])
qed

lemma ok_send:
  assumes ok: "ok F now ob" and p: "runnable now p ob" and act: "read_act p = Inr act" "sends_out act" and oe: "oe_now oe = now"
  shows "ok F now (snd (sendAuthorized oe act p ob))"
proof -
  note sent = ok_note_sent [OF ok p act oe]
  show ?thesis
  proof (cases act)
    case (ActMerge n m)
    with sent oe show ?thesis by (auto simp: Let_def intro: ok_escalateFailedSend)
  next
    case (ActReply n c body res o')
    have "ok F now (snd (escalateFailedSend oe None (note_sent oe p act ob)))" using sent oe by (rule ok_escalateFailedSend)
    then show ?thesis
      using sent by (auto simp: ActReply Let_def ok_core [OF core_desks(8)] ok_core [OF core_desks(7)]
          ok_core [OF core_desks(6)] ok_core [OF core_reopened] split: option.split prod.split)
  qed (use act in simp_all)
qed

lemma ok_run:
  assumes ok: "ok F now ob" and p: "runnable now p ob" and oe: "oe_now oe = now"
  shows "ok F now (snd (runAuthorized oe p declined ob))"
proof (cases "read_act p")
  case (Inl e)
  then show ?thesis using ok by (simp add: runAuthorized_def ok_core [OF core_by_exec(3)])
next
  case (Inr act)
  let ?r = "if sends_out act then sendAuthorized oe act p ob else settleAuthorized oe act declined ob"
  have "ok F now (snd ?r)"
    using ok_send [OF ok p Inr _ oe] ok ok_core [OF core_settleAuthorized [of oe act declined ob]] by simp
  moreover have "runAuthorized oe p declined ob = (fst ?r, audit (oe_now oe) (sp_action p) (fst ?r) (snd ?r))"
    by (simp add: runAuthorized_def Inr split: prod.splits)
  ultimately show ?thesis by (simp add: ok_core [OF core_by_exec(3)])
qed

lemma ok_decided:
  assumes "ok F t ob" and "t \<le> now" and "st \<noteq> ProposalPending" and "decideProposal now i st note by ob = (r, ob')"
  shows "ok F now ob'"
  using ok_answer_given [OF assms(1-3)] assms(4) by (metis snd_conv)

lemma decided_runnable:
  assumes ok: "ok F t ob" and d: "decideProposal now i ProposalAccepted note by ob = (Some p, ob')"
    and auth: "by = ByHuman \<or> has_authority (ob_landings ob) p"
  shows "runnable now p ob'"
proof -
  note r = decided_row [OF ok d]
  obtain q where q: "q \<in> set (ob_proposals ob)" "pn_id q = i" "pn_status q = ProposalPending" using r(7) by auto
  have "pn_id q \<notin> sn_proposal ` set (ob_sent ob)" using ok q by (intro pending_unsent) simp_all
  moreover have "ob_sent ob' = ob_sent ob" "ob_landings ob' = ob_landings ob"
    using arg_cong [OF r(8), of ob_sent] arg_cong [OF r(8), of ob_landings] by simp_all
  ultimately show ?thesis using r(1-5) q auth by (auto simp: runnable_def has_authority_def)
qed

lemma ok_reject:
  assumes "ok F t ob" and "t \<le> now"
  shows "ok F now (snd (reject_proposal now i note ob))"
proof (cases "decideProposal now i ProposalRejected (truthy (map_option trim note)) ByHuman ob")
  case (Pair r ob1)
  have "ok F now ob1" using assms Pair by (auto intro: ok_decided)
  then show ?thesis
    by (cases r) (simp_all add: reject_proposal_def Pair ok_core [OF core_by_exec(3)] ok_core [OF core_settlePlan]
        ok_core [OF core_closeEscalation])
qed

lemma ok_back_out:
  assumes "ok F t ob" and "t \<le> now"
  shows "ok F now (snd (back_out now i cl note ob))"
proof (cases "decideProposal now i ProposalRejected (truthy (map_option trim note)) ByHuman ob")
  case (Pair r ob1)
  have ob1: "ok F now ob1" using assms Pair by (auto intro: ok_decided)
  have "ok F now (case read_act q of Inr (ActPlan planId ref) \<Rightarrow> backOutOfPlan now planId ref cl (pn_note q) (closeEscalation q ob1)
      | _ \<Rightarrow> closeEscalation q ob1)" for q
    using ob1 by (simp add: ok_core [OF core_backOut] ok_core [OF core_closeEscalation] split: sum.split proposed_act.split)
  moreover have "ok F now ob" using assms by (rule ok_later)
  ultimately show ?thesis using ob1
    by (auto simp: back_out_def Pair Let_def ok_core [OF core_by_exec(3)] split: option.split)
qed

lemma ok_accept:
  assumes ok: "ok F t ob" and now: "t \<le> now" and oe: "oe_now oe = now"
  shows "ok F now (snd (accept_proposal oe i note ack ans declined ob))"
proof -
  have here: "ok F now ob" using ok now by (rule ok_later)
  have rejected: "ok F now (snd (reject_proposal (oe_now oe) i w ob))" for w using ok now oe by (simp add: ok_reject)
  have accepted: "ok F now (snd (case decideProposal (oe_now oe) i ProposalAccepted n ByHuman ob of
      (None, ob1) \<Rightarrow> (NothingPending, ob1)
    | (Some p, ob1) \<Rightarrow> (case runAuthorized oe p declined (closeEscalation p (recordAnswers p raised ans ob1)) of
         (outcome, ob2) \<Rightarrow> (Performed (outcome = Executed), ob2))))" for n raised
  proof (cases "decideProposal (oe_now oe) i ProposalAccepted n ByHuman ob")
    case (Pair r ob1)
    have ob1: "ok F now ob1" using ok now Pair oe by (auto intro: ok_decided)
    show ?thesis
    proof (cases r)
      case (Some p)
      let ?ob = "closeEscalation p (recordAnswers p raised ans ob1)"
      have c: "core ?ob = core ob1" by (simp add: core_simps)
      have "runnable now p ?ob"
        using decided_runnable [OF ok, of now i n ByHuman p ob1] Pair Some oe runnable_core [OF c] by simp
      then have "ok F now (snd (runAuthorized oe p declined ?ob))"
        using ob1 ok_core [OF c] oe by (intro ok_run) simp_all
      then show ?thesis by (simp add: Pair Some case_prod_beta)
    qed (simp add: Pair ob1)
  qed
  show ?thesis
    unfolding accept_proposal_def Let_def
    using here rejected accepted by (simp split: option.split)
qed

section \<open>A pass of the executor\<close>

definition fresh_row :: "out_env \<Rightarrow> outbox \<Rightarrow> bool" where
  "fresh_row oe ob \<longleftrightarrow> oe_propId oe \<notin> pn_id ` set (ob_proposals ob)"

lemma ok_proposes:
  assumes "ok F t ob" and "t \<le> now" and "oe_now oe = now" and "fresh_row oe ob" and "a_type x \<noteq> SetWorkItemState"
  shows "ok F now (snd (proposePlan oe x ob))" and "ok F now (snd (proposeValidationPlan oe x ob))"
    and "ok F now (snd (proposeAmendmentAct oe x ob))" and "ok F now (snd (proposeShortfall oe x ob))"
proof -
  have here: "ok F now ob" using assms(1,2) by (rule ok_later)
  have ask: "ok F now (ask_operator oe k ref x ob)"
    if "free_to_ask now k ref ob" "k \<noteq> MergeAct" "k \<noteq> ReplyDraft" for k ref
    using assms that by (intro ok_ask) (auto simp: fresh_row_def asked_to_plan)
  show "ok F now (snd (proposePlan oe x ob))"
    by (auto simp: proposePlan_def Let_def here planProposalHold_def find_None_iff' paused_kind_def intro!: ask no_pending_free)
  show "ok F now (snd (proposeValidationPlan oe x ob))"
    by (auto simp: proposeValidationPlan_def Let_def here validationPlanProposalHold_def pendingValidationPlanProposal_def find_None_iff' paused_kind_def
        intro!: ask no_pending_free)
  show "ok F now (snd (proposeAmendmentAct oe x ob))"
    by (auto simp: proposeAmendmentAct_def Let_def here planAmendmentHold_def find_None_iff' paused_kind_def
        intro!: ask no_pending_free split: option.split)
  show "ok F now (snd (proposeShortfall oe x ob))"
    by (auto simp: proposeShortfall_def Let_def here intro!: ask held_free [OF assms(1-3)])
qed

lemma decided_own_row:
  assumes ids: "distinct (map pn_id (ob_proposals ob))" and p: "p \<in> set (ob_proposals ob)" "pn_status p = ProposalPending"
    and d: "decideProposal now (pn_id p) st note who ob = (dec, ob')"
  shows "dec = Some (p\<lparr>pn_status := st, pn_note := note, pn_decidedBy := Some who, pn_decidedAt := Some now\<rparr>)"
proof -
  let ?f = "\<lambda>r. r\<lparr>pn_status := st, pn_note := note, pn_decidedBy := Some who, pn_decidedAt := Some now\<rparr>"
  let ?g = "\<lambda>r. if pending_row (pn_id p) r then ?f r else r"
  have "list_ex (pending_row (pn_id p)) (ob_proposals ob)" using p by (auto simp: list_ex_iff pending_row_def)
  with d have dec: "dec = find (\<lambda>q. pn_id q = pn_id p) (map ?g (ob_proposals ob))"
    by (auto simp: decideProposal_def Let_def getProposal_def update_where_def)
  have key: "pn_id (?g r) = pn_id r" for r by (cases "pending_row (pn_id p) r") simp_all
  have "find (\<lambda>q. pn_id q = pn_id p) (ob_proposals ob) = Some p" using ids p(1) by (rule find_own_key)
  then show ?thesis using p(2) unfolding dec find_map comp_def key by (simp add: pending_row_def)
qed

text \<open>An act asked for under a landing or with replies sent unasked: created, accepted and run at once.\<close>

lemma ok_direct:
  assumes ok: "ok F t ob" and now: "t \<le> now" "oe_now oe = now" and new: "fresh_row oe ob"
    and free: "free_to_ask now kind ref ob" and asked: "well_asked kind ref x"
    and c: "createProposal oe kind ref x None ob = (p, ob1)"
    and d: "decideProposal now (pn_id p) ProposalAccepted note who ob1 = (dec, ob2)"
    and auth: "\<And>q. pn_kind q = kind \<Longrightarrow> pn_ref q = ref \<Longrightarrow> pn_decidedBy q = Some who \<Longrightarrow> pn_decidedAt q = Some now \<Longrightarrow>
      has_authority (ob_landings ob) q"
  shows "ok F now (snd (runAuthorized oe (default_to p dec) [] ob2))"
proof -
  have p: "p \<in> set (ob_proposals ob1)" "pn_status p = ProposalPending" "pn_kind p = kind" "pn_ref p = ref"
    and ls: "ob_landings ob1 = ob_landings ob"
    using c by (auto simp: createProposal_def Let_def)
  have ok1: "ok F now ob1"
    using ok_created [OF ok now, of kind ref x None] new free asked c by (simp add: fresh_row_def)
  have ok2: "ok F now ob2" by (rule ok_decided [OF ok1 order_refl _ d]) simp
  have "distinct (map pn_id (ob_proposals ob1))" using ok1 by (simp add: ok_parts rows_ok_def)
  from decided_own_row [OF this p(1,2) d] obtain q where dec: "dec = Some q"
    and q: "q = p\<lparr>pn_status := ProposalAccepted, pn_note := note, pn_decidedBy := Some who, pn_decidedAt := Some now\<rparr>" by blast
  have "has_authority (ob_landings ob1) q" unfolding ls by (rule auth) (simp_all add: q p)
  then have "runnable now q ob2" using decided_runnable [OF ok1 d [unfolded dec]] by blast
  with ok2 now show ?thesis by (simp add: dec ok_run)
qed

lemma ok_proposeOutbound:
  assumes "ok F t ob" and "t \<le> now" "oe_now oe = now" and "fresh_row oe ob" and "free_to_ask now kind ref ob"
    and "well_asked kind ref x"
  shows "ok F now (snd (proposeOutbound oe x kind ref ob))"
  using ok_ask [OF assms(1-3) _ assms(5,6)] assms(4)
  by (simp add: proposeOutbound_def Let_def fresh_row_def ok_core [OF core_mergeAsks])

lemma standing_stood:
  assumes ok: "landings_ok t ls" and now: "t \<le> now" and l: "standingLandingForPr n ls = Some l"
  shows "l \<in> set ls" and "stood_at now n l"
proof -
  from find_Some_iff' [OF l [unfolded standingLandingForPr_def]]
  have "l \<in> set ls" "la_status l = Standing" "n \<in> set (la_rungs l)" by (auto simp: listStandingLandings_def)
  with ok now show "l \<in> set ls" "stood_at now n l" by (auto simp: landings_ok_def stood_at_def)
qed

lemma ok_authorize:
  assumes ok: "ok F t ob" and now: "t \<le> now" "oe_now oe = now" and new: "fresh_row oe ob" and x: "is_outbound x"
  shows "ok F now (snd (snd (authorize oe x ob)))"
proof -
  let ?n = "default_to 0 (a_number x)" and ?merge = "a_type x = MergePr"
  let ?kind = "if ?merge then MergeAct else ReplyDraft"
  let ?ref = "if ?merge then mergeProposalRef ?n else replyProposalRef ?n (xa_commentId x)"
  let ?landing = "if ?merge then standingLandingForPr ?n (ob_landings ob) else None"
  have here: "ok F now ob" using ok now(1) by (rule ok_later)
  show ?thesis
  proof (cases "act_held oe ?kind ?ref ob")
    case (Some h)
    then show ?thesis using here by (simp add: authorize_def Let_def)
  next
    case None
    have free: "free_to_ask now ?kind ?ref ob" by (rule held_free [OF ok now None])
    have asked: "well_asked ?kind ?ref x" using x by (auto simp: is_outbound_def asked_to_merge asked_to_reply)
    have proposed: "ok F now (snd (proposeOutbound oe x ?kind ?ref ob))" by (rule ok_proposeOutbound [OF ok now new free asked])
    show ?thesis
    proof (cases "?landing \<noteq> None \<or> (\<not> ?merge \<and> oe_autoSend oe)")
      case False
      then show ?thesis using proposed None by (auto simp: authorize_def Let_def case_prod_beta)
    next
      case True
      obtain p ob1 where c: "createProposal oe ?kind ?ref x None ob = (p, ob1)" by fastforce
      let ?by = "if ?landing \<noteq> None then ByStackLanding else ByAutoSend"
      obtain dec ob2 where d: "decideProposal now (pn_id p) ProposalAccepted
          (Some (case ?landing of Some l \<Rightarrow> landing_note oe l | None \<Rightarrow> AUTO_SEND_NOTE)) ?by ob1 = (dec, ob2)" by fastforce
      have "has_authority (ob_landings ob) q"
        if "pn_kind q = ?kind" "pn_ref q = ?ref" "pn_decidedBy q = Some ?by" "pn_decidedAt q = Some now" for q
      proof (cases ?landing)
        case None
        with True that show ?thesis by (auto simp: has_authority_def split: if_splits)
      next
        case (Some l)
        then have m: "?merge" "standingLandingForPr ?n (ob_landings ob) = Some l" by (auto split: if_splits)
        have "landings_ok t (ob_landings ob)" using ok by (simp add: ok_parts)
        from standing_stood [OF this now(1) m(2)] show ?thesis using that m by (auto simp: has_authority_def)
      qed
      then have "ok F now (snd (runAuthorized oe (default_to p dec) [] ob2))"
        by (rule ok_direct [OF ok now new free asked c d])
      moreover have "snd (snd (authorize oe x ob)) = snd (runAuthorized oe (default_to p dec) [] ob2)"
        using None True c d now(2) by (simp add: authorize_def Let_def case_prod_beta)
      ultimately show ?thesis by simp
    qed
  qed
qed

lemma ok_sendOutbound:
  assumes "ok F t ob" and "t \<le> now" "oe_now oe = now" and "fresh_row oe ob" and "is_outbound x"
  shows "ok F now (snd (sendOutbound oe x ob))"
  using ok_authorize [OF assms]
  by (simp add: sendOutbound_def case_prod_beta ok_core [OF core_by_exec(3)])

lemma ok_perform_act:
  assumes ok: "ok F t ob" and now: "t \<le> now" "oe_now oe = now" and new: "fresh_row oe ob"
  shows "ok F now (snd (perform_act oe x ob))"
proof -
  have here: "ok F now ob" using ok now(1) by (rule ok_later)
  have "ok F now (snd (updatePrBranch oe x ob))" "ok F now (snd (requeueCiCheck oe x ob))" "ok F now (snd (setWorkItemState oe x ob))"
      "ok F now (snd (escalate_act oe x ob))" "ok F now (snd (respondToAgent x ob))"
    using here by (simp_all add: updatePrBranch_def requeueCiCheck_def setWorkItemState_def escalate_act_def respondToAgent_def
        Let_def case_prod_beta ok_core [OF core_desks(9)] ok_core [OF core_exec])
  with ok_proposes [OF ok now new, of x] here show ?thesis by (simp add: perform_act_def split: action_type.split)
qed

lemma ok_perform:
  assumes ok: "ok F t ob" and now: "t \<le> now" "oe_now oe = now" and new: "fresh_row oe ob"
  shows "ok F now (fst (perform op oe en x live ob))"
proof -
  have "core (ob\<lparr>ob_exec := xs\<rparr>) = core ob" for xs by (simp add: core_def)
  then have "ok F now (ob\<lparr>ob_exec := xs\<rparr>)" for xs using ok_later [OF ok now(1)] ok_core by blast
  with ok_perform_act [OF ok now new, of x] ok_sendOutbound [OF ok now new, of x] show ?thesis
    by (simp add: perform_def case_prod_beta ok_core [OF core_by_exec(3)])
qed

lemma ok_fold:
  assumes "\<And>ob y. ok F now ob \<Longrightarrow> ok F now (f ob y)" and "ok F now ob"
  shows "ok F now (foldl f ob ys)"
  using assms(2) by (induction ys arbitrary: ob) (auto intro: assms(1))

lemma ok_settle_one: "ok F now ob \<Longrightarrow> oe_now oe = now \<Longrightarrow> ok F now (settle_one oe ob e)"
  by (cases e) (auto simp: settle_one_def intro!: ok_stop [OF _ order_refl] ok_settle_landing [OF _ order_refl])

lemma ok_settle_landings: "ok F t ob \<Longrightarrow> t \<le> now \<Longrightarrow> oe_now oe = now \<Longrightarrow> ok F now (settle_landings oe w ob)"
  unfolding settle_landings_def by (rule ok_fold) (auto intro: ok_settle_one ok_later)

lemma ok_revoke: "ok F t ob \<Longrightarrow> t \<le> now \<Longrightarrow> ok F now (revoke_landing now n ob)"
  by (auto simp: revoke_landing_def intro: ok_settle_landing ok_later split: option.split)

lemma ok_withdraw_ask: "ok F now ob \<Longrightarrow> ok F now (withdraw_ask now v ob i)"
  using ok_withdraw [of F now ob now i v] by (auto simp: withdraw_ask_def ok_core [OF core_exec] split: prod.splits bool.splits)

lemma ok_settle_ask: "ok F now ob \<Longrightarrow> ok F now (settle_ask now ob k)"
  unfolding settle_ask_def by (rule ok_fold, simp add: ok_core [OF core_exec], rule ok_fold) (auto intro: ok_withdraw_ask)

lemma ok_tidy: "ok F t ob \<Longrightarrow> t \<le> now \<Longrightarrow> ok F now (tidySettledMerges now settled ob)"
  unfolding tidySettledMerges_def by (rule ok_fold) (auto intro: ok_settle_ask ok_later)

section \<open>The decisions on record\<close>

definition log :: "outbox \<Rightarrow> decision list" where
  "log ob = fl_decisions (xs_fleet (ob_exec ob))"

definition executed_move :: "decision \<Rightarrow> bool" where
  "executed_move d \<longleftrightarrow> a_type (de_action d) = SetWorkItemState \<and> de_outcome d = Executed"

definition grows :: "outbox \<Rightarrow> outbox \<Rightarrow> bool" where
  "grows ob ob' \<longleftrightarrow> (\<exists>ds. log ob' = log ob @ ds \<and> list_all (\<lambda>d. \<not> executed_move d) ds)"

lemma grows_refl: "grows ob ob"
  by (simp add: grows_def)

lemma grows_trans: "grows a b \<Longrightarrow> grows b c \<Longrightarrow> grows a c"
  by (force simp: grows_def)

lemma grows_log: "log b = log a \<Longrightarrow> grows a b"
  by (simp add: grows_def)

named_theorems log_simps "an operation records no decision"

lemma log_tables [log_simps]:
  "log (ob\<lparr>ob_proposals := ps\<rparr>) = log ob" "log (ob\<lparr>ob_landings := ls\<rparr>) = log ob" "log (ob\<lparr>ob_sent := ss\<rparr>) = log ob"
  "log (ob\<lparr>ob_mergeAsks := ms\<rparr>) = log ob" "log (ob\<lparr>ob_reopened := rs\<rparr>) = log ob" "log (ob\<lparr>ob_sets := vs\<rparr>) = log ob"
  "log (ob\<lparr>ob_shortfalls := fs\<rparr>) = log ob" "log (on_plans db ob) = log ob" "log (open_ask i ob) = log ob"
  "log (audit now x out ob) = log ob @ [\<lparr>de_action = action.truncate x, de_outcome = out, de_createdAt = Instant now\<rparr>]"
  by (simp_all add: log_def on_plans_def on_exec_def open_ask_def on_fleet_def createEscalation_def audit_def recordDecision_def)

lemma log_desks [log_simps]:
  "log (recordPlanCaveatAnswers planId kept ob) = log ob"
  "log (withdrawValidationAuthoring ref ob) = log ob"
  "log (snd (releaseValidationPlan now ref ob)) = log ob"
  "log (applyDeclines now ref named ob) = log ob"
  "log (recordIssueConclusion c ob) = log ob"
  "log (recordReplySent n thread commentRef ob) = log ob"
  "log (recordReviewPublished n comment o' threadRef ob) = log ob"
  "log (resolveAnswered oe n comment res ob) = log ob"
  "log (call_out cs ob) = log ob"
  by (simp_all add: log_def recordPlanCaveatAnswers_def withdrawValidationAuthoring_def releaseValidationPlan_def
      applyDeclines_def recordIssueConclusion_def recordReplySent_def recordReviewPublished_def set_published_def
      resolveAnswered_def call_out_def Let_def split: option.splits)

lemma decisions_of_answer: "fl_decisions (answer_escalation i fl) = fl_decisions fl"
  by (simp add: answer_escalation_def set_escalation_def respond_def updateAgent_def setAgentResumed_def clear_park_def Let_def
      split: option.split)

lemma log_closeEscalation [log_simps]: "log (closeEscalation p ob) = log ob"
  by (simp add: closeEscalation_def log_def on_exec_def on_fleet_def decisions_of_answer split: option.splits)

lemma log_settlePlan [log_simps]: "log (settlePlan now p ob) = log ob"
  by (simp add: settlePlan_def log_simps split: proposal_kind.splits sum.splits proposed_act.splits)

lemma log_backOut [log_simps]: "log (backOutOfPlan now planId ref cl note ob) = log ob"
  by (simp add: backOutOfPlan_def Let_def log_simps split: option.splits)

lemma log_recordAnswers [log_simps]: "log (recordAnswers p raised ans ob) = log ob"
  by (simp add: recordAnswers_def log_simps split: sum.splits proposed_act.splits)

lemma log_settleAuthorized [log_simps]: "log (snd (settleAuthorized oe act declined ob)) = log ob"
proof (cases act)
  case (ActValidationPlan ref n)
  have "log ob1 = log ob" if "releaseValidationPlan (oe_now oe) ref ob = (r, ob1)" for r ob1
    using log_desks(3) [of "oe_now oe" ref ob] that by simp
  then show ?thesis
    unfolding ActValidationPlan by (auto simp: log_simps split: prod.splits option.splits)
qed (auto simp: log_simps Let_def split: prod.splits)

lemma log_stop [log_simps]: "log (stop_landing oe l reason ob) = log ob"
  by (simp add: stop_landing_def log_simps split: prod.splits bool.splits)

lemma log_sendAuthorized [log_simps]: "log (snd (sendAuthorized oe act p ob)) = log ob"
  by (cases act) (auto simp: Let_def note_sent_def escalateFailedSend_def stopForFailedMerge_def log_simps
      split: option.splits prod.splits)

lemma log_decide [log_simps]: "log (snd (decideProposal now i st note by ob)) = log ob"
  by (simp add: decideProposal_def Let_def log_simps)

lemma log_run: "log (snd (runAuthorized oe p declined ob)) =
    log ob @ [\<lparr>de_action = action.truncate (sp_action p), de_outcome = fst (runAuthorized oe p declined ob),
      de_createdAt = Instant (oe_now oe)\<rparr>]"
proof (cases "read_act p")
  case (Inr act)
  let ?r = "if sends_out act then sendAuthorized oe act p ob else settleAuthorized oe act declined ob"
  have "runAuthorized oe p declined ob = (fst ?r, audit (oe_now oe) (sp_action p) (fst ?r) (snd ?r))"
    by (simp add: runAuthorized_def Inr split: prod.splits)
  moreover have "log (snd ?r) = log ob" by (simp add: log_simps)
  ultimately show ?thesis by (simp add: log_simps)
qed (simp add: runAuthorized_def log_simps)

lemma type_of_truncated [simp]: "a_type (action.truncate x) = a_type x" "a_number (action.truncate x) = a_number x"
  by (cases x; simp add: action.truncate_def)+

lemma grows_quiet: "log b = log a @ [d] \<Longrightarrow> a_type (de_action d) \<noteq> SetWorkItemState \<Longrightarrow> grows a b"
  by (simp add: grows_def executed_move_def)

lemma grows_run: "a_type (sp_action p) \<noteq> SetWorkItemState \<Longrightarrow> grows ob (snd (runAuthorized oe p declined ob))"
  by (rule grows_quiet [OF log_run]) simp

lemma decided_type:
  assumes "ok F t ob" and "decideProposal now i st note who ob = (Some p, ob')"
  shows "a_type (sp_action p) \<noteq> SetWorkItemState"
proof -
  from decided_row(7) [OF assms] obtain q where "q \<in> set (ob_proposals ob)" "sp_action p = sp_action q" by auto
  with assms(1) show ?thesis by (auto simp: ok_parts rows_ok_def rightly_named_def)
qed

lemma log_decided: "decideProposal now i st note who ob = (r, ob') \<Longrightarrow> log ob' = log ob"
  using log_decide [of now i st "note" who ob] by simp

lemma grows_reject:
  assumes "ok F t ob"
  shows "grows ob (snd (reject_proposal now i note ob))"
proof (cases "decideProposal now i ProposalRejected (truthy (map_option trim note)) ByHuman ob")
  case (Pair r ob1)
  note l = log_decided [OF Pair]
  show ?thesis
  proof (cases r)
    case (Some p)
    show ?thesis
      by (rule grows_quiet [of _ _ "\<lparr>de_action = action.truncate (sp_action p), de_outcome = Skipped, de_createdAt = Instant now\<rparr>"])
         (use decided_type [OF assms, of now i ProposalRejected _ ByHuman p ob1] Pair Some l in
           \<open>simp_all add: reject_proposal_def log_simps\<close>)
  qed (simp add: reject_proposal_def Pair l grows_log)
qed

lemma grows_back_out:
  assumes "ok F t ob"
  shows "grows ob (snd (back_out now i cl note ob))"
proof (cases "decideProposal now i ProposalRejected (truthy (map_option trim note)) ByHuman ob")
  case (Pair r ob1)
  note l = log_decided [OF Pair]
  have q: "log (case read_act q of Inr (ActPlan planId ref) \<Rightarrow> backOutOfPlan now planId ref cl (pn_note q) (closeEscalation q ob1)
      | _ \<Rightarrow> closeEscalation q ob1) = log ob" for q
    by (simp add: log_simps l split: sum.split proposed_act.split)
  have "grows ob (audit now (sp_action p) Skipped ob2)" if "r = Some p" "log ob2 = log ob" for p ob2
    by (rule grows_quiet [of _ _ "\<lparr>de_action = action.truncate (sp_action p), de_outcome = Skipped, de_createdAt = Instant now\<rparr>"])
       (use decided_type [OF assms, of now i ProposalRejected _ ByHuman p ob1] Pair that in \<open>simp_all add: log_simps\<close>)
  with q show ?thesis
    by (auto simp: back_out_def Pair Let_def grows_refl intro: grows_log [OF l] split: option.split)
qed

lemma grows_accept:
  assumes ok: "ok F t ob"
  shows "grows ob (snd (accept_proposal oe i note ack ans declined ob))"
proof -
  have accepted: "grows ob (snd (case decideProposal (oe_now oe) i ProposalAccepted n ByHuman ob of
      (None, ob1) \<Rightarrow> (NothingPending, ob1)
    | (Some p, ob1) \<Rightarrow> (case runAuthorized oe p declined (closeEscalation p (recordAnswers p raised ans ob1)) of
         (outcome, ob2) \<Rightarrow> (Performed (outcome = Executed), ob2))))" for n raised
  proof (cases "decideProposal (oe_now oe) i ProposalAccepted n ByHuman ob")
    case (Pair r ob1)
    note l = log_decided [OF Pair]
    show ?thesis
    proof (cases r)
      case (Some p)
      have "grows ob (closeEscalation p (recordAnswers p raised ans ob1))" by (simp add: grows_log log_simps l)
      moreover have "a_type (sp_action p) \<noteq> SetWorkItemState" using decided_type [OF ok] Pair Some by blast
      ultimately show ?thesis by (auto simp: Pair Some case_prod_beta intro: grows_trans grows_run)
    qed (simp add: Pair grows_log l)
  qed
  show ?thesis
    unfolding accept_proposal_def Let_def
    using accepted grows_reject [OF ok] grows_refl by (simp split: option.split)
qed

text \<open>What a dispatch puts on record is its own action.\<close>

lemma decisions_of_spawn: "fl_decisions (fst (spawn op now a s l i cwd r fl)) = fl_decisions fl"
  by (simp add: spawn_def createAgent_def updateTask_def add_session_def failSpawn_def task_to_def end_agent_def
      updateAgent_def drop_session_def Let_def)

lemma decisions_of_claims: "fl_decisions (xs_fleet (mark_claims en a i x)) = fl_decisions (xs_fleet x)"
  by (simp add: mark_claims_def claim_risk_def markLocalValidationFix_def markLocalValidationDispatched_def claimRemoteRun_def
      Let_def split: option.split prod.split local_role.split)

lemma decisions_of_marks:
  "markDispatched en a i x = Some y \<Longrightarrow> fl_decisions (xs_fleet y) = fl_decisions (xs_fleet x)"
  by (auto simp: markDispatched_def markJobDispatched_def decisions_of_claims split: option.splits if_splits)

lemma decisions_of_abandon: "fl_decisions (xs_fleet (abandonUnstarted en t x)) = fl_decisions (xs_fleet x)"
  by (simp add: abandonUnstarted_def task_to_def updateTask_def Let_def split: option.split)

lemma decisions_of_recordTask:
  "recordDispatchTask op en a x = (t, y) \<Longrightarrow> fl_decisions (xs_fleet y) = fl_decisions (xs_fleet x)"
  by (auto simp: recordDispatchTask_def createTask_def Let_def)

lemma decisions_of_outcome:
  "fl_decisions (xs_fleet (record_outcome en a out x)) =
     fl_decisions (xs_fleet x) @ [\<lparr>de_action = a, de_outcome = out, de_createdAt = Instant (en_now en)\<rparr>]"
  by (simp add: record_outcome_def on_fleet_def recordDecision_def)

lemma decisions_of_dispatch:
  "\<exists>out. fl_decisions (xs_fleet (fst (dispatchAgent op en a live x))) =
     fl_decisions (xs_fleet x) @ [\<lparr>de_action = a, de_outcome = out, de_createdAt = Instant (en_now en)\<rparr>]"
proof (cases "admissionRefusal en a live (xs_fleet x)")
  case None
  obtain t x1 where t: "recordDispatchTask op en a x = (t, x1)" by fastforce
  note d = decisions_of_recordTask [OF t]
  have failed: "\<exists>out. fl_decisions (xs_fleet (fst (failed_dispatch en a n t y))) =
      fl_decisions (xs_fleet x) @ [\<lparr>de_action = a, de_outcome = out, de_createdAt = Instant (en_now en)\<rparr>]"
    if "fl_decisions (xs_fleet y) = fl_decisions (xs_fleet x)" for n y
    using that by (simp add: failed_dispatch_def decisions_of_outcome decisions_of_abandon)
  have run: "\<exists>out. fl_decisions (xs_fleet (fst (case spawn (eo_fleet op) (en_now en) (en_agentId en) (en_session en)
        (en_launch en) (tk_id t) cwd inherit (xs_fleet x1) of
           (fl, False) \<Rightarrow> failed_dispatch en a live t (x1\<lparr>xs_fleet := fl\<rparr>)
         | (fl, True) \<Rightarrow> (case markDispatched en a (tk_id t) (x1\<lparr>xs_fleet := fl\<rparr>) of
              None \<Rightarrow> failed_dispatch en a (live + 1) t (x1\<lparr>xs_fleet := fl\<rparr>)
            | Some x2 \<Rightarrow> (record_outcome en a Executed x2, Executed, live + 1))))) =
      fl_decisions (xs_fleet x) @ [\<lparr>de_action = a, de_outcome = out, de_createdAt = Instant (en_now en)\<rparr>]" for cwd inherit
  proof (cases "spawn (eo_fleet op) (en_now en) (en_agentId en) (en_session en) (en_launch en) (tk_id t) cwd inherit (xs_fleet x1)")
    case (Pair fl r)
    then have fl: "fl_decisions fl = fl_decisions (xs_fleet x)"
      using decisions_of_spawn [of "eo_fleet op" "en_now en" "en_agentId en" "en_session en" "en_launch en" "tk_id t" cwd inherit "xs_fleet x1"] d
      by simp
    show ?thesis
    proof (cases "r \<and> markDispatched en a (tk_id t) (x1\<lparr>xs_fleet := fl\<rparr>) \<noteq> None")
      case True
      then obtain x2 where m: "markDispatched en a (tk_id t) (x1\<lparr>xs_fleet := fl\<rparr>) = Some x2" by auto
      with True show ?thesis using decisions_of_marks [OF m] fl by (simp add: Pair decisions_of_outcome)
    next
      case False
      with failed [of "x1\<lparr>xs_fleet := fl\<rparr>"] fl show ?thesis by (cases r) (auto simp: Pair)
    qed
  qed
  show ?thesis
    using failed [OF d] run by (auto simp: dispatchAgent_def None Let_def t split: option.split prod.split)
qed (simp add: dispatchAgent_def decisions_of_outcome)

end
