(* ===== verification/OutboundTrace.thy ===== *)
theory OutboundTrace
  imports OutboundLaws FleetTrace
begin

text \<open>
  The desk and the executor over time: their steps as a relation, the states they reach, and what holds of
  the acts performed outside in all of them. What the rest of the harness does between two steps is one
  rule: anything, so long as proposals, landings and sends stay and no move of a work item is recorded.
\<close>

section \<open>Steps\<close>

lemma reply_is_outbound [simp]: "is_outbound (reply_action n c draft resolve o')"
  by (simp add: is_outbound_def reply_action_def action.defs new_action_def)

lemma ok_reply:
  assumes "ok F t ob" and "t \<le> now" and "oe_now oe = now" and "fresh_row oe ob"
  shows "ok F now (snd (proposeReply oe n c draft resolve o' ob))"
  unfolding proposeReply_def using assms by (intro ok_sendOutbound) auto

inductive out_step :: "exec_opts \<Rightarrow> int \<Rightarrow> outbox \<Rightarrow> outbox \<Rightarrow> bool" for op now where
  step_perform:
    "oe_now oe = now \<Longrightarrow> fresh_row oe ob \<Longrightarrow> out_step op now ob (fst (perform op oe en x live ob))"
| step_reply: "oe_now oe = now \<Longrightarrow> fresh_row oe ob \<Longrightarrow>
    out_step op now ob (snd (proposeReply oe n commentId draft resolve originRef ob))"
| step_accept: "oe_now oe = now \<Longrightarrow> out_step op now ob (snd (accept_proposal oe i words ack ans declined ob))"
| step_reject: "out_step op now ob (snd (reject_proposal now i words ob))"
| step_back_out: "out_step op now ob (snd (back_out now i cl words ob))"
| step_land: "i \<notin> la_id ` set (ob_landings ob) \<Longrightarrow> out_step op now ob (land now i ref rungs ob)"
| step_revoke: "out_step op now ob (revoke_landing now n ob)"
| step_settle: "oe_now oe = now \<Longrightarrow> out_step op now ob (settle_landings oe w ob)"
| step_tidy: "out_step op now ob (tidySettledMerges now settled ob)"
| step_elsewhere: "core ob' = core ob \<Longrightarrow> grows ob ob' \<Longrightarrow> out_step op now ob ob'"

inductive out_reached :: "exec_opts \<Rightarrow> int \<Rightarrow> outbox \<Rightarrow> bool" for op where
  out_empty: "core ob = ([], [], []) \<Longrightarrow> log ob = [] \<Longrightarrow> out_reached op t ob"
| out_more: "out_reached op t ob \<Longrightarrow> t \<le> now \<Longrightarrow> out_step op now ob ob' \<Longrightarrow> out_reached op now ob'"

lemma step_keeps_ok:
  assumes "out_step op now ob ob'" and ok: "ok F t ob" and now: "t \<le> now"
  shows "ok F now ob'"
  using assms(1)
proof cases
  case (step_elsewhere)
  then show ?thesis using ok_core [of ob' ob F now] ok_later [OF ok now] by simp
qed (use ok now in \<open>auto intro: ok_perform ok_reply ok_accept ok_reject ok_back_out ok_land ok_revoke ok_settle_landings ok_tidy\<close>)

lemma out_reached_ok: "out_reached op t ob \<Longrightarrow> ok {} t ob"
proof (induction rule: out_reached.induct)
  case (out_empty ob t)
  then show ?case by (simp add: ok_def rows_ok_def landings_ok_def sends_ok_def)
qed (rule step_keeps_ok)

section \<open>Moves of a work item\<close>

definition moved_in :: "nat \<Rightarrow> int \<Rightarrow> decision \<Rightarrow> bool" where
  "moved_in n a d \<longleftrightarrow> executed_move d \<and> a_number (de_action d) = Some n \<and>
     (case date_parse (de_createdAt d) of None \<Rightarrow> False | Some i \<Rightarrow> a \<le> i \<and> i \<le> a + THRASH_WINDOW_MS)"

definition calm :: "outbox \<Rightarrow> bool" where
  "calm ob \<longleftrightarrow> (\<forall>n a. length (filter (moved_in n a) (log ob)) \<le> WORK_ITEM_THRASH_LIMIT)"

lemma calm_grows: "grows ob ob' \<Longrightarrow> calm ob \<Longrightarrow> calm ob'"
proof -
  assume "grows ob ob'" and calm: "calm ob"
  then obtain ds where ds: "log ob' = log ob @ ds" "list_all (\<lambda>d. \<not> executed_move d) ds" by (auto simp: grows_def)
  then have "filter (moved_in n a) ds = []" for n a by (auto simp: filter_empty_conv moved_in_def list_all_iff)
  with ds calm show ?thesis by (simp add: calm_def)
qed

lemma filter_js_sort_length: "length (filter P (js_sort c xs)) = length (filter P xs)"
  by (metis mset_filter mset_js_sort size_mset)

lemma filter_length_mono: "(\<And>x. P x \<Longrightarrow> Q x) \<Longrightarrow> length (filter P xs) \<le> length (filter Q xs)"
  by (induction xs) (auto intro: le_SucI)

lemma counted_moves:
  assumes "now \<le> a + THRASH_WINDOW_MS" and "workItemThrash now n fl = None"
  shows "length (filter (moved_in n a) (fl_decisions fl)) < WORK_ITEM_THRASH_LIMIT"
proof -
  let ?P = "\<lambda>d. de_outcome d = Executed"
  let ?Q = "\<lambda>d. decided_since (now - THRASH_WINDOW_MS) d \<and> a_type (de_action d) = SetWorkItemState \<and> a_number (de_action d) = Some n"
  have "length (filter (moved_in n a) (fl_decisions fl)) \<le> length (filter ?P (filter ?Q (fl_decisions fl)))"
    unfolding filter_filter using assms(1)
    by (intro filter_length_mono) (auto simp: moved_in_def executed_move_def decided_since_def split: option.splits)
  also have "\<dots> = fst (workItemStateMovesWithin fl now n THRASH_WINDOW_MS)"
    by (simp add: workItemStateMovesWithin_def Let_def filter_js_sort_length del: filter_filter)
  also have "\<dots> < WORK_ITEM_THRASH_LIMIT" using assms(2) by (simp add: workItemThrash_def Let_def split: if_splits)
  finally show ?thesis .
qed

lemma calm_set_state:
  assumes calm: "calm ob" and x: "a_type x = SetWorkItemState"
    and s: "setWorkItemState oe x ob = (out, ob1)"
  shows "calm (audit (oe_now oe) x out ob1)"
proof -
  let ?d = "\<lparr>de_action = action.truncate x, de_outcome = out, de_createdAt = Instant (oe_now oe)\<rparr>"
  have log1: "log ob1 = log ob" using s by (auto simp: setWorkItemState_def Let_def log_simps split: if_splits)
  have "length (filter (moved_in n a) (log ob @ [?d])) \<le> WORK_ITEM_THRASH_LIMIT" for n a
  proof (cases "moved_in n a ?d")
    case True
    then have m: "out = Executed" "a_number x = Some n" "oe_now oe \<le> a + THRASH_WINDOW_MS"
      by (auto simp: moved_in_def executed_move_def)
    with s have "workItemThrash (oe_now oe) n (xs_fleet (ob_exec ob)) = None"
      by (cases "workItemThrash (oe_now oe) n (xs_fleet (ob_exec ob))") (auto simp: setWorkItemState_def Let_def)
    from counted_moves [OF m(3) this] True show ?thesis by (simp add: log_def)
  qed (use calm in \<open>simp add: calm_def\<close>)
  then show ?thesis by (simp add: calm_def log_simps log1)
qed

lemma grows_direct:
  assumes ok: "ok F t ob" and new: "fresh_row oe ob" and x: "a_type x \<noteq> SetWorkItemState"
    and c: "createProposal oe k r x None ob = (p, ob1)"
    and d: "decideProposal now (pn_id p) st words who ob1 = (dec, ob2)"
  shows "grows ob (snd (runAuthorized oe (default_to p dec) [] ob2))"
proof -
  have p: "p \<in> set (ob_proposals ob1)" "pn_status p = ProposalPending" "sp_action p = x" "log ob1 = log ob"
    and ids: "distinct (map pn_id (ob_proposals ob1))"
    using c new ok by (auto simp: createProposal_def Let_def log_simps fresh_row_def ok_parts rows_ok_def)
  have "sp_action (default_to p dec) = x" using decided_own_row [OF ids p(1,2) d] p(3) by simp
  then have "grows ob2 (snd (runAuthorized oe (default_to p dec) [] ob2))" using x by (intro grows_run) simp
  moreover have "grows ob ob2" using log_decided [OF d] p(4) by (simp add: grows_log)
  ultimately show ?thesis by (blast intro: grows_trans)
qed

lemma log_asked: "log (snd (proposeOutbound oe x k r ob)) = log ob" "log (ask_operator oe k r x ob) = log ob"
  by (simp_all add: proposeOutbound_def ask_operator_def createProposal_def Let_def log_simps)

lemma grows_audit: "a_type x \<noteq> SetWorkItemState \<Longrightarrow> log ob1 = log ob \<Longrightarrow> grows ob (audit now x out ob1)"
  by (simp add: grows_def executed_move_def log_simps)

lemma grows_sendOutbound:
  assumes ok: "ok F t ob" and new: "fresh_row oe ob" and x: "is_outbound x"
  shows "grows ob (snd (sendOutbound oe x ob))"
proof -
  have type: "a_type x \<noteq> SetWorkItemState" using x by (auto simp: is_outbound_def)
  note direct = grows_direct [OF ok new type]
  show ?thesis
    unfolding sendOutbound_def authorize_def Let_def
    by (simp add: case_prod_beta)
       (intro conjI impI direct [OF prod.collapse [symmetric] prod.collapse [symmetric]] grows_audit type log_asked refl)
qed

lemma log_talk: "log (snd (escalate_act oe x ob)) = log ob" "log (snd (respondToAgent x ob)) = log ob"
  by (simp_all add: escalate_act_def respondToAgent_def log_def on_exec_def on_fleet_def createEscalation_def respond_def
      updateAgent_def setAgentResumed_def clear_park_def case_prod_beta)

lemma log_calls:
  "log (snd (updatePrBranch oe x ob)) = log ob" "log (snd (requeueCiCheck oe x ob)) = log ob"
  by (simp_all add: updatePrBranch_def requeueCiCheck_def Let_def case_prod_beta log_simps)

lemma log_proposes:
  "log (snd (proposePlan oe x ob)) = log ob" "log (snd (proposeValidationPlan oe x ob)) = log ob"
  "log (snd (proposeAmendmentAct oe x ob)) = log ob" "log (snd (proposeShortfall oe x ob)) = log ob"
  by (simp_all add: proposePlan_def proposeValidationPlan_def proposeAmendmentAct_def proposeShortfall_def Let_def
      log_asked split: option.split)

lemma log_acts: "a_type x \<noteq> SetWorkItemState \<Longrightarrow> log (snd (perform_act oe x ob)) = log ob"
  by (simp add: perform_act_def log_talk log_calls log_proposes split: action_type.split)

lemma calm_perform:
  assumes ok: "ok F t ob" and new: "fresh_row oe ob" and calm: "calm ob"
  shows "calm (fst (perform op oe en x live ob))"
proof (cases "is_dispatch x")
  case True
  let ?en = "en\<lparr>en_now := oe_now oe\<rparr>"
  obtain xs out n where d: "dispatchAgent op ?en (action.truncate x) live (ob_exec ob) = (xs, out, n)" by (metis prod_cases3)
  from decisions_of_dispatch [of op ?en "action.truncate x" live "ob_exec ob"] True
  have "grows ob (ob\<lparr>ob_exec := xs\<rparr>)" by (auto simp: d grows_def log_def executed_move_def is_dispatch_def)
  then have "calm (ob\<lparr>ob_exec := xs\<rparr>)" using calm by (rule calm_grows)
  with True d show ?thesis by (simp add: perform_def)
next
  case False
  show ?thesis
  proof (cases "is_outbound x")
    case True
    with grows_sendOutbound [OF ok new True] calm show ?thesis
      using False by (auto simp: perform_def case_prod_beta intro: calm_grows)
  next
    case inside: False
    show ?thesis
    proof (cases "a_type x = SetWorkItemState")
      case True
      obtain out ob1 where s: "setWorkItemState oe x ob = (out, ob1)" by fastforce
      from calm_set_state [OF calm True s] True s False inside show ?thesis
        by (simp add: perform_def perform_act_def)
    next
      case other: False
      have "grows ob (audit (oe_now oe) x (fst (perform_act oe x ob)) (snd (perform_act oe x ob)))"
        using other by (intro grows_audit log_acts)
      with calm False inside show ?thesis by (auto simp: perform_def case_prod_beta intro: calm_grows)
    qed
  qed
qed

lemma grows_fold: "(\<And>ob y. grows ob (f ob y)) \<Longrightarrow> grows ob (foldl f ob ys)"
  by (induction ys arbitrary: ob) (auto intro: grows_refl grows_trans)

lemma log_settle_one: "log (settle_one oe ob e) = log ob"
  by (cases e) (simp add: settle_one_def log_simps)

lemma grows_withdraw: "grows ob (withdraw_ask now v ob i)"
  by (auto simp: withdraw_ask_def withdrawProposal_def grows_def log_def on_exec_def on_fleet_def no_op_decision_def
      recordDecision_def executed_move_def new_action_def split: prod.splits bool.splits)

lemma grows_tidy: "grows ob (tidySettledMerges now settled ob)"
proof -
  have "grows ob (on_exec (on_fleet (set_escalation i EscAnswered)) ob)" for ob i
    by (simp add: grows_def log_def on_exec_def on_fleet_def set_escalation_def)
  then have "grows ob (settle_ask now ob k)" for ob k
    unfolding settle_ask_def by (rule grows_trans [OF grows_fold [OF grows_withdraw] grows_fold])
  then show ?thesis unfolding tidySettledMerges_def by (rule grows_fold)
qed

lemma step_keeps_calm:
  assumes "out_step op now ob ob'" and ok: "ok {} t ob" and calm: "calm ob"
  shows "calm ob'"
  using assms(1)
proof cases
  case (step_perform oe en x live)
  then show ?thesis using calm_perform [OF ok _ calm] by simp
next
  case (step_reply oe n commentId draft resolve originRef)
  then have "grows ob ob'" using grows_sendOutbound [OF ok _ reply_is_outbound] by (simp add: proposeReply_def)
  then show ?thesis using calm by (rule calm_grows)
next
  case (step_settle oe w)
  have "grows ob ob'" unfolding step_settle settle_landings_def
    by (rule grows_fold) (rule grows_log [OF log_settle_one])
  then show ?thesis using calm by (rule calm_grows)
next
  case step_elsewhere
  then show ?thesis using calm by (blast intro: calm_grows)
next
  case (step_land i ref rungs)
  then show ?thesis using calm by (simp add: calm_def land_def log_simps)
next
  case (step_revoke n)
  then show ?thesis using calm by (simp add: calm_def revoke_landing_def log_simps split: option.split)
qed (use calm ok in \<open>auto intro: calm_grows grows_accept grows_reject grows_back_out grows_tidy\<close>)

lemma reached_calm: "out_reached op t ob \<Longrightarrow> calm ob"
proof (induction rule: out_reached.induct)
  case (out_empty ob t)
  then show ?case by (simp add: calm_def)
next
  case (out_more t ob now ob')
  then show ?case by (blast intro: step_keeps_calm out_reached_ok)
qed

lemma sorted_pair: "sorted_wrt P xs \<Longrightarrow> x \<in> set xs \<Longrightarrow> y \<in> set xs \<Longrightarrow> x = y \<or> P x y \<or> P y x"
  by (induction xs) auto

lemma filter_own_key: "distinct (map key xs) \<Longrightarrow> x \<in> set xs \<Longrightarrow> filter (\<lambda>y. key y = key x) xs = [x]"
  by (induction xs) (auto simp: filter_empty_conv, metis imageI)

section \<open>What holds in every state reached\<close>

definition authorized_by :: "outbox \<Rightarrow> sent_act \<Rightarrow> stored_proposal \<Rightarrow> bool" where
  "authorized_by ob s p \<longleftrightarrow>
     (case (pn_decidedBy p, sn_act s) of
        (Some ByHuman, _) \<Rightarrow> True
      | (Some ByAutoSend, ActReply n comment body res o') \<Rightarrow> True
      | (Some ByStackLanding, ActMerge n m) \<Rightarrow> list_ex (stood_at (sn_at s) n) (ob_landings ob)
      | _ \<Rightarrow> False)"

lemma merge_refs [simp]: "mergeProposalRef n = mergeProposalRef m \<longleftrightarrow> n = m"
  by (simp add: mergeProposalRef_def)

lemma authority_read:
  assumes "sent_ok t (ob_proposals ob) (ob_landings ob) s" and rows: "rows_ok t (ob_proposals ob)"
  obtains p where "p \<in> set (ob_proposals ob)" "pn_id p = sn_proposal s" "pn_status p = ProposalAccepted"
    "pn_decidedAt p = Some (sn_at s)" "read_act p = Inr (sn_act s)" "authorized_by ob s p"
proof -
  from assms(1) obtain p where p: "p \<in> set (ob_proposals ob)" "pn_id p = sn_proposal s" "pn_status p = ProposalAccepted"
      "pn_decidedAt p = Some (sn_at s)" "read_act p = Inr (sn_act s)"
    and auth: "has_authority (ob_landings ob) p" and out: "sends_out (sn_act s)" by (auto simp: sent_ok_def)
  from rows p(1) have "rightly_named p" by (simp add: rows_ok_def)
  with p(5) have named: "case act_ref (sn_act s) of None \<Rightarrow> True | Some r \<Rightarrow> r = (pn_kind p, pn_ref p)"
    by (simp add: rightly_named_def)
  have "authorized_by ob s p"
    using auth p(4) out named
    by (cases "sn_act s"; auto simp: has_authority_def authorized_by_def list_ex_iff split: option.splits decider.splits)
  with p that show thesis by blast
qed

text \<open>
  C7. Nothing leaves the harness on its own: every merge performed and every reply sent is recorded against a
  proposal that reads back as that very act and was accepted at that moment by the operator, or by the
  operator's standing order: a landing that stood over the pull request for a merge, the auto-send switch
  for a reply and for a reply only. And a proposal is sent once.
\<close>

theorem outbound_needs_authority:
  assumes "out_reached op t ob" and "s \<in> set (ob_sent ob)"
  shows "list_ex (\<lambda>p. pn_id p = sn_proposal s \<and> pn_status p = ProposalAccepted \<and> pn_decidedAt p = Some (sn_at s) \<and>
      read_act p = Inr (sn_act s) \<and> authorized_by ob s p) (ob_proposals ob) \<and>
    filter (\<lambda>r. sn_proposal r = sn_proposal s) (ob_sent ob) = [s]"
proof -
  from out_reached_ok [OF assms(1)] assms(2) have s: "sent_ok t (ob_proposals ob) (ob_landings ob) s"
    and rows: "rows_ok t (ob_proposals ob)" and once: "distinct (map sn_proposal (ob_sent ob))"
    by (auto simp: ok_parts sends_ok_def)
  from once assms(2) have "filter (\<lambda>r. sn_proposal r = sn_proposal s) (ob_sent ob) = [s]" by (rule filter_own_key)
  moreover obtain p where "p \<in> set (ob_proposals ob)" "pn_id p = sn_proposal s" "pn_status p = ProposalAccepted"
      "pn_decidedAt p = Some (sn_at s)" "read_act p = Inr (sn_act s)" "authorized_by ob s p"
    using s rows by (rule authority_read)
  ultimately show ?thesis by (auto simp: list_ex_iff)
qed

text \<open>
  C8. One question about one act at a time, and an answer is final: in every state the desk and the executor
  reach, two proposals that wait are never about the same act, and no step, whatever it performs, changes a
  row that was answered.
\<close>

theorem one_question_at_a_time:
  assumes "out_reached op t ob" and "t \<le> now" and "out_step op now ob ob'"
  shows "(\<forall>p \<in> set (ob_proposals ob'). \<forall>q \<in> set (ob_proposals ob').
      pn_status p = ProposalPending \<longrightarrow> pn_status q = ProposalPending \<longrightarrow> pn_kind p = pn_kind q \<longrightarrow> pn_ref p = pn_ref q \<longrightarrow> p = q) \<and>
    (\<forall>p \<in> set (ob_proposals ob). pn_status p \<noteq> ProposalPending \<longrightarrow> p \<in> set (ob_proposals ob'))"
proof -
  let ?F = "{p \<in> set (ob_proposals ob). pn_status p \<noteq> ProposalPending}"
  from out_reached_ok [OF assms(1)] have "ok ?F t ob" by (auto simp: ok_parts)
  with assms(3) have ok: "ok ?F now ob'" using assms(2) by (rule step_keeps_ok)
  then have rows: "sorted_wrt row_order (ob_proposals ob')" by (simp add: ok_parts rows_ok_def)
  have "p = q" if "p \<in> set (ob_proposals ob')" "q \<in> set (ob_proposals ob')" "pn_status p = ProposalPending"
    "pn_status q = ProposalPending" "pn_kind p = pn_kind q" "pn_ref p = pn_ref q" for p q
    using sorted_pair [OF rows that(1,2)] that(3-6) by (auto simp: row_order_def same_subject_def)
  moreover have "\<forall>p \<in> set (ob_proposals ob). pn_status p \<noteq> ProposalPending \<longrightarrow> p \<in> set (ob_proposals ob')"
    using ok by (auto simp: ok_parts)
  ultimately show ?thesis by blast
qed

text \<open>
  C9. A merge that failed and a reply that went astray are not retried in a loop: two sends of the same act
  are apart by the settle window at least, whoever authorised them.
\<close>

theorem resends_are_spaced:
  assumes "out_reached op t ob" and "s \<in> set (ob_sent ob)" and "r \<in> set (ob_sent ob)" and "s \<noteq> r"
    and "act_ref (sn_act s) = act_ref (sn_act r)"
  shows "SETTLE_WINDOW_MS \<le> \<bar>sn_at s - sn_at r\<bar>"
proof -
  from out_reached_ok [OF assms(1)] have sent: "\<And>s. s \<in> set (ob_sent ob) \<Longrightarrow> sent_ok t (ob_proposals ob) (ob_landings ob) s"
    and rows: "rows_ok t (ob_proposals ob)" and once: "distinct (map sn_proposal (ob_sent ob))"
    by (auto simp: ok_parts sends_ok_def)
  obtain p where p: "p \<in> set (ob_proposals ob)" "pn_id p = sn_proposal s" "pn_status p = ProposalAccepted"
      "pn_decidedAt p = Some (sn_at s)" "read_act p = Inr (sn_act s)"
    using sent [OF assms(2)] rows by (rule authority_read)
  obtain q where q: "q \<in> set (ob_proposals ob)" "pn_id q = sn_proposal r" "pn_status q = ProposalAccepted"
      "pn_decidedAt q = Some (sn_at r)" "read_act q = Inr (sn_act r)"
    using sent [OF assms(3)] rows by (rule authority_read)
  have "sends_out (sn_act s)" "sends_out (sn_act r)" using sent assms(2,3) by (auto simp: sent_ok_def)
  moreover have "rightly_named p" "rightly_named q" using rows p(1) q(1) by (auto simp: rows_ok_def)
  ultimately have same: "same_subject p q" "same_subject q p" "paused_kind (pn_kind p)" "paused_kind (pn_kind q)"
    using p(5) q(5) assms(5)
    by (cases "sn_act s"; cases "sn_act r"; auto simp: rightly_named_def same_subject_def paused_kind_def)+
  have "p \<noteq> q" using p(2) q(2) once assms(2-4) by (auto simp: distinct_map inj_on_def)
  then have "row_order p q \<or> row_order q p"
    using sorted_pair [OF _ p(1) q(1), of row_order] rows by (auto simp: rows_ok_def)
  moreover have "decided_in_time t p" "decided_in_time t q" using rows p(1) q(1) by (auto simp: rows_ok_def)
  ultimately show ?thesis
    using same p(3,4) q(3,4) by (auto simp: row_order_def decided_in_time_def)
qed

text \<open>
  C19. The landings an operator has called for never compete: two that stand have no pull request in common, so
  a merge is always under one of them at most.
\<close>

theorem landings_share_no_pull_request:
  assumes "out_reached op t ob" and "l \<in> set (listStandingLandings (ob_landings ob))"
    and "m \<in> set (listStandingLandings (ob_landings ob))" and "l \<noteq> m"
  shows "set (la_rungs l) \<inter> set (la_rungs m) = {} \<and> la_id l \<noteq> la_id m"
proof -
  from assms(2,3) have l: "l \<in> set (ob_landings ob)" "la_status l = Standing" and m: "m \<in> set (ob_landings ob)" "la_status m = Standing"
    by (auto simp: listStandingLandings_def)
  from out_reached_ok [OF assms(1)] have ids: "distinct (map la_id (ob_landings ob))" and apart: "sorted_wrt apart_standing (ob_landings ob)"
    by (auto simp: ok_parts landings_ok_def)
  from sorted_pair [OF apart l(1) m(1)] assms(4) l(2) m(2) have "set (la_rungs l) \<inter> set (la_rungs m) = {}"
    by (auto simp: apart_standing_def)
  moreover have "la_id l \<noteq> la_id m" using ids l(1) m(1) assms(4) by (auto simp: distinct_map inj_on_def)
  ultimately show ?thesis ..
qed


section \<open>A day at the desk\<close>

text \<open>
  Two landings are called for, a merge goes out under the first, a reply goes out unasked twice with the
  settle window between, a merge nobody called for is asked about, and a work item is moved.
\<close>

definition empty_outbox :: outbox where
  "empty_outbox = \<lparr>ob_exec = idle_executor, ob_proposals = [], ob_landings = [], ob_sets = [], ob_checks = [],
     ob_shortfalls = [], ob_conclusions = [], ob_answers = [], ob_replies = [], ob_reopened = [], ob_published = [],
     ob_mergeAsks = [], ob_sent = [], ob_calls = []\<rparr>"

definition out_env0 :: "int \<Rightarrow> string \<Rightarrow> out_env" where
  "out_env0 now i = \<lparr>oe_now = now, oe_propId = i, oe_escId = ''ask-'' @ i, oe_failEscId = ''fail-'' @ i, oe_stopEsc = (@) ''stop-'',
     oe_events = [], oe_autoSend = True, oe_mergeOk = True, oe_reply = Some (None, None), oe_canResolve = False,
     oe_branchOk = Some True, oe_requeueOk = (\<lambda>_. Some True), oe_stateOk = True,
     oe_fresh = \<lparr>fr_plan = i, fr_revision = i, fr_ask = (\<lambda>s. i @ s)\<rparr>,
     oe_describe = (\<lambda>_. ''''), oe_iso = (\<lambda>_. '''')\<rparr>"

definition act_for :: "action_type \<Rightarrow> nat \<Rightarrow> x_action" where
  "act_for t n = action.extend ((new_action t)\<lparr>a_number := Some n, a_state := Some ''Active''\<rparr>)
     (x_action.fields None None None (Some ''squash'') (Some ''done'') (Some ''c1'') False [])"

definition performed :: "int \<Rightarrow> string \<Rightarrow> action_type \<Rightarrow> nat \<Rightarrow> outbox \<Rightarrow> outbox" where
  "performed now i t n ob = fst (perform opts1 (out_env0 now i) (env1 now i i) (act_for t n) 0 ob)"

definition two_landings :: outbox where
  "two_landings = land 1 ''l2'' ''stack:8'' [8, 9] (land 0 ''l1'' ''stack:4'' [4, 5] empty_outbox)"

definition merged_one :: outbox where
  "merged_one = performed 2 ''p1'' MergePr 4 two_landings"

definition replied_once :: outbox where
  "replied_once = performed 3 ''p2'' ReplyOnPr 6 merged_one"

definition replied_twice :: outbox where
  "replied_twice = performed (3 + SETTLE_WINDOW_MS) ''p3'' ReplyOnPr 6 replied_once"

definition asked :: outbox where
  "asked = performed 9000000 ''p4'' MergePr 20 replied_twice"

definition asked_and_moved :: outbox where
  "asked_and_moved = performed 9000000 ''p5'' SetWorkItemState 3 asked"

definition proposal_ids :: "outbox \<Rightarrow> string list" where
  "proposal_ids ob = map pn_id (ob_proposals ob)"

lemma day_facts:
  "(proposal_ids two_landings, proposal_ids merged_one, proposal_ids replied_once) = ([], [''p1''], [''p1'', ''p2'']) \<and>
   (proposal_ids replied_twice, proposal_ids asked) = ([''p1'', ''p2'', ''p3''], [''p1'', ''p2'', ''p3'', ''p4'']) \<and>
   list_ex (\<lambda>p. pn_status p = ProposalPending) (ob_proposals asked) \<and>
   map (\<lambda>s. (sn_proposal s, act_ref (sn_act s))) (ob_sent replied_twice) =
     [(''p1'', Some (MergeAct, mergeProposalRef 4)), (''p2'', Some (ReplyDraft, replyProposalRef 6 (Some ''c1''))),
      (''p3'', Some (ReplyDraft, replyProposalRef 6 (Some ''c1'')))] \<and>
   map la_id (listStandingLandings (ob_landings two_landings)) = [''l2'', ''l1''] \<and>
   length (filter (moved_in 3 8000000) (fl_decisions (xs_fleet (ob_exec asked_and_moved)))) = 1"
  by code_simp

lemma performed_reached:
  "out_reached opts1 t ob \<Longrightarrow> t \<le> now \<Longrightarrow> i \<notin> set (map pn_id (ob_proposals ob)) \<Longrightarrow> out_reached opts1 now (performed now i k n ob)"
  unfolding performed_def
  by (erule out_more, assumption, rule step_perform) (auto simp: out_env0_def fresh_row_def)

lemma landed_reached:
  "out_reached opts1 t ob \<Longrightarrow> t \<le> now \<Longrightarrow> i \<notin> la_id ` set (ob_landings ob) \<Longrightarrow> out_reached opts1 now (land now i ref rungs ob)"
  by (erule out_more, assumption, rule step_land)

lemma empty_reached: "out_reached opts1 0 empty_outbox"
  by (rule out_empty) (simp_all add: core_def log_def empty_outbox_def idle_executor_def empty_fleet_def)

lemma two_landings_reached: "out_reached opts1 1 two_landings"
  unfolding two_landings_def
  by (intro landed_reached [OF landed_reached [OF empty_reached]])
     (simp_all add: empty_outbox_def land_def recordStackLanding_def listStandingLandings_def)

lemma merged_reached: "out_reached opts1 2 merged_one"
  unfolding merged_one_def
  by (rule performed_reached [OF two_landings_reached]) (use day_facts in \<open>simp_all add: proposal_ids_def\<close>)

lemma replied_once_reached: "out_reached opts1 3 replied_once"
  unfolding replied_once_def
  by (rule performed_reached [OF merged_reached]) (use day_facts in \<open>simp_all add: proposal_ids_def\<close>)

lemma replied_reached: "out_reached opts1 (3 + SETTLE_WINDOW_MS) replied_twice"
  unfolding replied_twice_def
  by (rule performed_reached [OF replied_once_reached]) (use day_facts in \<open>simp_all add: proposal_ids_def SETTLE_WINDOW_MS_def\<close>)

lemma asking_step: "out_step opts1 9000000 replied_twice asked"
  unfolding asked_def performed_def
  by (intro step_perform) (use day_facts in \<open>auto simp: proposal_ids_def out_env0_def fresh_row_def map_eq_Cons_conv\<close>)

lemma asked_reached: "out_reached opts1 9000000 asked"
  by (rule out_more [OF replied_reached _ asking_step]) (simp add: SETTLE_WINDOW_MS_def)

lemma moved_reached: "out_reached opts1 9000000 asked_and_moved"
  unfolding asked_and_moved_def
  by (rule performed_reached [OF asked_reached]) (use day_facts in \<open>simp_all add: proposal_ids_def\<close>)

theorem outbound_needs_authority_witness:
  "length (ob_sent replied_twice) = 3 \<and>
   list_all (\<lambda>s. list_ex (\<lambda>p. pn_id p = sn_proposal s \<and> pn_status p = ProposalAccepted \<and> pn_decidedAt p = Some (sn_at s) \<and>
      read_act p = Inr (sn_act s) \<and> authorized_by replied_twice s p) (ob_proposals replied_twice) \<and>
    filter (\<lambda>r. sn_proposal r = sn_proposal s) (ob_sent replied_twice) = [s]) (ob_sent replied_twice)"
proof
  show "length (ob_sent replied_twice) = 3" using day_facts by (auto simp: map_eq_Cons_conv)
qed (use outbound_needs_authority [OF replied_reached] in \<open>simp add: list_all_iff\<close>)

theorem one_question_at_a_time_witness:
  "list_ex (\<lambda>p. pn_status p = ProposalPending) (ob_proposals asked) \<and> proposal_ids replied_twice = [''p1'', ''p2'', ''p3''] \<and>
   inj_on (\<lambda>p. (pn_kind p, pn_ref p)) {p \<in> set (ob_proposals asked). pn_status p = ProposalPending} \<and>
   {p \<in> set (ob_proposals replied_twice). pn_status p \<noteq> ProposalPending} \<subseteq> set (ob_proposals asked)"
proof -
  have "3 + SETTLE_WINDOW_MS \<le> 9000000" by (simp add: SETTLE_WINDOW_MS_def)
  note final = one_question_at_a_time [OF replied_reached this asking_step]
  have "inj_on (\<lambda>p. (pn_kind p, pn_ref p)) {p \<in> set (ob_proposals asked). pn_status p = ProposalPending}"
    using final by (intro inj_onI) simp
  moreover have "{p \<in> set (ob_proposals replied_twice). pn_status p \<noteq> ProposalPending} \<subseteq> set (ob_proposals asked)"
    using final by blast
  ultimately show ?thesis using day_facts by blast
qed

theorem resends_are_spaced_witness:
  "\<exists>s r. ob_sent replied_twice ! 1 = s \<and> ob_sent replied_twice ! 2 = r \<and> sn_proposal s = ''p2'' \<and> sn_proposal r = ''p3'' \<and>
     SETTLE_WINDOW_MS \<le> \<bar>sn_at s - sn_at r\<bar>"
proof -
  from day_facts obtain m s r where sent: "ob_sent replied_twice = [m, s, r]" "sn_proposal s = ''p2''" "sn_proposal r = ''p3''"
    "act_ref (sn_act s) = act_ref (sn_act r)" by (auto simp: map_eq_Cons_conv)
  then have "s \<in> set (ob_sent replied_twice)" "r \<in> set (ob_sent replied_twice)" "s \<noteq> r" by auto
  from resends_are_spaced [OF replied_reached this sent(4)] sent show ?thesis by simp
qed

theorem landings_share_no_pull_request_witness:
  "\<exists>l m. listStandingLandings (ob_landings two_landings) = [l, m] \<and>
     set (la_rungs l) \<inter> set (la_rungs m) = {} \<and> la_id l \<noteq> la_id m"
proof -
  from day_facts obtain l m where ls: "listStandingLandings (ob_landings two_landings) = [l, m]" "la_id l = ''l2''" "la_id m = ''l1''"
    by (auto simp: map_eq_Cons_conv)
  then have "l \<noteq> m" by auto
  with ls landings_share_no_pull_request [OF two_landings_reached, of l m] show ?thesis by simp
qed


end
